(* ===== verification/Prelude.thy ===== *)
theory Prelude
  imports Main "HOL-Library.AList" "HOL-Library.Sublist" "HOL-Library.Word"
    "HOL-Library.Char_ord" "HOL-Library.List_Lexorder" "HOL-Library.Product_Lexorder"
begin

text \<open>
  What every theory of the development shares: errors as values, Go maps as association
  lists, and the effect model. Nothing here is specific to one component.

  A Go function that talks to the Kubernetes API, reads the clock, an environment variable
  or a random number is a value of type \<open>prog\<close>: it either returns, or makes one request and
  goes on with the response. The other side of those requests (the API server, the other
  actors of the cluster, the clock) is not under src/, so it is left open: \<open>exec m tr a\<close> says
  that \<open>m\<close>, answered in some way, makes the requests and gets the responses listed in \<open>tr\<close>
  and returns \<open>a\<close>. A theorem about \<open>exec\<close> therefore holds for every behaviour of the cluster:
  errors, conflicts, stale reads and changes made by others between two requests.
  \<open>run\<close> executes a program against one given server, and \<open>scripted\<close> is the server that
  reads its answers off a list.
\<close>

section \<open>Collections of facts\<close>

named_theorems kconst \<open>definitions of the string constants of the code\<close>
named_theorems sat_rules \<open>weakest preconditions of the effectful operations\<close>

section \<open>Errors\<close>

text \<open>
  The errors of the Kubernetes client carry a reason that \<open>apierrors.IsNotFound\<close> and its
  kin test; \<open>fmt.Errorf\<close> makes a plain error, or, with \<open>%w\<close>, one that wraps another and
  keeps its reason.
\<close>

datatype reason = NotFound | AlreadyExists | Conflict | OtherReason

datatype error = ApiError reason string | Errorf string | Wrapf string error

type_synonym 'a res = "error + 'a"

fun reason_of :: "error \<Rightarrow> reason option" where
  "reason_of (ApiError r _) = Some r"
| "reason_of (Errorf _) = None"
| "reason_of (Wrapf _ e) = reason_of e"

definition IsNotFound :: "error \<Rightarrow> bool" where
  "IsNotFound e \<longleftrightarrow> reason_of e = Some NotFound"

definition IsAlreadyExists :: "error \<Rightarrow> bool" where
  "IsAlreadyExists e \<longleftrightarrow> reason_of e = Some AlreadyExists"

lemma not_found_not_exists: "IsNotFound e \<Longrightarrow> \<not> IsAlreadyExists e"
  by (simp add: IsNotFound_def IsAlreadyExists_def)

text \<open>What a response of the wrong kind is to the client: a decoding error.\<close>

definition decodeError :: error where
  "decodeError = ApiError OtherReason ''unexpected response''"

lemma decodeError_reason [simp]:
  "\<not> IsNotFound decodeError" "\<not> IsAlreadyExists decodeError"
  by (simp_all add: decodeError_def IsNotFound_def IsAlreadyExists_def)

section \<open>Go maps as association lists\<close>

text \<open>
  A Go map is an association list with distinct keys. \<open>put\<close> stores a key, \<open>AList.delete\<close>
  removes one, \<open>map_of\<close> looks one up. A missing key reads as the zero value, here of string
  maps: \<open>get_or_empty\<close>.
\<close>

type_synonym strmap = "(string \<times> string) list"

definition wf_map :: "('k \<times> 'v) list \<Rightarrow> bool" where
  "wf_map m \<longleftrightarrow> distinct (map fst m)"

definition put :: "'k \<Rightarrow> 'v \<Rightarrow> ('k \<times> 'v) list \<Rightarrow> ('k \<times> 'v) list" where
  "put k v m = AList.update k v m"

definition has_key :: "'k \<Rightarrow> ('k \<times> 'v) list \<Rightarrow> bool" where
  "has_key k m \<longleftrightarrow> map_of m k \<noteq> None"

definition get_or_empty :: "strmap \<Rightarrow> string \<Rightarrow> string" where
  "get_or_empty m k = (case map_of m k of None \<Rightarrow> [] | Some v \<Rightarrow> v)"

lemma map_of_put [simp]: "map_of (put k v m) = (map_of m)(k \<mapsto> v)"
  by (simp add: put_def update_conv')

lemma wf_map_put [simp, intro]: "wf_map m \<Longrightarrow> wf_map (put k v m)"
  by (simp add: wf_map_def put_def distinct_update)

lemma wf_map_delete [simp, intro]: "wf_map m \<Longrightarrow> wf_map (AList.delete k m)"
  by (simp add: wf_map_def distinct_delete)

lemma wf_map_Nil [simp]: "wf_map []"
  by (simp add: wf_map_def)

lemma keys_put: "fst ` set (put k v m) = insert k (fst ` set m)"
  by (auto simp: put_def dom_update)

lemma put_old_length: "map_of m k = Some v' \<Longrightarrow> map fst (put k v m) = map fst m"
  by (induction m) (auto simp: put_def)

lemma put_new: "map_of m k = None \<Longrightarrow> put k v m = m @ [(k, v)]"
  by (induction m) (auto simp: put_def split: if_splits)

lemma has_key_put [simp]: "has_key k (put k' v m) \<longleftrightarrow> k = k' \<or> has_key k m"
  by (auto simp: has_key_def)

lemma has_key_keys: "has_key k m \<longleftrightarrow> k \<in> fst ` set m"
  by (auto simp: has_key_def map_of_eq_None_iff)

lemma wf_map_of: "wf_map m \<Longrightarrow> (k, v) \<in> set m \<longleftrightarrow> map_of m k = Some v"
  by (auto simp: wf_map_def dest: map_of_SomeD)

lemma put_put_same: "wf_map m \<Longrightarrow> map_of (put k v m) k = Some v"
  by simp

text \<open>Counting the entries that satisfy a predicate.\<close>

definition count_if :: "('v \<Rightarrow> bool) \<Rightarrow> ('k \<times> 'v) list \<Rightarrow> nat" where
  "count_if P m = length (filter (P \<circ> snd) m)"

lemma count_if_le: "count_if P m \<le> length m"
  by (simp add: count_if_def)

lemma count_if_put_new:
  "map_of m k = None \<Longrightarrow> count_if P (put k v m) = count_if P m + (if P v then 1 else 0)"
  by (simp add: count_if_def put_new)

lemma count_if_put_old:
  assumes "wf_map m" and "map_of m k = Some v'"
  shows "count_if P (put k v m) + (if P v' then 1 else 0) = count_if P m + (if P v then 1 else 0)"
  using assms
proof (induction m)
  case Nil
  then show ?case by simp
next
  case (Cons kv m)
  obtain k1 v1 where kv: "kv = (k1, v1)" by (cases kv)
  show ?case
  proof (cases "k1 = k")
    case True
    with Cons.prems kv show ?thesis
      by (auto simp: count_if_def put_def)
  next
    case False
    with Cons.prems kv have "wf_map m" "map_of m k = Some v'"
      by (auto simp: wf_map_def)
    from Cons.IH [OF this] False kv show ?thesis
      by (auto simp: count_if_def put_def)
  qed
qed

lemma count_if_delete_le: "count_if P (AList.delete k m) \<le> count_if P m"
  by (induction m) (auto simp: count_if_def)

end
