(* ===== verification/GoStrings.thy ===== *)
theory GoStrings
  imports Prelude
begin

text \<open>
  The functions of Go's \<open>strings\<close>, \<open>fmt\<close> and \<open>hash/fnv\<close> packages that the program calls,
  on strings as sequences of bytes (a \<open>char\<close> is a byte, \<open>length\<close> is Go's \<open>len\<close>).
\<close>

section \<open>Searching and trimming\<close>

fun HasPrefix :: "string \<Rightarrow> string \<Rightarrow> bool" where
  "HasPrefix s [] = True"
| "HasPrefix [] (p # ps) = False"
| "HasPrefix (c # s) (p # ps) = (c = p \<and> HasPrefix s ps)"

fun Contains :: "string \<Rightarrow> string \<Rightarrow> bool" where
  "Contains [] sub = (sub = [])"
| "Contains (c # s) sub = (HasPrefix (c # s) sub \<or> Contains s sub)"

definition TrimLeft :: "string \<Rightarrow> string \<Rightarrow> string" where
  "TrimLeft s cutset = dropWhile (\<lambda>c. c \<in> set cutset) s"

definition TrimRight :: "string \<Rightarrow> string \<Rightarrow> string" where
  "TrimRight s cutset = rev (dropWhile (\<lambda>c. c \<in> set cutset) (rev s))"

definition Trim :: "string \<Rightarrow> string \<Rightarrow> string" where
  "Trim s cutset = TrimRight (TrimLeft s cutset) cutset"

text \<open>The slice \<open>s[:n]\<close>, which panics out of range.\<close>

definition sliceTo :: "string \<Rightarrow> int \<Rightarrow> string option" where
  "sliceTo s n = (if 0 \<le> n \<and> n \<le> int (length s) then Some (take (nat n) s) else None)"

text \<open>\<open>strings.ReplaceAll\<close> for a pattern of one byte, and \<open>strings.Join\<close>.\<close>

definition ReplaceAllChar :: "string \<Rightarrow> char \<Rightarrow> string \<Rightarrow> string" where
  "ReplaceAllChar s old new = concat (map (\<lambda>c. if c = old then new else [c]) s)"

fun Join :: "string list \<Rightarrow> string \<Rightarrow> string" where
  "Join [] sep = []"
| "Join [x] sep = x"
| "Join (x # y # ys) sep = x @ sep @ Join (y # ys) sep"

lemma HasPrefix_iff: "HasPrefix s p \<longleftrightarrow> (\<exists>t. s = p @ t)"
  by (induction s p rule: HasPrefix.induct) auto

lemma Contains_iff: "Contains s sub \<longleftrightarrow> (\<exists>a b. s = a @ sub @ b)"
proof (induction s)
  case Nil
  then show ?case by auto
next
  case (Cons c s)
  have "(\<exists>a b. c # s = a @ sub @ b) \<longleftrightarrow> (\<exists>t. c # s = sub @ t) \<or> (\<exists>a b. s = a @ sub @ b)"
    by (metis append_Cons append_Nil list.inject neq_Nil_conv)
  with Cons show ?case by (auto simp: HasPrefix_iff)
qed

lemma TrimRight_prefix: "\<exists>t. s = TrimRight s cs @ t"
proof -
  have "rev s = takeWhile (\<lambda>c. c \<in> set cs) (rev s) @ dropWhile (\<lambda>c. c \<in> set cs) (rev s)" by simp
  then have "s = rev (dropWhile (\<lambda>c. c \<in> set cs) (rev s)) @ rev (takeWhile (\<lambda>c. c \<in> set cs) (rev s))"
    by (metis rev_append rev_rev_ident)
  then show ?thesis unfolding TrimRight_def by blast
qed

lemma TrimRight_length: "length (TrimRight s cs) \<le> length s"
  using length_dropWhile_le [of _ "rev s"] by (simp add: TrimRight_def)

lemma TrimLeft_length: "length (TrimLeft s cs) \<le> length s"
  by (simp add: TrimLeft_def length_dropWhile_le)

lemma TrimRight_last: "TrimRight s cs \<noteq> [] \<Longrightarrow> last (TrimRight s cs) \<notin> set cs"
  using hd_dropWhile [of "\<lambda>c. c \<in> set cs" "rev s"] by (simp add: TrimRight_def last_rev)

lemma TrimLeft_hd: "TrimLeft s cs \<noteq> [] \<Longrightarrow> hd (TrimLeft s cs) \<notin> set cs"
  using hd_dropWhile [of "\<lambda>c. c \<in> set cs" s] by (simp add: TrimLeft_def)

lemma TrimRight_set: "set (TrimRight s cs) \<subseteq> set s"
  using set_dropWhileD by (fastforce simp: TrimRight_def)

lemma TrimLeft_set: "set (TrimLeft s cs) \<subseteq> set s"
  using set_dropWhileD by (fastforce simp: TrimLeft_def)

lemma TrimRight_hd: "TrimRight s cs \<noteq> [] \<Longrightarrow> hd (TrimRight s cs) = hd s"
  using TrimRight_prefix [of s cs] by (metis hd_append2)

lemma Trim_set: "set (Trim s cs) \<subseteq> set s"
  unfolding Trim_def using TrimRight_set TrimLeft_set by blast

lemma Trim_length: "length (Trim s cs) \<le> length s"
  unfolding Trim_def using TrimRight_length [of "TrimLeft s cs" cs] TrimLeft_length [of s cs] by simp

lemma Trim_ends:
  assumes "Trim s cs \<noteq> []"
  shows "hd (Trim s cs) \<notin> set cs" and "last (Trim s cs) \<notin> set cs"
proof -
  have "TrimLeft s cs \<noteq> []"
    using assms unfolding Trim_def by (auto simp: TrimRight_def)
  then show "hd (Trim s cs) \<notin> set cs"
    using TrimRight_hd [of "TrimLeft s cs" cs] TrimLeft_hd assms unfolding Trim_def by simp
  show "last (Trim s cs) \<notin> set cs"
    using assms TrimRight_last unfolding Trim_def by blast
qed

lemma Trim_id:
  assumes "s \<noteq> []" "hd s \<notin> set cs" "last s \<notin> set cs"
  shows "Trim s cs = s"
proof -
  have "TrimLeft s cs = s"
    using assms by (cases s) (auto simp: TrimLeft_def)
  moreover have "dropWhile (\<lambda>c. c \<in> set cs) (rev s) = rev s"
    using assms by (cases "rev s") (auto simp: last_conv_nth hd_rev [symmetric])
  ultimately show ?thesis by (simp add: Trim_def TrimRight_def)
qed

lemma Trim_Nil [simp]: "Trim [] cs = []"
  by (simp add: Trim_def TrimRight_def TrimLeft_def)

section \<open>Texts\<close>

text \<open>The lines of a text, each with its newline, and the single quote of the shell.\<close>

definition newline :: string where "newline = [CHR 0x0A]"

definition text_lines :: "string list \<Rightarrow> string" where
  "text_lines ls = concat (map (\<lambda>l. l @ newline) ls)"

definition quote_char :: char where "quote_char = CHR 0x27"

section \<open>White space\<close>

text \<open>
  The UTF-8 encodings of the code points of \<open>unicode.IsSpace\<close>, which \<open>strings.TrimSpace\<close>
  removes at both ends: the six ASCII ones, U+0085, U+00A0, U+1680, U+2000 to U+200A,
  U+2028, U+2029, U+202F, U+205F and U+3000.
\<close>

definition space_runes :: "string list" where
  "space_runes =
     [[CHR 0x09], [CHR 0x0A], [CHR 0x0B], [CHR 0x0C], [CHR 0x0D], [CHR 0x20],
      [CHR 0xC2, CHR 0x85], [CHR 0xC2, CHR 0xA0], [CHR 0xE1, CHR 0x9A, CHR 0x80],
      [CHR 0xE2, CHR 0x80, CHR 0x80], [CHR 0xE2, CHR 0x80, CHR 0x81], [CHR 0xE2, CHR 0x80, CHR 0x82],
      [CHR 0xE2, CHR 0x80, CHR 0x83], [CHR 0xE2, CHR 0x80, CHR 0x84], [CHR 0xE2, CHR 0x80, CHR 0x85],
      [CHR 0xE2, CHR 0x80, CHR 0x86], [CHR 0xE2, CHR 0x80, CHR 0x87], [CHR 0xE2, CHR 0x80, CHR 0x88],
      [CHR 0xE2, CHR 0x80, CHR 0x89], [CHR 0xE2, CHR 0x80, CHR 0x8A], [CHR 0xE2, CHR 0x80, CHR 0xA8],
      [CHR 0xE2, CHR 0x80, CHR 0xA9], [CHR 0xE2, CHR 0x80, CHR 0xAF], [CHR 0xE2, CHR 0x81, CHR 0x9F],
      [CHR 0xE3, CHR 0x80, CHR 0x80]]"

text \<open>Removing leading words of a list, with the string's length as the bound of the loop.\<close>

fun trim_words :: "nat \<Rightarrow> string list \<Rightarrow> string \<Rightarrow> string" where
  "trim_words 0 ws s = s"
| "trim_words (Suc n) ws s =
     (case find (\<lambda>w. HasPrefix s w) ws of
        None \<Rightarrow> s
      | Some w \<Rightarrow> trim_words n ws (drop (length w) s))"

definition TrimSpace :: "string \<Rightarrow> string" where
  "TrimSpace s =
     (let l = trim_words (length s) space_runes s
      in rev (trim_words (length l) (map rev space_runes) (rev l)))"

lemma space_runes_nonempty: "w \<in> set space_runes \<Longrightarrow> w \<noteq> []"
  by (auto simp: space_runes_def)

text \<open>The bound is enough: what is left does not start with any of the words.\<close>

lemma trim_words_done:
  assumes "\<forall>w \<in> set ws. w \<noteq> []" and "length s \<le> n" and "w \<in> set ws"
  shows "\<not> HasPrefix (trim_words n ws s) w"
  using assms(2)
proof (induction n arbitrary: s)
  case 0
  with assms(1,3) show ?case by (cases w) auto
next
  case (Suc n)
  show ?case
  proof (cases "find (\<lambda>w. HasPrefix s w) ws")
    case None
    with assms(3) show ?thesis using find_None_iff [of "HasPrefix s" ws] by auto
  next
    case (Some v)
    then have "v \<in> set ws" "HasPrefix s v" by (auto simp: find_Some_iff)
    with assms(1) Suc.prems have "length (drop (length v) s) \<le> n"
      by (cases v) auto
    from Suc.IH [OF this] Some show ?thesis by simp
  qed
qed

lemma trim_words_id: "(\<And>w. w \<in> set ws \<Longrightarrow> \<not> HasPrefix s w) \<Longrightarrow> trim_words n ws s = s"
  by (cases n) (auto split: option.splits simp: find_Some_iff)

lemma TrimSpace_id:
  assumes "\<And>w. w \<in> set space_runes \<Longrightarrow> \<not> HasPrefix s w"
    and "\<And>w. w \<in> set space_runes \<Longrightarrow> \<not> HasPrefix (rev s) (rev w)"
  shows "TrimSpace s = s"
proof -
  have "trim_words (length s) space_runes s = s" using assms(1) by (rule trim_words_id)
  moreover have "trim_words (length s) (map rev space_runes) (rev s) = rev s"
    by (rule trim_words_id) (use assms(2) in auto)
  ultimately show ?thesis by (simp add: TrimSpace_def)
qed

section \<open>Numbers in decimal and hexadecimal\<close>

definition hex_digit :: "nat \<Rightarrow> char" where
  "hex_digit n = ''0123456789abcdef'' ! n"

fun dec_nat :: "nat \<Rightarrow> string" where
  "dec_nat n = (if n < 10 then [hex_digit n] else dec_nat (n div 10) @ [hex_digit (n mod 10)])"

declare dec_nat.simps [simp del]

text \<open>\<open>fmt.Sprintf("%d", i)\<close>.\<close>

definition dec_int :: "int \<Rightarrow> string" where
  "dec_int i = (if i < 0 then ''-'' @ dec_nat (nat (- i)) else dec_nat (nat i))"

text \<open>\<open>fmt.Sprintf("%x", w)\<close> prints no leading zeros, \<open>fmt.Sprintf("%016x", w)\<close> fills up to sixteen digits.\<close>

fun hex_nat :: "nat \<Rightarrow> string" where
  "hex_nat n = (if n < 16 then [hex_digit n] else hex_nat (n div 16) @ [hex_digit (n mod 16)])"

declare hex_nat.simps [simp del]

definition zero_pad :: "nat \<Rightarrow> string \<Rightarrow> string" where
  "zero_pad width s = replicate (width - length s) (CHR ''0'') @ s"

definition hex16 :: "64 word \<Rightarrow> string" where
  "hex16 w = zero_pad 16 (hex_nat (unat w))"

definition hex_chars :: string where
  "hex_chars = ''0123456789abcdef''"

lemma hex_digit_in: "n < 16 \<Longrightarrow> hex_digit n \<in> set hex_chars"
  unfolding hex_digit_def hex_chars_def by (intro nth_mem) simp

lemma hex_nat_length: "n < 16 ^ Suc k \<Longrightarrow> length (hex_nat n) \<le> Suc k"
proof (induction n arbitrary: k rule: hex_nat.induct)
  case (1 n)
  show ?case
  proof (cases "n < 16")
    case True
    then show ?thesis by (simp add: hex_nat.simps [of n])
  next
    case False
    with "1.prems" obtain j where k: "k = Suc j" by (cases k) auto
    with "1.prems" have "n div 16 < 16 ^ Suc j" by (simp add: less_mult_imp_div_less mult.commute)
    from "1.IH" [OF False this] False k show ?thesis by (simp add: hex_nat.simps [of n])
  qed
qed

lemma hex_nat_chars: "set (hex_nat n) \<subseteq> set hex_chars"
proof (induction n rule: hex_nat.induct)
  case (1 n)
  then show ?case by (subst hex_nat.simps) (auto intro!: hex_digit_in)
qed

lemma hex16_length [simp]: "length (hex16 w) = 16"
proof -
  have "unat w < 16 ^ Suc 15" using unsigned_less [of w, where ?'a = nat] by simp
  from hex_nat_length [OF this] show ?thesis by (simp add: hex16_def zero_pad_def)
qed

lemma hex16_chars: "set (hex16 w) \<subseteq> set hex_chars"
  using hex_nat_chars [of "unat w"] by (auto simp: hex16_def zero_pad_def hex_chars_def)

section \<open>FNV-1a\<close>

unbundle bit_operations_syntax

text \<open>\<open>fnv.New64a\<close>: xor the byte in, multiply by the prime, modulo \<open>2^64\<close>.\<close>

definition fnv_step :: "64 word \<Rightarrow> char \<Rightarrow> 64 word" where
  "fnv_step h c = (h XOR of_char c) * 1099511628211"

definition fnv64a :: "string \<Rightarrow> 64 word" where
  "fnv64a s = foldl fnv_step 14695981039346656037 s"

end
