(* ===== verification/KubeObjects.thy ===== *)
theory KubeObjects
  imports Prelude
begin

text \<open>
  The Kubernetes objects the controllers read and write, with the fields the code under src/
  touches: metadata, containers, volumes, Pods, Jobs and Nodes. The types themselves belong
  to k8s.io/api; a field holds what its Go counterpart holds, a nil pointer is \<open>None\<close> and a
  nil slice or map is \<open>[]\<close>.
\<close>

section \<open>Time\<close>

text \<open>
  \<open>metav1.Time\<close>. A nil \<open>DeletionTimestamp\<close> is \<open>None\<close>. \<open>Before\<close> and \<open>Equal\<close> are the linear
  order, so that the library's sorting applies.
\<close>

datatype time = Time (ticks: nat)

instantiation time :: linorder
begin

definition less_eq_time :: "time \<Rightarrow> time \<Rightarrow> bool" where
  "less_eq_time a b \<longleftrightarrow> ticks a \<le> ticks b"

definition less_time :: "time \<Rightarrow> time \<Rightarrow> bool" where
  "less_time a b \<longleftrightarrow> ticks a < ticks b"

instance
  by standard (auto simp: less_eq_time_def less_time_def time.expand)

end

section \<open>Metadata\<close>

record owner_reference =
  orKind :: string
  orName :: string
  orUID :: string
  orController :: "bool option"

record object_meta =
  Name :: string
  GenerateName :: string
  Namespace :: string
  UID :: string
  ResourceVersion :: string
  Labels :: strmap
  Annotations :: strmap
  OwnerReferences :: "owner_reference list"
  Finalizers :: "string list"
  CreationTimestamp :: time
  DeletionTimestamp :: "time option"

definition empty_meta :: object_meta where
  "empty_meta = \<lparr>Name = [], GenerateName = [], Namespace = [], UID = [], ResourceVersion = [],
     Labels = [], Annotations = [], OwnerReferences = [], Finalizers = [],
     CreationTimestamp = Time 0, DeletionTimestamp = None\<rparr>"

text \<open>
  \<open>metav1.IsControlledBy\<close>: the owner reference with \<open>controller: true\<close> has the owner's UID.
  \<open>GetControllerOf\<close> returns the first such reference.
\<close>

definition GetControllerOf :: "object_meta \<Rightarrow> owner_reference option" where
  "GetControllerOf m = find (\<lambda>r. orController r = Some True) (OwnerReferences m)"

definition IsControlledBy :: "object_meta \<Rightarrow> object_meta \<Rightarrow> bool" where
  "IsControlledBy m owner =
     (case GetControllerOf m of None \<Rightarrow> False | Some r \<Rightarrow> orUID r = UID owner)"

text \<open>
  \<open>controllerutil.SetControllerReference\<close> on a freshly built object, which has no owner yet:
  it cannot fail there (the error cases are another controller, a cross-namespace owner and
  an unregistered type) and adds the one reference.
\<close>

definition SetControllerReference :: "string \<Rightarrow> object_meta \<Rightarrow> object_meta \<Rightarrow> object_meta" where
  "SetControllerReference kind owner m = m\<lparr>OwnerReferences := OwnerReferences m @
     [\<lparr>orKind = kind, orName = Name owner, orUID = UID owner, orController = Some True\<rparr>]\<rparr>"

lemma controlled_by_owner:
  "OwnerReferences m = [] \<Longrightarrow> IsControlledBy (SetControllerReference kind owner m) owner"
  by (simp add: IsControlledBy_def GetControllerOf_def SetControllerReference_def)

section \<open>Pods\<close>

record resource_requirements =
  Requests :: strmap
  Limits :: strmap

definition no_resources :: resource_requirements where
  "no_resources = \<lparr>Requests = [], Limits = []\<rparr>"

text \<open>An environment variable holds a value, or takes it from a field of the Pod.\<close>

record env_var =
  envName :: string
  envValue :: string
  envFieldRef :: "string option"

record volume_mount =
  vmName :: string
  vmMountPath :: string
  vmSubPath :: string
  vmReadOnly :: bool

definition volumeMount :: "string \<Rightarrow> string \<Rightarrow> volume_mount" where
  "volumeMount n p = \<lparr>vmName = n, vmMountPath = p, vmSubPath = [], vmReadOnly = False\<rparr>"

record security_context =
  scPrivileged :: "bool option"
  scRunAsUser :: "int option"
  scRunAsNonRoot :: "bool option"
  scAllowPrivilegeEscalation :: "bool option"
  scCapabilitiesAdd :: "string list"

definition no_security :: security_context where
  "no_security = \<lparr>scPrivileged = None, scRunAsUser = None, scRunAsNonRoot = None,
     scAllowPrivilegeEscalation = None, scCapabilitiesAdd = []\<rparr>"

record container =
  cName :: string
  cImage :: string
  cImagePullPolicy :: string
  cCommand :: "string list"
  cArgs :: "string list"
  cEnv :: "env_var list"
  cResources :: resource_requirements
  cVolumeMounts :: "volume_mount list"
  cSecurityContext :: "security_context option"
  cTerminationMessagePolicy :: string

definition empty_container :: container where
  "empty_container = \<lparr>cName = [], cImage = [], cImagePullPolicy = [], cCommand = [], cArgs = [],
     cEnv = [], cResources = no_resources, cVolumeMounts = [], cSecurityContext = None,
     cTerminationMessagePolicy = []\<rparr>"

text \<open>Volume sources the code builds or inspects; any other one is \<open>OtherVolume\<close>.\<close>

datatype volume_source =
    HostPath string
  | EmptyDir
  | PVCVolume string bool
  | ConfigMapVolume string
  | SecretVolume string "(string \<times> string) list" "bool option"
  | OtherVolume string

record volume =
  volName :: string
  volSource :: volume_source

record toleration =
  tolKey :: string
  tolOperator :: string
  tolEffect :: string

record pod_spec =
  NodeName :: string
  HostPID :: bool
  RestartPolicy :: string
  ImagePullSecrets :: "string list"
  InitContainers :: "container list"
  Containers :: "container list"
  Volumes :: "volume list"
  ServiceAccountName :: string
  Tolerations :: "toleration list"
  ActiveDeadlineSeconds :: "int option"
  AutomountServiceAccountToken :: "bool option"
  podNodeSelector :: strmap
  podAffinity :: "string option"
  podResources :: "resource_requirements option"

definition empty_pod_spec :: pod_spec where
  "empty_pod_spec = \<lparr>NodeName = [], HostPID = False, RestartPolicy = [], ImagePullSecrets = [],
     InitContainers = [], Containers = [], Volumes = [], ServiceAccountName = [],
     Tolerations = [], ActiveDeadlineSeconds = None, AutomountServiceAccountToken = None,
     podNodeSelector = [], podAffinity = None, podResources = None\<rparr>"

text \<open>Every container mounts only volumes the Pod declares.\<close>

definition mountsResolve :: "pod_spec \<Rightarrow> bool" where
  "mountsResolve s = list_all (\<lambda>c. list_all (\<lambda>m. vmName m \<in> volName ` set (Volumes s)) (cVolumeMounts c))
     (InitContainers s @ Containers s)"

text \<open>The state of a container: waiting with a reason, running, or terminated.\<close>

record terminated_state =
  tExitCode :: int
  tReason :: string
  tMessage :: string

record container_status =
  csName :: string
  csWaiting :: "string option"
  csRunning :: bool
  csTerminated :: "terminated_state option"

record condition =
  condType :: string
  condStatus :: string
  condReason :: string
  condMessage :: string

record pod_status =
  podPhase :: string
  podReason :: string
  podMessage :: string
  podConditions :: "condition list"
  ContainerStatuses :: "container_status list"

definition empty_pod_status :: pod_status where
  "empty_pod_status = \<lparr>podPhase = [], podReason = [], podMessage = [], podConditions = [],
     ContainerStatuses = []\<rparr>"

record pod =
  podMeta :: object_meta
  podSpec :: pod_spec
  podStatus :: pod_status

section \<open>Jobs\<close>

record job_spec =
  BackoffLimit :: "int option"
  Completions :: "int option"
  templateLabels :: strmap
  templateAnnotations :: strmap
  templateSpec :: pod_spec

record job_status =
  jobConditions :: "condition list"
  jobSucceeded :: int
  jobFailed :: int

record job =
  jobMeta :: object_meta
  jobSpec :: job_spec
  jobStatus :: job_status

definition empty_job_status :: job_status where
  "empty_job_status = \<lparr>jobConditions = [], jobSucceeded = 0, jobFailed = 0\<rparr>"

section \<open>Nodes\<close>

record node =
  nodeMeta :: object_meta
  Unschedulable :: bool
  BootID :: string
  nodeConditions :: "condition list"

section \<open>RBAC\<close>

record policy_rule =
  Verbs :: "string list"
  APIGroups :: "string list"
  Resources :: "string list"
  ResourceNames :: "string list"
  NonResourceURLs :: "string list"

record role =
  roleMeta :: object_meta
  Rules :: "policy_rule list"

record subject =
  subKind :: string
  subName :: string
  subNamespace :: string

record role_ref =
  refAPIGroup :: string
  refKind :: string
  refName :: string

record role_binding =
  rbMeta :: object_meta
  Subjects :: "subject list"
  RoleRef :: role_ref

section \<open>Constants of the Kubernetes API\<close>

definition ConditionTrue :: string where [kconst]: "ConditionTrue = ''True''"
definition PodPending :: string where [kconst]: "PodPending = ''Pending''"
definition PodRunning :: string where [kconst]: "PodRunning = ''Running''"
definition PodSucceeded :: string where [kconst]: "PodSucceeded = ''Succeeded''"
definition PodFailed :: string where [kconst]: "PodFailed = ''Failed''"
definition PodReady :: string where [kconst]: "PodReady = ''Ready''"
definition NodeReady :: string where [kconst]: "NodeReady = ''Ready''"
definition JobComplete :: string where [kconst]: "JobComplete = ''Complete''"
definition JobSuccessCriteriaMet :: string where [kconst]: "JobSuccessCriteriaMet = ''SuccessCriteriaMet''"
definition JobFailed :: string where [kconst]: "JobFailed = ''Failed''"
definition JobFailureTarget :: string where [kconst]: "JobFailureTarget = ''FailureTarget''"
definition JobNameLabel :: string where [kconst]: "JobNameLabel = ''batch.kubernetes.io/job-name''"

text \<open>The label selector of a list request: every pair is a label of the object.\<close>

definition MatchingLabels :: "strmap \<Rightarrow> strmap \<Rightarrow> bool" where
  "MatchingLabels sel labels = list_all (\<lambda>(k, v). map_of labels k = Some v) sel"

end
