(* ===== verification/OSArtifactTypes.thy ===== *)
theory OSArtifactTypes
  imports GoStrings KubeObjects
begin

text \<open>
  The OSArtifact API (api/v1alpha2/osartifact_types.go): the fields of its spec and status, the
  validation of a spec, and the names and resources of the artifacts. A nil pointer is \<open>None\<close>.
  Nothing depends on the texts of the errors; \<open>%q\<close> puts quotes around a name.
\<close>

section \<open>Kinds, phases and reserved names\<close>

definition OSArtifactKindISO :: string where "OSArtifactKindISO = ''iso''"
definition OSArtifactKindCloud :: string where "OSArtifactKindCloud = ''cloud''"
definition OSArtifactKindAzure :: string where "OSArtifactKindAzure = ''azure''"
definition OSArtifactKindGCE :: string where "OSArtifactKindGCE = ''gce''"
definition OSArtifactKindNetboot :: string where "OSArtifactKindNetboot = ''netboot''"
definition OSArtifactKindUKI :: string where "OSArtifactKindUKI = ''uki''"
definition OSArtifactKindBuildah :: string where "OSArtifactKindBuildah = ''buildah''"
definition OSArtifactKindImageExtractor :: string where "OSArtifactKindImageExtractor = ''imageExtractor''"

lemmas artifact_kinds = OSArtifactKindISO_def OSArtifactKindCloud_def OSArtifactKindAzure_def OSArtifactKindGCE_def
  OSArtifactKindNetboot_def OSArtifactKindUKI_def OSArtifactKindBuildah_def OSArtifactKindImageExtractor_def

definition Pending :: string where "Pending = ''Pending''"
definition Building :: string where "Building = ''Building''"
definition Exporting :: string where "Exporting = ''Exporting''"
definition Ready :: string where "Ready = ''Ready''"
definition Error :: string where "Error = ''Error''"

lemmas artifact_phases = Pending_def Building_def Exporting_def Ready_def Error_def

definition reservedVolumeNames :: "string list" where
  "reservedVolumeNames = [''artifacts'', ''rootfs'', ''config'', ''ocispec'', ''cloudconfig'']"

section \<open>The spec\<close>

record build_image =
  Registry :: string
  Repository :: string
  Tag :: string

record secret_key_selector =
  selName :: string
  selKey :: string

record build_options =
  boVersion :: string
  BaseImage :: string
  boModel :: string
  TrustedBoot :: bool
  KubernetesDistro :: string
  KubernetesVersion :: string
  FIPS :: bool
  KairosInitImage :: string

record oci_spec =
  ociRef :: "secret_key_selector option"
  TemplateValuesFrom :: "secret_key_selector option"
  TemplateValues :: strmap
  BuildContextVolume :: string

definition empty_oci_spec :: oci_spec where
  "empty_oci_spec = \<lparr>ociRef = None, TemplateValuesFrom = None, TemplateValues = [], BuildContextVolume = []\<rparr>"

record image_spec =
  imgRef :: string
  BuildOptions :: "build_options option"
  OCISpec :: "oci_spec option"
  imgBuildImage :: "build_image option"
  Push :: bool
  ImageCredentialsSecretRef :: "secret_key_selector option"
  BuildEnv :: "env_var list"
  CACertificatesVolume :: string
  StorageVolume :: string
  PullInsecureRegistry :: bool
  PushInsecureRegistry :: bool

record uki_spec =
  ukiISO :: bool
  ukiContainer :: bool
  ukiEFI :: bool
  KeysVolume :: string

record artifact_spec =
  artArch :: string
  artISO :: bool
  DiskSize :: string
  CloudImage :: bool
  AzureImage :: bool
  GCEImage :: bool
  Netboot :: bool
  NetbootURL :: string
  CloudConfigRef :: "secret_key_selector option"
  GRUBConfig :: string
  Bundles :: "string list"
  OSRelease :: string
  KairosRelease :: string
  OverlayISOVolume :: string
  OverlayRootfsVolume :: string
  UKI :: "uki_spec option"
  artVolume :: string
  RootfsVolume :: string

record name_override_spec =
  noISO :: string
  noCloudImage :: string
  noAzureImage :: string
  noGCEImage :: string
  noNetboot :: string
  noUKI :: string

record resources_spec =
  rsISO :: "resource_requirements option"
  rsCloudImage :: "resource_requirements option"
  rsAzureImage :: "resource_requirements option"
  rsGCEImage :: "resource_requirements option"
  rsNetboot :: "resource_requirements option"
  rsUKI :: "resource_requirements option"
  rsBuildah :: "resource_requirements option"
  rsImageExtractor :: "resource_requirements option"
  rsPod :: "resource_requirements option"

text \<open>A claim's spec: the two fields the code sets, and the rest of a user's one.\<close>

record pvc_spec =
  pvcAccessModes :: "string list"
  pvcRequests :: strmap
  pvcOther :: string

record os_artifact_spec =
  osImage :: image_spec
  Artifacts :: "artifact_spec option"
  osImagePullSecrets :: "string list"
  Exporters :: "job_spec list"
  osVolume :: "pvc_spec option"
  osNodeSelector :: strmap
  osTolerations :: "toleration list"
  osAffinity :: "string option"
  PodLabels :: strmap
  PodAnnotations :: strmap
  osResources :: resources_spec
  osActiveDeadlineSeconds :: "int option"
  osVolumes :: "volume list"
  Importers :: "container list"
  NameOverride :: name_override_spec

record os_artifact_status =
  osPhase :: string
  osMessage :: string

record os_artifact =
  osMeta :: object_meta
  osSpec :: os_artifact_spec
  osStatus :: os_artifact_status

section \<open>Validation\<close>

definition quoted :: "string \<Rightarrow> string" where
  "quoted s = [CHR 0x22] @ s @ [CHR 0x22]"

text \<open>The receiver of \<open>ImageRef\<close> may be nil.\<close>

definition ImageRef :: "build_image option \<Rightarrow> string" where
  "ImageRef b = (case b of None \<Rightarrow> [] | Some b \<Rightarrow> Registry b @ ''/'' @ Repository b @ '':'' @ Tag b)"

definition ArchSanitized :: "os_artifact_spec \<Rightarrow> string res" where
  "ArchSanitized s =
     (let arch = (case Artifacts s of None \<Rightarrow> [] | Some a \<Rightarrow> artArch a)
      in if arch \<noteq> ''amd64'' \<and> arch \<noteq> ''arm64'' \<and> arch \<noteq> []
         then Inl (Errorf (''arch must be either '' @ [quote_char] @ ''amd64'' @ [quote_char] @ '', '' @
           [quote_char] @ ''arm64'' @ [quote_char] @ '', or empty''))
         else Inr arch)"

text \<open>The loop over \<open>spec.volumes\<close>; the result is the list of the names seen.\<close>

fun checkVolumes :: "nat \<Rightarrow> string list \<Rightarrow> volume list \<Rightarrow> string list res" where
  "checkVolumes i seen [] = Inr seen"
| "checkVolumes i seen (v # vs) =
     (if volName v = [] then Inl (Errorf (''spec.volumes['' @ dec_nat i @ ''].name must not be empty''))
      else if volName v \<in> set reservedVolumeNames
        then Inl (Errorf (''volume name '' @ quoted (volName v) @ '' is reserved for internal use''))
      else if volName v \<in> set seen
        then Inl (Errorf (''duplicate volume name '' @ quoted (volName v) @ '' in spec.volumes''))
      else checkVolumes (Suc i) (volName v # seen) vs)"

definition undefinedVolume :: "string \<Rightarrow> string \<Rightarrow> error" where
  "undefinedVolume field nm = Errorf (field @ '' references volume '' @ quoted nm @ '' which is not defined in spec.volumes'')"

definition incompleteBuildImage :: "build_image \<Rightarrow> bool" where
  "incompleteBuildImage b \<longleftrightarrow> Registry b = [] \<or> Repository b = [] \<or> Tag b = []"

definition hasOCISpecRef :: "image_spec \<Rightarrow> bool" where
  "hasOCISpecRef img \<longleftrightarrow> (case OCISpec img of None \<Rightarrow> False | Some o' \<Rightarrow> ociRef o' \<noteq> None)"

definition validateImageSpec :: "image_spec \<Rightarrow> string list \<Rightarrow> unit res" where
  "validateImageSpec img volumeNames =
     (let hasRef = imgRef img \<noteq> [];
          hasBuildOptions = BuildOptions img \<noteq> None
      in
      if imgBuildImage img \<noteq> None \<and> ImageRef (imgBuildImage img) \<noteq> [] \<and> hasRef
        then Inl (Errorf ''spec.image.buildImage is only used when building; ref must be empty when buildImage is set'')
      else if (case imgBuildImage img of None \<Rightarrow> False | Some b \<Rightarrow>
                 (Registry b \<noteq> [] \<or> Repository b \<noteq> [] \<or> Tag b \<noteq> []) \<and> incompleteBuildImage b)
        then Inl (Errorf ''spec.image.buildImage: when set, registry, repository, and tag are all required'')
      else if CACertificatesVolume img \<noteq> [] \<and> CACertificatesVolume img \<notin> set volumeNames
        then Inl (undefinedVolume ''spec.image.caCertificatesVolume'' (CACertificatesVolume img))
      else if hasRef then Inr ()
      else if \<not> hasBuildOptions \<and> \<not> hasOCISpecRef img
        then Inl (Errorf ''spec.image: when ref is empty, at least one of buildOptions or ociSpec must be set'')
      else if Push img \<and> (case imgBuildImage img of None \<Rightarrow> True | Some b \<Rightarrow> incompleteBuildImage b)
        then Inl (Errorf (''spec.image.push is true but buildImage is missing or incomplete; '' @
          ''when pushing, registry, repository, and tag are required''))
      else if (case BuildOptions img of None \<Rightarrow> False | Some b \<Rightarrow> boVersion b = [])
        then Inl (Errorf ''spec.image.buildOptions.version is required when using buildOptions'')
      else if (case BuildOptions img of None \<Rightarrow> False | Some b \<Rightarrow> BaseImage b = [])
        then Inl (Errorf ''spec.image.buildOptions.baseImage is required when using buildOptions'')
      else if (case OCISpec img of None \<Rightarrow> False | Some o' \<Rightarrow>
                 BuildContextVolume o' \<noteq> [] \<and> BuildContextVolume o' \<notin> set volumeNames)
        then Inl (undefinedVolume ''spec.image.ociSpec.buildContextVolume''
               (case OCISpec img of None \<Rightarrow> [] | Some o' \<Rightarrow> BuildContextVolume o'))
      else if StorageVolume img \<noteq> [] \<and> StorageVolume img \<notin> set volumeNames
        then Inl (undefinedVolume ''spec.image.storageVolume'' (StorageVolume img))
      else Inr ())"

fun validateRefs :: "string list \<Rightarrow> (string \<times> string) list \<Rightarrow> unit res" where
  "validateRefs volumeNames [] = Inr ()"
| "validateRefs volumeNames ((nm, field) # refs) =
     (if nm \<noteq> [] \<and> nm \<notin> set volumeNames then Inl (undefinedVolume field nm)
      else validateRefs volumeNames refs)"

definition validateArtifactVolumeRefs :: "artifact_spec \<Rightarrow> string list \<Rightarrow> unit res" where
  "validateArtifactVolumeRefs a volumeNames = validateRefs volumeNames
     [(OverlayISOVolume a, ''spec.artifacts.overlayISOVolume''),
      (OverlayRootfsVolume a, ''spec.artifacts.overlayRootfsVolume''),
      (artVolume a, ''spec.artifacts.volume''),
      (RootfsVolume a, ''spec.artifacts.rootfsVolume'')]"

definition validateArtifactAliasing :: "os_artifact_spec \<Rightarrow> artifact_spec \<Rightarrow> unit res" where
  "validateArtifactAliasing s a =
     (if artVolume a \<noteq> [] \<and> artVolume a = RootfsVolume a
        then Inl (Errorf (''spec.artifacts.volume '' @ quoted (artVolume a) @ '' must differ from spec.artifacts.rootfsVolume''))
      else if imgRef (osImage s) = [] \<and> artVolume a \<noteq> [] \<and> artVolume a = StorageVolume (osImage s)
        then Inl (Errorf (''spec.artifacts.volume '' @ quoted (artVolume a) @ '' must differ from spec.image.storageVolume''))
      else Inr ())"

text \<open>Whether any signed output is asked for.\<close>

definition hasUKI :: "artifact_spec \<Rightarrow> bool" where
  "hasUKI a \<longleftrightarrow> (case UKI a of None \<Rightarrow> False | Some u \<Rightarrow> ukiISO u \<or> ukiContainer u \<or> ukiEFI u)"

definition keysVolumeOf :: "artifact_spec \<Rightarrow> string" where
  "keysVolumeOf a = (case UKI a of None \<Rightarrow> [] | Some u \<Rightarrow> KeysVolume u)"

definition hasStandard :: "artifact_spec \<Rightarrow> bool" where
  "hasStandard a \<longleftrightarrow> artISO a \<or> CloudImage a \<or> AzureImage a \<or> GCEImage a \<or> Netboot a"

definition validateArtifactSpec :: "os_artifact_spec \<Rightarrow> artifact_spec \<Rightarrow> string list \<Rightarrow> unit res" where
  "validateArtifactSpec s a volumeNames =
     (if \<not> hasStandard a \<and> \<not> hasUKI a
        then Inl (Errorf (
          ''spec.artifacts: at least one artifact type must be enabled '' @
          ''(iso, cloudImage, azureImage, gceImage, netboot, or uki.iso/uki.container/uki.efi)''))
      else case validateArtifactVolumeRefs a volumeNames of Inl e \<Rightarrow> Inl e | Inr _ \<Rightarrow>
      (case validateArtifactAliasing s a of Inl e \<Rightarrow> Inl e | Inr _ \<Rightarrow>
        if hasUKI a \<and> keysVolumeOf a = []
          then Inl (Errorf ''spec.artifacts.uki.keysVolume is required when any of uki.iso, uki.container, or uki.efi is true'')
        else if hasUKI a \<and> keysVolumeOf a \<notin> set volumeNames
          then Inl (undefinedVolume ''spec.artifacts.uki.keysVolume'' (keysVolumeOf a))
        else if (case UKI a of None \<Rightarrow> False | Some u \<Rightarrow> ukiISO u) \<and> (artISO a \<or> Netboot a) \<and>
                noUKI (NameOverride s) \<noteq> [] \<and> noUKI (NameOverride s) = noISO (NameOverride s)
          then Inl (Errorf (''spec.nameOverride.uki '' @ quoted (noUKI (NameOverride s)) @
            '' must differ from spec.nameOverride.iso when both uki.iso and iso/netboot are enabled: '' @
            ''both artifacts would be written to /artifacts/'' @ noUKI (NameOverride s) @ ''.iso''))
        else Inr ()))"

definition Validate :: "os_artifact_spec \<Rightarrow> unit res" where
  "Validate s = (case checkVolumes 0 [] (osVolumes s) of Inl e \<Rightarrow> Inl e | Inr names \<Rightarrow>
     (case validateImageSpec (osImage s) names of Inl e \<Rightarrow> Inl e | Inr _ \<Rightarrow>
       if imgRef (osImage s) \<noteq> [] \<and> Artifacts s = None
         then Inl (Errorf (
           ''spec.artifacts is required when spec.image.ref is set (pre-built image); '' @
           ''specify which artifacts to produce (e.g. ISO, cloud image)''))
       else (case Artifacts s of None \<Rightarrow> Inr () | Some a \<Rightarrow> validateArtifactSpec s a names)))"

section \<open>Names and resources\<close>

definition orDefault :: "string \<Rightarrow> string \<Rightarrow> string" where
  "orDefault s d = (if s \<noteq> [] then s else d)"

definition ArtifactNameFor :: "os_artifact \<Rightarrow> string \<Rightarrow> string" where
  "ArtifactNameFor s kind =
     (let o' = NameOverride (osSpec s); d = Name (osMeta s) in
      if kind = OSArtifactKindISO then orDefault (noISO o') d
      else if kind = OSArtifactKindCloud then orDefault (noCloudImage o') d
      else if kind = OSArtifactKindAzure then orDefault (noAzureImage o') d
      else if kind = OSArtifactKindGCE then orDefault (noGCEImage o') d
      else if kind = OSArtifactKindNetboot then orDefault (noNetboot o') d
      else if kind = OSArtifactKindUKI then orDefault (noUKI o') d
      else d)"

definition ResourcesFor :: "os_artifact \<Rightarrow> string \<Rightarrow> resource_requirements" where
  "ResourcesFor s kind =
     (let r = osResources (osSpec s);
          resources =
            (if kind = OSArtifactKindISO then rsISO r
             else if kind = OSArtifactKindCloud then rsCloudImage r
             else if kind = OSArtifactKindAzure then rsAzureImage r
             else if kind = OSArtifactKindGCE then rsGCEImage r
             else if kind = OSArtifactKindNetboot then rsNetboot r
             else if kind = OSArtifactKindUKI then rsUKI r
             else if kind = OSArtifactKindBuildah then rsBuildah r
             else if kind = OSArtifactKindImageExtractor then rsImageExtractor r
             else None)
      in case resources of None \<Rightarrow> no_resources | Some x \<Rightarrow> x)"

section \<open>What a valid spec guarantees\<close>

lemma checkVolumes_ok:
  "checkVolumes i seen vs = Inr names \<longleftrightarrow>
     names = rev (map volName vs) @ seen \<and> distinct (map volName vs) \<and>
     (\<forall>v \<in> set vs. volName v \<noteq> [] \<and> volName v \<notin> set reservedVolumeNames \<and> volName v \<notin> set seen)"
proof (induction vs arbitrary: i seen)
  case Nil
  then show ?case by auto
next
  case (Cons v vs)
  have "checkVolumes i seen (v # vs) = Inr names \<longleftrightarrow>
      (volName v \<noteq> [] \<and> volName v \<notin> set reservedVolumeNames \<and> volName v \<notin> set seen) \<and>
      checkVolumes (Suc i) (volName v # seen) vs = Inr names" by simp
  also have "\<dots> \<longleftrightarrow> names = rev (map volName (v # vs)) @ seen \<and> distinct (map volName (v # vs)) \<and>
     (\<forall>w \<in> set (v # vs). volName w \<noteq> [] \<and> volName w \<notin> set reservedVolumeNames \<and> volName w \<notin> set seen)"
    unfolding Cons.IH by (simp add: image_iff ball_conj_distrib eq_commute [of "volName v"]) blast
  finally show ?case .
qed

lemma validateRefs_ok:
  "validateRefs names refs = Inr () \<longleftrightarrow> (\<forall>(nm, field) \<in> set refs. nm \<noteq> [] \<longrightarrow> nm \<in> set names)"
  by (induction names refs rule: validateRefs.induct) auto

abbreviation declared :: "os_artifact_spec \<Rightarrow> string set" where
  "declared s \<equiv> volName ` set (osVolumes s)"

lemma Validate_names:
  assumes "Validate s = Inr ()"
  obtains names where "checkVolumes 0 [] (osVolumes s) = Inr names" "set names = declared s"
    "validateImageSpec (osImage s) names = Inr ()" "imgRef (osImage s) \<noteq> [] \<longrightarrow> Artifacts s \<noteq> None"
    "\<And>a. Artifacts s = Some a \<Longrightarrow> validateArtifactSpec s a names = Inr ()"
proof -
  from assms obtain names where n: "checkVolumes 0 [] (osVolumes s) = Inr names"
    by (auto simp: Validate_def split: sum.splits)
  then have "set names = declared s" using checkVolumes_ok [of 0 "[]" "osVolumes s" names] by simp
  moreover have "validateImageSpec (osImage s) names = Inr ()"
    using assms n by (cases "validateImageSpec (osImage s) names") (auto simp: Validate_def)
  moreover have "imgRef (osImage s) \<noteq> [] \<longrightarrow> Artifacts s \<noteq> None"
    using assms n calculation by (cases "Artifacts s") (auto simp: Validate_def split: if_splits)
  moreover have "validateArtifactSpec s a names = Inr ()" if "Artifacts s = Some a" for a
    using assms n calculation that by (auto simp: Validate_def split: if_splits)
  ultimately show ?thesis using that n by blast
qed

lemma Validate_volumes:
  assumes "Validate s = Inr ()"
  shows "distinct (map volName (osVolumes s))" "declared s \<inter> set reservedVolumeNames = {}" "[] \<notin> declared s"
proof -
  from assms obtain names where n: "checkVolumes 0 [] (osVolumes s) = Inr names" by (rule Validate_names)
  then have "distinct (map volName (osVolumes s)) \<and>
     (\<forall>v \<in> set (osVolumes s). volName v \<noteq> [] \<and> volName v \<notin> set reservedVolumeNames)"
    by (simp add: checkVolumes_ok)
  then show "distinct (map volName (osVolumes s))" "declared s \<inter> set reservedVolumeNames = {}" "[] \<notin> declared s"
    by auto
qed

lemma Validate_image:
  assumes "Validate s = Inr ()"
  shows "CACertificatesVolume (osImage s) \<noteq> [] \<Longrightarrow> CACertificatesVolume (osImage s) \<in> declared s"
    and "imgRef (osImage s) = [] \<Longrightarrow> BuildOptions (osImage s) \<noteq> None \<or> hasOCISpecRef (osImage s)"
    and "imgRef (osImage s) = [] \<Longrightarrow> OCISpec (osImage s) = Some o' \<Longrightarrow> BuildContextVolume o' \<noteq> [] \<Longrightarrow>
      BuildContextVolume o' \<in> declared s"
    and "imgRef (osImage s) = [] \<Longrightarrow> StorageVolume (osImage s) \<noteq> [] \<Longrightarrow> StorageVolume (osImage s) \<in> declared s"
    and "imgRef (osImage s) = [] \<Longrightarrow> Push (osImage s) \<Longrightarrow>
      \<exists>b. imgBuildImage (osImage s) = Some b \<and> \<not> incompleteBuildImage b"
proof -
  from assms obtain names where n: "set names = declared s" and i: "validateImageSpec (osImage s) names = Inr ()"
    by (rule Validate_names)
  show "CACertificatesVolume (osImage s) \<noteq> [] \<Longrightarrow> CACertificatesVolume (osImage s) \<in> declared s"
    using i unfolding validateImageSpec_def Let_def n by (simp split: if_splits)
  show "imgRef (osImage s) = [] \<Longrightarrow> BuildOptions (osImage s) \<noteq> None \<or> hasOCISpecRef (osImage s)"
    using i unfolding validateImageSpec_def Let_def n by (simp split: if_splits)
  show "imgRef (osImage s) = [] \<Longrightarrow> OCISpec (osImage s) = Some o' \<Longrightarrow> BuildContextVolume o' \<noteq> [] \<Longrightarrow>
      BuildContextVolume o' \<in> declared s"
    using i unfolding validateImageSpec_def Let_def n by (simp split: if_splits)
  show "imgRef (osImage s) = [] \<Longrightarrow> StorageVolume (osImage s) \<noteq> [] \<Longrightarrow> StorageVolume (osImage s) \<in> declared s"
    using i unfolding validateImageSpec_def Let_def n by (simp split: if_splits)
  show "imgRef (osImage s) = [] \<Longrightarrow> Push (osImage s) \<Longrightarrow>
      \<exists>b. imgBuildImage (osImage s) = Some b \<and> \<not> incompleteBuildImage b"
    using i unfolding validateImageSpec_def Let_def n by (simp split: if_splits option.splits)
qed

lemma Validate_artifacts:
  assumes "Validate s = Inr ()" and "Artifacts s = Some a"
  shows "OverlayISOVolume a \<noteq> [] \<Longrightarrow> OverlayISOVolume a \<in> declared s"
    and "OverlayRootfsVolume a \<noteq> [] \<Longrightarrow> OverlayRootfsVolume a \<in> declared s"
    and "artVolume a \<noteq> [] \<Longrightarrow> artVolume a \<in> declared s"
    and "RootfsVolume a \<noteq> [] \<Longrightarrow> RootfsVolume a \<in> declared s"
    and "hasUKI a \<Longrightarrow> keysVolumeOf a \<noteq> [] \<and> keysVolumeOf a \<in> declared s"
    and "artVolume a \<noteq> [] \<Longrightarrow> artVolume a \<noteq> RootfsVolume a"
    and "hasStandard a \<or> hasUKI a"
proof -
  from assms obtain names where n: "set names = declared s" and v: "validateArtifactSpec s a names = Inr ()"
    by (metis Validate_names)
  have r: "validateArtifactVolumeRefs a names = Inr ()" and al: "validateArtifactAliasing s a = Inr ()"
    using v by (auto simp: validateArtifactSpec_def split: sum.splits if_splits)
  from r n show "OverlayISOVolume a \<noteq> [] \<Longrightarrow> OverlayISOVolume a \<in> declared s"
    "OverlayRootfsVolume a \<noteq> [] \<Longrightarrow> OverlayRootfsVolume a \<in> declared s"
    "artVolume a \<noteq> [] \<Longrightarrow> artVolume a \<in> declared s" "RootfsVolume a \<noteq> [] \<Longrightarrow> RootfsVolume a \<in> declared s"
    unfolding validateArtifactVolumeRefs_def validateRefs_ok by auto
  show "hasUKI a \<Longrightarrow> keysVolumeOf a \<noteq> [] \<and> keysVolumeOf a \<in> declared s"
    using v r al n by (simp add: validateArtifactSpec_def split: if_splits)
  show "artVolume a \<noteq> [] \<Longrightarrow> artVolume a \<noteq> RootfsVolume a"
    using al by (auto simp: validateArtifactAliasing_def split: if_splits)
  show "hasStandard a \<or> hasUKI a"
    using v by (auto simp: validateArtifactSpec_def split: if_splits)
qed

end
