(* ===== verification/OSArtifactPod.thy ===== *)
theory OSArtifactPod
  imports OSArtifactTypes
begin

text \<open>
  The builder Pod of an OSArtifact (internal/controller/job.go) and the build definition it is
  given (default_ocispec.go, configmap.go): which containers run in which order, what they mount
  and the commands they run.
\<close>

section \<open>Constants\<close>

definition aurorabootUnpackCmd :: string where "aurorabootUnpackCmd = ''auroraboot unpack''"
definition rootfsVolumeName :: string where "rootfsVolumeName = ''rootfs''"
definition rootfsMountPath :: string where "rootfsMountPath = ''/rootfs''"
definition artifactsVolumeName :: string where "artifactsVolumeName = ''artifacts''"
definition artifactsMountPath :: string where "artifactsMountPath = ''/artifacts''"
definition configVolumeName :: string where "configVolumeName = ''config''"
definition overlayISOMountPath :: string where "overlayISOMountPath = ''/overlay-iso''"
definition overlayRootfsMountPath :: string where "overlayRootfsMountPath = ''/overlay-rootfs''"
definition ocispecVolumeName :: string where "ocispecVolumeName = ''ocispec''"
definition cloudConfigVolumeName :: string where "cloudConfigVolumeName = ''cloudconfig''"
definition cloudConfigMountPath :: string where "cloudConfigMountPath = ''/cloud-config.yaml''"
definition buildahStorageMountPath :: string where "buildahStorageMountPath = ''/var/lib/containers''"
definition buildahStorageSubPath :: string where "buildahStorageSubPath = ''containers''"
definition rootfsStorageSubPath :: string where "rootfsStorageSubPath = ''rootfs''"
definition ukiCloudConfigDir :: string where "ukiCloudConfigDir = ''/uki-cloud-config''"
definition cloudConfigFileName :: string where "cloudConfigFileName = ''config.yaml''"
definition dockerConfigEnv :: string where "dockerConfigEnv = ''DOCKER_CONFIG''"
definition dockerCredsMountPath :: string where "dockerCredsMountPath = ''/root/.docker''"
definition caCertsMountPath :: string where "caCertsMountPath = ''/etc/ssl/buildah/certs''"
definition sslCertDirEnv :: string where "sslCertDirEnv = ''SSL_CERT_DIR''"
definition systemCertsPath :: string where "systemCertsPath = ''/etc/ssl/certs''"
definition buildahCmd :: string where "buildahCmd = ''buildah''"
definition ukiKeysMountPath :: string where "ukiKeysMountPath = ''/uki-keys''"
definition imageCredentialsVolumeName :: string where "imageCredentialsVolumeName = ''image-credentials''"
definition configMapKeyOSRelease :: string where "configMapKeyOSRelease = ''os-release''"
definition OCISpecSecretKey :: string where "OCISpecSecretKey = ''ociSpec''"

lemmas volume_names = rootfsVolumeName_def artifactsVolumeName_def configVolumeName_def ocispecVolumeName_def
  cloudConfigVolumeName_def imageCredentialsVolumeName_def

definition bashCxeCommand :: "string list" where "bashCxeCommand = [''/bin/bash'', ''-cxe'']"

section \<open>The parts of an artifact the Pod depends on\<close>

abbreviation imageOf :: "os_artifact \<Rightarrow> image_spec" where "imageOf artifact \<equiv> osImage (osSpec artifact)"
abbreviation artifactsOf :: "os_artifact \<Rightarrow> artifact_spec option" where "artifactsOf artifact \<equiv> Artifacts (osSpec artifact)"

definition artField :: "(artifact_spec \<Rightarrow> string) \<Rightarrow> os_artifact \<Rightarrow> string" where
  "artField f artifact = (case artifactsOf artifact of None \<Rightarrow> [] | Some a \<Rightarrow> f a)"

definition cloudConfigRef :: "os_artifact \<Rightarrow> secret_key_selector option" where
  "cloudConfigRef artifact = (case artifactsOf artifact of None \<Rightarrow> None | Some a \<Rightarrow> CloudConfigRef a)"

text \<open>The architecture; the error of \<open>ArchSanitized\<close> is logged and the empty one used.\<close>

definition archOf :: "os_artifact \<Rightarrow> string" where
  "archOf artifact = (case ArchSanitized (osSpec artifact) of Inl e \<Rightarrow> [] | Inr arch \<Rightarrow> arch)"

section \<open>Filling the root file system\<close>

definition toolContainer :: "string \<Rightarrow> string \<Rightarrow> string \<Rightarrow> volume_mount list \<Rightarrow> container" where
  "toolContainer nm img script mounts = empty_container\<lparr>cImagePullPolicy := ''Always'', cName := nm, cImage := img,
     cCommand := bashCxeCommand, cArgs := [script], cVolumeMounts := mounts\<rparr>"

definition unpackCommand :: "string \<Rightarrow> bool \<Rightarrow> string \<Rightarrow> string" where
  "unpackCommand arch insecure source =
     aurorabootUnpackCmd @ (if arch \<noteq> [] then '' --arch '' @ arch else []) @
     (if insecure then '' --allow-insecure-registries'' else []) @ '' '' @ source @ '' '' @ rootfsMountPath"

definition unpackContainer :: "string \<Rightarrow> string \<Rightarrow> string \<Rightarrow> string \<Rightarrow> bool \<Rightarrow> container" where
  "unpackContainer cid containerImage pullImage arch insecure =
     toolContainer (''pull-image-'' @ cid) containerImage (unpackCommand arch insecure pullImage)
       [volumeMount rootfsVolumeName rootfsMountPath]"

definition hasEnvVar :: "env_var list \<Rightarrow> string \<Rightarrow> bool" where
  "hasEnvVar env nm = list_ex (\<lambda>e. envName e = nm) env"

definition plainEnv :: "string \<Rightarrow> string \<Rightarrow> env_var" where
  "plainEnv n v = \<lparr>envName = n, envValue = v, envFieldRef = None\<rparr>"

definition readOnlyMount :: "string \<Rightarrow> string \<Rightarrow> volume_mount" where
  "readOnlyMount n p = (volumeMount n p)\<lparr>vmReadOnly := True\<rparr>"

definition subPathMount :: "string \<Rightarrow> string \<Rightarrow> string \<Rightarrow> volume_mount" where
  "subPathMount n p sub = (volumeMount n p)\<lparr>vmSubPath := sub\<rparr>"

definition builtImageName :: "os_artifact \<Rightarrow> string" where
  "builtImageName artifact =
     (if imgBuildImage (imageOf artifact) \<noteq> None \<and> ImageRef (imgBuildImage (imageOf artifact)) \<noteq> []
      then ImageRef (imgBuildImage (imageOf artifact)) else Name (osMeta artifact))"

definition packScript :: "os_artifact \<Rightarrow> string" where
  "packScript artifact =
     (let arch = archOf artifact; artifactName = ArtifactNameFor artifact ''base'';
          unpackCmd = unpackCommand arch (PullInsecureRegistry (imageOf artifact)) (imgRef (imageOf artifact));
          packCmd = ''luet util pack'' @ (if arch \<noteq> [] then '' --arch '' @ arch @ '' --os linux'' else []) @
            '' '' @ builtImageName artifact @ '' test.tar '' @ artifactName @ ''.tar''
      in unpackCmd @ '' && tar -czvpf test.tar -C '' @ rootfsMountPath @ '' . && '' @ packCmd @
         '' && chmod +r '' @ artifactName @ ''.tar && mv '' @ artifactName @ ''.tar '' @ artifactsMountPath)"

definition credentialMounts :: "image_spec \<Rightarrow> volume_mount list" where
  "credentialMounts img = (if ImageCredentialsSecretRef img \<noteq> None
     then [readOnlyMount imageCredentialsVolumeName dockerCredsMountPath] else [])"

definition credentialEnv :: "image_spec \<Rightarrow> env_var list" where
  "credentialEnv img = (if ImageCredentialsSecretRef img \<noteq> None then [plainEnv dockerConfigEnv dockerCredsMountPath] else [])"

definition caMounts :: "image_spec \<Rightarrow> volume_mount list" where
  "caMounts img = (if CACertificatesVolume img \<noteq> []
     then [readOnlyMount (CACertificatesVolume img) caCertsMountPath] else [])"

definition unpackAndPackToArtifactsContainer :: "os_artifact \<Rightarrow> string \<Rightarrow> container" where
  "unpackAndPackToArtifactsContainer artifact toolImage =
     (let img = imageOf artifact;
          caEnv = (if CACertificatesVolume img \<noteq> [] \<and> \<not> hasEnvVar (BuildEnv img) sslCertDirEnv
                   then [plainEnv sslCertDirEnv (systemCertsPath @ '':'' @ caCertsMountPath)] else [])
      in (toolContainer ''pull-image-baseimage'' toolImage (packScript artifact)
           ([volumeMount rootfsVolumeName rootfsMountPath, volumeMount artifactsVolumeName artifactsMountPath] @
            credentialMounts img @ caMounts img))
         \<lparr>cEnv := credentialEnv img @ caEnv @ BuildEnv img\<rparr>)"

definition releaseContainer :: "string \<Rightarrow> string \<Rightarrow> container" where
  "releaseContainer file containerImage =
     toolContainer file containerImage (''cp -rfv /etc/'' @ file @ '' '' @ rootfsMountPath @ ''/etc/'' @ file)
       [subPathMount configVolumeName (''/etc/'' @ file) file, volumeMount rootfsVolumeName rootfsMountPath]"

definition osReleaseContainer :: "string \<Rightarrow> container" where
  "osReleaseContainer containerImage = releaseContainer configMapKeyOSRelease containerImage"

definition kairosReleaseContainer :: "string \<Rightarrow> container" where
  "kairosReleaseContainer containerImage = releaseContainer ''kairos-release'' containerImage"

definition imageExtractorContainer :: "string \<Rightarrow> string \<Rightarrow> os_artifact \<Rightarrow> container" where
  "imageExtractorContainer toolImage arch artifact =
     (toolContainer ''image-extractor'' toolImage
       (unpackCommand arch False
         (''ocifile:'' @ artifactsMountPath @ ''/'' @ ArtifactNameFor artifact ''base'' @ ''.tar''))
       [volumeMount rootfsVolumeName rootfsMountPath, readOnlyMount artifactsVolumeName artifactsMountPath])
     \<lparr>cResources := ResourcesFor artifact OSArtifactKindImageExtractor\<rparr>"

section \<open>Building the image\<close>

definition addPair :: "string \<Rightarrow> string \<Rightarrow> string list" where
  "addPair key v = (if v \<noteq> [] then [key @ ''='' @ v] else [])"

definition ociBuildArgPairs :: "os_artifact \<Rightarrow> string list" where
  "ociBuildArgPairs artifact = (case BuildOptions (imageOf artifact) of None \<Rightarrow> [] | Some opts \<Rightarrow>
     addPair ''VERSION'' (boVersion opts) @ addPair ''BASE_IMAGE'' (BaseImage opts) @
     addPair ''MODEL'' (boModel opts) @ addPair ''KUBERNETES_DISTRO'' (KubernetesDistro opts) @
     addPair ''KUBERNETES_VERSION'' (KubernetesVersion opts) @ addPair ''KAIROS_INIT_IMAGE'' (KairosInitImage opts) @
     (if TrustedBoot opts then addPair ''TRUSTED_BOOT'' ''true'' else []) @
     (if FIPS opts then addPair ''FIPS'' ''fips'' else []))"

text \<open>The flags the three Buildah commands share.\<close>

definition buildahAuth :: "image_spec \<Rightarrow> string list" where
  "buildahAuth img =
     (if ImageCredentialsSecretRef img \<noteq> None then [''--authfile'', dockerCredsMountPath @ ''/config.json''] else []) @
     (if CACertificatesVolume img \<noteq> [] then [''--cert-dir'', caCertsMountPath] else [])"

definition localTag :: "os_artifact \<Rightarrow> string" where
  "localTag artifact = ''localhost/'' @ ArtifactNameFor artifact ''base'' @ '':latest''"

definition budArgs :: "os_artifact \<Rightarrow> string \<Rightarrow> string list" where
  "budArgs artifact arch =
     [buildahCmd, ''bud'', ''--layers=false'', ''-f'', ''/'' @ ocispecVolumeName @ ''/'' @ OCISpecSecretKey] @
     buildahAuth (imageOf artifact) @
     (if PullInsecureRegistry (imageOf artifact) then [''--tls-verify=false''] else []) @
     (if arch \<noteq> [] then [''--arch'', arch] else []) @
     concat (map (\<lambda>pair. [''--build-arg'', pair]) (ociBuildArgPairs artifact)) @
     [''-t'', localTag artifact, ''/workspace'']"

definition pushTarArgs :: "os_artifact \<Rightarrow> string list" where
  "pushTarArgs artifact = [buildahCmd, ''push''] @ buildahAuth (imageOf artifact) @
     [localTag artifact, ''docker-archive:'' @ artifactsMountPath @ ''/'' @ ArtifactNameFor artifact ''base'' @ ''.tar'']"

definition pushRegArgs :: "os_artifact \<Rightarrow> string list" where
  "pushRegArgs artifact = [buildahCmd, ''push''] @ buildahAuth (imageOf artifact) @
     (if PushInsecureRegistry (imageOf artifact) then [''--tls-verify=false''] else []) @
     [localTag artifact, ''docker://'' @ ImageRef (imgBuildImage (imageOf artifact))]"

text \<open>\<open>quoteCommand\<close> is the library's \<open>shellescape.QuoteCommand\<close>.\<close>

definition buildahScript :: "(string list \<Rightarrow> string) \<Rightarrow> os_artifact \<Rightarrow> string \<Rightarrow> string" where
  "buildahScript quoteCommand artifact arch = Join
     ([''mkdir -p /workspace'', quoteCommand (budArgs artifact arch), quoteCommand (pushTarArgs artifact)] @
      (if Push (imageOf artifact) \<and> imgBuildImage (imageOf artifact) \<noteq> None
       then [quoteCommand (pushRegArgs artifact)] else []))
     '' && ''"

definition buildahBuildContainer :: "(string list \<Rightarrow> string) \<Rightarrow> os_artifact \<Rightarrow> string \<Rightarrow> string \<Rightarrow> string \<Rightarrow> container" where
  "buildahBuildContainer quoteCommand artifact buildContextVolume arch buildahImage =
     (let img = imageOf artifact
      in (toolContainer ''buildah-build'' buildahImage (buildahScript quoteCommand artifact arch)
           ([readOnlyMount ocispecVolumeName (''/'' @ ocispecVolumeName), volumeMount artifactsVolumeName artifactsMountPath] @
            (if buildContextVolume \<noteq> [] then [readOnlyMount buildContextVolume ''/workspace''] else []) @
            (if StorageVolume img \<noteq> []
             then [subPathMount (StorageVolume img) buildahStorageMountPath buildahStorageSubPath] else []) @
            caMounts img @ credentialMounts img))
         \<lparr>cEnv := [plainEnv ''BUILDAH_ISOLATION'' ''chroot'', plainEnv ''STORAGE_DRIVER'' ''vfs''] @
            credentialEnv img @ BuildEnv img,
          cResources := ResourcesFor artifact OSArtifactKindBuildah,
          cSecurityContext := Some (no_security\<lparr>scCapabilitiesAdd := [''SETUID'', ''SETGID''],
            scAllowPrivilegeEscalation := Some True\<rparr>)\<rparr>)"

section \<open>Building the artifacts\<close>

definition overlayMounts :: "string \<Rightarrow> string \<Rightarrow> volume_mount list" where
  "overlayMounts overlayISO overlayRootfs =
     (if overlayISO \<noteq> [] then [volumeMount overlayISO overlayISOMountPath] else []) @
     (if overlayRootfs \<noteq> [] then [volumeMount overlayRootfs overlayRootfsMountPath] else [])"

definition overlayFlags :: "string \<Rightarrow> string \<Rightarrow> string" where
  "overlayFlags overlayISO overlayRootfs =
     (if overlayISO \<noteq> [] then '' --overlay-iso '' @ overlayISOMountPath else []) @
     (if overlayRootfs \<noteq> [] then '' --overlay-rootfs '' @ overlayRootfsMountPath else [])"

definition builderVolumeMounts :: "os_artifact \<Rightarrow> volume_mount list \<times> string \<times> string" where
  "builderVolumeMounts artifact =
     (let overlayISO = artField OverlayISOVolume artifact; overlayRootfs = artField OverlayRootfsVolume artifact
      in ([volumeMount artifactsVolumeName artifactsMountPath, volumeMount rootfsVolumeName rootfsMountPath] @
          (if artField GRUBConfig artifact \<noteq> []
           then [subPathMount configVolumeName ''/iso/iso-overlay/boot/grub2/grub.cfg'' ''grub.cfg''] else []) @
          overlayMounts overlayISO overlayRootfs @
          (if artField keysVolumeOf artifact \<noteq> []
           then [volumeMount (artField keysVolumeOf artifact) ukiKeysMountPath] else []) @
          (case cloudConfigRef artifact of None \<Rightarrow> [] | Some ref \<Rightarrow>
             [subPathMount cloudConfigVolumeName cloudConfigMountPath (selKey ref)]),
          overlayISO, overlayRootfs))"

definition buildContainer :: "string \<Rightarrow> string \<Rightarrow> string \<Rightarrow> string \<Rightarrow> os_artifact \<Rightarrow> volume_mount list \<Rightarrow> container" where
  "buildContainer nm toolImage script kind artifact mounts = (toolContainer nm toolImage script mounts)
     \<lparr>cSecurityContext := Some (no_security\<lparr>scPrivileged := Some True\<rparr>), cResources := ResourcesFor artifact kind\<rparr>"

definition buildISOCommand :: "os_artifact \<Rightarrow> string \<Rightarrow> string \<Rightarrow> string \<Rightarrow> string" where
  "buildISOCommand artifact arch overlayISO overlayRootfs =
     ''auroraboot --debug build-iso'' @ '' --override-name '' @ ArtifactNameFor artifact OSArtifactKindISO @
     '' --date=false'' @ '' --output /artifacts'' @
     (if arch \<noteq> [] then '' --arch '' @ arch else []) @ overlayFlags overlayISO overlayRootfs @
     (if cloudConfigRef artifact \<noteq> None then '' --cloud-config '' @ cloudConfigMountPath else []) @ '' dir:/rootfs''"

definition makeBuildISOContainer ::
  "string \<Rightarrow> os_artifact \<Rightarrow> string \<Rightarrow> string \<Rightarrow> string \<Rightarrow> volume_mount list \<Rightarrow> container" where
  "makeBuildISOContainer toolImage artifact arch overlayISO overlayRootfs mounts =
     buildContainer ''build-iso'' toolImage (buildISOCommand artifact arch overlayISO overlayRootfs)
       OSArtifactKindISO artifact mounts"

definition ukiArtifactName :: "os_artifact \<Rightarrow> string" where
  "ukiArtifactName artifact =
     (let nm = ArtifactNameFor artifact OSArtifactKindUKI
      in if noUKI (NameOverride (osSpec artifact)) \<noteq> [] then nm else nm @ ''-uki'')"

definition buildUKICommand :: "os_artifact \<Rightarrow> string \<Rightarrow> string" where
  "buildUKICommand artifact outputType =
     (let withCloudConfig = outputType = ''iso'' \<and> cloudConfigRef artifact \<noteq> None;
          cmd = ''auroraboot --debug build-uki'' @ '' --name '' @ ukiArtifactName artifact @
            '' --output-dir '' @ artifactsMountPath @ '' --output-type '' @ outputType @
            '' --public-keys '' @ ukiKeysMountPath @
            '' --tpm-pcr-private-key '' @ ukiKeysMountPath @ ''/tpm2-pcr-private.pem'' @
            '' --sb-key '' @ ukiKeysMountPath @ ''/db.key'' @ '' --sb-cert '' @ ukiKeysMountPath @ ''/db.pem'' @
            (if withCloudConfig then '' --overlay-iso '' @ ukiCloudConfigDir else []) @ '' dir:/rootfs''
      in if withCloudConfig
         then ''mkdir -p '' @ ukiCloudConfigDir @ '' && cp '' @ cloudConfigMountPath @ '' '' @ ukiCloudConfigDir @
              ''/'' @ cloudConfigFileName @ '' && '' @ cmd
         else cmd)"

definition makeBuildUKIContainer :: "string \<Rightarrow> os_artifact \<Rightarrow> string \<Rightarrow> volume_mount list \<Rightarrow> container" where
  "makeBuildUKIContainer toolImage artifact outputType mounts =
     buildContainer (''build-uki-'' @ outputType) toolImage (buildUKICommand artifact outputType)
       OSArtifactKindUKI artifact mounts"

text \<open>A \<open>--set\<close> flag, its value in single quotes, and the disk image commands.\<close>

definition setFlag :: "string \<Rightarrow> string" where
  "setFlag s = '' --set '' @ [quote_char] @ s @ [quote_char]"

definition diskCommand :: "string \<Rightarrow> string \<Rightarrow> string \<Rightarrow> os_artifact \<Rightarrow> string" where
  "diskCommand format arch diskSize artifact =
     ''auroraboot --debug'' @ setFlag format @ setFlag ''disable_netboot=true'' @ setFlag ''disable_http_server=true'' @
     setFlag ''state_dir=/artifacts'' @ setFlag ''container_image=dir:/rootfs'' @
     (if arch \<noteq> [] then setFlag (''arch='' @ arch) else []) @
     (if diskSize \<noteq> [] then setFlag (''disk.size='' @ diskSize) else []) @
     (if cloudConfigRef artifact \<noteq> None then '' --cloud-config '' @ cloudConfigMountPath else [])"

definition renameOutput :: "string \<Rightarrow> string \<Rightarrow> string \<Rightarrow> string" where
  \<open>renameOutput ext nm newExt =
     '' && file=$(ls /artifacts/*.'' @ ext @ '' 2>/dev/null | head -n1) && [ -n "$file" ] && mv "$file" /artifacts/'' @
     nm @ ''.'' @ newExt\<close>

definition buildCloudImageCmd :: "os_artifact \<Rightarrow> string \<Rightarrow> string" where
  "buildCloudImageCmd artifact arch = diskCommand ''disk.raw=true'' arch (artField DiskSize artifact) artifact @
     renameOutput ''raw'' (ArtifactNameFor artifact OSArtifactKindCloud) ''raw''"

definition makeCloudImageContainer :: "string \<Rightarrow> os_artifact \<Rightarrow> string \<Rightarrow> volume_mount list \<Rightarrow> container" where
  "makeCloudImageContainer toolImage artifact arch mounts =
     buildContainer ''build-cloud-image'' toolImage (buildCloudImageCmd artifact arch) OSArtifactKindCloud artifact mounts"

definition isoBasenameForNetboot :: "os_artifact \<Rightarrow> string" where
  "isoBasenameForNetboot artifact = ArtifactNameFor artifact OSArtifactKindISO"

definition buildNetbootCmd :: "string \<Rightarrow> string \<Rightarrow> bool \<Rightarrow> string" where
  "buildNetbootCmd isoBasename basename removeSourceISO =
     ''auroraboot --debug netboot'' @ '' /artifacts/'' @ isoBasename @ ''.iso'' @ '' /artifacts'' @ '' '' @ basename @
     (if removeSourceISO
      then '' && rm -f /artifacts/'' @ isoBasename @ ''.iso /artifacts/'' @ isoBasename @ ''.iso.sha256'' else [])"

definition netbootURL :: "os_artifact \<Rightarrow> string" where
  "netbootURL artifact = artField NetbootURL artifact"

definition pruneSourceISO :: "os_artifact \<Rightarrow> bool" where
  "pruneSourceISO artifact = (case artifactsOf artifact of None \<Rightarrow> False | Some a \<Rightarrow>
     if artISO a then False
     else if (case UKI a of None \<Rightarrow> False | Some u \<Rightarrow> ukiISO u) \<and> ukiArtifactName artifact = isoBasenameForNetboot artifact
       then False
     else True)"

definition makeNetbootContainer :: "string \<Rightarrow> os_artifact \<Rightarrow> volume_mount list \<Rightarrow> container" where
  "makeNetbootContainer toolImage artifact mounts =
     (buildContainer ''build-netboot'' toolImage
       (buildNetbootCmd (isoBasenameForNetboot artifact) (ArtifactNameFor artifact OSArtifactKindNetboot)
         (pruneSourceISO artifact)) OSArtifactKindNetboot artifact mounts)
     \<lparr>cEnv := [plainEnv ''URL'' (netbootURL artifact)]\<rparr>"

definition buildAzureCmd :: "os_artifact \<Rightarrow> string \<Rightarrow> string" where
  "buildAzureCmd artifact arch = diskCommand ''disk.vhd=true'' arch [] artifact @
     renameOutput ''vhd'' (ArtifactNameFor artifact OSArtifactKindAzure) ''vhd''"

definition makeAzureCloudImageContainer :: "string \<Rightarrow> os_artifact \<Rightarrow> string \<Rightarrow> volume_mount list \<Rightarrow> container" where
  "makeAzureCloudImageContainer toolImage artifact arch mounts =
     buildContainer ''build-azure-cloud-image'' toolImage (buildAzureCmd artifact arch) OSArtifactKindAzure artifact mounts"

definition buildGCECmd :: "os_artifact \<Rightarrow> string \<Rightarrow> string" where
  "buildGCECmd artifact arch = diskCommand ''disk.gce=true'' arch [] artifact @
     renameOutput ''raw.gce.tar.gz'' (ArtifactNameFor artifact OSArtifactKindGCE) ''gce.tar.gz''"

definition makeGCECloudImageContainer :: "string \<Rightarrow> os_artifact \<Rightarrow> string \<Rightarrow> volume_mount list \<Rightarrow> container" where
  "makeGCECloudImageContainer toolImage artifact arch mounts =
     buildContainer ''build-gce-cloud-image'' toolImage (buildGCECmd artifact arch) OSArtifactKindGCE artifact mounts"

section \<open>Volumes\<close>

text \<open>The zero \<open>VolumeSource\<close> is \<open>OtherVolume []\<close>.\<close>

definition findVolume :: "string \<Rightarrow> volume list \<Rightarrow> volume option" where
  "findVolume nm vs = find (\<lambda>v. volName v = nm) vs"

text \<open>\<open>None\<close> is the nil dereference of the claim.\<close>

definition artifactsVolume :: "os_artifact \<Rightarrow> string option \<Rightarrow> volume option" where
  "artifactsVolume artifact pvcName =
     (if artField artVolume artifact \<noteq> [] then
        Some (case findVolume (artField artVolume artifact) (osVolumes (osSpec artifact)) of
          None \<Rightarrow> \<lparr>volName = [], volSource = OtherVolume []\<rparr>
        | Some v \<Rightarrow> \<lparr>volName = artifactsVolumeName, volSource = volSource v\<rparr>)
      else map_option (\<lambda>claim. \<lparr>volName = artifactsVolumeName, volSource = PVCVolume claim False\<rparr>) pvcName)"

definition builderPodBaseVolumes :: "os_artifact \<Rightarrow> string option \<Rightarrow> volume list option" where
  "builderPodBaseVolumes artifact pvcName = map_option (\<lambda>artifactsVol.
     [artifactsVol] @
     (if artField RootfsVolume artifact = [] then [\<lparr>volName = rootfsVolumeName, volSource = EmptyDir\<rparr>] else []) @
     [\<lparr>volName = configVolumeName, volSource = ConfigMapVolume (Name (osMeta artifact))\<rparr>])
     (artifactsVolume artifact pvcName)"

definition ociSpecVolume :: "os_artifact \<Rightarrow> volume list" where
  "ociSpecVolume artifact = (case OCISpec (imageOf artifact) of None \<Rightarrow> [] | Some o' \<Rightarrow>
     (case ociRef o' of None \<Rightarrow> [] | Some ref \<Rightarrow>
        [\<lparr>volName = ocispecVolumeName, volSource = SecretVolume (selName ref) [] None\<rparr>]))"

definition imageCredentialsVolume :: "os_artifact \<Rightarrow> volume list" where
  "imageCredentialsVolume artifact = (case ImageCredentialsSecretRef (imageOf artifact) of None \<Rightarrow> [] | Some ref \<Rightarrow>
     (let key = (if selKey ref = [] then ''.dockerconfigjson'' else selKey ref)
      in [\<lparr>volName = imageCredentialsVolumeName, volSource = SecretVolume (selName ref) [(key, ''config.json'')] None\<rparr>]))"

definition cloudConfigVolume :: "os_artifact \<Rightarrow> volume list" where
  "cloudConfigVolume artifact = (case cloudConfigRef artifact of None \<Rightarrow> [] | Some ref \<Rightarrow>
     [\<lparr>volName = cloudConfigVolumeName, volSource = SecretVolume (selName ref) [] (Some True)\<rparr>])"

definition builderVolumes :: "os_artifact \<Rightarrow> string option \<Rightarrow> volume list option" where
  "builderVolumes artifact pvcName = map_option (\<lambda>base.
     base @ ociSpecVolume artifact @ imageCredentialsVolume artifact @ cloudConfigVolume artifact @
     osVolumes (osSpec artifact)) (builderPodBaseVolumes artifact pvcName)"

definition builderImagePullSecrets :: "os_artifact \<Rightarrow> string list" where
  "builderImagePullSecrets artifact = osImagePullSecrets (osSpec artifact) @
     (case ImageCredentialsSecretRef (imageOf artifact) of None \<Rightarrow> [] | Some ref \<Rightarrow> [selName ref])"

section \<open>The Pod\<close>

text \<open>What is not under the repository: the two images, and the library's shell quoting.\<close>

record builder_config =
  ToolImage :: string
  BuildahImage :: string
  QuoteCommand :: "string list \<Rightarrow> string"

text \<open>The first stage puts the image on the artifacts volume; \<open>None\<close> is the empty Pod of the default case.\<close>

definition imageContainer :: "builder_config \<Rightarrow> os_artifact \<Rightarrow> container option" where
  "imageContainer cfg artifact =
     (let buildCtxVol = (case OCISpec (imageOf artifact) of None \<Rightarrow> [] | Some o' \<Rightarrow> BuildContextVolume o')
      in if imgRef (imageOf artifact) \<noteq> [] then Some (unpackAndPackToArtifactsContainer artifact (ToolImage cfg))
         else if hasOCISpecRef (imageOf artifact) then
           Some (buildahBuildContainer (QuoteCommand cfg) artifact buildCtxVol (archOf artifact) (BuildahImage cfg))
         else None)"

definition bundleContainers :: "builder_config \<Rightarrow> os_artifact \<Rightarrow> string list \<Rightarrow> container list" where
  "bundleContainers cfg artifact bundles = map (\<lambda>(i, bundle).
     unpackContainer (dec_nat i) (ToolImage cfg) bundle (archOf artifact) (PullInsecureRegistry (imageOf artifact)))
     (enumerate 0 bundles)"

definition ukiContainers :: "builder_config \<Rightarrow> os_artifact \<Rightarrow> artifact_spec \<Rightarrow> volume_mount list \<Rightarrow> container list" where
  "ukiContainers cfg artifact a mounts = (case UKI a of None \<Rightarrow> [] | Some u \<Rightarrow>
     (if ukiISO u then [makeBuildUKIContainer (ToolImage cfg) artifact ''iso'' mounts] else []) @
     (if ukiContainer u then [makeBuildUKIContainer (ToolImage cfg) artifact ''container'' mounts] else []) @
     (if ukiEFI u then [makeBuildUKIContainer (ToolImage cfg) artifact ''uki'' mounts] else []))"

definition artifactInits :: "builder_config \<Rightarrow> os_artifact \<Rightarrow> artifact_spec \<Rightarrow> container list" where
  "artifactInits cfg artifact a = (case builderVolumeMounts artifact of (mounts, overlayISO, overlayRootfs) \<Rightarrow>
     (if hasOCISpecRef (imageOf artifact)
      then [imageExtractorContainer (ToolImage cfg) (archOf artifact) artifact] else []) @
     bundleContainers cfg artifact (Bundles a) @
     (if OSRelease a \<noteq> [] then [osReleaseContainer (ToolImage cfg)] else []) @
     (if KairosRelease a \<noteq> [] then [kairosReleaseContainer (ToolImage cfg)] else []) @
     ukiContainers cfg artifact a mounts @
     (if artISO a \<or> Netboot a
      then [makeBuildISOContainer (ToolImage cfg) artifact (archOf artifact) overlayISO overlayRootfs mounts] else []) @
     (if Netboot a then [makeNetbootContainer (ToolImage cfg) artifact mounts] else []))"

definition artifactMains :: "builder_config \<Rightarrow> os_artifact \<Rightarrow> artifact_spec \<Rightarrow> container list" where
  "artifactMains cfg artifact a = (let mounts = fst (builderVolumeMounts artifact) in
     (if CloudImage a then [makeCloudImageContainer (ToolImage cfg) artifact (archOf artifact) mounts] else []) @
     (if AzureImage a then [makeAzureCloudImageContainer (ToolImage cfg) artifact (archOf artifact) mounts] else []) @
     (if GCEImage a then [makeGCECloudImageContainer (ToolImage cfg) artifact (archOf artifact) mounts] else []))"

definition replaceRootfsMount :: "string \<Rightarrow> string \<Rightarrow> volume_mount \<Rightarrow> volume_mount" where
  "replaceRootfsMount volumeName subPath m =
     (if vmName m = rootfsVolumeName then m\<lparr>vmName := volumeName, vmSubPath := subPath\<rparr> else m)"

definition replaceRootfsVolumeMounts :: "container list \<Rightarrow> string \<Rightarrow> string \<Rightarrow> container list" where
  "replaceRootfsVolumeMounts containers volumeName subPath =
     map (\<lambda>c. c\<lparr>cVolumeMounts := map (replaceRootfsMount volumeName subPath) (cVolumeMounts c)\<rparr>) containers"

text \<open>The sequential and the parallel containers, before the last sequential one is promoted.\<close>

definition builderContainers :: "builder_config \<Rightarrow> os_artifact \<Rightarrow> (container list \<times> container list) option" where
  "builderContainers cfg artifact = map_option (\<lambda>first.
     (let inits = Importers (osSpec artifact) @ [first] @
            (case artifactsOf artifact of None \<Rightarrow> [] | Some a \<Rightarrow> artifactInits cfg artifact a);
          mains = (case artifactsOf artifact of None \<Rightarrow> [] | Some a \<Rightarrow> artifactMains cfg artifact a);
          rootfs = artField RootfsVolume artifact
      in if rootfs \<noteq> []
         then (replaceRootfsVolumeMounts inits rootfs rootfsStorageSubPath,
               replaceRootfsVolumeMounts mains rootfs rootfsStorageSubPath)
         else (inits, mains))) (imageContainer cfg artifact)"

definition promoteLast :: "container list \<times> container list \<Rightarrow> container list \<times> container list" where
  "promoteLast cs = (case cs of (inits, mains) \<Rightarrow> if mains = [] then (butlast inits, [last inits]) else (inits, mains))"

definition empty_pod :: pod where
  "empty_pod = \<lparr>podMeta = empty_meta, podSpec = empty_pod_spec, podStatus = empty_pod_status\<rparr>"

definition builderPodLevelResources :: "os_artifact \<Rightarrow> resource_requirements option" where
  "builderPodLevelResources artifact = rsPod (osResources (osSpec artifact))"

text \<open>The sequence of containers is never empty, so the code's test for that has no branch here.\<close>

definition newBuilderPod :: "builder_config \<Rightarrow> os_artifact \<Rightarrow> string option \<Rightarrow> pod option" where
  "newBuilderPod cfg artifact pvcName = map_option (\<lambda>volumes.
     (case builderContainers cfg artifact of None \<Rightarrow> empty_pod | Some cs \<Rightarrow>
       (case promoteLast cs of (inits, mains) \<Rightarrow>
         \<lparr>podMeta = empty_meta\<lparr>GenerateName := Name (osMeta artifact) @ ''-'', Namespace := Namespace (osMeta artifact),
            Labels := PodLabels (osSpec artifact), Annotations := PodAnnotations (osSpec artifact)\<rparr>,
          podSpec = empty_pod_spec\<lparr>AutomountServiceAccountToken := Some False, RestartPolicy := ''Never'',
            Volumes := volumes, ImagePullSecrets := builderImagePullSecrets artifact,
            InitContainers := inits, Containers := mains, podNodeSelector := osNodeSelector (osSpec artifact),
            Tolerations := osTolerations (osSpec artifact), podAffinity := osAffinity (osSpec artifact),
            podResources := builderPodLevelResources artifact,
            ActiveDeadlineSeconds := osActiveDeadlineSeconds (osSpec artifact)\<rparr>,
          podStatus = empty_pod_status\<rparr>)))
     (builderVolumes artifact pvcName)"

section \<open>ConfigMap and build definition\<close>

record config_map =
  cmMeta :: object_meta
  cmData :: strmap

definition genConfigMap :: "os_artifact \<Rightarrow> config_map" where
  "genConfigMap artifact =
     \<lparr>cmMeta = empty_meta\<lparr>Name := Name (osMeta artifact), Namespace := Namespace (osMeta artifact)\<rparr>,
      cmData = [(''grub.cfg'', artField GRUBConfig artifact), (configMapKeyOSRelease, artField OSRelease artifact)]\<rparr>"

definition DefaultOCISpecBaseImageSection :: string where
  "DefaultOCISpecBaseImageSection = text_lines
     [''# base image section'',
      ''ARG BASE_IMAGE'',
      ''ARG KAIROS_INIT=v0.16.1'',
      ''ARG KAIROS_INIT_IMAGE=quay.io/kairos/kairos-init:${KAIROS_INIT}'',
      [],
      ''FROM ${KAIROS_INIT_IMAGE} AS kairos-init'',
      [],
      ''FROM ${BASE_IMAGE} AS base-kairos'',
      ''ARG MODEL=generic'',
      ''ARG TRUSTED_BOOT=false'',
      ''ARG KUBERNETES_DISTRO'',
      ''ARG KUBERNETES_VERSION'',
      ''ARG VERSION'',
      ''ARG FIPS=no-fips'']"

text \<open>A line that ends in a backslash, and the quotes of the two \<open>eval\<close> lines, escaped by one.\<close>

definition continued :: "string \<Rightarrow> string" where "continued l = l @ [CHR 0x5C]"

definition escaped_quotes :: "string \<Rightarrow> string" where
  "escaped_quotes s = [CHR 0x5C, CHR 0x22] @ s @ [CHR 0x5C, CHR 0x22]"

definition versionFlag :: "string \<Rightarrow> string" where
  \<open>versionFlag distro = '' K8S_VERSION_FLAG="--provider-'' @ distro @ ''-version '' @
     escaped_quotes ''${KUBERNETES_VERSION}'' @ ''"; ''\<close>

definition kairosInitLine :: "string \<Rightarrow> string" where
  "kairosInitLine stage = '' eval /kairos-init -l debug -s '' @ stage @ '' -m '' @ escaped_quotes ''${MODEL}'' @
     '' -t '' @ escaped_quotes ''${TRUSTED_BOOT}'' @ '' ${K8S_FLAG} ${K8S_VERSION_FLAG} --version '' @
     escaped_quotes ''${VERSION}'' @ '' '' @ escaped_quotes ''${FIPS_FLAG}'' @ '' && ''"

definition DefaultOCISpecKairosInitSection :: string where
  \<open>DefaultOCISpecKairosInitSection = text_lines
     [''# kairos init section'',
      ''COPY --from=kairos-init /kairos-init /kairos-init'',
      continued ''RUN if [ -n "${KUBERNETES_DISTRO}" ]; then '',
      continued '' K8S_FLAG="-p ${KUBERNETES_DISTRO}"; '',
      continued '' if [ "${KUBERNETES_DISTRO}" = "k0s" ] && [ -n "${KUBERNETES_VERSION}" ]; then '',
      continued (versionFlag ''k0s''),
      continued '' elif [ "${KUBERNETES_DISTRO}" = "k3s" ] && [ -n "${KUBERNETES_VERSION}" ]; then '',
      continued (versionFlag ''k3s''),
      continued '' else '',
      continued '' K8S_VERSION_FLAG=""; '',
      continued '' fi; '',
      continued '' else '',
      continued '' K8S_FLAG=""; '',
      continued '' K8S_VERSION_FLAG=""; '',
      continued '' fi; '',
      continued '' if [ "$FIPS" = "fips" ]; then FIPS_FLAG="--fips"; else FIPS_FLAG=""; fi; '',
      continued (kairosInitLine ''install''),
      continued (kairosInitLine ''init''),
      '' rm /kairos-init'']\<close>

definition AssembleFinalOCISpec :: "bool \<Rightarrow> string \<Rightarrow> string" where
  "AssembleFinalOCISpec buildOptionsSet middleContent =
     (if \<not> buildOptionsSet then middleContent
      else if middleContent \<noteq> [] then
        DefaultOCISpecBaseImageSection @ newline @ middleContent @ newline @ DefaultOCISpecKairosInitSection
      else DefaultOCISpecBaseImageSection @ newline @ DefaultOCISpecKairosInitSection)"

end
