(* ===== verification/OSArtifactBuild.thy ===== *)
theory OSArtifactBuild
  imports OSArtifactPod
begin

text \<open>
  What the validation of an OSArtifact and its builder Pod promise together: a declarative reading
  of \<open>Validate\<close>, mounts that resolve, and the files one build step hands to the next.
\<close>

section \<open>A declarative reading of the validation\<close>

text \<open>A reference to a volume of the spec, which may be left empty.\<close>

definition refOk :: "os_artifact_spec \<Rightarrow> string \<Rightarrow> bool" where
  "refOk s nm \<longleftrightarrow> nm = [] \<or> nm \<in> declared s"

definition volumesOk :: "os_artifact_spec \<Rightarrow> bool" where
  "volumesOk s \<longleftrightarrow> distinct (map volName (osVolumes s)) \<and> [] \<notin> declared s \<and>
     declared s \<inter> set reservedVolumeNames = {}"

text \<open>Building needs a definition, a destination for the push, and its volumes.\<close>

definition buildOk :: "os_artifact_spec \<Rightarrow> image_spec \<Rightarrow> bool" where
  "buildOk s img \<longleftrightarrow> (BuildOptions img \<noteq> None \<or> hasOCISpecRef img) \<and>
     (Push img \<longrightarrow> (\<exists>b. imgBuildImage img = Some b \<and> \<not> incompleteBuildImage b)) \<and>
     (\<forall>b. BuildOptions img = Some b \<longrightarrow> boVersion b \<noteq> [] \<and> BaseImage b \<noteq> []) \<and>
     (\<forall>o'. OCISpec img = Some o' \<longrightarrow> refOk s (BuildContextVolume o')) \<and> refOk s (StorageVolume img)"

definition imageOk :: "os_artifact_spec \<Rightarrow> image_spec \<Rightarrow> bool" where
  "imageOk s img \<longleftrightarrow> refOk s (CACertificatesVolume img) \<and>
     (case imgBuildImage img of None \<Rightarrow> True | Some b \<Rightarrow>
        imgRef img = [] \<and> (incompleteBuildImage b \<longrightarrow> Registry b = [] \<and> Repository b = [] \<and> Tag b = [])) \<and>
     (imgRef img = [] \<longrightarrow> buildOk s img)"

definition artifactsOk :: "os_artifact_spec \<Rightarrow> artifact_spec \<Rightarrow> bool" where
  "artifactsOk s a \<longleftrightarrow> (hasStandard a \<or> hasUKI a) \<and>
     refOk s (OverlayISOVolume a) \<and> refOk s (OverlayRootfsVolume a) \<and> refOk s (artVolume a) \<and> refOk s (RootfsVolume a) \<and>
     (artVolume a \<noteq> [] \<longrightarrow> artVolume a \<noteq> RootfsVolume a \<and>
        (imgRef (osImage s) = [] \<longrightarrow> artVolume a \<noteq> StorageVolume (osImage s))) \<and>
     (hasUKI a \<longrightarrow> keysVolumeOf a \<noteq> [] \<and> keysVolumeOf a \<in> declared s) \<and>
     \<not> ((case UKI a of None \<Rightarrow> False | Some u \<Rightarrow> ukiISO u) \<and> (artISO a \<or> Netboot a) \<and>
        noUKI (NameOverride s) \<noteq> [] \<and> noUKI (NameOverride s) = noISO (NameOverride s))"

definition validSpec :: "os_artifact_spec \<Rightarrow> bool" where
  "validSpec s \<longleftrightarrow> volumesOk s \<and> imageOk s (osImage s) \<and>
     (imgRef (osImage s) \<noteq> [] \<longrightarrow> Artifacts s \<noteq> None) \<and> (\<forall>a. Artifacts s = Some a \<longrightarrow> artifactsOk s a)"

lemma ImageRef_Some: "ImageRef (Some b) \<noteq> []"
  by (simp add: ImageRef_def)

lemma imageOk_iff:
  assumes "set names = declared s"
  shows "validateImageSpec img names = Inr () \<longleftrightarrow> imageOk s img"
proof (cases "imgRef img = []")
  case False
  with assms show ?thesis
    by (cases "imgBuildImage img") (auto simp: validateImageSpec_def imageOk_def refOk_def ImageRef_Some Let_def)
next
  case True
  have "validateImageSpec img names = Inr () \<longleftrightarrow>
      (case imgBuildImage img of None \<Rightarrow> True | Some b \<Rightarrow>
         incompleteBuildImage b \<longrightarrow> Registry b = [] \<and> Repository b = [] \<and> Tag b = []) \<and>
      refOk s (CACertificatesVolume img) \<and> buildOk s img"
    using True assms unfolding validateImageSpec_def buildOk_def refOk_def Let_def
    by (cases "imgBuildImage img"; cases "BuildOptions img"; cases "OCISpec img")
      (auto split: if_splits)
  with True show ?thesis by (auto simp: imageOk_def split: option.splits)
qed

lemma artifactsOk_iff:
  assumes "set names = declared s"
  shows "validateArtifactSpec s a names = Inr () \<longleftrightarrow> artifactsOk s a"
proof -
  have r: "validateArtifactVolumeRefs a names = Inr () \<longleftrightarrow>
      refOk s (OverlayISOVolume a) \<and> refOk s (OverlayRootfsVolume a) \<and> refOk s (artVolume a) \<and> refOk s (RootfsVolume a)"
    unfolding validateArtifactVolumeRefs_def validateRefs_ok refOk_def using assms by auto
  have al: "validateArtifactAliasing s a = Inr () \<longleftrightarrow> (artVolume a \<noteq> [] \<longrightarrow> artVolume a \<noteq> RootfsVolume a \<and>
      (imgRef (osImage s) = [] \<longrightarrow> artVolume a \<noteq> StorageVolume (osImage s)))"
    by (auto simp: validateArtifactAliasing_def)
  show ?thesis
  proof (cases "validateArtifactVolumeRefs a names = Inr () \<and> validateArtifactAliasing s a = Inr ()")
    case False
    then have "\<not> artifactsOk s a" unfolding r al artifactsOk_def by blast
    moreover have "validateArtifactSpec s a names \<noteq> Inr ()"
      using False by (auto simp: validateArtifactSpec_def split: sum.splits)
    ultimately show ?thesis by blast
  next
    case True
    with assms have "validateArtifactSpec s a names = Inr () \<longleftrightarrow> (hasStandard a \<or> hasUKI a) \<and>
        (hasUKI a \<longrightarrow> keysVolumeOf a \<noteq> [] \<and> keysVolumeOf a \<in> declared s) \<and>
        \<not> ((case UKI a of None \<Rightarrow> False | Some u \<Rightarrow> ukiISO u) \<and> (artISO a \<or> Netboot a) \<and>
           noUKI (NameOverride s) \<noteq> [] \<and> noUKI (NameOverride s) = noISO (NameOverride s))"
      by (simp add: validateArtifactSpec_def) auto
    with True show ?thesis unfolding r al artifactsOk_def by blast
  qed
qed

lemma Validate_iff: "Validate s = Inr () \<longleftrightarrow> validSpec s"
proof (cases "checkVolumes 0 [] (osVolumes s)")
  case (Inl e)
  then have "\<not> volumesOk s"
    using checkVolumes_ok [of 0 "[]" "osVolumes s" "rev (map volName (osVolumes s))"] by (force simp: volumesOk_def)
  with Inl show ?thesis by (simp add: Validate_def validSpec_def)
next
  case (Inr names)
  then have ok: "volumesOk s" and n: "set names = declared s"
    using checkVolumes_ok [of 0 "[]" "osVolumes s" names] by (auto simp: volumesOk_def)
  show ?thesis
  proof (cases "validateImageSpec (osImage s) names")
    case (Inl e)
    with Inr imageOk_iff [OF n, of "osImage s"] show ?thesis by (simp add: Validate_def validSpec_def)
  next
    case img: (Inr u)
    then have "imageOk s (osImage s)" using imageOk_iff [OF n, of "osImage s"] by simp
    with Inr img ok artifactsOk_iff [OF n] show ?thesis
      by (cases "Artifacts s") (simp_all add: Validate_def validSpec_def)
  qed
qed

text \<open>
  The same against the comments of the API. \<open>apiRules\<close> are the demands the comments of
  \<open>osartifact_types.go\<close> make and \<open>Validate\<close> enforces: named, distinct volumes with no reserved name;
  every volume that is used names one of them; without \<open>ref\<close> one of \<open>buildOptions\<close> and \<open>ociSpec.ref\<close>;
  \<open>buildImage\<close> only without \<open>ref\<close>, and complete when it is not empty; a version in \<open>buildOptions\<close>; an output volume
  of its own; keys for signed outputs.
\<close>

definition usedVolumes :: "os_artifact_spec \<Rightarrow> string set" where
  "usedVolumes s = {CACertificatesVolume (osImage s)} \<union>
     (if imgRef (osImage s) \<noteq> [] then {} else insert (StorageVolume (osImage s))
        (case OCISpec (osImage s) of None \<Rightarrow> {} | Some o' \<Rightarrow> {BuildContextVolume o'})) \<union>
     (case Artifacts s of None \<Rightarrow> {} | Some a \<Rightarrow>
        {OverlayISOVolume a, OverlayRootfsVolume a, artVolume a, RootfsVolume a} \<union> (if hasUKI a then {keysVolumeOf a} else {}))"

definition apiRules :: "os_artifact_spec \<Rightarrow> bool" where
  "apiRules s \<longleftrightarrow> volumesOk s \<and> usedVolumes s - {[]} \<subseteq> declared s \<and>
     (imgRef (osImage s) = [] \<longrightarrow> BuildOptions (osImage s) \<noteq> None \<or> hasOCISpecRef (osImage s)) \<and>
     (\<forall>b. imgBuildImage (osImage s) = Some b \<longrightarrow> imgRef (osImage s) = [] \<and>
        (incompleteBuildImage b \<longrightarrow> b = \<lparr>Registry = [], Repository = [], Tag = []\<rparr>)) \<and>
     (\<forall>b. BuildOptions (osImage s) = Some b \<longrightarrow> imgRef (osImage s) = [] \<longrightarrow> boVersion b \<noteq> []) \<and>
     (\<forall>a. Artifacts s = Some a \<longrightarrow> (artVolume a \<noteq> [] \<longrightarrow> artVolume a \<noteq> RootfsVolume a \<and>
          (imgRef (osImage s) = [] \<longrightarrow> artVolume a \<noteq> StorageVolume (osImage s))) \<and>
        (hasUKI a \<longrightarrow> keysVolumeOf a \<noteq> []))"

text \<open>
  What \<open>Validate\<close> demands beyond them. The first and the fourth contradict the comments, which call \<open>baseImage\<close>
  optional and allow artifacts without an enabled type; the comments do not mention the others.
\<close>

definition extraRules :: "os_artifact_spec \<Rightarrow> bool" where
  "extraRules s \<longleftrightarrow>
     (\<forall>b. BuildOptions (osImage s) = Some b \<longrightarrow> imgRef (osImage s) = [] \<longrightarrow> BaseImage b \<noteq> []) \<and>
     (imgRef (osImage s) = [] \<longrightarrow> Push (osImage s) \<longrightarrow>
        (\<exists>b. imgBuildImage (osImage s) = Some b \<and> \<not> incompleteBuildImage b)) \<and>
     (imgRef (osImage s) \<noteq> [] \<longrightarrow> Artifacts s \<noteq> None) \<and>
     (\<forall>a. Artifacts s = Some a \<longrightarrow> (hasStandard a \<or> hasUKI a) \<and>
        (\<forall>u. UKI a = Some u \<longrightarrow> ukiISO u \<longrightarrow> artISO a \<or> Netboot a \<longrightarrow>
           noUKI (NameOverride s) \<noteq> [] \<longrightarrow> noUKI (NameOverride s) \<noteq> noISO (NameOverride s)))"

lemma validSpec_rules: "validSpec s \<longleftrightarrow> apiRules s \<and> extraRules s"
proof -
  have b: "b = \<lparr>Registry = [], Repository = [], Tag = []\<rparr> \<longleftrightarrow> Registry b = [] \<and> Repository b = [] \<and> Tag b = []" for b :: build_image
    by (cases b) simp
  have i: "imageOk s (osImage s) \<longleftrightarrow>
      refOk s (CACertificatesVolume (osImage s)) \<and>
      (imgRef (osImage s) = [] \<longrightarrow> refOk s (StorageVolume (osImage s)) \<and>
         (\<forall>o'. OCISpec (osImage s) = Some o' \<longrightarrow> refOk s (BuildContextVolume o')) \<and>
         (BuildOptions (osImage s) \<noteq> None \<or> hasOCISpecRef (osImage s)) \<and>
         (Push (osImage s) \<longrightarrow> (\<exists>b. imgBuildImage (osImage s) = Some b \<and> \<not> incompleteBuildImage b))) \<and>
      (\<forall>b. imgBuildImage (osImage s) = Some b \<longrightarrow> imgRef (osImage s) = [] \<and>
        (incompleteBuildImage b \<longrightarrow> b = \<lparr>Registry = [], Repository = [], Tag = []\<rparr>)) \<and>
      (\<forall>b. BuildOptions (osImage s) = Some b \<longrightarrow> imgRef (osImage s) = [] \<longrightarrow> boVersion b \<noteq> [] \<and> BaseImage b \<noteq> [])"
    unfolding imageOk_def buildOk_def b by (cases "imgBuildImage (osImage s)") auto
  have u: "usedVolumes s - {[]} \<subseteq> declared s \<longleftrightarrow> refOk s (CACertificatesVolume (osImage s)) \<and>
      (imgRef (osImage s) = [] \<longrightarrow> refOk s (StorageVolume (osImage s)) \<and>
         (\<forall>o'. OCISpec (osImage s) = Some o' \<longrightarrow> refOk s (BuildContextVolume o'))) \<and>
      (\<forall>a. Artifacts s = Some a \<longrightarrow> refOk s (OverlayISOVolume a) \<and> refOk s (OverlayRootfsVolume a) \<and>
         refOk s (artVolume a) \<and> refOk s (RootfsVolume a) \<and> (hasUKI a \<longrightarrow> refOk s (keysVolumeOf a)))"
    unfolding usedVolumes_def refOk_def by (cases "Artifacts s"; cases "OCISpec (osImage s)") auto
  have v: "artifactsOk s a \<longleftrightarrow> (hasStandard a \<or> hasUKI a) \<and>
      refOk s (OverlayISOVolume a) \<and> refOk s (OverlayRootfsVolume a) \<and> refOk s (artVolume a) \<and> refOk s (RootfsVolume a) \<and>
      (hasUKI a \<longrightarrow> refOk s (keysVolumeOf a)) \<and> (hasUKI a \<longrightarrow> keysVolumeOf a \<noteq> []) \<and>
      (artVolume a \<noteq> [] \<longrightarrow> artVolume a \<noteq> RootfsVolume a \<and> (imgRef (osImage s) = [] \<longrightarrow> artVolume a \<noteq> StorageVolume (osImage s))) \<and>
      (\<forall>u. UKI a = Some u \<longrightarrow> ukiISO u \<longrightarrow> artISO a \<or> Netboot a \<longrightarrow>
        noUKI (NameOverride s) \<noteq> [] \<longrightarrow> noUKI (NameOverride s) \<noteq> noISO (NameOverride s))" for a
  proof -
    have "\<not> ((case UKI a of None \<Rightarrow> False | Some u \<Rightarrow> ukiISO u) \<and> (artISO a \<or> Netboot a) \<and>
          noUKI (NameOverride s) \<noteq> [] \<and> noUKI (NameOverride s) = noISO (NameOverride s)) \<longleftrightarrow>
        (\<forall>u. UKI a = Some u \<longrightarrow> ukiISO u \<longrightarrow> artISO a \<or> Netboot a \<longrightarrow>
          noUKI (NameOverride s) \<noteq> [] \<longrightarrow> noUKI (NameOverride s) \<noteq> noISO (NameOverride s))"
      by (cases "UKI a") (simp_all, blast)
    moreover have "(hasUKI a \<longrightarrow> keysVolumeOf a \<noteq> [] \<and> keysVolumeOf a \<in> declared s) \<longleftrightarrow>
        (hasUKI a \<longrightarrow> refOk s (keysVolumeOf a)) \<and> (hasUKI a \<longrightarrow> keysVolumeOf a \<noteq> [])"
      by (auto simp: refOk_def)
    ultimately show ?thesis unfolding artifactsOk_def by (simp only: conj_ac)
  qed
  show ?thesis
    unfolding validSpec_def apiRules_def extraRules_def i u v imp_conjR all_conj_distrib
    by (rule iffI; elim conjE; intro conjI; assumption)
qed

text \<open>
  C26. \<open>Validate\<close> accepts a spec exactly when it keeps the rules the comments of the API state, all but two,
  and five more that the comments do not state: a base image in \<open>buildOptions\<close>, a complete \<open>buildImage\<close> for a
  push, artifacts with a pre-built image, at least one enabled type in the artifacts, and name
  overrides that differ where the signed and the unsigned ISO are built. Among the stated rules it
  does not enforce are \<open>ociSpec.ref\<close> beside \<open>buildOptions\<close>, and \<open>uki.keysVolume\<close> without a signed output;
  the markers of the API (enumerations, patterns) are checked by the API server, not by \<open>Validate\<close>.
\<close>

theorem Validate_iff_rules: "Validate s = Inr () \<longleftrightarrow> apiRules s \<and> extraRules s"
  unfolding Validate_iff validSpec_rules ..

section \<open>Mounts\<close>

abbreviation mountNames :: "container \<Rightarrow> string set" where
  "mountNames c \<equiv> vmName ` set (cVolumeMounts c)"

text \<open>The volumes the operator adds to the Pod; the root file system's only without a volume for it.\<close>

definition operatorVolumes :: "os_artifact \<Rightarrow> string set" where
  "operatorVolumes artifact = {artifactsVolumeName, configVolumeName} \<union>
     (if hasOCISpecRef (imageOf artifact) then {ocispecVolumeName} else {}) \<union>
     (if ImageCredentialsSecretRef (imageOf artifact) \<noteq> None then {imageCredentialsVolumeName} else {}) \<union>
     (if cloudConfigRef artifact \<noteq> None then {cloudConfigVolumeName} else {})"

abbreviation declaredIn :: "os_artifact \<Rightarrow> string set" where
  "declaredIn artifact \<equiv> declared (osSpec artifact)"

text \<open>What a container may mount before the root file system's volume is replaced.\<close>

definition mountable :: "os_artifact \<Rightarrow> string set" where
  "mountable artifact = insert rootfsVolumeName (operatorVolumes artifact \<union> declaredIn artifact)"

lemma mount_fields [simp]:
  "vmName (volumeMount n p) = n" "vmName (readOnlyMount n p) = n" "vmName (subPathMount n p sub) = n"
  "vmSubPath (volumeMount n p) = []" "vmSubPath (readOnlyMount n p) = []" "vmSubPath (subPathMount n p sub) = sub"
  by (simp_all add: volumeMount_def readOnlyMount_def subPathMount_def)

lemma tool_fields [simp]:
  "cVolumeMounts (toolContainer nm img script mounts) = mounts" "cName (toolContainer nm img script mounts) = nm"
  "cArgs (toolContainer nm img script mounts) = [script]"
  "cVolumeMounts (buildContainer nm img script kind artifact mounts) = mounts"
  "cName (buildContainer nm img script kind artifact mounts) = nm"
  "cArgs (buildContainer nm img script kind artifact mounts) = [script]"
  by (simp_all add: toolContainer_def buildContainer_def)

lemma operator_mountable:
  "artifactsVolumeName \<in> mountable artifact" "rootfsVolumeName \<in> mountable artifact"
  "configVolumeName \<in> mountable artifact"
  "hasOCISpecRef (imageOf artifact) \<Longrightarrow> ocispecVolumeName \<in> mountable artifact"
  "ImageCredentialsSecretRef (imageOf artifact) \<noteq> None \<Longrightarrow> imageCredentialsVolumeName \<in> mountable artifact"
  "cloudConfigRef artifact \<noteq> None \<Longrightarrow> cloudConfigVolumeName \<in> mountable artifact"
  "n \<in> declaredIn artifact \<Longrightarrow> n \<in> mountable artifact"
  by (auto simp: mountable_def operatorVolumes_def)

text \<open>The one reference the validation leaves out: signing keys no output asks for.\<close>

definition keysRefOk :: "os_artifact \<Rightarrow> bool" where
  "keysRefOk artifact \<longleftrightarrow> refOk (osSpec artifact) (artField keysVolumeOf artifact)"

abbreviation keysMountable :: "os_artifact \<Rightarrow> bool" where
  "keysMountable artifact \<equiv> artField keysVolumeOf artifact \<noteq> [] \<longrightarrow> artField keysVolumeOf artifact \<in> mountable artifact"

text \<open>What nobody validates: the keys volume of a spec without signed outputs, and the importers' mounts.\<close>

definition mountsKnown :: "os_artifact \<Rightarrow> bool" where
  "mountsKnown artifact \<longleftrightarrow> keysMountable artifact \<and> (\<forall>c \<in> set (Importers (osSpec artifact)). mountNames c \<subseteq> mountable artifact)"

lemma artField_refs:
  assumes "Validate (osSpec artifact) = Inr ()"
  shows "refOk (osSpec artifact) (artField OverlayISOVolume artifact)"
    "refOk (osSpec artifact) (artField OverlayRootfsVolume artifact)"
    "refOk (osSpec artifact) (artField artVolume artifact)" "refOk (osSpec artifact) (artField RootfsVolume artifact)"
  using Validate_artifacts [OF assms] by (auto simp: artField_def refOk_def split: option.splits)

lemma builder_mounts:
  assumes "Validate (osSpec artifact) = Inr ()" and "keysMountable artifact"
  shows "vmName ` set (fst (builderVolumeMounts artifact)) \<subseteq> mountable artifact"
proof -
  have "vmName ` set (overlayMounts (artField OverlayISOVolume artifact) (artField OverlayRootfsVolume artifact)) \<subseteq>
      mountable artifact"
    using artField_refs [OF assms(1)] by (auto simp: overlayMounts_def refOk_def intro: operator_mountable(7))
  moreover have "artField keysVolumeOf artifact \<noteq> [] \<Longrightarrow> artField keysVolumeOf artifact \<in> mountable artifact"
    using assms(2) by blast
  moreover have "cloudConfigRef artifact = Some ref \<Longrightarrow> cloudConfigVolumeName \<in> mountable artifact" for ref
    by (simp add: operator_mountable)
  ultimately show ?thesis
    by (cases "cloudConfigRef artifact") (auto simp: builderVolumeMounts_def Let_def operator_mountable)
qed

lemma caMounts_in:
  assumes "Validate (osSpec artifact) = Inr ()"
  shows "vmName ` set (caMounts (imageOf artifact)) \<subseteq> mountable artifact"
  using Validate_image(1) [OF assms] by (auto simp: caMounts_def intro: operator_mountable(7))

lemma credentialMounts_in: "vmName ` set (credentialMounts (imageOf artifact)) \<subseteq> mountable artifact"
  by (auto simp: credentialMounts_def operator_mountable)

lemma imageContainer_mounts:
  assumes "Validate (osSpec artifact) = Inr ()" and "imageContainer cfg artifact = Some c"
  shows "mountNames c \<subseteq> mountable artifact"
proof (cases "imgRef (imageOf artifact) = []")
  case False
  with assms(2) have "c = unpackAndPackToArtifactsContainer artifact (ToolImage cfg)" by (simp add: imageContainer_def Let_def)
  then show ?thesis
    using caMounts_in [OF assms(1)] credentialMounts_in [of artifact]
    by (simp add: unpackAndPackToArtifactsContainer_def Let_def operator_mountable image_Un)
next
  case True
  define ctx where "ctx = (case OCISpec (imageOf artifact) of None \<Rightarrow> [] | Some o' \<Rightarrow> BuildContextVolume o')"
  from True assms(2) have r: "hasOCISpecRef (imageOf artifact)" and
    c: "c = buildahBuildContainer (QuoteCommand cfg) artifact ctx (archOf artifact) (BuildahImage cfg)"
    by (auto simp: imageContainer_def ctx_def Let_def split: if_splits)
  have "ctx \<noteq> [] \<Longrightarrow> ctx \<in> mountable artifact"
    using Validate_image(3) [OF assms(1) True] by (auto simp: ctx_def split: option.splits intro: operator_mountable(7))
  moreover have "StorageVolume (imageOf artifact) \<noteq> [] \<Longrightarrow> StorageVolume (imageOf artifact) \<in> mountable artifact"
    using Validate_image(4) [OF assms(1) True] by (auto intro: operator_mountable(7))
  ultimately show ?thesis
    using caMounts_in [OF assms(1)] credentialMounts_in [of artifact] operator_mountable(1) operator_mountable(4) [OF r]
    unfolding c by (auto simp: buildahBuildContainer_def Let_def)
qed

lemma artifactInits_mounts:
  assumes "Validate (osSpec artifact) = Inr ()" and "keysMountable artifact" and "c \<in> set (artifactInits cfg artifact a)"
  shows "mountNames c \<subseteq> mountable artifact"
proof -
  obtain mounts oi orf where m: "builderVolumeMounts artifact = (mounts, oi, orf)" by (metis prod_cases3)
  with builder_mounts [OF assms(1,2)] have "vmName ` set mounts \<subseteq> mountable artifact" by simp
  with assms(3) m show ?thesis
    by (auto simp: artifactInits_def imageExtractorContainer_def bundleContainers_def unpackContainer_def
        osReleaseContainer_def kairosReleaseContainer_def releaseContainer_def ukiContainers_def makeBuildUKIContainer_def
        makeBuildISOContainer_def makeNetbootContainer_def operator_mountable split: if_splits option.splits)
qed

lemma artifactMains_mounts:
  assumes "Validate (osSpec artifact) = Inr ()" and "keysMountable artifact" and "c \<in> set (artifactMains cfg artifact a)"
  shows "mountNames c \<subseteq> mountable artifact"
  using builder_mounts [OF assms(1,2)] assms(3)
  by (auto simp: artifactMains_def makeCloudImageContainer_def makeAzureCloudImageContainer_def
      makeGCECloudImageContainer_def Let_def split: if_splits)

text \<open>The containers after the root file system's volume is replaced.\<close>

definition podVolumeNames :: "os_artifact \<Rightarrow> string set" where
  "podVolumeNames artifact = (if artField RootfsVolume artifact = [] then {rootfsVolumeName} else {}) \<union>
     operatorVolumes artifact \<union> declaredIn artifact"

lemma replaced_mounts:
  assumes "\<And>c. c \<in> set cs \<Longrightarrow> mountNames c \<subseteq> insert rootfsVolumeName S" and "r \<in> S"
    and "c \<in> set (replaceRootfsVolumeMounts cs r sub)"
  shows "mountNames c \<subseteq> S"
proof
  from assms(3) obtain c0 where c0: "c0 \<in> set cs" and
    c: "cVolumeMounts c = map (replaceRootfsMount r sub) (cVolumeMounts c0)"
    by (auto simp: replaceRootfsVolumeMounts_def)
  fix n
  assume "n \<in> mountNames c"
  then obtain m where m: "m \<in> set (cVolumeMounts c0)" and n: "n = vmName (replaceRootfsMount r sub m)" by (auto simp: c)
  from assms(1) [OF c0] m have "vmName m \<in> insert rootfsVolumeName S" by blast
  with assms(2) n show "n \<in> S" by (auto simp: replaceRootfsMount_def)
qed

definition importersOk :: "os_artifact \<Rightarrow> bool" where
  "importersOk artifact \<longleftrightarrow> (\<forall>c \<in> set (Importers (osSpec artifact)).
     mountNames c \<subseteq> declaredIn artifact \<union> {artifactsVolumeName, rootfsVolumeName, configVolumeName})"

lemma importers_mounts: "importersOk artifact \<Longrightarrow> c \<in> set (Importers (osSpec artifact)) \<Longrightarrow> mountNames c \<subseteq> mountable artifact"
proof (rule order_trans)
  assume "importersOk artifact" "c \<in> set (Importers (osSpec artifact))"
  then show "mountNames c \<subseteq> declaredIn artifact \<union> {artifactsVolumeName, rootfsVolumeName, configVolumeName}"
    unfolding importersOk_def by (rule bspec)
qed (auto simp: mountable_def operatorVolumes_def)

text \<open>All the containers of the Pod, before the root file system's volume is replaced.\<close>

definition plannedContainers :: "builder_config \<Rightarrow> os_artifact \<Rightarrow> container \<Rightarrow> container list" where
  "plannedContainers cfg artifact first = Importers (osSpec artifact) @ [first] @
     (case artifactsOf artifact of None \<Rightarrow> [] | Some a \<Rightarrow> artifactInits cfg artifact a @ artifactMains cfg artifact a)"

lemma builderContainers_planned:
  assumes "imageContainer cfg artifact = Some first" and "builderContainers cfg artifact = Some (inits, mains)"
  shows "set (inits @ mains) = (if artField RootfsVolume artifact = [] then set (plannedContainers cfg artifact first)
    else set (replaceRootfsVolumeMounts (plannedContainers cfg artifact first) (artField RootfsVolume artifact) rootfsStorageSubPath))"
  using assms
  by (cases "artifactsOf artifact") (auto simp: builderContainers_def plannedContainers_def replaceRootfsVolumeMounts_def Let_def split: if_splits)

lemma replaced_keeps_mounts:
  assumes "c \<in> set cs" and "n \<in> mountNames c" and "n \<noteq> rootfsVolumeName"
  shows "\<exists>c' \<in> set (replaceRootfsVolumeMounts cs r sub). n \<in> mountNames c'"
proof -
  from assms(2) obtain m where m: "m \<in> set (cVolumeMounts c)" "n = vmName m" by blast
  let ?c = "c\<lparr>cVolumeMounts := map (replaceRootfsMount r sub) (cVolumeMounts c)\<rparr>"
  from m assms(3) have "n \<in> mountNames ?c" by (force simp: replaceRootfsMount_def)
  moreover have "?c \<in> set (replaceRootfsVolumeMounts cs r sub)" using assms(1) by (simp add: replaceRootfsVolumeMounts_def)
  ultimately show ?thesis by blast
qed

lemma builderContainers_resolve:
  assumes "Validate (osSpec artifact) = Inr ()" and "imageContainer cfg artifact = Some first"
    and "builderContainers cfg artifact = Some (inits, mains)"
  shows "(\<forall>c \<in> set (inits @ mains). mountNames c \<subseteq> podVolumeNames artifact) \<longleftrightarrow>
    (\<forall>c \<in> set (plannedContainers cfg artifact first). mountNames c \<subseteq> mountable artifact)"
proof (cases "artField RootfsVolume artifact = []")
  case True
  with builderContainers_planned [OF assms(2,3)] show ?thesis by (simp add: podVolumeNames_def mountable_def)
next
  case False
  let ?r = "artField RootfsVolume artifact"
  have m: "mountable artifact = insert rootfsVolumeName (podVolumeNames artifact)" by (simp add: False podVolumeNames_def mountable_def)
  have r: "?r \<in> podVolumeNames artifact"
    using artField_refs(4) [OF assms(1)] False by (auto simp: refOk_def podVolumeNames_def)
  have planned: "set (inits @ mains) = set (replaceRootfsVolumeMounts (plannedContainers cfg artifact first) ?r rootfsStorageSubPath)"
    using builderContainers_planned [OF assms(2,3)] False by simp
  show ?thesis unfolding planned m
  proof (intro iffI ballI)
    fix c
    assume "\<forall>c \<in> set (plannedContainers cfg artifact first). mountNames c \<subseteq> insert rootfsVolumeName (podVolumeNames artifact)"
      "c \<in> set (replaceRootfsVolumeMounts (plannedContainers cfg artifact first) ?r rootfsStorageSubPath)"
    with r show "mountNames c \<subseteq> podVolumeNames artifact" by (intro replaced_mounts [OF _ r]) auto
  next
    fix c
    assume all: "\<forall>c \<in> set (replaceRootfsVolumeMounts (plannedContainers cfg artifact first) ?r rootfsStorageSubPath).
        mountNames c \<subseteq> podVolumeNames artifact" and c: "c \<in> set (plannedContainers cfg artifact first)"
    show "mountNames c \<subseteq> insert rootfsVolumeName (podVolumeNames artifact)"
    proof
      fix n
      assume n: "n \<in> mountNames c"
      show "n \<in> insert rootfsVolumeName (podVolumeNames artifact)"
        using replaced_keeps_mounts [OF c n, of ?r rootfsStorageSubPath] all by blast
    qed
  qed
qed

text \<open>Some step mounts what the artifact steps share, whenever a type of artifact is enabled that needs no keys.\<close>

lemma builder_mounts_used:
  assumes "hasStandard a"
  shows "\<exists>c \<in> set (artifactInits cfg artifact a @ artifactMains cfg artifact a). set (fst (builderVolumeMounts artifact)) \<subseteq> set (cVolumeMounts c)"
proof -
  obtain mounts oi orf where bm: "builderVolumeMounts artifact = (mounts, oi, orf)" by (metis prod_cases3)
  from assms show ?thesis
    by (auto simp: hasStandard_def bm artifactInits_def artifactMains_def makeBuildISOContainer_def makeCloudImageContainer_def
        makeAzureCloudImageContainer_def makeGCECloudImageContainer_def makeNetbootContainer_def)
qed

lemma keys_mounted:
  assumes "artField keysVolumeOf artifact \<noteq> []"
  shows "artField keysVolumeOf artifact \<in> vmName ` set (fst (builderVolumeMounts artifact))"
  using assms by (force simp: builderVolumeMounts_def Let_def)

lemma planned_mountable:
  assumes "Validate (osSpec artifact) = Inr ()" and "imageContainer cfg artifact = Some first"
  shows "(\<forall>c \<in> set (plannedContainers cfg artifact first). mountNames c \<subseteq> mountable artifact) \<longleftrightarrow> mountsKnown artifact"
proof (intro iffI ballI)
  fix c
  assume k: "mountsKnown artifact" and "c \<in> set (plannedContainers cfg artifact first)"
  then consider "c \<in> set (Importers (osSpec artifact))" | "c = first"
    | a where "artifactsOf artifact = Some a" "c \<in> set (artifactInits cfg artifact a)"
    | a where "artifactsOf artifact = Some a" "c \<in> set (artifactMains cfg artifact a)"
    by (cases "artifactsOf artifact") (auto simp: plannedContainers_def)
  then show "mountNames c \<subseteq> mountable artifact"
    using k imageContainer_mounts [OF assms] artifactInits_mounts [OF assms(1)] artifactMains_mounts [OF assms(1)]
    by cases (auto simp: mountsKnown_def)
next
  assume all: "\<forall>c \<in> set (plannedContainers cfg artifact first). mountNames c \<subseteq> mountable artifact"
  have "artField keysVolumeOf artifact \<in> mountable artifact" if ne: "artField keysVolumeOf artifact \<noteq> []"
  proof -
    from ne obtain a where a: "artifactsOf artifact = Some a" by (auto simp: artField_def split: option.splits)
    then have ok: "artifactsOk (osSpec artifact) a" using assms(1) by (simp add: Validate_iff validSpec_def)
    show ?thesis
    proof (cases "hasUKI a")
      case True
      with ok have "artField keysVolumeOf artifact \<in> declaredIn artifact" by (simp add: artifactsOk_def artField_def a)
      then show ?thesis by (rule operator_mountable(7))
    next
      case False
      with ok have "hasStandard a" by (simp add: artifactsOk_def)
      from builder_mounts_used [OF this, of cfg artifact] obtain c where
        c: "c \<in> set (plannedContainers cfg artifact first)" "set (fst (builderVolumeMounts artifact)) \<subseteq> set (cVolumeMounts c)"
        by (auto simp: plannedContainers_def a)
      from keys_mounted [OF ne] c(2) have "artField keysVolumeOf artifact \<in> mountNames c" by blast
      with all c(1) show ?thesis by blast
    qed
  qed
  with all show "mountsKnown artifact" by (simp add: mountsKnown_def plannedContainers_def)
qed

lemma known_refs: "keysRefOk artifact \<Longrightarrow> importersOk artifact \<Longrightarrow> mountsKnown artifact"
  using importers_mounts [of artifact] by (auto simp: mountsKnown_def keysRefOk_def refOk_def intro: operator_mountable(7))

lemma promoteLast_same:
  assumes "inits \<noteq> []" and "promoteLast (inits, mains) = (i, m)"
  shows "i @ m = inits @ mains" and "m \<noteq> []"
  using assms by (auto simp: promoteLast_def split: if_splits)

lemma builderContainers_inits: "builderContainers cfg artifact = Some (inits, mains) \<Longrightarrow> inits \<noteq> []"
  by (auto simp: builderContainers_def replaceRootfsVolumeMounts_def Let_def split: if_splits)

lemma artifactsVolume_name:
  assumes "Validate (osSpec artifact) = Inr ()" and "artifactsVolume artifact pvcName = Some av"
  shows "volName av = artifactsVolumeName"
proof (cases "artField artVolume artifact = []")
  case True
  with assms(2) show ?thesis by (auto simp: artifactsVolume_def)
next
  case False
  with artField_refs(3) [OF assms(1)] have "findVolume (artField artVolume artifact) (osVolumes (osSpec artifact)) \<noteq> None"
    by (auto simp: refOk_def findVolume_def find_None_iff)
  with False assms(2) show ?thesis by (auto simp: artifactsVolume_def)
qed

lemma builderVolumes_names:
  assumes "Validate (osSpec artifact) = Inr ()" and "builderVolumes artifact pvcName = Some vs"
  shows "volName ` set vs = podVolumeNames artifact"
proof -
  from assms(2) obtain av where av: "artifactsVolume artifact pvcName = Some av"
    by (auto simp: builderVolumes_def builderPodBaseVolumes_def)
  have "volName av = artifactsVolumeName" using assms(1) av by (rule artifactsVolume_name)
  with assms(2) av show ?thesis
    by (auto simp: builderVolumes_def builderPodBaseVolumes_def podVolumeNames_def operatorVolumes_def hasOCISpecRef_def
        ociSpecVolume_def imageCredentialsVolume_def cloudConfigVolume_def Let_def split: option.splits)
qed

lemma builderVolumes_distinct:
  assumes "Validate (osSpec artifact) = Inr ()" and "builderVolumes artifact pvcName = Some vs"
  shows "distinct (map volName vs) \<longleftrightarrow>
    (ImageCredentialsSecretRef (imageOf artifact) \<noteq> None \<longrightarrow> imageCredentialsVolumeName \<notin> declaredIn artifact)"
proof -
  from assms(2) obtain av where av: "artifactsVolume artifact pvcName = Some av"
    by (auto simp: builderVolumes_def builderPodBaseVolumes_def)
  have n: "volName av = artifactsVolumeName" using assms(1) av by (rule artifactsVolume_name)
  have o: "map volName (ociSpecVolume artifact) = (if hasOCISpecRef (imageOf artifact) then [ocispecVolumeName] else [])"
    "map volName (imageCredentialsVolume artifact) =
      (if ImageCredentialsSecretRef (imageOf artifact) \<noteq> None then [imageCredentialsVolumeName] else [])"
    "map volName (cloudConfigVolume artifact) = (if cloudConfigRef artifact \<noteq> None then [cloudConfigVolumeName] else [])"
    by (simp_all add: ociSpecVolume_def imageCredentialsVolume_def cloudConfigVolume_def hasOCISpecRef_def Let_def split: option.split)
  have "map volName vs = artifactsVolumeName # (if artField RootfsVolume artifact = [] then [rootfsVolumeName] else []) @
      configVolumeName # map volName (ociSpecVolume artifact) @ map volName (imageCredentialsVolume artifact) @
      map volName (cloudConfigVolume artifact) @ map volName (osVolumes (osSpec artifact))"
    using assms(2) av n by (auto simp: builderVolumes_def builderPodBaseVolumes_def)
  moreover have "distinct (map volName (osVolumes (osSpec artifact)))" by (rule Validate_volumes(1) [OF assms(1)])
  moreover have "artifactsVolumeName \<notin> declaredIn artifact" "rootfsVolumeName \<notin> declaredIn artifact" "configVolumeName \<notin> declaredIn artifact"
    "ocispecVolumeName \<notin> declaredIn artifact" "cloudConfigVolumeName \<notin> declaredIn artifact"
    using Validate_volumes(2) [OF assms(1)] by (simp_all add: reservedVolumeNames_def volume_names)
  ultimately show ?thesis unfolding o by (simp add: volume_names)
qed

section \<open>The Pod of a valid spec\<close>

lemma newBuilderPod_None:
  "newBuilderPod cfg artifact pvcName = None \<longleftrightarrow> artField artVolume artifact = [] \<and> pvcName = None"
  by (auto simp: newBuilderPod_def builderVolumes_def builderPodBaseVolumes_def artifactsVolume_def)

lemma builder_pod_ok:
  assumes "Validate (osSpec artifact) = Inr ()" and "newBuilderPod cfg artifact pvcName = Some pod"
    and "imgRef (imageOf artifact) \<noteq> [] \<or> hasOCISpecRef (imageOf artifact)"
  shows "Containers (podSpec pod) \<noteq> []" "mountsResolve (podSpec pod) \<longleftrightarrow> mountsKnown artifact"
    "distinct (map volName (Volumes (podSpec pod))) \<longleftrightarrow>
      (ImageCredentialsSecretRef (imageOf artifact) \<noteq> None \<longrightarrow> imageCredentialsVolumeName \<notin> declaredIn artifact)"
proof -
  from assms(2) obtain vs where vs: "builderVolumes artifact pvcName = Some vs" by (auto simp: newBuilderPod_def)
  from assms(3) have "imageContainer cfg artifact \<noteq> None" by (auto simp: imageContainer_def Let_def)
  then obtain first where f: "imageContainer cfg artifact = Some first" by blast
  then obtain inits mains where bc: "builderContainers cfg artifact = Some (inits, mains)"
    by (cases "builderContainers cfg artifact") (auto simp: builderContainers_def)
  obtain i m where p: "promoteLast (inits, mains) = (i, m)" by (cases "promoteLast (inits, mains)")
  note same = promoteLast_same [OF builderContainers_inits [OF bc] p]
  from assms(2) have fields: "Containers (podSpec pod) = m" "InitContainers (podSpec pod) = i" "Volumes (podSpec pod) = vs"
    by (auto simp: newBuilderPod_def vs bc p)
  show "Containers (podSpec pod) \<noteq> []" by (simp add: fields same(2))
  have "mountsResolve (podSpec pod) \<longleftrightarrow> (\<forall>c \<in> set (inits @ mains). mountNames c \<subseteq> podVolumeNames artifact)"
    unfolding mountsResolve_def list_all_iff fields same(1) builderVolumes_names [OF assms(1) vs] by blast
  then show "mountsResolve (podSpec pod) \<longleftrightarrow> mountsKnown artifact"
    unfolding builderContainers_resolve [OF assms(1) f bc] planned_mountable [OF assms(1) f] .
  show "distinct (map volName (Volumes (podSpec pod))) \<longleftrightarrow>
      (ImageCredentialsSecretRef (imageOf artifact) \<noteq> None \<longrightarrow> imageCredentialsVolumeName \<notin> declaredIn artifact)"
    unfolding fields by (rule builderVolumes_distinct [OF assms(1) vs])
qed

text \<open>
  C27. Of a valid spec \<open>newBuilderPod\<close> makes a Pod exactly when it is given a claim or the spec names an
  artifacts volume; otherwise it dereferences a nil claim. Without an image reference and without a
  build definition the Pod is empty. With one of them the Pod has a container; every mount of every
  container names a volume of the Pod exactly when the two things the validation leaves out do, the
  keys volume (of a spec without signed outputs) and the mounts of the importers; and no two
  volumes share a name unless the user's volumes take the one operator name that is not reserved
  while the operator uses it.
\<close>

theorem builder_pod_mounts_resolve:
  assumes "Validate (osSpec artifact) = Inr ()"
  shows "(newBuilderPod cfg artifact pvcName = None \<longleftrightarrow> artField artVolume artifact = [] \<and> pvcName = None) \<and>
    (\<forall>pod. newBuilderPod cfg artifact pvcName = Some pod \<longrightarrow>
      (if imgRef (imageOf artifact) = [] \<and> \<not> hasOCISpecRef (imageOf artifact) then pod = empty_pod
       else Containers (podSpec pod) \<noteq> [] \<and> (mountsResolve (podSpec pod) \<longleftrightarrow> mountsKnown artifact) \<and>
         (distinct (map volName (Volumes (podSpec pod))) \<longleftrightarrow>
           (ImageCredentialsSecretRef (imageOf artifact) \<noteq> None \<longrightarrow> imageCredentialsVolumeName \<notin> declaredIn artifact))))"
proof (intro conjI allI impI newBuilderPod_None)
  fix pod
  assume pod: "newBuilderPod cfg artifact pvcName = Some pod"
  show "if imgRef (imageOf artifact) = [] \<and> \<not> hasOCISpecRef (imageOf artifact) then pod = empty_pod
       else Containers (podSpec pod) \<noteq> [] \<and> (mountsResolve (podSpec pod) \<longleftrightarrow> mountsKnown artifact) \<and>
         (distinct (map volName (Volumes (podSpec pod))) \<longleftrightarrow>
           (ImageCredentialsSecretRef (imageOf artifact) \<noteq> None \<longrightarrow> imageCredentialsVolumeName \<notin> declaredIn artifact))"
  proof (cases "imgRef (imageOf artifact) = [] \<and> \<not> hasOCISpecRef (imageOf artifact)")
    case True
    with pod show ?thesis by (auto simp: newBuilderPod_def builderContainers_def imageContainer_def)
  next
    case False
    then have "imgRef (imageOf artifact) \<noteq> [] \<or> hasOCISpecRef (imageOf artifact)" by blast
    note ok = builder_pod_ok [OF assms pod this]
    show ?thesis unfolding if_not_P [OF False] by (intro conjI ok)
  qed
qed

definition sample_image :: image_spec where
  "sample_image = \<lparr>imgRef = ''quay.io/kairos/hadron:v1'', BuildOptions = None, OCISpec = None, imgBuildImage = None,
     Push = False, ImageCredentialsSecretRef = None, BuildEnv = [], CACertificatesVolume = [], StorageVolume = [],
     PullInsecureRegistry = False, PushInsecureRegistry = False\<rparr>"

definition sample_artifacts :: artifact_spec where
  "sample_artifacts = \<lparr>artArch = [], artISO = False, DiskSize = [], CloudImage = True, AzureImage = False, GCEImage = False,
     Netboot = True, NetbootURL = [], CloudConfigRef = None, GRUBConfig = ''set timeout=1'', Bundles = [''b1''],
     OSRelease = ''ID=x'', KairosRelease = [], OverlayISOVolume = ''files'', OverlayRootfsVolume = [], UKI = None,
     artVolume = [], RootfsVolume = ''files''\<rparr>"

definition no_overrides :: name_override_spec where
  "no_overrides = \<lparr>noISO = [], noCloudImage = [], noAzureImage = [], noGCEImage = [], noNetboot = [], noUKI = []\<rparr>"

definition sample_artifact :: os_artifact where
  "sample_artifact = \<lparr>osMeta = empty_meta\<lparr>Name := ''a1'', Namespace := ''ns1'', UID := ''u1''\<rparr>,
     osSpec = \<lparr>osImage = sample_image, Artifacts = Some sample_artifacts, osImagePullSecrets = [], Exporters = [],
       osVolume = None, osNodeSelector = [], osTolerations = [], osAffinity = None, PodLabels = [], PodAnnotations = [],
       osResources = \<lparr>rsISO = None, rsCloudImage = None, rsAzureImage = None, rsGCEImage = None, rsNetboot = None,
         rsUKI = None, rsBuildah = None, rsImageExtractor = None, rsPod = None\<rparr>,
       osActiveDeadlineSeconds = None, osVolumes = [\<lparr>volName = ''files'', volSource = HostPath ''/srv''\<rparr>],
       Importers = [], NameOverride = no_overrides\<rparr>,
     osStatus = \<lparr>osPhase = Pending, osMessage = []\<rparr>\<rparr>"

lemmas sample_defs = sample_artifact_def sample_image_def sample_artifacts_def no_overrides_def

lemma sample_valid: "Validate (osSpec sample_artifact) = Inr ()"
  by (simp add: Validate_iff validSpec_def volumesOk_def imageOk_def artifactsOk_def refOk_def hasStandard_def
      hasUKI_def reservedVolumeNames_def sample_defs)

lemma sample_refs: "keysRefOk sample_artifact" "importersOk sample_artifact"
  by (simp_all add: keysRefOk_def refOk_def artField_def keysVolumeOf_def importersOk_def sample_defs)

lemma sample_known: "mountsKnown sample_artifact"
  by (rule known_refs) (rule sample_refs)+

lemma sample_pod:
  obtains pod where "newBuilderPod cfg sample_artifact (Some claim) = Some pod"
  using newBuilderPod_None [of cfg sample_artifact "Some claim"] by auto

theorem builder_pod_mounts_resolve_witness:
  "\<exists>pod. newBuilderPod \<lparr>ToolImage = ''t'', BuildahImage = ''b'', QuoteCommand = (\<lambda>ws. Join ws '' '')\<rparr> sample_artifact
     (Some ''a1-artifacts'') = Some pod \<and> Containers (podSpec pod) \<noteq> [] \<and> mountsResolve (podSpec pod)"
proof -
  let ?cfg = "\<lparr>ToolImage = ''t'', BuildahImage = ''b'', QuoteCommand = (\<lambda>ws. Join ws '' '')\<rparr>"
  obtain pod where pod: "newBuilderPod ?cfg sample_artifact (Some ''a1-artifacts'') = Some pod" by (rule sample_pod)
  have "imgRef (imageOf sample_artifact) \<noteq> []" by (simp add: sample_defs)
  with builder_pod_mounts_resolve [OF sample_valid, of ?cfg "Some ''a1-artifacts''"] pod sample_known show ?thesis by simp
qed

text \<open>
  The reference left out matters: a spec with signing keys but no signed output passes \<open>Validate\<close>
  with a keys volume that does not exist, and its builder Pod mounts it.
\<close>

definition keys_artifact :: os_artifact where
  "keys_artifact = sample_artifact\<lparr>osSpec := (osSpec sample_artifact)\<lparr>Artifacts := Some (sample_artifacts\<lparr>
     UKI := Some \<lparr>ukiISO = False, ukiContainer = False, ukiEFI = False, KeysVolume = ''keys''\<rparr>\<rparr>)\<rparr>\<rparr>"

theorem unused_keys_volume_dangles:
  "Validate (osSpec keys_artifact) = Inr () \<and>
   (\<exists>pod. newBuilderPod cfg keys_artifact (Some claim) = Some pod \<and> \<not> mountsResolve (podSpec pod))"
proof
  show v: "Validate (osSpec keys_artifact) = Inr ()"
    by (simp add: Validate_iff validSpec_def volumesOk_def imageOk_def artifactsOk_def refOk_def hasStandard_def
        hasUKI_def reservedVolumeNames_def keys_artifact_def sample_defs)
  obtain pod where pod: "newBuilderPod cfg keys_artifact (Some claim) = Some pod"
    using newBuilderPod_None [of cfg keys_artifact "Some claim"] by auto
  have k: "artField keysVolumeOf keys_artifact = ''keys''" by (simp add: artField_def keysVolumeOf_def keys_artifact_def sample_defs)
  have "\<not> mountsKnown keys_artifact"
    unfolding mountsKnown_def k
    by (simp add: mountable_def operatorVolumes_def hasOCISpecRef_def cloudConfigRef_def volume_names keys_artifact_def sample_defs)
  moreover have "imgRef (imageOf keys_artifact) \<noteq> []" by (simp add: keys_artifact_def sample_defs)
  ultimately show "\<exists>pod. newBuilderPod cfg keys_artifact (Some claim) = Some pod \<and> \<not> mountsResolve (podSpec pod)"
    using pod builder_pod_ok(2) [OF v pod] by blast
qed

section \<open>The files one step hands to the next\<close>

text \<open>
  Netboot files are extracted from an ISO an earlier step of the same Pod has built under the name
  they are extracted from. It is deleted afterwards only when neither the unsigned nor the signed
  ISO the user asked for has this name.
\<close>

theorem netboot_reads_built_iso:
  assumes "newBuilderPod cfg artifact pvcName = Some pod" and "artifactsOf artifact = Some a" and "Netboot a"
    and "imgRef (imageOf artifact) \<noteq> [] \<or> hasOCISpecRef (imageOf artifact)"
  shows "\<exists>pre iso net post arch oi orf. InitContainers (podSpec pod) @ Containers (podSpec pod) = pre @ iso # net # post \<and>
    iso \<in> set (InitContainers (podSpec pod)) \<and>
    cArgs iso = [buildISOCommand artifact arch oi orf] \<and>
    cArgs net = [buildNetbootCmd (ArtifactNameFor artifact OSArtifactKindISO)
      (ArtifactNameFor artifact OSArtifactKindNetboot) (pruneSourceISO artifact)] \<and>
    (pruneSourceISO artifact \<longrightarrow> \<not> artISO a \<and>
       ((case UKI a of None \<Rightarrow> False | Some u \<Rightarrow> ukiISO u) \<longrightarrow> ukiArtifactName artifact \<noteq> ArtifactNameFor artifact OSArtifactKindISO))"
proof -
  from assms(4) have "imageContainer cfg artifact \<noteq> None" by (auto simp: imageContainer_def Let_def)
  then obtain inits mains where bc: "builderContainers cfg artifact = Some (inits, mains)"
    by (cases "builderContainers cfg artifact") (auto simp: builderContainers_def)
  obtain i m where p: "promoteLast (inits, mains) = (i, m)" by (cases "promoteLast (inits, mains)")
  obtain mounts oi orf where bm: "builderVolumeMounts artifact = (mounts, oi, orf)" by (metis prod_cases3)
  define iso0 where "iso0 = makeBuildISOContainer (ToolImage cfg) artifact (archOf artifact) oi orf mounts"
  define net0 where "net0 = makeNetbootContainer (ToolImage cfg) artifact mounts"
  have "\<exists>pre. artifactInits cfg artifact a = pre @ [iso0, net0]"
    using assms(3) by (simp add: artifactInits_def bm iso0_def net0_def)
  then obtain pre0 where ai: "artifactInits cfg artifact a = pre0 @ [iso0, net0]" ..
  have "\<exists>pre iso net. inits = pre @ [iso, net] \<and> cArgs iso = cArgs iso0 \<and> cArgs net = cArgs net0"
    using bc assms(2) ai by (auto simp: builderContainers_def replaceRootfsVolumeMounts_def Let_def split: if_splits)
  then obtain pre iso net where inits: "inits = pre @ [iso, net]" "cArgs iso = cArgs iso0" "cArgs net = cArgs net0" by blast
  from p inits(1) have "i @ m = pre @ iso # net # mains" "iso \<in> set i"
    by (auto simp: promoteLast_def butlast_append split: if_splits)
  moreover have "InitContainers (podSpec pod) = i" "Containers (podSpec pod) = m"
    using assms(1) by (auto simp: newBuilderPod_def bc p)
  moreover have "cArgs iso = [buildISOCommand artifact (archOf artifact) oi orf]"
    by (simp add: inits iso0_def makeBuildISOContainer_def)
  moreover have "cArgs net = [buildNetbootCmd (ArtifactNameFor artifact OSArtifactKindISO)
      (ArtifactNameFor artifact OSArtifactKindNetboot) (pruneSourceISO artifact)]"
    by (simp add: inits net0_def makeNetbootContainer_def isoBasenameForNetboot_def)
  moreover have "pruneSourceISO artifact \<longrightarrow> \<not> artISO a \<and>
      ((case UKI a of None \<Rightarrow> False | Some u \<Rightarrow> ukiISO u) \<longrightarrow> ukiArtifactName artifact \<noteq> ArtifactNameFor artifact OSArtifactKindISO)"
    using assms(2) by (auto simp: pruneSourceISO_def isoBasenameForNetboot_def)
  ultimately show ?thesis by metis
qed

theorem netboot_reads_built_iso_witness:
  "\<exists>pod pre iso net post. newBuilderPod \<lparr>ToolImage = ''t'', BuildahImage = ''b'', QuoteCommand = (\<lambda>ws. Join ws '' '')\<rparr>
       sample_artifact (Some ''c'') = Some pod \<and>
     InitContainers (podSpec pod) @ Containers (podSpec pod) = pre @ iso # net # post \<and> iso \<in> set (InitContainers (podSpec pod)) \<and>
     cArgs net = [buildNetbootCmd ''a1'' ''a1'' True]"
proof -
  let ?cfg = "\<lparr>ToolImage = ''t'', BuildahImage = ''b'', QuoteCommand = (\<lambda>ws. Join ws '' '')\<rparr>"
  have r: "imgRef (imageOf sample_artifact) \<noteq> []" by (simp add: sample_defs)
  have "\<exists>pod. newBuilderPod ?cfg sample_artifact (Some ''c'') = Some pod"
    by (simp add: newBuilderPod_def builderVolumes_def builderPodBaseVolumes_def artifactsVolume_def artField_def sample_defs)
  then obtain pod where pod: "newBuilderPod ?cfg sample_artifact (Some ''c'') = Some pod" ..
  have a: "artifactsOf sample_artifact = Some sample_artifacts" "Netboot sample_artifacts" by (simp_all add: sample_defs)
  have n: "ArtifactNameFor sample_artifact OSArtifactKindISO = ''a1''"
    "ArtifactNameFor sample_artifact OSArtifactKindNetboot = ''a1''" "pruneSourceISO sample_artifact"
    by (simp_all add: ArtifactNameFor_def artifact_kinds orDefault_def pruneSourceISO_def sample_defs empty_meta_def Let_def)
  show ?thesis
    using netboot_reads_built_iso [OF pod a] r pod n by auto
qed

text \<open>
  When a valid spec asks for a signed ISO and for an unsigned one (or netboot, which builds one),
  both builds write the same file exactly in two cases the validation does not see: the name
  override of the signed one is the artifact's own name while the unsigned one has no override,
  or the unsigned one is overridden to the artifact's name followed by "-uki".
\<close>

theorem uki_iso_collision:
  assumes "Validate (osSpec artifact) = Inr ()" and "artifactsOf artifact = Some a" and "UKI a = Some u"
    and "ukiISO u" and "artISO a \<or> Netboot a"
  shows "ukiArtifactName artifact = ArtifactNameFor artifact OSArtifactKindISO \<longleftrightarrow>
    (let o' = NameOverride (osSpec artifact); n = Name (osMeta artifact) in
     (noUKI o' \<noteq> [] \<and> noUKI o' = n \<and> noISO o' = []) \<or> (noUKI o' = [] \<and> noISO o' = n @ ''-uki''))"
proof -
  have "noUKI (NameOverride (osSpec artifact)) \<noteq> [] \<Longrightarrow>
      noUKI (NameOverride (osSpec artifact)) \<noteq> noISO (NameOverride (osSpec artifact))"
    using assms by (auto simp: Validate_iff validSpec_def artifactsOk_def)
  moreover have "x \<noteq> x @ ''-uki''" "x @ ''-uki'' \<noteq> x" for x :: string by simp_all
  ultimately show ?thesis
    by (auto simp: ukiArtifactName_def ArtifactNameFor_def artifact_kinds orDefault_def Let_def)
qed

definition colliding_artifact :: os_artifact where
  "colliding_artifact = sample_artifact\<lparr>osSpec := (osSpec sample_artifact)\<lparr>
     Artifacts := Some (sample_artifacts\<lparr>artISO := True,
       UKI := Some \<lparr>ukiISO = True, ukiContainer = False, ukiEFI = False, KeysVolume = ''files''\<rparr>\<rparr>),
     NameOverride := no_overrides\<lparr>noUKI := ''a1''\<rparr>\<rparr>\<rparr>"

theorem uki_iso_collision_witness:
  "Validate (osSpec colliding_artifact) = Inr () \<and>
   ukiArtifactName colliding_artifact = ArtifactNameFor colliding_artifact OSArtifactKindISO"
proof -
  have v: "Validate (osSpec colliding_artifact) = Inr ()"
    by (simp add: Validate_iff validSpec_def volumesOk_def imageOk_def artifactsOk_def refOk_def hasStandard_def
        hasUKI_def keysVolumeOf_def reservedVolumeNames_def colliding_artifact_def sample_defs)
  have a: "artifactsOf colliding_artifact = Some (the (artifactsOf colliding_artifact))"
    "UKI (the (artifactsOf colliding_artifact)) = Some \<lparr>ukiISO = True, ukiContainer = False, ukiEFI = False, KeysVolume = ''files''\<rparr>"
    "artISO (the (artifactsOf colliding_artifact)) \<or> Netboot (the (artifactsOf colliding_artifact))"
    by (simp_all add: colliding_artifact_def sample_defs)
  from uki_iso_collision [OF v a(1,2) _ a(3)] v show ?thesis
    by (simp add: colliding_artifact_def sample_defs empty_meta_def Let_def)
qed

section \<open>Files from the ConfigMap\<close>

lemma refOk_not_config:
  assumes "Validate s = Inr ()" and "refOk s n" and "n \<noteq> []"
  shows "n \<noteq> configVolumeName"
proof
  assume "n = configVolumeName"
  then have "n \<in> set reservedVolumeNames" by (simp add: reservedVolumeNames_def configVolumeName_def)
  moreover have "n \<in> declared s" using assms(2,3) by (simp add: refOk_def)
  ultimately show False using Validate_volumes(2) [OF assms(1)] by blast
qed

lemma operator_not_config:
  "artifactsVolumeName \<noteq> configVolumeName" "rootfsVolumeName \<noteq> configVolumeName" "cloudConfigVolumeName \<noteq> configVolumeName"
  by (simp_all add: volume_names)

text \<open>A mount of the ConfigMap takes a key that \<open>genConfigMap\<close> writes.\<close>

definition keyWritten :: "os_artifact \<Rightarrow> volume_mount \<Rightarrow> bool" where
  "keyWritten artifact m \<longleftrightarrow> (vmName m = configVolumeName \<longrightarrow> has_key (vmSubPath m) (cmData (genConfigMap artifact)))"

lemma keyWritten_other [simp]: "vmName m \<noteq> configVolumeName \<Longrightarrow> keyWritten artifact m"
  by (simp add: keyWritten_def)

lemma keyWritten_keys:
  "keyWritten artifact (subPathMount configVolumeName p ''grub.cfg'')"
  "keyWritten artifact (subPathMount configVolumeName p configMapKeyOSRelease)"
  by (simp_all add: keyWritten_def genConfigMap_def has_key_def configMapKeyOSRelease_def)

lemma builder_mounts_written:
  assumes "Validate (osSpec artifact) = Inr ()" and "keysRefOk artifact" and "m \<in> set (fst (builderVolumeMounts artifact))"
  shows "keyWritten artifact m"
  using assms(3) refOk_not_config [OF assms(1)] artField_refs [OF assms(1)] assms(2)
  by (auto simp: builderVolumeMounts_def overlayMounts_def keysRefOk_def keyWritten_keys operator_not_config Let_def
      split: if_splits option.splits)

text \<open>
  Every file an artifact step takes from the ConfigMap is one that \<open>genConfigMap\<close> writes, except
  the kairos-release file: a spec with kairosRelease has a step that mounts a key the ConfigMap
  never has.
\<close>

theorem configmap_keys_mounted:
  assumes "Validate (osSpec artifact) = Inr ()" and "keysRefOk artifact" and "artifactsOf artifact = Some a"
  shows "(\<forall>c \<in> set (artifactInits cfg artifact a @ artifactMains cfg artifact a). c \<noteq> kairosReleaseContainer (ToolImage cfg) \<longrightarrow>
      (\<forall>m \<in> set (cVolumeMounts c). keyWritten artifact m)) \<and>
    (KairosRelease a \<noteq> [] \<longrightarrow> kairosReleaseContainer (ToolImage cfg) \<in> set (artifactInits cfg artifact a) \<and>
      (\<exists>m \<in> set (cVolumeMounts (kairosReleaseContainer (ToolImage cfg))). \<not> keyWritten artifact m))"
proof (intro conjI ballI impI)
  fix c m
  assume c: "c \<in> set (artifactInits cfg artifact a @ artifactMains cfg artifact a)"
    "c \<noteq> kairosReleaseContainer (ToolImage cfg)" and m: "m \<in> set (cVolumeMounts c)"
  obtain mounts oi orf where bm: "builderVolumeMounts artifact = (mounts, oi, orf)" by (metis prod_cases3)
  consider "m \<in> set mounts" | "vmName m \<noteq> configVolumeName" | "c = osReleaseContainer (ToolImage cfg)"
    using c m by (auto simp: artifactInits_def artifactMains_def bm imageExtractorContainer_def bundleContainers_def
        unpackContainer_def ukiContainers_def makeBuildUKIContainer_def makeBuildISOContainer_def makeNetbootContainer_def
        makeCloudImageContainer_def makeAzureCloudImageContainer_def makeGCECloudImageContainer_def operator_not_config
        split: if_splits option.splits)
  then show "keyWritten artifact m"
  proof cases
    case 1
    with builder_mounts_written [OF assms(1,2)] bm show ?thesis by simp
  next
    case 3
    with m show ?thesis by (auto simp: osReleaseContainer_def releaseContainer_def keyWritten_keys operator_not_config)
  qed simp
next
  assume "KairosRelease a \<noteq> []"
  then show "kairosReleaseContainer (ToolImage cfg) \<in> set (artifactInits cfg artifact a)"
    by (cases "builderVolumeMounts artifact") (simp add: artifactInits_def)
next
  show "\<exists>m \<in> set (cVolumeMounts (kairosReleaseContainer (ToolImage cfg))). \<not> keyWritten artifact m"
    by (simp add: kairosReleaseContainer_def releaseContainer_def keyWritten_def genConfigMap_def has_key_def
        configMapKeyOSRelease_def)
qed

theorem configmap_keys_mounted_witness:
  "\<exists>c \<in> set (artifactInits \<lparr>ToolImage = ''t'', BuildahImage = ''b'', QuoteCommand = concat\<rparr> sample_artifact sample_artifacts).
     cName c = ''os-release'' \<and> (\<forall>m \<in> set (cVolumeMounts c). keyWritten sample_artifact m)"
proof -
  let ?cfg = "\<lparr>ToolImage = ''t'', BuildahImage = ''b'', QuoteCommand = concat\<rparr>"
  have a: "artifactsOf sample_artifact = Some sample_artifacts" by (simp add: sample_defs)
  have "osReleaseContainer ''t'' \<in> set (artifactInits ?cfg sample_artifact sample_artifacts)"
    by (cases "builderVolumeMounts sample_artifact") (simp add: artifactInits_def sample_artifacts_def)
  moreover have n: "cName (osReleaseContainer ''t'') = ''os-release''" "cName (kairosReleaseContainer ''t'') = ''kairos-release''"
    by (simp_all add: osReleaseContainer_def kairosReleaseContainer_def releaseContainer_def configMapKeyOSRelease_def)
  moreover from n have "osReleaseContainer ''t'' \<noteq> kairosReleaseContainer ''t''" by auto
  ultimately show ?thesis
    using configmap_keys_mounted [OF sample_valid sample_refs(1) a, of ?cfg] by auto
qed

end
