(* ===== verification/Effects.thy ===== *)
theory Effects
  imports Prelude
begin

text \<open>
  Programs with effects: a request tree, its executions, and a weakest-precondition
  calculus over them. Every controller of the development is a \<open>prog\<close> over its own type of
  requests and responses.
\<close>

section \<open>Request trees\<close>

datatype (dead 'q, dead 'r, 'a) prog =
    Ret 'a
  | Call 'q "'r \<Rightarrow> ('q, 'r, 'a) prog"

primrec bind :: "('q, 'r, 'a) prog \<Rightarrow> ('a \<Rightarrow> ('q, 'r, 'b) prog) \<Rightarrow> ('q, 'r, 'b) prog" where
  "bind (Ret a) f = f a"
| "bind (Call q k) f = Call q (\<lambda>r. bind (k r) f)"

lemma bind_Ret_right [simp]: "bind m Ret = m"
  by (induction m) auto

lemma bind_assoc: "bind (bind m f) g = bind m (\<lambda>x. bind (f x) g)"
  by (induction m) auto

text \<open>
  \<open>attempt m f\<close> is Go's \<open>x, err := m; if err != nil { return err }; f(x)\<close>. With the state of an
  object that \<open>m\<close> changes in memory whether or not it fails, it is \<open>attemptS\<close>.
\<close>

definition attempt ::
  "('q, 'r, 'a res) prog \<Rightarrow> ('a \<Rightarrow> ('q, 'r, 'b res) prog) \<Rightarrow> ('q, 'r, 'b res) prog" where
  "attempt m f = bind m (\<lambda>x. case x of Inl e \<Rightarrow> Ret (Inl e) | Inr a \<Rightarrow> f a)"

definition attemptS ::
  "('q, 'r, 's \<times> 'a res) prog \<Rightarrow> ('s \<Rightarrow> 'a \<Rightarrow> ('q, 'r, 's \<times> 'b res) prog)
    \<Rightarrow> ('q, 'r, 's \<times> 'b res) prog" where
  "attemptS m f =
     bind m (\<lambda>(s, x). case x of Inl e \<Rightarrow> Ret (s, Inl e) | Inr a \<Rightarrow> f s a)"

text \<open>Loops over a slice that return at the first error.\<close>

primrec forEach :: "('x \<Rightarrow> ('q, 'r, unit res) prog) \<Rightarrow> 'x list \<Rightarrow> ('q, 'r, unit res) prog" where
  "forEach f [] = Ret (Inr ())"
| "forEach f (x # xs) = attempt (f x) (\<lambda>_. forEach f xs)"

primrec forEachS ::
  "('x \<Rightarrow> 's \<Rightarrow> ('q, 'r, 's \<times> unit res) prog) \<Rightarrow> 'x list \<Rightarrow> 's \<Rightarrow> ('q, 'r, 's \<times> unit res) prog" where
  "forEachS f [] s = Ret (s, Inr ())"
| "forEachS f (x # xs) s = attemptS (f x s) (\<lambda>s' _. forEachS f xs s')"

section \<open>Executions\<close>

inductive exec :: "('q, 'r, 'a) prog \<Rightarrow> ('q \<times> 'r) list \<Rightarrow> 'a \<Rightarrow> bool" where
  exec_Ret: "exec (Ret a) [] a"
| exec_Call: "exec (k r) tr a \<Longrightarrow> exec (Call q k) ((q, r) # tr) a"

inductive_simps exec_Ret_iff [simp]: "exec (Ret a) tr b"

inductive_simps exec_Call_iff: "exec (Call q k) tr b"

inductive_cases exec_CallE: "exec (Call q k) tr b"

lemma exec_bind:
  "exec (bind m f) tr b \<longleftrightarrow> (\<exists>t1 a t2. tr = t1 @ t2 \<and> exec m t1 a \<and> exec (f a) t2 b)"
proof (induction m arbitrary: tr)
  case (Ret a)
  then show ?case by simp
next
  case (Call q k)
  show ?case
  proof
    assume "exec (bind (Call q k) f) tr b"
    then obtain r tr' where tr: "tr = (q, r) # tr'" and ex: "exec (bind (k r) f) tr' b"
      by (auto simp: exec_Call_iff)
    from Call [of "k r" tr'] ex obtain t1 a t2
      where "tr' = t1 @ t2" "exec (k r) t1 a" "exec (f a) t2 b" by auto
    with tr have "tr = ((q, r) # t1) @ t2" "exec (Call q k) ((q, r) # t1) a" "exec (f a) t2 b"
      by (auto simp: exec_Call_iff)
    then show "\<exists>t1 a t2. tr = t1 @ t2 \<and> exec (Call q k) t1 a \<and> exec (f a) t2 b" by blast
  next
    assume "\<exists>t1 a t2. tr = t1 @ t2 \<and> exec (Call q k) t1 a \<and> exec (f a) t2 b"
    then obtain r t1 a t2 where "tr = (q, r) # t1 @ t2" "exec (k r) t1 a" "exec (f a) t2 b"
      by (auto simp: exec_Call_iff)
    with Call [of "k r" "t1 @ t2"] show "exec (bind (Call q k) f) tr b"
      by (auto simp: exec_Call_iff)
  qed
qed

lemma exec_attempt:
  "exec (attempt m f) tr b \<longleftrightarrow>
     (\<exists>e. exec m tr (Inl e) \<and> b = Inl e) \<or>
     (\<exists>t1 a t2. tr = t1 @ t2 \<and> exec m t1 (Inr a) \<and> exec (f a) t2 b)"
proof
  assume "exec (attempt m f) tr b"
  then obtain t1 x t2 where tr: "tr = t1 @ t2" and m: "exec m t1 x"
    and rest: "exec (case x of Inl e \<Rightarrow> Ret (Inl e) | Inr a \<Rightarrow> f a) t2 b"
    unfolding attempt_def exec_bind by blast
  show "(\<exists>e. exec m tr (Inl e) \<and> b = Inl e) \<or>
     (\<exists>t1 a t2. tr = t1 @ t2 \<and> exec m t1 (Inr a) \<and> exec (f a) t2 b)"
    using tr m rest by (cases x) auto
next
  assume "(\<exists>e. exec m tr (Inl e) \<and> b = Inl e) \<or>
     (\<exists>t1 a t2. tr = t1 @ t2 \<and> exec m t1 (Inr a) \<and> exec (f a) t2 b)"
  then show "exec (attempt m f) tr b"
    unfolding attempt_def exec_bind by force
qed

lemma exec_attemptS:
  "exec (attemptS m f) tr b \<longleftrightarrow>
     (\<exists>s e. exec m tr (s, Inl e) \<and> b = (s, Inl e)) \<or>
     (\<exists>t1 s a t2. tr = t1 @ t2 \<and> exec m t1 (s, Inr a) \<and> exec (f s a) t2 b)"
proof
  assume "exec (attemptS m f) tr b"
  then obtain t1 s x t2 where tr: "tr = t1 @ t2" and m: "exec m t1 (s, x)"
    and rest: "exec (case x of Inl e \<Rightarrow> Ret (s, Inl e) | Inr a \<Rightarrow> f s a) t2 b"
    unfolding attemptS_def exec_bind by auto
  show "(\<exists>s e. exec m tr (s, Inl e) \<and> b = (s, Inl e)) \<or>
     (\<exists>t1 s a t2. tr = t1 @ t2 \<and> exec m t1 (s, Inr a) \<and> exec (f s a) t2 b)"
    using tr m rest by (cases x) auto
next
  assume "(\<exists>s e. exec m tr (s, Inl e) \<and> b = (s, Inl e)) \<or>
     (\<exists>t1 s a t2. tr = t1 @ t2 \<and> exec m t1 (s, Inr a) \<and> exec (f s a) t2 b)"
  then show "exec (attemptS m f) tr b"
    unfolding attemptS_def exec_bind by force
qed

text \<open>What a loop over a slice did: every event belongs to one iteration, and on success every iteration ran.\<close>

lemma exec_forEach_event:
  "exec (forEach f xs) tr r \<Longrightarrow> ev \<in> set tr \<Longrightarrow> \<exists>x \<in> set xs. \<exists>t a. exec (f x) t a \<and> ev \<in> set t"
proof (induction xs arbitrary: tr r)
  case Nil
  then show ?case by simp
next
  case (Cons x xs)
  from Cons.prems(1) consider e where "exec (f x) tr (Inl e)"
    | t1 u t2 where "tr = t1 @ t2" "exec (f x) t1 (Inr u)" "exec (forEach f xs) t2 r"
    by (auto simp: exec_attempt)
  then show ?case
  proof cases
    case 1
    with Cons.prems(2) show ?thesis by auto
  next
    case 2
    with Cons.prems(2) Cons.IH [OF 2(3)] show ?thesis by auto
  qed
qed

lemma exec_forEach_ok:
  "exec (forEach f xs) tr (Inr ()) \<Longrightarrow> x \<in> set xs \<Longrightarrow> \<exists>t. exec (f x) t (Inr ()) \<and> set t \<subseteq> set tr"
proof (induction xs arbitrary: tr)
  case Nil
  then show ?case by simp
next
  case (Cons y xs)
  from Cons.prems(1) obtain t1 u t2 where tr: "tr = t1 @ t2" "exec (f y) t1 (Inr u)"
    "exec (forEach f xs) t2 (Inr ())" by (auto simp: exec_attempt)
  show ?case
  proof (cases "x = y")
    case True
    with tr show ?thesis by auto
  next
    case False
    with Cons.prems(2) Cons.IH [OF tr(3)] tr(1) show ?thesis by auto
  qed
qed

text \<open>Running against one server, a function of its state and the request.\<close>

primrec run :: "('s \<Rightarrow> 'q \<Rightarrow> 'r \<times> 's) \<Rightarrow> ('q, 'r, 'a) prog \<Rightarrow> 's \<Rightarrow> 'a \<times> ('q \<times> 'r) list \<times> 's" where
  "run srv (Ret a) = (\<lambda>s. (a, [], s))"
| "run srv (Call q k) = (\<lambda>s. case srv s q of (r, s') \<Rightarrow>
     (case run srv (k r) s' of (a, tr, s'') \<Rightarrow> (a, (q, r) # tr, s'')))"

fun scripted :: "'r list \<Rightarrow> 'q \<Rightarrow> 'r \<times> 'r list" where
  "scripted (r # rs) q = (r, rs)"
| "scripted [] q = (undefined, [])"

lemma run_exec: "run srv m s = (a, tr, s') \<Longrightarrow> exec m tr a"
  by (induction m arbitrary: s tr) (auto split: prod.splits intro: exec.intros)

lemma exec_run: "exec m tr a \<Longrightarrow> run scripted m (map snd tr @ rs) = (a, tr, rs)"
  by (induction rule: exec.induct) auto

text \<open>
  The executions of a program are exactly its runs against all servers, so nothing is lost
  by reasoning about \<open>exec\<close>.
\<close>

lemma exec_iff_scripted: "exec m tr a \<longleftrightarrow> run scripted m (map snd tr) = (a, tr, [])"
  using exec_run [of m tr a "[]"] by (auto intro: run_exec)

lemma exec_exists: "\<exists>tr a. exec m tr a"
proof (induction m)
  case (Ret a)
  show ?case by auto
next
  case (Call q k)
  obtain tr a where "exec (k undefined) tr a" using Call [of "k undefined"] by auto
  then show ?case by (blast intro: exec_Call)
qed

section \<open>Weakest preconditions\<close>

definition sat :: "('q, 'r, 'a) prog \<Rightarrow> (('q \<times> 'r) list \<Rightarrow> 'a \<Rightarrow> bool) \<Rightarrow> bool" where
  "sat m P \<longleftrightarrow> (\<forall>tr a. exec m tr a \<longrightarrow> P tr a)"

lemma satI: "(\<And>tr a. exec m tr a \<Longrightarrow> P tr a) \<Longrightarrow> sat m P"
  by (simp add: sat_def)

lemma satD: "sat m P \<Longrightarrow> exec m tr a \<Longrightarrow> P tr a"
  by (simp add: sat_def)

lemma sat_Ret [simp, sat_rules]: "sat (Ret a) P = P [] a"
  by (simp add: sat_def)

lemma sat_Call [sat_rules]: "sat (Call q k) P = (\<forall>r. sat (k r) (\<lambda>t a. P ((q, r) # t) a))"
  by (auto simp: sat_def exec_Call_iff)

lemma sat_bind [sat_rules]: "sat (bind m f) P = sat m (\<lambda>t a. sat (f a) (\<lambda>t2 b. P (t @ t2) b))"
  unfolding sat_def exec_bind by blast

lemma sat_attempt [sat_rules]:
  "sat (attempt m f) P =
     sat m (\<lambda>t x. case x of Inl e \<Rightarrow> P t (Inl e) | Inr a \<Rightarrow> sat (f a) (\<lambda>t2 b. P (t @ t2) b))"
  unfolding attempt_def sat_bind
  by (rule arg_cong [where f = "sat m"]) (auto simp: fun_eq_iff split: sum.splits)

lemma sat_attemptS [sat_rules]:
  "sat (attemptS m f) P =
     sat m (\<lambda>t (s, x). case x of Inl e \<Rightarrow> P t (s, Inl e)
                        | Inr a \<Rightarrow> sat (f s a) (\<lambda>t2 b. P (t @ t2) b))"
  unfolding attemptS_def sat_bind
  by (rule arg_cong [where f = "sat m"]) (auto simp: fun_eq_iff split: sum.splits prod.splits)

lemma sat_mono: "sat m P \<Longrightarrow> (\<And>t a. P t a \<Longrightarrow> Q t a) \<Longrightarrow> sat m Q"
  by (auto simp: sat_def)

lemma sat_conj: "sat m (\<lambda>t a. P t a \<and> Q t a) \<longleftrightarrow> sat m P \<and> sat m Q"
  by (auto simp: sat_def)

lemma sat_True [simp]: "sat m (\<lambda>t a. True)"
  by (simp add: sat_def)

text \<open>Loops: an invariant of the trace so far, kept by the body.\<close>

lemma sat_forEachS:
  assumes "\<And>x s t. x \<in> set xs \<Longrightarrow> I s t \<Longrightarrow> sat (f x s) (\<lambda>t2 (s', a). I s' (t @ t2))"
    and "I s t"
  shows "sat (forEachS f xs s) (\<lambda>t2 (s', a). I s' (t @ t2))"
  using assms
proof (induction xs arbitrary: s t)
  case Nil
  then show ?case by simp
next
  case (Cons x xs)
  have body: "sat (f x s) (\<lambda>t2 (s', a). I s' (t @ t2))" using Cons.prems by auto
  have rest: "sat (forEachS f xs s') (\<lambda>t3 (s'', a). I s'' (t @ t2 @ t3))" if "I s' (t @ t2)" for s' t2
    using Cons.IH [of s' "t @ t2"] Cons.prems that by simp
  show ?case
    unfolding forEachS.simps sat_attemptS
    by (rule sat_mono [OF body]) (auto intro: rest split: sum.splits)
qed

lemma sat_forEach:
  assumes "\<And>x t. x \<in> set xs \<Longrightarrow> I t \<Longrightarrow> sat (f x) (\<lambda>t2 a. I (t @ t2))"
    and "I t"
  shows "sat (forEach f xs) (\<lambda>t2 a. I (t @ t2))"
  using assms
proof (induction xs arbitrary: t)
  case Nil
  then show ?case by simp
next
  case (Cons x xs)
  have body: "sat (f x) (\<lambda>t2 a. I (t @ t2))" using Cons.prems by auto
  have rest: "sat (forEach f xs) (\<lambda>t3 a. I (t @ t2 @ t3))" if "I (t @ t2)" for t2
    using Cons.IH [of "t @ t2"] Cons.prems that by simp
  show ?case
    unfolding forEach.simps sat_attempt
    by (rule sat_mono [OF body]) (auto intro: rest split: sum.splits)
qed

section \<open>Which requests a program can make\<close>

primrec only :: "('q \<Rightarrow> bool) \<Rightarrow> ('q, 'r, 'a) prog \<Rightarrow> bool" where
  "only A (Ret a) = True"
| "only A (Call q k) = (A q \<and> (\<forall>r. only A (k r)))"

lemma only_exec: "exec m tr a \<Longrightarrow> only A m \<Longrightarrow> (q, r) \<in> set tr \<Longrightarrow> A q"
  by (induction rule: exec.induct) auto

lemma only_bind [intro]: "only A m \<Longrightarrow> (\<And>a. only A (f a)) \<Longrightarrow> only A (bind m f)"
  by (induction m) auto

lemma only_attempt [intro]: "only A m \<Longrightarrow> (\<And>a. only A (f a)) \<Longrightarrow> only A (attempt m f)"
  unfolding attempt_def by (rule only_bind) (auto split: sum.splits)

lemma only_attemptS [intro]: "only A m \<Longrightarrow> (\<And>s a. only A (f s a)) \<Longrightarrow> only A (attemptS m f)"
  unfolding attemptS_def by (rule only_bind) (auto split: sum.splits)

lemma only_forEach [intro]: "(\<And>x. x \<in> set xs \<Longrightarrow> only A (f x)) \<Longrightarrow> only A (forEach f xs)"
  by (induction xs) auto

lemma only_forEachS [intro]:
  "(\<And>x s. x \<in> set xs \<Longrightarrow> only A (f x s)) \<Longrightarrow> only A (forEachS f xs s)"
  by (induction xs arbitrary: s) auto

text \<open>The same, using what the first part can return.\<close>

lemma only_bind_exec:
  "only A m \<Longrightarrow> (\<And>tr a. exec m tr a \<Longrightarrow> only A (f a)) \<Longrightarrow> only A (bind m f)"
proof (induction m)
  case (Ret a)
  then show ?case by (auto intro: exec_Ret)
next
  case (Call q k)
  then show ?case by (auto intro: exec_Call)
qed

lemma only_forEachS_inv:
  assumes "\<And>x s. x \<in> set xs \<Longrightarrow> I s \<Longrightarrow> only A (f x s)"
    and "\<And>x s tr s' r. x \<in> set xs \<Longrightarrow> I s \<Longrightarrow> exec (f x s) tr (s', r) \<Longrightarrow> I s'"
    and "I s"
  shows "only A (forEachS f xs s)"
  using assms
proof (induction xs arbitrary: s)
  case Nil
  then show ?case by simp
next
  case (Cons x xs)
  show ?case
    unfolding forEachS.simps attemptS_def
  proof (rule only_bind_exec)
    show "only A (f x s)" using Cons.prems by simp
    fix tr a
    assume ex: "exec (f x s) tr a"
    obtain s' r where a: "a = (s', r)" by (cases a)
    have "I s'" using Cons.prems(2) [of x s tr s' r] Cons.prems(3) ex a by simp
    have "only A (forEachS f xs s')"
    proof (rule Cons.IH)
      fix y u
      assume "y \<in> set xs" "I u"
      then show "only A (f y u)" using Cons.prems(1) by simp
    next
      fix y u t u' r'
      assume "y \<in> set xs" "I u" "exec (f y u) t (u', r')"
      then show "I u'" using Cons.prems(2) [of y u t u' r'] by simp
    qed (rule \<open>I s'\<close>)
    then show "only A (case a of (s, x) \<Rightarrow> case x of Inl e \<Rightarrow> Ret (s, Inl e) | Inr a \<Rightarrow> forEachS f xs s)"
      by (simp add: a split: sum.splits)
  qed
qed

lemma only_mono: "only A m \<Longrightarrow> (\<And>q. A q \<Longrightarrow> B q) \<Longrightarrow> only B m"
  by (induction m) auto

section \<open>What comes before what in a trace\<close>

text \<open>
  \<open>guarded G A tr\<close>: every event of the trace that satisfies \<open>A\<close> is preceded by one that
  satisfies \<open>G\<close> together with it.
\<close>

definition guarded :: "('e \<Rightarrow> 'e \<Rightarrow> bool) \<Rightarrow> ('e \<Rightarrow> bool) \<Rightarrow> 'e list \<Rightarrow> bool" where
  "guarded G A tr \<longleftrightarrow> (\<forall>pre e post. tr = pre @ e # post \<longrightarrow> A e \<longrightarrow> (\<exists>g \<in> set pre. G g e))"

lemma guardedD: "guarded G A (pre @ e # post) \<Longrightarrow> A e \<Longrightarrow> \<exists>g \<in> set pre. G g e"
  by (auto simp: guarded_def)

lemma guarded_Nil [simp]: "guarded G A []"
  by (simp add: guarded_def)

lemma guarded_none: "(\<And>e. e \<in> set tr \<Longrightarrow> \<not> A e) \<Longrightarrow> guarded G A tr"
  by (auto simp: guarded_def)

lemma guarded_append:
  assumes "guarded G A t1"
    and "\<And>pre e post. t2 = pre @ e # post \<Longrightarrow> A e \<Longrightarrow> \<exists>g \<in> set t1 \<union> set pre. G g e"
  shows "guarded G A (t1 @ t2)"
  unfolding guarded_def
proof (intro allI impI)
  fix pre e post
  assume eq: "t1 @ t2 = pre @ e # post" and A: "A e"
  from eq consider (l) us where "t1 = pre @ e # us" | (r) us where "pre = t1 @ us" "t2 = us @ e # post"
    unfolding append_eq_append_conv2
    by (metis Cons_eq_append_conv append.right_neutral)
  then show "\<exists>g \<in> set pre. G g e"
  proof cases
    case l
    with assms(1) A show ?thesis by (auto simp: guarded_def)
  next
    case r
    from assms(2) [OF r(2) A] r(1) show ?thesis by auto
  qed
qed

lemma guarded_append_both: "guarded G A t1 \<Longrightarrow> guarded G A t2 \<Longrightarrow> guarded G A (t1 @ t2)"
  by (rule guarded_append) (auto dest!: guardedD)

lemma guarded_single:
  assumes "\<And>e. e \<in> set pre \<Longrightarrow> \<not> A e" and "\<And>e. e \<in> set post \<Longrightarrow> \<not> A e"
    and "A e0 \<Longrightarrow> \<exists>g \<in> set pre. G g e0"
  shows "guarded G A (pre @ e0 # post)"
proof (rule guarded_append)
  show "guarded G A pre" by (rule guarded_none) (rule assms(1))
next
  fix p e q
  assume "e0 # post = p @ e # q" "A e"
  then have "p = [] \<and> e = e0"
    using assms(2) by (cases p) auto
  with assms(3) \<open>A e\<close> show "\<exists>g \<in> set pre \<union> set p. G g e" by auto
qed

lemma guarded_Cons: "\<not> A e \<Longrightarrow> guarded G A t \<Longrightarrow> guarded G A (e # t)"
  using guarded_append_both [of G A "[e]" t] guarded_none [of "[e]" A G] by simp

end
