(* ===== verification/OSArtifactCtl.thy ===== *)
theory OSArtifactCtl
  imports OSArtifactBuild Effects
begin

text \<open>
  The OSArtifact controller (internal/controller/osartifact_controller.go, template.go and the
  export half of job.go): Reconcile, the build and export phases and what they create.
\<close>

section \<open>Surroundings\<close>

record secret =
  secMeta :: object_meta
  secData :: strmap

record pvc =
  pvcMeta :: object_meta
  pvcSpec :: pvc_spec

text \<open>
  Lists by label select in one namespace or, with \<open>None\<close>, in all of them. \<open>CreateOrUpdateSecret\<close> is the library's
  \<open>controllerutil.CreateOrUpdate\<close> with what the code's mutate function sets: the name, the labels
  and string data it puts, and the controller it sets. A namespace is read for its deletion time.
\<close>

datatype os_req =
    GetArtifact string string
  | UpdateArtifact os_artifact
  | UpdateArtifactStatus os_artifact
  | GetNamespace string
  | ListPodsByLabel "string option" strmap
  | ListJobsByLabel "string option" strmap
  | ListPVCs string strmap
  | GetSecret string string
  | CreateOrUpdateSecret string string strmap strmap object_meta
  | CreateConfigMap config_map
  | CreatePVC pvc
  | GetPVC string string
  | CreateBuilderPod pod
  | CreateExportJob job

datatype os_resp =
    OUnit "unit res"
  | OVersion "string res"
  | OArtifact "os_artifact res"
  | ONamespace "time option res"
  | OPods "pod list res"
  | OJobs "job list res"
  | OPVCs "pvc list res"
  | OPVC "pvc res"
  | OSecret "secret res"

type_synonym 'a oprog = "(os_req, os_resp, 'a) prog"

definition oUnit :: "os_resp \<Rightarrow> unit res" where
  "oUnit r = (case r of OUnit x \<Rightarrow> x | _ \<Rightarrow> Inl decodeError)"
definition oVersion :: "os_resp \<Rightarrow> string res" where
  "oVersion r = (case r of OVersion x \<Rightarrow> x | _ \<Rightarrow> Inl decodeError)"
definition oArtifact :: "os_resp \<Rightarrow> os_artifact res" where
  "oArtifact r = (case r of OArtifact x \<Rightarrow> x | _ \<Rightarrow> Inl decodeError)"
definition oNamespace :: "os_resp \<Rightarrow> time option res" where
  "oNamespace r = (case r of ONamespace x \<Rightarrow> x | _ \<Rightarrow> Inl decodeError)"
definition oPods :: "os_resp \<Rightarrow> pod list res" where
  "oPods r = (case r of OPods x \<Rightarrow> x | _ \<Rightarrow> Inl decodeError)"
definition oJobs :: "os_resp \<Rightarrow> job list res" where
  "oJobs r = (case r of OJobs x \<Rightarrow> x | _ \<Rightarrow> Inl decodeError)"
definition oPVCs :: "os_resp \<Rightarrow> pvc list res" where
  "oPVCs r = (case r of OPVCs x \<Rightarrow> x | _ \<Rightarrow> Inl decodeError)"
definition oPVC :: "os_resp \<Rightarrow> pvc res" where
  "oPVC r = (case r of OPVC x \<Rightarrow> x | _ \<Rightarrow> Inl decodeError)"
definition oSecret :: "os_resp \<Rightarrow> secret res" where
  "oSecret r = (case r of OSecret x \<Rightarrow> x | _ \<Rightarrow> Inl decodeError)"

lemmas os_decoders = oUnit_def oVersion_def oArtifact_def oNamespace_def oPods_def oJobs_def oPVCs_def oPVC_def oSecret_def

lemma os_decoded [simp]:
  "oUnit r = Inr u \<longleftrightarrow> r = OUnit (Inr u)" "oVersion r = Inr v \<longleftrightarrow> r = OVersion (Inr v)"
  "oArtifact r = Inr a \<longleftrightarrow> r = OArtifact (Inr a)" "oNamespace r = Inr t \<longleftrightarrow> r = ONamespace (Inr t)"
  "oPods r = Inr ps \<longleftrightarrow> r = OPods (Inr ps)" "oJobs r = Inr js \<longleftrightarrow> r = OJobs (Inr js)"
  "oPVCs r = Inr cs \<longleftrightarrow> r = OPVCs (Inr cs)" "oPVC r = Inr c \<longleftrightarrow> r = OPVC (Inr c)" "oSecret r = Inr s \<longleftrightarrow> r = OSecret (Inr s)"
  by (auto simp: os_decoders split: os_resp.splits)

lemma os_values [simp]:
  "oUnit (OUnit u) = u" "oVersion (OVersion v) = v" "oArtifact (OArtifact a) = a" "oNamespace (ONamespace t) = t"
  "oPods (OPods ps) = ps" "oJobs (OJobs js) = js" "oPVCs (OPVCs cs) = cs" "oPVC (OPVC c) = c" "oSecret (OSecret s) = s"
  by (simp_all add: os_decoders)

definition oask :: "os_req \<Rightarrow> (os_resp \<Rightarrow> 'a) \<Rightarrow> 'a oprog" where
  "oask q dec = Call q (\<lambda>r. Ret (dec r))"

lemma exec_oask_bind:
  "exec (bind (oask q dec) f) tr b \<longleftrightarrow> (\<exists>r t. tr = (q, r) # t \<and> exec (f (dec r)) t b)"
  by (auto simp: oask_def exec_Call_iff)

lemma exec_oask: "exec (oask q dec) tr a \<longleftrightarrow> (\<exists>r. tr = [(q, r)] \<and> dec r = a)"
  by (auto simp: oask_def exec_Call_iff)

lemma exec_oask_attempt:
  "exec (attempt (oask q dec) f) tr b \<longleftrightarrow> (\<exists>r t. tr = (q, r) # t \<and>
     exec (case dec r of Inl e \<Rightarrow> Ret (Inl e) | Inr a \<Rightarrow> f a) t b)"
  by (simp add: attempt_def exec_oask_bind)

lemma only_oask [simp]: "only A (oask q dec) = A q"
  by (simp add: oask_def)

text \<open>
  What the reconciler is configured with and what the libraries provide: shell quoting
  (\<open>QuoteCommand\<close>), and Go's template package, parsing a text and executing the result on values.
\<close>

record 't reconciler = builder_config +
  ParseTemplate :: "string \<Rightarrow> 't res"
  ExecuteTemplate :: "'t \<Rightarrow> (string \<Rightarrow> string option) \<Rightarrow> string res"

section \<open>Constants and small helpers\<close>

definition FinalizerName :: string where "FinalizerName = ''build.kairos.io/osbuilder-finalizer''"
definition artifactLabel :: string where "artifactLabel = ''build.kairos.io/artifact''"
definition artifactExporterIndexAnnotation :: string where
  "artifactExporterIndexAnnotation = ''build.kairos.io/export-index''"

definition nilPointer :: error where "nilPointer = Errorf ''panic: nil pointer dereference''"

definition kindOSArtifact :: string where "kindOSArtifact = ''OSArtifact''"

text \<open>\<open>controllerutil.SetOwnerReference\<close> on a fresh object: one more owner, which is not its controller.\<close>

definition SetOwnerReference :: "os_artifact \<Rightarrow> object_meta \<Rightarrow> object_meta" where
  "SetOwnerReference artifact m = m\<lparr>OwnerReferences := OwnerReferences m @
     [\<lparr>orKind = kindOSArtifact, orName = Name (osMeta artifact), orUID = UID (osMeta artifact), orController = None\<rparr>]\<rparr>"

definition setArtifactVersion :: "string \<Rightarrow> os_artifact \<Rightarrow> os_artifact" where
  "setArtifactVersion v artifact = artifact\<lparr>osMeta := (osMeta artifact)\<lparr>ResourceVersion := v\<rparr>\<rparr>"

definition withFinalizers :: "(string list \<Rightarrow> string list) \<Rightarrow> os_artifact \<Rightarrow> os_artifact" where
  "withFinalizers f artifact = artifact\<lparr>osMeta := (osMeta artifact)\<lparr>Finalizers := f (Finalizers (osMeta artifact))\<rparr>\<rparr>"

definition setPhase :: "string \<Rightarrow> os_artifact \<Rightarrow> os_artifact" where
  "setPhase p artifact = artifact\<lparr>osStatus := (osStatus artifact)\<lparr>osPhase := p\<rparr>\<rparr>"

definition setFailed :: "string \<Rightarrow> os_artifact \<Rightarrow> os_artifact" where
  "setFailed msg artifact = artifact\<lparr>osStatus := (osStatus artifact)\<lparr>osPhase := Error, osMessage := msg\<rparr>\<rparr>"

definition artifactSelector :: "os_artifact \<Rightarrow> strmap" where
  "artifactSelector artifact = [(artifactLabel, Name (osMeta artifact))]"

definition artifactStatusUpdate :: "os_artifact \<Rightarrow> unit res oprog" where
  "artifactStatusUpdate artifact = oask (UpdateArtifactStatus artifact)
     (\<lambda>r. case oVersion r of Inl e \<Rightarrow> Inl e | Inr _ \<Rightarrow> Inr ())"

section \<open>The build definition\<close>

text \<open>The white space of the regular expression \<open>\\s\<close>, and the directives it forbids.\<close>

definition re_space :: "char set" where
  "re_space = {CHR 0x09, CHR 0x0A, CHR 0x0C, CHR 0x0D, CHR 0x20}"

definition forbiddenAt :: "string \<Rightarrow> bool" where
  "forbiddenAt s = (HasPrefix s ''{{'' \<and>
     (let s1 = drop 2 s; s2 = (if HasPrefix s1 ''-'' then drop 1 s1 else s1);
          s3 = dropWhile (\<lambda>c. c \<in> re_space) s2
      in list_ex (\<lambda>d. HasPrefix s3 d \<and> (case drop (length d) s3 of [] \<Rightarrow> False | c # _ \<Rightarrow> c \<in> re_space))
           [''define'', ''template'', ''block'']))"

fun forbiddenDirective :: "string \<Rightarrow> bool" where
  "forbiddenDirective [] = False"
| "forbiddenDirective (c # s) = (forbiddenAt (c # s) \<or> forbiddenDirective s)"

definition renderOCIBuildTemplate :: "'t reconciler \<Rightarrow> string \<Rightarrow> (string \<Rightarrow> string option) \<Rightarrow> string res" where
  "renderOCIBuildTemplate r content values =
     (if forbiddenDirective content
        then Inl (Errorf ''forbidden template directive detected: define, template, and block are not supported in OCI build templates'')
      else case ParseTemplate r content of
        Inl e \<Rightarrow> Inl (Wrapf ''failed to parse OCI build template'' e)
      | Inr tmpl \<Rightarrow> (case ExecuteTemplate r tmpl values of
          Inl e \<Rightarrow> Inl (Wrapf ''failed to render OCI build template'' e)
        | Inr s \<Rightarrow> Inr s))"

definition wrapped :: "string \<Rightarrow> 'a res \<Rightarrow> 'a res" where
  "wrapped what r = (case r of Inl e \<Rightarrow> Inl (Wrapf what e) | Inr a \<Rightarrow> Inr a)"

definition templateSecretValues :: "os_artifact \<Rightarrow> oci_spec \<Rightarrow> strmap res oprog" where
  "templateSecretValues artifact o' = (case TemplateValuesFrom o' of
     None \<Rightarrow> Ret (Inr [])
   | Some from \<Rightarrow> attempt (oask (GetSecret (Namespace (osMeta artifact)) (selName from))
       (wrapped (''failed to fetch template values Secret '' @ quoted (selName from)) \<circ> oSecret))
       (\<lambda>s. Ret (Inr (secData s))))"

text \<open>Both loops store into one map, so later entries win whatever the order of the maps.\<close>

definition putAll :: "strmap \<Rightarrow> (string \<Rightarrow> string option) \<Rightarrow> string \<Rightarrow> string option" where
  "putAll m values = (\<lambda>k. case map_of m k of None \<Rightarrow> values k | Some v \<Rightarrow> Some v)"

definition fetchAndRenderUserOCISpec :: "'t reconciler \<Rightarrow> os_artifact \<Rightarrow> string res oprog" where
  "fetchAndRenderUserOCISpec r artifact = (case OCISpec (imageOf artifact) of
     None \<Rightarrow> Ret (Inr [])
   | Some o' \<Rightarrow> (case ociRef o' of
       None \<Rightarrow> Ret (Inr [])
     | Some ref \<Rightarrow>
         attempt (oask (GetSecret (Namespace (osMeta artifact)) (selName ref))
           (wrapped (''failed to fetch OCI build definition secret '' @ quoted (selName ref)) \<circ> oSecret)) (\<lambda>s.
         (let key = (if selKey ref = [] then OCISpecSecretKey else selKey ref) in
          case map_of (secData s) key of
            None \<Rightarrow> Ret (Inl (Errorf (''key '' @ quoted key @ '' not found in secret '' @ quoted (Name (secMeta s)))))
          | Some content \<Rightarrow>
              attempt (templateSecretValues artifact o') (\<lambda>fromSecret.
                Ret (wrapped ''failed to render OCI build template''
                  (renderOCIBuildTemplate r content
                    (putAll (TemplateValues o') (putAll fromSecret Map.empty)))))))))"

definition renderedSecretName :: "os_artifact \<Rightarrow> string" where
  "renderedSecretName artifact = Name (osMeta artifact) @ ''-rendered-ocispec''"

definition checkSecretOwnership :: "string \<Rightarrow> string \<Rightarrow> os_artifact \<Rightarrow> unit res oprog" where
  "checkSecretOwnership secretName namespace owner =
     bind (oask (GetSecret namespace secretName) oSecret) (\<lambda>got. Ret (case got of
       Inl e \<Rightarrow> if IsNotFound e then Inr () else Inl (Wrapf ''failed to check for existing Secret'' e)
     | Inr s \<Rightarrow>
         if IsControlledBy (secMeta s) (osMeta owner) then Inr ()
         else Inl (Errorf (''secret '' @ quoted secretName @
           '' already exists and is not owned by this OSArtifact (uid='' @ UID (osMeta owner) @
           ''); refusing to update to prevent collision''))))"

text \<open>The build definition of the spec in memory is redirected to the rendered Secret.\<close>

definition withRenderedSpec :: "os_artifact \<Rightarrow> os_artifact" where
  "withRenderedSpec artifact =
     (let o' = (case OCISpec (imageOf artifact) of None \<Rightarrow> empty_oci_spec | Some o' \<Rightarrow> o');
          ref = \<lparr>selName = renderedSecretName artifact, selKey = OCISpecSecretKey\<rparr>
      in artifact\<lparr>osSpec := (osSpec artifact)\<lparr>osImage := (imageOf artifact)\<lparr>OCISpec := Some (o'\<lparr>ociRef := Some ref\<rparr>)\<rparr>\<rparr>\<rparr>)"

definition writeRenderedSecret :: "os_artifact \<Rightarrow> string \<Rightarrow> unit res oprog" where
  "writeRenderedSecret artifact final =
     (let namespace = Namespace (osMeta artifact)
      in attempt (checkSecretOwnership (renderedSecretName artifact) namespace artifact) (\<lambda>_.
         oask (CreateOrUpdateSecret namespace (renderedSecretName artifact) [(artifactLabel, Name (osMeta artifact))]
             [(OCISpecSecretKey, final)] (osMeta artifact))
           (wrapped ''failed to create or update rendered OCI build definition secret'' \<circ> oUnit)))"

definition resolveFinalOCISpec :: "'t reconciler \<Rightarrow> os_artifact \<Rightarrow> (os_artifact \<times> unit res) oprog" where
  "resolveFinalOCISpec r artifact =
     (if imgRef (imageOf artifact) \<noteq> [] then Ret (artifact, Inr ())
      else bind (fetchAndRenderUserOCISpec r artifact) (\<lambda>middle. case middle of
        Inl e \<Rightarrow> Ret (artifact, Inl e)
      | Inr middleContent \<Rightarrow>
          (let final = AssembleFinalOCISpec (BuildOptions (imageOf artifact) \<noteq> None) middleContent;
               artifact' = withRenderedSpec artifact
           in bind (writeRenderedSecret artifact' final) (\<lambda>written. Ret (artifact', written)))))"

section \<open>What a build creates\<close>

definition labelledFor :: "os_artifact \<Rightarrow> object_meta \<Rightarrow> object_meta" where
  "labelledFor artifact m = SetOwnerReference artifact (m\<lparr>Labels := put artifactLabel (Name (osMeta artifact)) (Labels m)\<rparr>)"

definition CreateConfigMapFor :: "os_artifact \<Rightarrow> unit res oprog" where
  "CreateConfigMapFor artifact =
     (let cm = genConfigMap artifact
      in bind (oask (CreateConfigMap (cm\<lparr>cmMeta := labelledFor artifact (cmMeta cm)\<rparr>)) oUnit) (\<lambda>r. Ret (case r of
        Inl e \<Rightarrow> if IsAlreadyExists e then Inr () else Inl e
      | Inr _ \<Rightarrow> Inr ())))"

text \<open>The default the code stores into the spec in memory is not read again before the spec is refetched.\<close>

definition newArtifactPVC :: "os_artifact \<Rightarrow> pvc" where
  "newArtifactPVC artifact =
     \<lparr>pvcMeta = empty_meta\<lparr>Name := Name (osMeta artifact) @ ''-artifacts'', Namespace := Namespace (osMeta artifact)\<rparr>,
      pvcSpec = (case osVolume (osSpec artifact) of
        None \<Rightarrow> \<lparr>pvcAccessModes = [''ReadWriteOnce''], pvcRequests = [(''storage'', ''10Gi'')], pvcOther = []\<rparr>
      | Some s \<Rightarrow> s)\<rparr>"

definition createPVC :: "os_artifact \<Rightarrow> pvc res oprog" where
  "createPVC artifact =
     (let claim = newArtifactPVC artifact; claim' = claim\<lparr>pvcMeta := labelledFor artifact (pvcMeta claim)\<rparr>
      in bind (oask (CreatePVC claim') oUnit) (\<lambda>r. case r of
        Inr _ \<Rightarrow> Ret (Inr claim')
      | Inl e \<Rightarrow>
          if IsAlreadyExists e then oask (GetPVC (Namespace (pvcMeta claim')) (Name (pvcMeta claim'))) oPVC
          else Ret (Inl e)))"

definition createBuilderPod :: "'t reconciler \<Rightarrow> os_artifact \<Rightarrow> string option \<Rightarrow> unit res oprog" where
  "createBuilderPod r artifact pvcName = (case newBuilderPod (builder_config.truncate r) artifact pvcName of
     None \<Rightarrow> Ret (Inl nilPointer)
   | Some pod \<Rightarrow> oask (CreateBuilderPod (pod\<lparr>podMeta := labelledFor artifact (podMeta pod)\<rparr>)) oUnit)"

section \<open>The build phase\<close>

text \<open>The claim of the artifacts volume, unless the spec names a volume for it.\<close>

definition claimFor :: "os_artifact \<Rightarrow> string option res oprog" where
  "claimFor artifact =
     (if artField artVolume artifact = []
      then attempt (createPVC artifact) (\<lambda>claim. Ret (Inr (Some (Name (pvcMeta claim)))))
      else Ret (Inr None))"

definition startBuild :: "'t reconciler \<Rightarrow> os_artifact \<Rightarrow> unit res oprog" where
  "startBuild r artifact = (case Validate (osSpec artifact) of
     Inl e \<Rightarrow> Ret (Inl (Wrapf ''invalid OSArtifact spec'' e))
   | Inr _ \<Rightarrow>
       bind (resolveFinalOCISpec r artifact) (\<lambda>(artifact', resolved). case resolved of
         Inl e \<Rightarrow> Ret (Inl e)
       | Inr _ \<Rightarrow>
           attempt (CreateConfigMapFor artifact') (\<lambda>_.
           attempt (claimFor artifact') (\<lambda>pvcName.
           attempt (createBuilderPod r artifact' pvcName) (\<lambda>_.
           attempt (oask (GetArtifact (Namespace (osMeta artifact)) (Name (osMeta artifact))) oArtifact) (\<lambda>fresh.
           artifactStatusUpdate (setPhase Building fresh)))))))"

definition builderPodFailureMessage :: "pod \<Rightarrow> string" where
  "builderPodFailureMessage p =
     (let nm = Name (podMeta p); reason = podReason (podStatus p); msg = podMessage (podStatus p) in
      if reason \<noteq> [] \<and> msg \<noteq> [] then ''builder pod '' @ nm @ '' failed: '' @ reason @ '': '' @ msg
      else if reason \<noteq> [] then ''builder pod '' @ nm @ '' failed: '' @ reason
      else if msg \<noteq> [] then ''builder pod '' @ nm @ '' failed: '' @ msg
      else ''builder pod '' @ nm @ '' failed'')"

text \<open>The loop over the Pods: the first one in a phase the code tests for decides.\<close>

fun judgeBuilderPods :: "'t reconciler \<Rightarrow> os_artifact \<Rightarrow> pod list \<Rightarrow> unit res oprog" where
  "judgeBuilderPods r artifact [] = startBuild r artifact"
| "judgeBuilderPods r artifact (p # ps) =
     (let phase = podPhase (podStatus p) in
      if phase = PodSucceeded then artifactStatusUpdate (setPhase Exporting artifact)
      else if phase = PodFailed then artifactStatusUpdate (setFailed (builderPodFailureMessage p) artifact)
      else if phase = PodPending \<or> phase = PodRunning then Ret (Inr ())
      else judgeBuilderPods r artifact ps)"

definition checkBuild :: "'t reconciler \<Rightarrow> os_artifact \<Rightarrow> unit res oprog" where
  "checkBuild r artifact =
     attempt (oask (ListPodsByLabel None (artifactSelector artifact)) oPods) (judgeBuilderPods r artifact)"

section \<open>The export phase\<close>

definition lookupArtifactsPVC :: "os_artifact \<Rightarrow> pvc option res oprog" where
  "lookupArtifactsPVC artifact =
     attempt (oask (ListPVCs (Namespace (osMeta artifact)) (artifactSelector artifact)) oPVCs)
       (\<lambda>claims. Ret (Inr (case claims of [] \<Rightarrow> None | c # _ \<Rightarrow> Some c)))"

definition readOnlySource :: "volume_source \<Rightarrow> volume_source" where
  "readOnlySource src = (case src of PVCVolume claim ro \<Rightarrow> PVCVolume claim True | _ \<Rightarrow> src)"

definition volumeForExportArtifacts :: "os_artifact \<Rightarrow> volume res oprog" where
  "volumeForExportArtifacts artifact =
     (let vol = artField artVolume artifact in
      if vol \<noteq> [] then
        Ret (case findVolume vol (osVolumes (osSpec artifact)) of
          Some v \<Rightarrow> Inr \<lparr>volName = artifactsVolumeName, volSource = readOnlySource (volSource v)\<rparr>
        | None \<Rightarrow> Inl (undefinedVolume ''spec.artifacts.volume'' vol))
      else attempt (lookupArtifactsPVC artifact) (\<lambda>claim. Ret (case claim of
        None \<Rightarrow> Inl (Errorf ''no artifacts pvc and spec.artifacts.volume not set'')
      | Some c \<Rightarrow> Inr \<lparr>volName = artifactsVolumeName, volSource = PVCVolume (Name (pvcMeta c)) True\<rparr>)))"

text \<open>Jobs by their index annotation; a later one of the list replaces an earlier one.\<close>

definition indexJob :: "(string \<times> job) list \<Rightarrow> job \<Rightarrow> (string \<times> job) list" where
  "indexJob m j = (case map_of (Annotations (jobMeta j)) artifactExporterIndexAnnotation of
     None \<Rightarrow> m | Some idx \<Rightarrow> put idx j m)"

definition indexedJobs :: "job list \<Rightarrow> (string \<times> job) list" where
  "indexedJobs jobs = foldl indexJob [] jobs"

text \<open>
  The metadata of the Pod template other than labels and annotations, which the code clears, is not
  part of \<open>job_spec\<close>.
\<close>

definition exportJob :: "os_artifact \<Rightarrow> volume \<Rightarrow> string \<Rightarrow> job_spec \<Rightarrow> job" where
  "exportJob artifact exportVol idx spec =
     \<lparr>jobMeta = SetOwnerReference artifact (empty_meta\<lparr>Name := Name (osMeta artifact) @ ''-export-'' @ idx,
        Namespace := Namespace (osMeta artifact), Annotations := [(artifactExporterIndexAnnotation, idx)],
        Labels := [(artifactLabel, Name (osMeta artifact))]\<rparr>),
      jobSpec = spec\<lparr>BackoffLimit := (case BackoffLimit spec of None \<Rightarrow> Some 0 | Some b \<Rightarrow> Some b),
        templateSpec := (templateSpec spec)\<lparr>Volumes := Volumes (templateSpec spec) @ [exportVol]\<rparr>\<rparr>,
      jobStatus = empty_job_status\<rparr>"

definition failureCondition :: "condition \<Rightarrow> bool" where
  "failureCondition c \<longleftrightarrow> condStatus c = ConditionTrue \<and> (condType c = JobFailed \<or> condType c = JobFailureTarget)"

definition exportJobFailed :: "job \<Rightarrow> bool" where
  "exportJobFailed j = list_ex failureCondition (jobConditions (jobStatus j))"

definition exportJobFailureMessage :: "job \<Rightarrow> string" where
  "exportJobFailureMessage j =
     (let plain = ''export job '' @ Name (jobMeta j) @ '' failed'' in
      case find failureCondition (jobConditions (jobStatus j)) of
        None \<Rightarrow> plain
      | Some c \<Rightarrow>
          if condMessage c \<noteq> [] then plain @ '': '' @ condMessage c
          else if condReason c \<noteq> [] then plain @ '': '' @ condReason c
          else plain)"

text \<open>An early return, or the number of exporters that have succeeded.\<close>

datatype export_outcome = ReturnNow "unit res" | Succeeded nat

definition failExport :: "os_artifact \<Rightarrow> job \<Rightarrow> export_outcome oprog" where
  "failExport artifact j =
     bind (artifactStatusUpdate (setFailed (exportJobFailureMessage j) artifact)) (\<lambda>r. Ret (ReturnNow r))"

fun exportEach :: "os_artifact \<Rightarrow> (string \<times> job) list \<Rightarrow> volume \<Rightarrow> nat \<Rightarrow> job_spec list \<Rightarrow> nat \<Rightarrow> export_outcome oprog" where
  "exportEach artifact jobs exportVol i [] succeeded = Ret (Succeeded succeeded)"
| "exportEach artifact jobs exportVol i (spec # specs) succeeded =
     (case map_of jobs (dec_nat i) of
        None \<Rightarrow>
          bind (oask (CreateExportJob (exportJob artifact exportVol (dec_nat i) spec)) oUnit) (\<lambda>r. case r of
            Inl e \<Rightarrow> Ret (ReturnNow (Inl e))
          | Inr _ \<Rightarrow> exportEach artifact jobs exportVol (Suc i) specs succeeded)
      | Some j \<Rightarrow>
          (if Completions (jobSpec j) = None \<or> Completions (jobSpec j) = Some 1 then
             (if 0 < jobSucceeded (jobStatus j) then exportEach artifact jobs exportVol (Suc i) specs (Suc succeeded)
              else if exportJobFailed j then failExport artifact j
              else exportEach artifact jobs exportVol (Suc i) specs succeeded)
           else (case BackoffLimit (jobSpec j) of
               None \<Rightarrow> Ret (ReturnNow (Inl nilPointer))
             | Some limit \<Rightarrow>
                 if limit \<le> jobFailed (jobStatus j) then failExport artifact j
                 else exportEach artifact jobs exportVol (Suc i) specs succeeded)))"

definition checkExport :: "os_artifact \<Rightarrow> unit res oprog" where
  "checkExport artifact =
     attempt (oask (ListJobsByLabel None (artifactSelector artifact)) oJobs) (\<lambda>jobs.
     attempt (volumeForExportArtifacts artifact) (\<lambda>exportVol.
     bind (exportEach artifact (indexedJobs jobs) exportVol 0 (Exporters (osSpec artifact)) 0) (\<lambda>out. case out of
       ReturnNow r \<Rightarrow> Ret r
     | Succeeded n \<Rightarrow>
         if n = length (Exporters (osSpec artifact)) then artifactStatusUpdate (setPhase Ready artifact)
         else Ret (Inr ()))))"

section \<open>Reconcile\<close>

definition ensureFinalizer :: "os_artifact \<Rightarrow> os_artifact res oprog" where
  "ensureFinalizer artifact =
     (if FinalizerName \<in> set (Finalizers (osMeta artifact)) then Ret (Inr artifact)
      else (let added = withFinalizers (\<lambda>fs. fs @ [FinalizerName]) artifact in
        oask (UpdateArtifact added) (\<lambda>r. case oVersion r of Inl e \<Rightarrow> Inl e | Inr v \<Rightarrow> Inr (setArtifactVersion v added))))"

definition osReconcile :: "'t reconciler \<Rightarrow> string \<Rightarrow> string \<Rightarrow> unit res oprog" where
  "osReconcile r namespace nm =
     bind (oask (GetArtifact namespace nm) oArtifact) (\<lambda>got. case got of
       Inl e \<Rightarrow> Ret (if IsNotFound e then Inr () else Inl e)
     | Inr artifact \<Rightarrow>
         if DeletionTimestamp (osMeta artifact) \<noteq> None then
           (if FinalizerName \<in> set (Finalizers (osMeta artifact))
            then oask (UpdateArtifact (withFinalizers (filter (\<lambda>f. f \<noteq> FinalizerName)) artifact))
                   (\<lambda>r. case oVersion r of Inl e \<Rightarrow> Inl e | Inr _ \<Rightarrow> Inr ())
            else Ret (Inr ()))
         else
           bind (oask (GetNamespace (Namespace (osMeta artifact))) oNamespace) (\<lambda>ns. case ns of
             Inl e \<Rightarrow> Ret (if IsNotFound e then Inr () else Inl e)
           | Inr terminating \<Rightarrow>
               if terminating \<noteq> None then Ret (Inr ())
               else attempt (ensureFinalizer artifact) (\<lambda>artifact'.
                 let phase = osPhase (osStatus artifact') in
                 if phase = Exporting then checkExport artifact'
                 else if phase = Ready \<or> phase = Error then Ret (Inr ())
                 else checkBuild r artifact')))"

text \<open>The artifact the events of its Pods and Jobs lead to, as namespace and name.\<close>

definition findOwningArtifact :: "object_meta \<Rightarrow> (string \<times> string) list" where
  "findOwningArtifact m = (case map_of (Labels m) artifactLabel of
     None \<Rightarrow> [] | Some artifactName \<Rightarrow> [(Namespace m, artifactName)])"

end
