(* ===== verification/OSArtifactFlow.thy ===== *)
theory OSArtifactFlow
  imports OSArtifactCtl
begin

text \<open>
  What the OSArtifact controller guarantees whatever the API server answers: the phase machine and
  its evidence, what has to be there before a builder Pod is created, which Secrets it writes, and
  the export Jobs.
\<close>

section \<open>The steps of a reconcile\<close>

type_synonym os_trace = "(os_req \<times> os_resp) list"

fun statusWrite :: "os_req \<Rightarrow> bool" where
  "statusWrite (UpdateArtifactStatus _) = True"
| "statusWrite _ = False"

fun creating :: "os_req \<Rightarrow> bool" where
  "creating (CreateOrUpdateSecret _ _ _ _ _) = True"
| "creating (CreateConfigMap _) = True"
| "creating (CreatePVC _) = True"
| "creating (CreateBuilderPod _) = True"
| "creating (CreateExportJob _) = True"
| "creating _ = False"

definition sameArtifact :: "os_artifact \<Rightarrow> os_artifact \<Rightarrow> bool" where
  "sameArtifact a a' \<longleftrightarrow> osSpec a' = osSpec a \<and> osStatus a' = osStatus a \<and> Name (osMeta a') = Name (osMeta a) \<and>
     Namespace (osMeta a') = Namespace (osMeta a) \<and> UID (osMeta a') = UID (osMeta a)"

lemma sameArtifact_refl [simp]: "sameArtifact a a"
  by (simp add: sameArtifact_def)

lemma sameArtifact_update: "sameArtifact a (setArtifactVersion v (withFinalizers f a))"
  by (simp add: sameArtifact_def setArtifactVersion_def withFinalizers_def)

lemma same_selector: "sameArtifact a a' \<Longrightarrow> artifactSelector a' = artifactSelector a"
  by (simp add: sameArtifact_def artifactSelector_def)

text \<open>The finalizer is on the artifact as read, or was put there before going on.\<close>

definition finalizerSet :: "os_trace \<Rightarrow> os_artifact \<Rightarrow> bool" where
  "finalizerSet tr a \<longleftrightarrow> FinalizerName \<in> set (Finalizers (osMeta a)) \<or>
     (\<exists>v. (UpdateArtifact (withFinalizers (\<lambda>fs. fs @ [FinalizerName]) a), OVersion (Inr v)) \<in> set tr)"

definition phaseOf :: "os_artifact \<Rightarrow> string" where
  "phaseOf a = osPhase (osStatus a)"

definition livePrefix :: "string \<Rightarrow> string \<Rightarrow> os_artifact \<Rightarrow> os_trace \<Rightarrow> bool" where
  "livePrefix namespace nm a pre \<longleftrightarrow> (GetArtifact namespace nm, OArtifact (Inr a)) \<in> set pre \<and>
     DeletionTimestamp (osMeta a) = None \<and> (GetNamespace (Namespace (osMeta a)), ONamespace (Inr None)) \<in> set pre \<and>
     finalizerSet pre a \<and> (\<forall>e \<in> set pre. \<not> statusWrite (fst e) \<and> \<not> creating (fst e))"

lemma exec_ensureFinalizer:
  assumes "exec (ensureFinalizer a) tr (Inr a')"
  shows "sameArtifact a a' \<and> finalizerSet tr a \<and> (\<forall>e \<in> set tr. \<not> statusWrite (fst e) \<and> \<not> creating (fst e))"
proof (cases "FinalizerName \<in> set (Finalizers (osMeta a))")
  case True
  with assms show ?thesis by (auto simp: ensureFinalizer_def finalizerSet_def)
next
  case False
  let ?added = "withFinalizers (\<lambda>fs. fs @ [FinalizerName]) a"
  from assms False obtain q where tr: "tr = [(UpdateArtifact ?added, q)]" and
    q: "(case oVersion q of Inl e \<Rightarrow> Inl e | Inr v \<Rightarrow> Inr (setArtifactVersion v ?added)) = Inr a'"
    by (auto simp: ensureFinalizer_def exec_oask Let_def)
  from q obtain v where v: "oVersion q = Inr v" "a' = setArtifactVersion v ?added" by (cases "oVersion q") auto
  then have "q = OVersion (Inr v)" by simp
  with tr v(2) show ?thesis by (auto simp: finalizerSet_def sameArtifact_update)
qed

text \<open>From the finalizer on: a reconcile of an artifact that is neither deleted nor in a namespace that goes away.\<close>

lemma exec_liveReconcile:
  assumes "exec (attempt (ensureFinalizer a) (\<lambda>artifact'.
       let phase = osPhase (osStatus artifact') in
       if phase = Exporting then checkExport artifact'
       else if phase = Ready \<or> phase = Error then Ret (Inr ())
       else checkBuild r artifact')) tr res"
  obtains (idle) "\<forall>e \<in> set tr. \<not> statusWrite (fst e) \<and> \<not> creating (fst e)"
  | (go) a' pre rest where "tr = pre @ rest" "sameArtifact a a'" "finalizerSet pre a"
      "\<forall>e \<in> set pre. \<not> statusWrite (fst e) \<and> \<not> creating (fst e)" "phaseOf a \<noteq> Ready" "phaseOf a \<noteq> Error"
      "exec (if phaseOf a = Exporting then checkExport a' else checkBuild r a') rest res"
proof -
  from assms consider (err) e where "exec (ensureFinalizer a) tr (Inl e)"
    | (ok) pre a' rest where "tr = pre @ rest" "exec (ensureFinalizer a) pre (Inr a')"
      "exec (let phase = osPhase (osStatus a') in if phase = Exporting then checkExport a'
           else if phase = Ready \<or> phase = Error then Ret (Inr ()) else checkBuild r a') rest res"
    by (auto simp: exec_attempt)
  then show thesis
  proof cases
    case err
    then show thesis by (intro idle) (auto simp: ensureFinalizer_def exec_oask Let_def split: if_splits)
  next
    case ok
    note f = exec_ensureFinalizer [OF ok(2)]
    then have s: "osStatus a' = osStatus a" by (simp add: sameArtifact_def)
    show thesis
    proof (cases "phaseOf a = Ready \<or> phaseOf a = Error")
      case True
      then have "rest = []" using ok(3) s by (auto simp: phaseOf_def artifact_phases Let_def)
      with f ok(1) show thesis by (intro idle) auto
    next
      case False
      with ok(3) s have "exec (if phaseOf a = Exporting then checkExport a' else checkBuild r a') rest res"
        by (auto simp: phaseOf_def Let_def split: if_splits)
      with f ok(1) False show thesis by (intro go [of pre rest a']) auto
    qed
  qed
qed

lemma exec_osReconcile:
  assumes "exec (osReconcile r namespace nm) tr res"
  obtains (idle) "\<forall>e \<in> set tr. \<not> statusWrite (fst e) \<and> \<not> creating (fst e)"
  | (live) a a' pre rest where "tr = pre @ rest" "livePrefix namespace nm a pre" "sameArtifact a a'"
      "phaseOf a \<noteq> Ready" "phaseOf a \<noteq> Error"
      "exec (if phaseOf a = Exporting then checkExport a' else checkBuild r a') rest res"
proof -
  define go where "go = (\<lambda>a. attempt (ensureFinalizer a) (\<lambda>artifact'.
       let phase = osPhase (osStatus artifact') in
       if phase = Exporting then checkExport artifact'
       else if phase = Ready \<or> phase = Error then Ret (Inr ())
       else checkBuild r artifact'))"
  from assms obtain g t where tr: "tr = (GetArtifact namespace nm, g) # t" and
    e1: "exec (case oArtifact g of Inl e \<Rightarrow> Ret (if IsNotFound e then Inr () else Inl e) | Inr artifact \<Rightarrow>
         if DeletionTimestamp (osMeta artifact) \<noteq> None then
           (if FinalizerName \<in> set (Finalizers (osMeta artifact))
            then oask (UpdateArtifact (withFinalizers (filter (\<lambda>f. f \<noteq> FinalizerName)) artifact))
                   (\<lambda>r. case oVersion r of Inl e \<Rightarrow> Inl e | Inr _ \<Rightarrow> Inr ())
            else Ret (Inr ()))
         else
           bind (oask (GetNamespace (Namespace (osMeta artifact))) oNamespace) (\<lambda>ns. case ns of
             Inl e \<Rightarrow> Ret (if IsNotFound e then Inr () else Inl e)
           | Inr terminating \<Rightarrow> if terminating \<noteq> None then Ret (Inr ()) else go artifact)) t res"
    unfolding osReconcile_def exec_oask_bind go_def by blast
  consider (no_artifact) e where "oArtifact g = Inl e" | (deleted) a where "oArtifact g = Inr a" "DeletionTimestamp (osMeta a) \<noteq> None"
    | (alive) a where "g = OArtifact (Inr a)" "DeletionTimestamp (osMeta a) = None"
    by (cases "oArtifact g") auto
  then show thesis
  proof cases
    case no_artifact
    with e1 tr show thesis by (intro idle) simp
  next
    case deleted
    with e1 tr show thesis by (intro idle) (auto simp: exec_oask split: if_splits)
  next
    case alive
    then have dec: "oArtifact g = Inr a" and ne: "(DeletionTimestamp (osMeta a) \<noteq> None) = False" by simp_all
    from e1 obtain n t2 where t: "t = (GetNamespace (Namespace (osMeta a)), n) # t2" and
      e2: "exec (case oNamespace n of Inl e \<Rightarrow> Ret (if IsNotFound e then Inr () else Inl e)
         | Inr terminating \<Rightarrow> if terminating \<noteq> None then Ret (Inr ()) else go a) t2 res"
      unfolding dec sum.case ne if_False exec_oask_bind by blast
    show thesis
    proof (cases "oNamespace n = Inr None")
      case False
      with e2 have "t2 = []" by (auto split: sum.splits if_splits)
      with tr t show thesis by (intro idle) simp
    next
      case True
      then have n: "n = ONamespace (Inr None)" by simp
      from e2 True have "exec (go a) t2 res" by simp
      then show thesis unfolding go_def
      proof (cases rule: exec_liveReconcile)
        case idle
        with tr t show thesis by (intro that(1)) auto
      next
        case (go a' pre rest)
        with alive n show thesis
          by (intro live [of "(GetArtifact namespace nm, g) # (GetNamespace (Namespace (osMeta a)), n) # pre" rest a a'])
            (auto simp: tr t livePrefix_def finalizerSet_def)
      qed
    qed
  qed
qed

section \<open>The evidence for a phase\<close>

definition buildPhase :: "os_artifact \<Rightarrow> bool" where
  "buildPhase a \<longleftrightarrow> phaseOf a \<noteq> Exporting \<and> phaseOf a \<noteq> Ready \<and> phaseOf a \<noteq> Error"

text \<open>A builder Pod in a phase, or a Job, as the listing of the reconcile showed them.\<close>

definition podSeen :: "os_trace \<Rightarrow> os_artifact \<Rightarrow> string \<Rightarrow> bool" where
  "podSeen tr a phase \<longleftrightarrow> (\<exists>pods p. (ListPodsByLabel None (artifactSelector a), OPods (Inr pods)) \<in> set tr \<and>
     p \<in> set pods \<and> podPhase (podStatus p) = phase)"

definition singleCompletion :: "job \<Rightarrow> bool" where
  "singleCompletion j \<longleftrightarrow> Completions (jobSpec j) = None \<or> Completions (jobSpec j) = Some 1"

definition exportDone :: "job \<Rightarrow> bool" where
  "exportDone j \<longleftrightarrow> singleCompletion j \<and> 0 < jobSucceeded (jobStatus j)"

definition exportGivenUp :: "job \<Rightarrow> bool" where
  "exportGivenUp j \<longleftrightarrow> (if singleCompletion j then jobSucceeded (jobStatus j) \<le> 0 \<and> exportJobFailed j
     else (\<exists>limit. BackoffLimit (jobSpec j) = Some limit \<and> limit \<le> jobFailed (jobStatus j)))"

definition exportIndex :: "job \<Rightarrow> string option" where
  "exportIndex j = map_of (Annotations (jobMeta j)) artifactExporterIndexAnnotation"

text \<open>A Pod in none of the phases the code tests for.\<close>

definition undecided :: "pod \<Rightarrow> bool" where
  "undecided p \<longleftrightarrow> podPhase (podStatus p) \<notin> {PodSucceeded, PodFailed, PodPending, PodRunning}"

definition phaseEvidence :: "os_trace \<Rightarrow> os_artifact \<Rightarrow> string \<Rightarrow> bool" where
  "phaseEvidence tr a phase \<longleftrightarrow>
     (if phase = Building then buildPhase a \<and> (\<exists>p. (CreateBuilderPod p, OUnit (Inr ())) \<in> set tr) \<and>
        (\<exists>pods. (ListPodsByLabel None (artifactSelector a), OPods (Inr pods)) \<in> set tr \<and> (\<forall>p \<in> set pods. undecided p))
      else if phase = Exporting then buildPhase a \<and> podSeen tr a PodSucceeded
      else if phase = Ready then phaseOf a = Exporting \<and>
        (\<exists>jobs. (ListJobsByLabel None (artifactSelector a), OJobs (Inr jobs)) \<in> set tr \<and>
          (\<forall>i < length (Exporters (osSpec a)). \<exists>j \<in> set jobs. exportIndex j = Some (dec_nat i) \<and> exportDone j))
      else phase = Error \<and> (buildPhase a \<and> podSeen tr a PodFailed \<or>
        phaseOf a = Exporting \<and> (\<exists>jobs j. (ListJobsByLabel None (artifactSelector a), OJobs (Inr jobs)) \<in> set tr \<and>
          j \<in> set jobs \<and> exportIndex j \<noteq> None \<and> exportGivenUp j)))"

lemma indexedJobs_in: "map_of (indexedJobs jobs) idx = Some j \<Longrightarrow> j \<in> set jobs \<and> exportIndex j = Some idx"
proof -
  have "map_of (foldl indexJob m jobs) idx = Some j \<Longrightarrow>
      map_of m idx = Some j \<or> (j \<in> set jobs \<and> exportIndex j = Some idx)" for m
    by (induction jobs arbitrary: m) (force simp: indexJob_def exportIndex_def split: option.splits if_splits)+
  from this [of "[]"] show "map_of (indexedJobs jobs) idx = Some j \<Longrightarrow> j \<in> set jobs \<and> exportIndex j = Some idx"
    by (simp add: indexedJobs_def)
qed

lemma indexedJobs_complete: "j \<in> set jobs \<Longrightarrow> exportIndex j = Some idx \<Longrightarrow> map_of (indexedJobs jobs) idx \<noteq> None"
proof -
  have keep: "map_of m idx \<noteq> None \<Longrightarrow> map_of (foldl indexJob m jobs) idx \<noteq> None" for m jobs
    by (induction jobs arbitrary: m) (auto simp: indexJob_def split: option.splits)
  have "j \<in> set jobs \<Longrightarrow> exportIndex j = Some idx \<Longrightarrow> map_of (foldl indexJob m jobs) idx \<noteq> None" for m
  proof (induction jobs arbitrary: m)
    case (Cons x jobs)
    show ?case
    proof (cases "x = j")
      case True
      with Cons.prems(2) have "map_of (indexJob m x) idx \<noteq> None" by (simp add: indexJob_def exportIndex_def)
      then show ?thesis using keep by simp
    next
      case False
      with Cons show ?thesis by simp
    qed
  qed simp
  then show "j \<in> set jobs \<Longrightarrow> exportIndex j = Some idx \<Longrightarrow> map_of (indexedJobs jobs) idx \<noteq> None"
    by (simp add: indexedJobs_def)
qed

section \<open>The steps of a build\<close>

text \<open>Neither a builder Pod nor a status.\<close>

definition preparing :: "os_req \<Rightarrow> bool" where
  "preparing q \<longleftrightarrow> (\<forall>p. q \<noteq> CreateBuilderPod p) \<and> \<not> statusWrite q"

lemma preparing_simps [simp]:
  "preparing (GetSecret n s)" "preparing (CreateOrUpdateSecret n s l d m)" "preparing (CreateConfigMap c)"
  "preparing (CreatePVC v)" "preparing (GetPVC n s)" "preparing (GetArtifact n s)" "\<not> preparing (CreateBuilderPod p)"
  "\<not> preparing (UpdateArtifactStatus a)"
  by (simp_all add: preparing_def)

lemma only_fetch: "(\<And>n s. A (GetSecret n s)) \<Longrightarrow> only A (fetchAndRenderUserOCISpec r a)"
  by (auto simp: fetchAndRenderUserOCISpec_def templateSecretValues_def Let_def intro!: only_attempt split: option.splits)

lemma only_checkSecret: "(\<And>n s. A (GetSecret n s)) \<Longrightarrow> only A (checkSecretOwnership n s a)"
  by (auto simp: checkSecretOwnership_def intro!: only_bind)

lemma only_resolve: "only preparing (resolveFinalOCISpec r a)"
  by (auto simp: resolveFinalOCISpec_def writeRenderedSecret_def Let_def intro!: only_bind only_attempt only_fetch
      only_checkSecret split: sum.splits)

lemma only_configMap: "only preparing (CreateConfigMapFor a)"
  by (auto simp: CreateConfigMapFor_def Let_def intro!: only_bind)

lemma only_claim: "only preparing (claimFor a)"
  by (auto simp: claimFor_def createPVC_def Let_def intro!: only_bind only_attempt split: sum.splits)

lemma prepared: "exec m t x \<Longrightarrow> only preparing m \<Longrightarrow> e \<in> set t \<Longrightarrow> preparing (fst e)"
  using only_exec [of m t x preparing "fst e" "snd e"] by simp

definition labelledPod :: "os_artifact \<Rightarrow> pod \<Rightarrow> pod" where
  "labelledPod a p = p\<lparr>podMeta := labelledFor a (podMeta p)\<rparr>"

text \<open>The last steps of a build: the builder Pod, and the phase once the Pod is there.\<close>

lemma exec_podStep:
  assumes "exec (attempt (createBuilderPod r a' pvcName) (\<lambda>_. attempt (oask (GetArtifact namespace nm) oArtifact) (\<lambda>fresh.
      artifactStatusUpdate (setPhase Building fresh)))) tr res"
  obtains (no_pod) "tr = []"
  | (pod) p u post where "newBuilderPod (builder_config.truncate r) a' pvcName = Some p"
      "tr = (CreateBuilderPod (labelledPod a' p), u) # post"
      "\<forall>e \<in> set post. preparing (fst e) \<or> (u = OUnit (Inr ()) \<and> (\<exists>f. fst e = UpdateArtifactStatus (setPhase Building f)))"
proof (cases "newBuilderPod (builder_config.truncate r) a' pvcName")
  case None
  with assms show thesis by (intro no_pod) (simp add: createBuilderPod_def attempt_def)
next
  case (Some p)
  with assms obtain u post where tr: "tr = (CreateBuilderPod (labelledPod a' p), u) # post" and
    ex: "exec (case oUnit u of Inl e \<Rightarrow> Ret (Inl e) | Inr _ \<Rightarrow> attempt (oask (GetArtifact namespace nm) oArtifact) (\<lambda>fresh.
        artifactStatusUpdate (setPhase Building fresh))) post res"
    by (auto simp: createBuilderPod_def exec_oask_attempt labelledPod_def)
  have "preparing (fst e) \<or> (u = OUnit (Inr ()) \<and> (\<exists>f. fst e = UpdateArtifactStatus (setPhase Building f)))"
    if e: "e \<in> set post" for e
  proof (cases "oUnit u")
    case (Inl x)
    with ex e show ?thesis by simp
  next
    case (Inr x)
    with ex obtain g t where post: "post = (GetArtifact namespace nm, g) # t" and
      "exec (case oArtifact g of Inl e \<Rightarrow> Ret (Inl e) | Inr f \<Rightarrow> artifactStatusUpdate (setPhase Building f)) t res"
      by (auto simp: exec_oask_attempt)
    with e Inr show ?thesis by (cases "oArtifact g") (auto simp: artifactStatusUpdate_def exec_oask)
  qed
  with pod [OF Some tr] show thesis by blast
qed

lemma exec_startBuild:
  assumes "exec (startBuild r a) tr res"
  obtains (stopped) "\<forall>e \<in> set tr. preparing (fst e)"
  | (pod) a' pvcName p t1 t2 t3 u post where
      "tr = t1 @ t2 @ t3 @ (CreateBuilderPod (labelledPod a' p), u) # post" "Validate (osSpec a) = Inr ()"
      "exec (resolveFinalOCISpec r a) t1 (a', Inr ())" "exec (CreateConfigMapFor a') t2 (Inr ())"
      "exec (claimFor a') t3 (Inr pvcName)" "newBuilderPod (builder_config.truncate r) a' pvcName = Some p"
      "\<forall>e \<in> set post. preparing (fst e) \<or> (u = OUnit (Inr ()) \<and> (\<exists>f. fst e = UpdateArtifactStatus (setPhase Building f)))"
proof (cases "Validate (osSpec a)")
  case (Inl e)
  with assms show thesis by (intro stopped) (simp add: startBuild_def)
next
  case valid: (Inr v)
  from assms valid obtain t1 a' resolved rest where tr: "tr = t1 @ rest" and e1: "exec (resolveFinalOCISpec r a) t1 (a', resolved)"
    and e2: "exec (case resolved of Inl e \<Rightarrow> Ret (Inl e) | Inr _ \<Rightarrow>
           attempt (CreateConfigMapFor a') (\<lambda>_. attempt (claimFor a') (\<lambda>pvcName.
           attempt (createBuilderPod r a' pvcName) (\<lambda>_.
           attempt (oask (GetArtifact (Namespace (osMeta a)) (Name (osMeta a))) oArtifact) (\<lambda>fresh.
           artifactStatusUpdate (setPhase Building fresh)))))) rest res"
    by (auto simp: startBuild_def exec_bind)
  note p1 = prepared [OF e1 only_resolve]
  consider (no_spec) e where "resolved = Inl e" | (no_config) u e where "resolved = Inr u" "exec (CreateConfigMapFor a') rest (Inl e)"
    | (no_claim) u t2 rest2 e where "resolved = Inr u" "rest = t2 @ rest2" "exec (CreateConfigMapFor a') t2 (Inr ())"
      "exec (claimFor a') rest2 (Inl e)"
    | (ready) t2 t3 rest3 pvcName where "resolved = Inr ()" "rest = t2 @ t3 @ rest3" "exec (CreateConfigMapFor a') t2 (Inr ())"
      "exec (claimFor a') t3 (Inr pvcName)" 
      "exec (attempt (createBuilderPod r a' pvcName) (\<lambda>_.
         attempt (oask (GetArtifact (Namespace (osMeta a)) (Name (osMeta a))) oArtifact) (\<lambda>fresh.
         artifactStatusUpdate (setPhase Building fresh)))) rest3 res"
    using e2 by (cases resolved) (auto simp: exec_attempt [of "CreateConfigMapFor a'"] exec_attempt [of "claimFor a'"])
  then show thesis
  proof cases
    case no_spec
    with e2 tr p1 show thesis by (intro stopped) auto
  next
    case no_config
    with prepared [OF no_config(2) only_configMap] p1 tr show thesis by (intro stopped) auto
  next
    case no_claim
    with prepared [OF no_claim(3) only_configMap] prepared [OF no_claim(4) only_claim] p1 tr show thesis
      by (intro stopped) auto
  next
    case ready
    from ready(5) show thesis
    proof (cases rule: exec_podStep)
      case no_pod
      with prepared [OF ready(3) only_configMap] prepared [OF ready(4) only_claim] p1 tr ready(2) show thesis
        by (intro stopped) auto
    next
      case (pod p u post)
      have "tr = t1 @ t2 @ t3 @ (CreateBuilderPod (labelledPod a' p), u) # post" by (simp add: tr ready(2) pod(2))
      from that(2) [OF this _ _ ready(3,4) pod(1,3)] e1 ready(1) valid show thesis by simp
    qed
  qed
qed

lemma exec_judge:
  assumes "exec (judgeBuilderPods r a ps) tr res"
  shows "(exec (startBuild r a) tr res \<and> (\<forall>p \<in> set ps. undecided p)) \<or> tr = [] \<or>
    (\<exists>p \<in> set ps. \<exists>u. podPhase (podStatus p) = PodSucceeded \<and> tr = [(UpdateArtifactStatus (setPhase Exporting a), u)]) \<or>
    (\<exists>p \<in> set ps. \<exists>u. podPhase (podStatus p) = PodFailed \<and>
       tr = [(UpdateArtifactStatus (setFailed (builderPodFailureMessage p) a), u)])"
  using assms
proof (induction ps)
  case (Cons p ps)
  consider "podPhase (podStatus p) = PodSucceeded" | "podPhase (podStatus p) = PodFailed"
    | "podPhase (podStatus p) = PodPending \<or> podPhase (podStatus p) = PodRunning"
    | "podPhase (podStatus p) \<notin> {PodSucceeded, PodFailed, PodPending, PodRunning}" by auto
  then show ?case
  proof cases
    case 4
    with Cons.prems have "exec (judgeBuilderPods r a ps) tr res" by (auto simp: Let_def)
    from Cons.IH [OF this] 4 show ?thesis by (auto simp: undecided_def)
  qed (use Cons.prems in \<open>auto simp: artifactStatusUpdate_def exec_oask Let_def kconst\<close>)
qed simp

lemma judged_stopped:
  "0 < jobSucceeded (jobStatus j) \<Longrightarrow> singleCompletion j \<Longrightarrow> exportDone j"
  by (simp add: exportDone_def)

text \<open>The events of the loop over the exporters, from the one with index \<open>i\<close> on.\<close>

definition exportEvent :: "os_artifact \<Rightarrow> (string \<times> job) list \<Rightarrow> volume \<Rightarrow> nat \<Rightarrow> job_spec list \<Rightarrow> os_req \<Rightarrow> bool" where
  "exportEvent a jobs vol i specs q \<longleftrightarrow> (\<exists>k < length specs.
     (map_of jobs (dec_nat (i + k)) = None \<and> q = CreateExportJob (exportJob a vol (dec_nat (i + k)) (specs ! k))) \<or>
     (\<exists>j. map_of jobs (dec_nat (i + k)) = Some j \<and> exportGivenUp j \<and>
        q = UpdateArtifactStatus (setFailed (exportJobFailureMessage j) a)))"

lemma exportEvent_later: "exportEvent a jobs vol (Suc i) specs q \<Longrightarrow> exportEvent a jobs vol i (spec # specs) q"
proof -
  assume "exportEvent a jobs vol (Suc i) specs q"
  then obtain k where "k < length specs" and
    k: "(map_of jobs (dec_nat (Suc i + k)) = None \<and> q = CreateExportJob (exportJob a vol (dec_nat (Suc i + k)) (specs ! k))) \<or>
     (\<exists>j. map_of jobs (dec_nat (Suc i + k)) = Some j \<and> exportGivenUp j \<and>
        q = UpdateArtifactStatus (setFailed (exportJobFailureMessage j) a))"
    unfolding exportEvent_def by blast
  then show ?thesis unfolding exportEvent_def by (intro exI [of _ "Suc k"]) simp
qed

definition exportsCounted :: "(string \<times> job) list \<Rightarrow> nat \<Rightarrow> nat \<Rightarrow> nat \<Rightarrow> export_outcome \<Rightarrow> bool" where
  "exportsCounted jobs i len s out \<longleftrightarrow> (\<forall>n. out = Succeeded n \<longrightarrow> n \<le> s + len \<and>
     (n = s + len \<longrightarrow> (\<forall>k < len. \<exists>j. map_of jobs (dec_nat (i + k)) = Some j \<and> exportDone j)))"

lemma counted_skip: "exportsCounted jobs (Suc i) len s out \<Longrightarrow> exportsCounted jobs i (Suc len) s out"
  by (auto simp: exportsCounted_def)

lemma counted_done:
  assumes "exportsCounted jobs (Suc i) len (Suc s) out" and "map_of jobs (dec_nat i) = Some j" and "exportDone j"
  shows "exportsCounted jobs i (Suc len) s out"
  using assms unfolding exportsCounted_def
  by (metis add.right_neutral add_Suc add_Suc_right less_Suc_eq_0_disj)

text \<open>One exporter with a listed Job: it is counted, skipped, given up with a status write, or stops the pass.\<close>

lemma exec_exportListed:
  assumes "exec (exportEach a jobs vol i (spec # specs) s) tr out" and "map_of jobs (dec_nat i) = Some j"
  obtains (counted) "exportDone j" "exec (exportEach a jobs vol (Suc i) specs (Suc s)) tr out"
    | (skipped) "exec (exportEach a jobs vol (Suc i) specs s) tr out"
    | (given_up) "exportGivenUp j" "exec (failExport a j) tr out"
    | (no_limit) x where "tr = []" "out = ReturnNow x"
proof (cases "singleCompletion j")
  case single: True
  consider "0 < jobSucceeded (jobStatus j)" | "jobSucceeded (jobStatus j) \<le> 0" "exportJobFailed j"
    | "jobSucceeded (jobStatus j) \<le> 0" "\<not> exportJobFailed j" by linarith
  then show thesis
  proof cases
    case 1
    with assms single show thesis by (intro counted judged_stopped) (auto simp: singleCompletion_def)
  next
    case 2
    with assms single show thesis by (intro given_up) (auto simp: singleCompletion_def exportGivenUp_def)
  next
    case 3
    with assms single show thesis by (intro skipped) (auto simp: singleCompletion_def)
  qed
next
  case False
  consider "BackoffLimit (jobSpec j) = None" | limit where "BackoffLimit (jobSpec j) = Some limit" "limit \<le> jobFailed (jobStatus j)"
    | limit where "BackoffLimit (jobSpec j) = Some limit" "\<not> limit \<le> jobFailed (jobStatus j)"
    by (cases "BackoffLimit (jobSpec j)") auto
  then show thesis
  proof cases
    case 1
    with assms False show thesis by (cases out) (auto simp: singleCompletion_def intro: no_limit)
  next
    case 2
    with assms False show thesis by (intro given_up) (auto simp: singleCompletion_def exportGivenUp_def)
  next
    case 3
    with assms False show thesis by (intro skipped) (auto simp: singleCompletion_def)
  qed
qed

lemma exec_exportEach:
  assumes "exec (exportEach a jobs vol i specs s) tr out"
  shows "(\<forall>e \<in> set tr. exportEvent a jobs vol i specs (fst e)) \<and> exportsCounted jobs i (length specs) s out \<and>
    (\<forall>n. out = Succeeded n \<longrightarrow> (\<forall>e \<in> set tr. \<not> statusWrite (fst e)))"
  using assms
proof (induction specs arbitrary: i s tr)
  case Nil
  then show ?case by (simp add: exportsCounted_def)
next
  case (Cons spec specs)
  show ?case
  proof (cases "map_of jobs (dec_nat i)")
    case None
    with Cons.prems obtain u t where tr: "tr = (CreateExportJob (exportJob a vol (dec_nat i) spec), u) # t" and
      ex: "exec (case oUnit u of Inl e \<Rightarrow> Ret (ReturnNow (Inl e)) | Inr _ \<Rightarrow> exportEach a jobs vol (Suc i) specs s) t out"
      by (auto simp: exec_oask_bind)
    have first: "exportEvent a jobs vol i (spec # specs) (CreateExportJob (exportJob a vol (dec_nat i) spec))"
      using None unfolding exportEvent_def by (intro exI [of _ 0]) simp
    show ?thesis
    proof (cases "oUnit u")
      case (Inl e)
      with ex tr first show ?thesis by (simp add: exportsCounted_def)
    next
      case (Inr v)
      with ex have "exec (exportEach a jobs vol (Suc i) specs s) t out" by simp
      from Cons.IH [OF this] first tr show ?thesis
        by (auto intro: exportEvent_later counted_skip)
    qed
  next
    case (Some j)
    from Cons.prems Some show ?thesis
    proof (cases rule: exec_exportListed)
      case counted
      with Cons.IH [OF counted(2)] Some show ?thesis by (auto intro: exportEvent_later counted_done)
    next
      case skipped
      from Cons.IH [OF skipped] show ?thesis by (auto intro: exportEvent_later counted_skip)
    next
      case given_up
      then obtain u x where tr: "tr = [(UpdateArtifactStatus (setFailed (exportJobFailureMessage j) a), u)]" "out = ReturnNow x"
        by (auto simp: failExport_def artifactStatusUpdate_def exec_oask_bind)
      have "exportEvent a jobs vol i (spec # specs) (UpdateArtifactStatus (setFailed (exportJobFailureMessage j) a))"
        using Some given_up(1) unfolding exportEvent_def by (intro exI [of _ 0]) simp
      with tr show ?thesis by (simp add: exportsCounted_def)
    next
      case no_limit
      then show ?thesis by (simp add: exportsCounted_def)
    qed
  qed
qed

lemma only_exportVolume: "only (\<lambda>q. \<not> statusWrite q \<and> \<not> creating q) (volumeForExportArtifacts a)"
  by (auto simp: volumeForExportArtifacts_def lookupArtifactsPVC_def Let_def intro!: only_attempt)

lemma exec_checkExport:
  assumes "exec (checkExport a) tr res"
  obtains (stopped) "\<forall>e \<in> set tr. \<not> statusWrite (fst e) \<and> \<not> creating (fst e)" "res \<noteq> Inr ()"
  | (exporting) jobs vol t1 t2 out t3 where
      "tr = (ListJobsByLabel None (artifactSelector a), OJobs (Inr jobs)) # t1 @ t2 @ t3"
      "exec (volumeForExportArtifacts a) t1 (Inr vol)" "\<forall>e \<in> set t1. \<not> statusWrite (fst e) \<and> \<not> creating (fst e)"
      "exec (exportEach a (indexedJobs jobs) vol 0 (Exporters (osSpec a)) 0) t2 out"
      "t3 = [] \<or> (out = Succeeded (length (Exporters (osSpec a))) \<and> (\<exists>u. t3 = [(UpdateArtifactStatus (setPhase Ready a), u)]))"
      "out = Succeeded (length (Exporters (osSpec a))) \<Longrightarrow> t3 \<noteq> []"
proof -
  from assms obtain l rest where tr: "tr = (ListJobsByLabel None (artifactSelector a), l) # rest" and
    e1: "exec (case oJobs l of Inl e \<Rightarrow> Ret (Inl e) | Inr jobs \<Rightarrow>
       attempt (volumeForExportArtifacts a) (\<lambda>exportVol.
       bind (exportEach a (indexedJobs jobs) exportVol 0 (Exporters (osSpec a)) 0) (\<lambda>out. case out of
         ReturnNow r \<Rightarrow> Ret r
       | Succeeded n \<Rightarrow>
           if n = length (Exporters (osSpec a)) then artifactStatusUpdate (setPhase Ready a) else Ret (Inr ())))) rest res"
    unfolding checkExport_def exec_oask_attempt by blast
  show thesis
  proof (cases "oJobs l")
    case (Inl e)
    with e1 tr show thesis by (intro stopped) simp_all
  next
    case (Inr jobs)
    then have l: "l = OJobs (Inr jobs)" by simp
    from e1 Inr consider (err) e where "exec (volumeForExportArtifacts a) rest (Inl e)" "res = Inl e"
      | (ok) t1 vol rest2 where "rest = t1 @ rest2" "exec (volumeForExportArtifacts a) t1 (Inr vol)"
        "exec (bind (exportEach a (indexedJobs jobs) vol 0 (Exporters (osSpec a)) 0) (\<lambda>out. case out of
           ReturnNow r \<Rightarrow> Ret r
         | Succeeded n \<Rightarrow> if n = length (Exporters (osSpec a)) then artifactStatusUpdate (setPhase Ready a)
             else Ret (Inr ()))) rest2 res"
      unfolding Inr sum.case exec_attempt by auto
    then show thesis
    proof cases
      case err
      then have "\<forall>e \<in> set rest. \<not> statusWrite (fst e) \<and> \<not> creating (fst e)"
        using only_exec [OF err(1) only_exportVolume] by auto
      with tr err(2) show thesis by (intro stopped) simp_all
    next
      case ok
      have q: "\<forall>e \<in> set t1. \<not> statusWrite (fst e) \<and> \<not> creating (fst e)"
        using only_exec [OF ok(2) only_exportVolume] by auto
      from ok(3) obtain t2 out t3 where r2: "rest2 = t2 @ t3" and
        e2: "exec (exportEach a (indexedJobs jobs) vol 0 (Exporters (osSpec a)) 0) t2 out" and
        e3: "exec (case out of ReturnNow r \<Rightarrow> Ret r
           | Succeeded n \<Rightarrow> if n = length (Exporters (osSpec a)) then artifactStatusUpdate (setPhase Ready a)
               else Ret (Inr ())) t3 res"
        by (auto simp: exec_bind)
      have "t3 = [] \<or> (out = Succeeded (length (Exporters (osSpec a))) \<and> (\<exists>u. t3 = [(UpdateArtifactStatus (setPhase Ready a), u)]))"
        using e3 by (cases out) (auto simp: artifactStatusUpdate_def exec_oask split: if_splits)
      moreover have "tr = (ListJobsByLabel None (artifactSelector a), OJobs (Inr jobs)) # t1 @ t2 @ t3"
        using tr l ok(1) r2 by simp
      moreover have "t3 \<noteq> []" if "out = Succeeded (length (Exporters (osSpec a)))"
        using e3 that by (auto simp: artifactStatusUpdate_def exec_oask)
      ultimately show thesis using ok(2) q e2 by (intro exporting)
    qed
  qed
qed

lemma exec_checkBuild:
  assumes "exec (checkBuild r a) tr res"
  obtains (stopped) "\<forall>e \<in> set tr. preparing (fst e)"
  | (decided) pods p u where "tr = [(ListPodsByLabel None (artifactSelector a), OPods (Inr pods)), u]" "p \<in> set pods"
      "podPhase (podStatus p) = PodSucceeded \<and> fst u = UpdateArtifactStatus (setPhase Exporting a) \<or>
       podPhase (podStatus p) = PodFailed \<and> fst u = UpdateArtifactStatus (setFailed (builderPodFailureMessage p) a)"
  | (building) pods rest where "tr = (ListPodsByLabel None (artifactSelector a), OPods (Inr pods)) # rest"
      "\<forall>p \<in> set pods. undecided p" "exec (startBuild r a) rest res"
proof -
  from assms obtain l rest where tr: "tr = (ListPodsByLabel None (artifactSelector a), l) # rest" and
    e1: "exec (case oPods l of Inl e \<Rightarrow> Ret (Inl e) | Inr ps \<Rightarrow> judgeBuilderPods r a ps) rest res"
    unfolding checkBuild_def exec_oask_attempt by blast
  have lp: "preparing (ListPodsByLabel None (artifactSelector a))" by (simp add: preparing_def)
  show thesis
  proof (cases "oPods l")
    case (Inl e)
    with e1 tr lp show thesis by (intro stopped) simp
  next
    case (Inr pods)
    then have l: "l = OPods (Inr pods)" by simp
    from e1 Inr have "exec (judgeBuilderPods r a pods) rest res" by simp
    from exec_judge [OF this] show thesis
    proof (elim disjE conjE bexE exE)
      assume "exec (startBuild r a) rest res" "\<forall>p \<in> set pods. undecided p"
      with tr l show thesis by (intro building) auto
    next
      assume "rest = []"
      with tr lp show thesis by (intro stopped) simp
    next
      fix p u
      assume "p \<in> set pods" "podPhase (podStatus p) = PodSucceeded" "rest = [(UpdateArtifactStatus (setPhase Exporting a), u)]"
      with tr l show thesis by (intro decided) auto
    next
      fix p u
      assume "p \<in> set pods" "podPhase (podStatus p) = PodFailed"
        "rest = [(UpdateArtifactStatus (setFailed (builderPodFailureMessage p) a), u)]"
      with tr l show thesis by (intro decided) auto
    qed
  qed
qed

section \<open>The phase machine\<close>

lemma phase_setters [simp]:
  "phaseOf (setPhase p a) = p" "phaseOf (setFailed msg a) = Error"
  by (simp_all add: phaseOf_def setPhase_def setFailed_def)

lemma phases_differ [simp]:
  "Building \<noteq> Exporting" "Building \<noteq> Ready" "Building \<noteq> Error" "Exporting \<noteq> Building" "Exporting \<noteq> Ready" "Exporting \<noteq> Error"
  "Ready \<noteq> Building" "Ready \<noteq> Exporting" "Ready \<noteq> Error" "Error \<noteq> Building" "Error \<noteq> Exporting" "Error \<noteq> Ready"
  by (simp_all add: artifact_phases)

lemma phaseEvidence_mono: "phaseEvidence tr a phase \<Longrightarrow> set tr \<subseteq> set tr' \<Longrightarrow> phaseEvidence tr' a phase"
proof -
  assume ev: "phaseEvidence tr a phase" and sub: "set tr \<subseteq> set tr'"
  have seen: "podSeen tr a ph \<Longrightarrow> podSeen tr' a ph" for ph using sub unfolding podSeen_def by blast
  consider "phase = Building" | "phase = Exporting" | "phase = Ready" | "phase \<notin> {Building, Exporting, Ready}" by blast
  then show "phaseEvidence tr' a phase"
  proof cases
    case 1
    with ev sub show ?thesis unfolding phaseEvidence_def by simp blast
  next
    case 2
    with ev seen show ?thesis unfolding phaseEvidence_def by simp
  next
    case 3
    with ev sub show ?thesis unfolding phaseEvidence_def by simp blast
  next
    case 4
    with ev sub seen [of PodFailed] show ?thesis unfolding phaseEvidence_def by simp blast
  qed
qed

lemma phaseEvidence_same: "sameArtifact a a' \<Longrightarrow> phaseEvidence tr a' phase \<Longrightarrow> phaseEvidence tr a phase"
proof -
  assume same: "sameArtifact a a'" and ev: "phaseEvidence tr a' phase"
  have eq: "phaseOf a' = phaseOf a" "osSpec a' = osSpec a" using same by (simp_all add: phaseOf_def sameArtifact_def)
  from ev show ?thesis unfolding phaseEvidence_def podSeen_def buildPhase_def same_selector [OF same] eq .
qed

lemma checkBuild_evidence:
  assumes "exec (checkBuild r a) tr res" and "buildPhase a" and w: "(UpdateArtifactStatus w, u) \<in> set tr"
  shows "phaseEvidence tr a (phaseOf w)"
  using assms(1)
proof (cases rule: exec_checkBuild)
  case stopped
  with w show ?thesis by fastforce
next
  case (decided pods p v)
  with w have "fst v = UpdateArtifactStatus w" by (auto simp: preparing_def)
  with decided assms(2) show ?thesis by (auto simp: phaseEvidence_def podSeen_def)
next
  case (building pods rest)
  from w building(1) have wr: "(UpdateArtifactStatus w, u) \<in> set rest" by simp
  from building(3) show ?thesis
  proof (cases rule: exec_startBuild)
    case stopped
    with wr show ?thesis by fastforce
  next
    case (pod a' pvcName p t1 t2 t3 v post)
    have "preparing (UpdateArtifactStatus w)" if "(UpdateArtifactStatus w, u) \<in> set (t1 @ t2 @ t3)"
      using that prepared [OF pod(3) only_resolve] prepared [OF pod(4) only_configMap] prepared [OF pod(5) only_claim]
      by fastforce
    with wr pod(1) have "(UpdateArtifactStatus w, u) \<in> set post" by auto
    with pod(7) have "v = OUnit (Inr ())" "\<exists>f. w = setPhase Building f" by fastforce+
    with pod(1) building(1,2) assms(2) show ?thesis by (auto simp: phaseEvidence_def)
  qed
qed

lemma checkExport_evidence:
  assumes "exec (checkExport a) tr res" and "phaseOf a = Exporting" and w: "(UpdateArtifactStatus w, u) \<in> set tr"
  shows "phaseEvidence tr a (phaseOf w)"
  using assms(1)
proof (cases rule: exec_checkExport)
  case stopped
  with w show ?thesis by fastforce
next
  case (exporting jobs vol t1 t2 out t3)
  note ee = exec_exportEach [OF exporting(4)]
  from w exporting(1,3) have "(UpdateArtifactStatus w, u) \<in> set t2 \<or> (UpdateArtifactStatus w, u) \<in> set t3" by fastforce
  then show ?thesis
  proof
    assume "(UpdateArtifactStatus w, u) \<in> set t2"
    with ee have "exportEvent a (indexedJobs jobs) vol 0 (Exporters (osSpec a)) (UpdateArtifactStatus w)" by fastforce
    then obtain k j where "map_of (indexedJobs jobs) (dec_nat k) = Some j" "exportGivenUp j"
      "w = setFailed (exportJobFailureMessage j) a" by (auto simp: exportEvent_def)
    with indexedJobs_in [of jobs "dec_nat k" j] exporting(1) assms(2) show ?thesis
      by (auto simp: phaseEvidence_def)
  next
    assume "(UpdateArtifactStatus w, u) \<in> set t3"
    with exporting(5) have out: "out = Succeeded (length (Exporters (osSpec a)))" and w: "w = setPhase Ready a" by auto
    from ee out have "\<forall>k < length (Exporters (osSpec a)). \<exists>j. map_of (indexedJobs jobs) (dec_nat k) = Some j \<and> exportDone j"
      by (simp add: exportsCounted_def)
    then have "\<forall>k < length (Exporters (osSpec a)). \<exists>j \<in> set jobs. exportIndex j = Some (dec_nat k) \<and> exportDone j"
      using indexedJobs_in by blast
    with exporting(1) assms(2) w show ?thesis by (auto simp: phaseEvidence_def)
  qed
qed

lemma status_write_evidence:
  assumes "exec (osReconcile r namespace nm) tr res" and "(UpdateArtifactStatus w, u) \<in> set tr"
  shows "\<exists>a. (GetArtifact namespace nm, OArtifact (Inr a)) \<in> set tr \<and> DeletionTimestamp (osMeta a) = None \<and>
    phaseOf a \<noteq> Ready \<and> phaseOf a \<noteq> Error \<and> phaseEvidence tr a (phaseOf w)"
  using assms(1)
proof (cases rule: exec_osReconcile)
  case idle
  with assms(2) show ?thesis by fastforce
next
  case (live a a' pre rest)
  from live(2) have "(UpdateArtifactStatus w, u) \<notin> set pre" by (fastforce simp: livePrefix_def)
  with assms(2) live(1) have wr: "(UpdateArtifactStatus w, u) \<in> set rest" by simp
  have ph: "phaseOf a' = phaseOf a" using live(3) by (simp add: phaseOf_def sameArtifact_def)
  have "phaseEvidence rest a' (phaseOf w)"
  proof (cases "phaseOf a = Exporting")
    case True
    with live(6) wr ph show ?thesis by (intro checkExport_evidence) auto
  next
    case False
    with live(4-6) wr ph show ?thesis by (intro checkBuild_evidence) (auto simp: buildPhase_def)
  qed
  from phaseEvidence_mono [OF phaseEvidence_same [OF live(3) this]] live(1) have "phaseEvidence tr a (phaseOf w)" by simp
  with live show ?thesis by (intro exI [of _ a]) (auto simp: livePrefix_def)
qed

text \<open>
  C10. The phase of an OSArtifact changes only as its state machine allows and only on evidence seen in
  the same reconcile: Building after a builder Pod was created, while the listing showed none that
  runs or has ended; Exporting after a builder Pod was listed as succeeded; Ready, from Exporting
  only, when for every exporter a Job with its index was listed as succeeded; Error when a builder
  Pod failed or an export Job was given up. Ready and Error are final, and nothing changes while
  the artifact is being deleted.
\<close>

theorem phase_changes_on_evidence:
  assumes "exec (osReconcile r namespace nm) tr res" and "(UpdateArtifactStatus w, u) \<in> set tr"
  shows "\<exists>a. (GetArtifact namespace nm, OArtifact (Inr a)) \<in> set tr \<and> DeletionTimestamp (osMeta a) = None \<and>
    phaseOf a \<noteq> Ready \<and> phaseOf a \<noteq> Error \<and> phaseEvidence tr a (phaseOf w)"
  using assms by (rule status_write_evidence)

section \<open>Nothing is created for an artifact or a namespace that goes away\<close>

text \<open>
  C24. Whatever a reconcile creates (the build Secret, ConfigMap, claim, builder Pod or export Jobs), it
  has read the artifact as not being deleted and its namespace as not terminating, and the finalizer
  was on the artifact or has been put there first.
\<close>

theorem creates_only_when_live:
  assumes "exec (osReconcile r namespace nm) tr res"
  shows "guarded (\<lambda>g e. \<exists>a. g = (GetNamespace (Namespace (osMeta a)), ONamespace (Inr None)) \<and>
      (GetArtifact namespace nm, OArtifact (Inr a)) \<in> set tr \<and> DeletionTimestamp (osMeta a) = None) (\<lambda>e. creating (fst e)) tr \<and>
    guarded (\<lambda>g e. \<exists>a. g = (GetArtifact namespace nm, OArtifact (Inr a)) \<and> FinalizerName \<in> set (Finalizers (osMeta a)) \<or>
      (\<exists>v. g = (UpdateArtifact (withFinalizers (\<lambda>fs. fs @ [FinalizerName]) a), OVersion (Inr v)))) (\<lambda>e. creating (fst e)) tr"
  using assms
proof (cases rule: exec_osReconcile)
  case idle
  then show ?thesis by (intro conjI guarded_none) auto
next
  case (live a a' pre rest)
  then have q: "\<And>e. e \<in> set pre \<Longrightarrow> \<not> creating (fst e)" by (auto simp: livePrefix_def)
  show ?thesis
    unfolding live(1)
  proof (intro conjI guarded_append)
    fix p e post
    have "(GetNamespace (Namespace (osMeta a)), ONamespace (Inr None)) \<in> set pre" "DeletionTimestamp (osMeta a) = None"
      "(GetArtifact namespace nm, OArtifact (Inr a)) \<in> set (pre @ rest)"
      using live(2) by (auto simp: livePrefix_def)
    then show "\<exists>g \<in> set pre \<union> set p. \<exists>a. g = (GetNamespace (Namespace (osMeta a)), ONamespace (Inr None)) \<and>
        (GetArtifact namespace nm, OArtifact (Inr a)) \<in> set (pre @ rest) \<and> DeletionTimestamp (osMeta a) = None" by blast
    show "\<exists>g \<in> set pre \<union> set p. \<exists>a. g = (GetArtifact namespace nm, OArtifact (Inr a)) \<and> FinalizerName \<in> set (Finalizers (osMeta a)) \<or>
        (\<exists>v. g = (UpdateArtifact (withFinalizers (\<lambda>fs. fs @ [FinalizerName]) a), OVersion (Inr v)))"
      using live(2) unfolding livePrefix_def finalizerSet_def by blast
  qed (use q in \<open>auto intro!: guarded_none\<close>)
qed

section \<open>Only its own Secret is written\<close>

definition secretWrite :: "os_req \<times> os_resp \<Rightarrow> bool" where
  "secretWrite e \<longleftrightarrow> (\<exists>ns sn l d m. fst e = CreateOrUpdateSecret ns sn l d m)"

text \<open>The Secret of a write was read before, as absent or as controlled by the artifact.\<close>

definition secretChecked :: "os_req \<times> os_resp \<Rightarrow> os_req \<times> os_resp \<Rightarrow> bool" where
  "secretChecked g e \<longleftrightarrow> (\<exists>ns sn l d m. fst e = CreateOrUpdateSecret ns sn l d m \<and> fst g = GetSecret ns sn \<and>
     ((\<exists>x. oSecret (snd g) = Inl x \<and> IsNotFound x) \<or> (\<exists>s. snd g = OSecret (Inr s) \<and> IsControlledBy (secMeta s) m)))"

lemma only_no_secret: "exec m t x \<Longrightarrow> only (\<lambda>q. \<forall>ns sn l d o'. q \<noteq> CreateOrUpdateSecret ns sn l d o') m \<Longrightarrow> guarded G secretWrite t"
  by (rule guarded_none) (auto simp: secretWrite_def dest: only_exec)

definition renderedWrite :: "os_artifact \<Rightarrow> string \<Rightarrow> os_req" where
  "renderedWrite a data = CreateOrUpdateSecret (Namespace (osMeta a)) (renderedSecretName a)
     [(artifactLabel, Name (osMeta a))] [(OCISpecSecretKey, data)] (osMeta a)"

lemma exec_writeRenderedSecret:
  assumes "exec (writeRenderedSecret a data) t res"
  shows "guarded secretChecked secretWrite t \<and> (res = Inr () \<longrightarrow> (renderedWrite a data, OUnit (Inr ())) \<in> set t)"
proof -
  let ?get = "GetSecret (Namespace (osMeta a)) (renderedSecretName a)"
  let ?owned = "\<lambda>g. case oSecret g of Inl e \<Rightarrow> if IsNotFound e then Inr () else Inl (Wrapf ''failed to check for existing Secret'' e)
     | Inr s \<Rightarrow> if IsControlledBy (secMeta s) (osMeta a) then Inr ()
       else Inl (Errorf (''secret '' @ quoted (renderedSecretName a) @
         '' already exists and is not owned by this OSArtifact (uid='' @ UID (osMeta a) @
         ''); refusing to update to prevent collision''))"
  let ?store = "oask (renderedWrite a data) (wrapped ''failed to create or update rendered OCI build definition secret'' \<circ> oUnit)"
  have "exec (bind (oask ?get oSecret) (\<lambda>got. bind (Ret (case got of
       Inl e \<Rightarrow> if IsNotFound e then Inr () else Inl (Wrapf ''failed to check for existing Secret'' e)
     | Inr s \<Rightarrow> if IsControlledBy (secMeta s) (osMeta a) then Inr ()
       else Inl (Errorf (''secret '' @ quoted (renderedSecretName a) @
         '' already exists and is not owned by this OSArtifact (uid='' @ UID (osMeta a) @
         ''); refusing to update to prevent collision''))))
     (\<lambda>x. case x of Inl e \<Rightarrow> Ret (Inl e) | Inr _ \<Rightarrow> ?store))) t res"
    using assms unfolding writeRenderedSecret_def checkSecretOwnership_def attempt_def bind_assoc Let_def renderedWrite_def .
  then obtain g t2 where t: "t = (?get, g) # t2" and
    ex: "exec (case ?owned g of Inl e \<Rightarrow> Ret (Inl e) | Inr _ \<Rightarrow> ?store) t2 res"
    unfolding exec_oask_bind bind.simps by blast
  have no: "\<not> secretWrite (?get, g)" by (simp add: secretWrite_def)
  show ?thesis
  proof (cases "?owned g")
    case (Inl e)
    with ex have "t2 = []" "res = Inl e" by simp_all
    with t no show ?thesis by (auto intro!: guarded_none)
  next
    case (Inr v)
    with ex obtain w where t2: "t2 = [(renderedWrite a data, w)]" and
      res: "res = wrapped ''failed to create or update rendered OCI build definition secret'' (oUnit w)"
      by (auto simp: exec_oask)
    have "(\<exists>x. oSecret g = Inl x \<and> IsNotFound x) \<or> (\<exists>s. g = OSecret (Inr s) \<and> IsControlledBy (secMeta s) (osMeta a))"
      using Inr by (cases "oSecret g") (auto split: if_splits)
    then have "secretChecked (?get, g) (renderedWrite a data, w)" by (auto simp: secretChecked_def renderedWrite_def)
    then have "guarded secretChecked secretWrite ([(?get, g)] @ (renderedWrite a data, w) # [])"
      using no by (intro guarded_single) auto
    moreover have "res = Inr () \<longrightarrow> w = OUnit (Inr ())" using res by (auto simp: wrapped_def split: sum.splits)
    ultimately show ?thesis using t t2 by auto
  qed
qed

lemma rendered_same [simp]:
  "osMeta (withRenderedSpec a) = osMeta a" "osVolumes (osSpec (withRenderedSpec a)) = osVolumes (osSpec a)"
  "artifactsOf (withRenderedSpec a) = artifactsOf a" "Importers (osSpec (withRenderedSpec a)) = Importers (osSpec a)"
  "imgRef (imageOf (withRenderedSpec a)) = imgRef (imageOf a)" "hasOCISpecRef (imageOf (withRenderedSpec a))"
  "renderedSecretName (withRenderedSpec a) = renderedSecretName a" "renderedWrite (withRenderedSpec a) d = renderedWrite a d"
  "artField f (withRenderedSpec a) = artField f a" "NameOverride (osSpec (withRenderedSpec a)) = NameOverride (osSpec a)"
  by (simp_all add: withRenderedSpec_def hasOCISpecRef_def renderedSecretName_def renderedWrite_def artField_def Let_def)

lemma rendered_image:
  "BuildOptions (imageOf (withRenderedSpec a)) = BuildOptions (imageOf a)"
  "imgBuildImage (imageOf (withRenderedSpec a)) = imgBuildImage (imageOf a)" "Push (imageOf (withRenderedSpec a)) = Push (imageOf a)"
  "CACertificatesVolume (imageOf (withRenderedSpec a)) = CACertificatesVolume (imageOf a)"
  "StorageVolume (imageOf (withRenderedSpec a)) = StorageVolume (imageOf a)"
  "OCISpec (imageOf (withRenderedSpec a)) = Some o' \<Longrightarrow>
     BuildContextVolume o' = (case OCISpec (imageOf a) of None \<Rightarrow> [] | Some o'' \<Rightarrow> BuildContextVolume o'')"
  by (auto simp: withRenderedSpec_def empty_oci_spec_def Let_def split: option.splits)

lemma rendered_valid: "Validate (osSpec a) = Inr () \<Longrightarrow> Validate (osSpec (withRenderedSpec a)) = Inr ()"
proof -
  assume "Validate (osSpec a) = Inr ()"
  then have v: "validSpec (osSpec a)" by (simp add: Validate_iff)
  have r: "refOk (osSpec (withRenderedSpec a)) = refOk (osSpec a)" by (rule ext) (simp add: refOk_def)
  have b: "buildOk (osSpec (withRenderedSpec a)) (imageOf (withRenderedSpec a))" if "buildOk (osSpec a) (imageOf a)"
    using that rendered_image(6) [of a] unfolding buildOk_def r rendered_image(1-5)
    by (auto simp: refOk_def split: option.splits)
  have "imageOk (osSpec (withRenderedSpec a)) (imageOf (withRenderedSpec a))"
    using v b unfolding validSpec_def imageOk_def r rendered_image(1-5)
    by (cases "imgBuildImage (imageOf a)") simp_all
  moreover have "artifactsOk (osSpec (withRenderedSpec a)) x" if "artifactsOk (osSpec a) x" for x
    using that unfolding artifactsOk_def r by (simp add: rendered_image)
  ultimately show ?thesis
    using v by (simp add: Validate_iff validSpec_def volumesOk_def)
qed

lemma exec_resolve:
  assumes "exec (resolveFinalOCISpec r a) t (a', res)"
  shows "guarded secretChecked secretWrite t \<and>
    (res = Inr () \<longrightarrow> (if imgRef (imageOf a) \<noteq> [] then a' = a
       else a' = withRenderedSpec a \<and> (\<exists>data. (renderedWrite a data, OUnit (Inr ())) \<in> set t)))"
proof (cases "imgRef (imageOf a) = []")
  case False
  with assms show ?thesis by (auto simp: resolveFinalOCISpec_def)
next
  case True
  then have ne: "(imgRef (imageOf a) \<noteq> []) = False" by simp
  from assms obtain t1 middle t2 where t: "t = t1 @ t2" and e1: "exec (fetchAndRenderUserOCISpec r a) t1 middle"
    and e2: "exec (case middle of Inl e \<Rightarrow> Ret (a, Inl e) | Inr middleContent \<Rightarrow>
          (let final = AssembleFinalOCISpec (BuildOptions (imageOf a) \<noteq> None) middleContent;
               artifact' = withRenderedSpec a
           in bind (writeRenderedSecret artifact' final) (\<lambda>written. Ret (artifact', written)))) t2 (a', res)"
    unfolding resolveFinalOCISpec_def ne if_False exec_bind by blast
  have g1: "guarded secretChecked secretWrite t1"
    by (rule only_no_secret [OF e1]) (rule only_fetch, simp)
  show ?thesis
  proof (cases middle)
    case (Inl e)
    with e2 t g1 show ?thesis by auto
  next
    case (Inr content)
    with e2 have e3: "exec (writeRenderedSecret (withRenderedSpec a)
        (AssembleFinalOCISpec (BuildOptions (imageOf a) \<noteq> None) content)) t2 res" and a': "a' = withRenderedSpec a"
      by (auto simp: Let_def exec_bind)
    from exec_writeRenderedSecret [OF e3] g1 t a' True show ?thesis by (auto intro: guarded_append_both)
  qed
qed

lemma no_secret_event: "\<not> creating (fst e) \<Longrightarrow> \<not> secretWrite e"
  by (auto simp: secretWrite_def)

lemma startBuild_secrets: "exec (startBuild r a) tr res \<Longrightarrow> guarded secretChecked secretWrite tr"
proof -
  have tail: "only (\<lambda>q. \<forall>ns sn l d o'. q \<noteq> CreateOrUpdateSecret ns sn l d o')
     (attempt (CreateConfigMapFor a') (\<lambda>_. attempt (claimFor a') (\<lambda>pvcName. attempt (createBuilderPod r a' pvcName) (\<lambda>_.
        attempt (oask (GetArtifact (Namespace (osMeta a)) (Name (osMeta a))) oArtifact) (\<lambda>fresh.
        artifactStatusUpdate (setPhase Building fresh))))))" for a'
    by (auto simp: CreateConfigMapFor_def claimFor_def createPVC_def createBuilderPod_def artifactStatusUpdate_def Let_def
        intro!: only_bind only_attempt split: sum.splits option.splits)
  assume ex: "exec (startBuild r a) tr res"
  show ?thesis
  proof (cases "Validate (osSpec a)")
    case (Inl e)
    with ex show ?thesis by (simp add: startBuild_def)
  next
    case (Inr v)
    with ex obtain t1 a' resolved t2 where tr: "tr = t1 @ t2" and e1: "exec (resolveFinalOCISpec r a) t1 (a', resolved)"
      and e2: "exec (case resolved of Inl e \<Rightarrow> Ret (Inl e) | Inr _ \<Rightarrow>
           attempt (CreateConfigMapFor a') (\<lambda>_. attempt (claimFor a') (\<lambda>pvcName. attempt (createBuilderPod r a' pvcName) (\<lambda>_.
           attempt (oask (GetArtifact (Namespace (osMeta a)) (Name (osMeta a))) oArtifact) (\<lambda>fresh.
           artifactStatusUpdate (setPhase Building fresh)))))) t2 res"
      by (auto simp: startBuild_def exec_bind)
    have "guarded secretChecked secretWrite t2"
    proof (cases resolved)
      case (Inl e)
      with e2 show ?thesis by simp
    next
      case (Inr w)
      from e2 [unfolded Inr sum.case] tail show ?thesis by (rule only_no_secret)
    qed
    with exec_resolve [OF e1] tr show ?thesis by (auto intro: guarded_append_both)
  qed
qed

lemma checkExport_secrets:
  assumes "exec (checkExport a) tr res"
  shows "guarded secretChecked secretWrite tr"
  using assms
proof (cases rule: exec_checkExport)
  case stopped
  then show ?thesis by (intro guarded_none) (auto dest: no_secret_event)
next
  case (exporting jobs vol t1 t2 out t3)
  have "\<not> secretWrite e" if "e \<in> set t2" for e
    using exec_exportEach [OF exporting(4)] that by (fastforce simp: secretWrite_def exportEvent_def)
  with exporting(1,3,5) show ?thesis
    by (intro guarded_none) (auto simp: secretWrite_def dest: no_secret_event)
qed

lemma judgeBuilderPods_secrets:
  assumes "exec (judgeBuilderPods r a ps) tr res"
  shows "guarded secretChecked secretWrite tr"
proof -
  from exec_judge [OF assms] consider "exec (startBuild r a) tr res" | "tr = []"
    | q u where "tr = [(UpdateArtifactStatus q, u)]" by blast
  then show ?thesis
  proof cases
    case 1
    then show ?thesis by (rule startBuild_secrets)
  qed (auto intro!: guarded_none simp: secretWrite_def)
qed

lemma checkBuild_secrets:
  assumes "exec (checkBuild r a) tr res"
  shows "guarded secretChecked secretWrite tr"
proof -
  from assms obtain l t where tr: "tr = (ListPodsByLabel None (artifactSelector a), l) # t" and
    ex: "exec (case oPods l of Inl e \<Rightarrow> Ret (Inl e) | Inr ps \<Rightarrow> judgeBuilderPods r a ps) t res"
    unfolding checkBuild_def exec_oask_attempt by blast
  from ex have "guarded secretChecked secretWrite t"
    by (cases "oPods l") (auto intro: judgeBuilderPods_secrets)
  with tr show ?thesis by (auto intro!: guarded_Cons simp: secretWrite_def)
qed

text \<open>
  C12. The only Secret a reconcile writes is the rendered build definition, and it was read first in the
  same reconcile: absent, or controlled by this very artifact (by UID). A Secret of the user, or of
  another owner, that has this name is never touched.
\<close>

theorem never_overwrites_foreign_secret:
  assumes "exec (osReconcile r namespace nm) tr res"
  shows "guarded secretChecked secretWrite tr"
  using assms
proof (cases rule: exec_osReconcile)
  case idle
  then show ?thesis by (intro guarded_none) (auto dest: no_secret_event)
next
  case (live a a' pre rest)
  have "guarded secretChecked secretWrite pre"
    using live(2) by (intro guarded_none) (auto simp: livePrefix_def dest: no_secret_event)
  moreover have "guarded secretChecked secretWrite rest"
    using live(6) by (auto intro: checkExport_secrets checkBuild_secrets split: if_splits)
  ultimately show ?thesis unfolding live(1) by (rule guarded_append_both)
qed

section \<open>What a builder Pod finds\<close>

lemma only_one_split:
  "xs @ e # ys = pre @ f # post \<Longrightarrow> (\<And>x. x \<in> set xs \<Longrightarrow> \<not> P x) \<Longrightarrow> (\<And>y. y \<in> set ys \<Longrightarrow> \<not> P y) \<Longrightarrow> P f \<Longrightarrow>
     pre = xs \<and> f = e \<and> post = ys"
proof (induction xs arbitrary: pre)
  case Nil
  then show ?case by (cases pre) auto
next
  case (Cons x xs)
  show ?case
  proof (cases pre)
    case Nil
    with Cons.prems show ?thesis by auto
  next
    case (Cons y pre')
    with Cons.prems Cons.IH [of pre'] show ?thesis by simp
  qed
qed

definition existsAfter :: "os_resp \<Rightarrow> bool" where
  "existsAfter u \<longleftrightarrow> oUnit u = Inr () \<or> (\<exists>e. oUnit u = Inl e \<and> IsAlreadyExists e)"

definition configMapReady :: "os_trace \<Rightarrow> os_artifact \<Rightarrow> bool" where
  "configMapReady tr a \<longleftrightarrow> (\<exists>cm u. (CreateConfigMap cm, u) \<in> set tr \<and> existsAfter u \<and> cmData cm = cmData (genConfigMap a) \<and>
     Name (cmMeta cm) = Name (osMeta a) \<and> Namespace (cmMeta cm) = Namespace (osMeta a))"

definition claimReady :: "os_trace \<Rightarrow> os_artifact \<Rightarrow> string \<Rightarrow> bool" where
  "claimReady tr a n \<longleftrightarrow>
     (\<exists>c. (CreatePVC c, OUnit (Inr ())) \<in> set tr \<and> Name (pvcMeta c) = n \<and> Namespace (pvcMeta c) = Namespace (osMeta a)) \<or>
     (\<exists>c. (GetPVC (Namespace (osMeta a)) (Name (osMeta a) @ ''-artifacts''), OPVC (Inr c)) \<in> set tr \<and> Name (pvcMeta c) = n)"

lemma labelledFor_fields [simp]:
  "Name (labelledFor a m) = Name m" "Namespace (labelledFor a m) = Namespace m"
  "Labels (labelledFor a m) = put artifactLabel (Name (osMeta a)) (Labels m)"
  by (simp_all add: labelledFor_def SetOwnerReference_def)

lemma exec_configMap:
  assumes "exec (CreateConfigMapFor a) t (Inr ())"
  shows "configMapReady t a"
proof -
  let ?cm = "(genConfigMap a)\<lparr>cmMeta := labelledFor a (cmMeta (genConfigMap a))\<rparr>"
  from assms obtain u where t: "t = [(CreateConfigMap ?cm, u)]" and
    u: "(case oUnit u of Inl e \<Rightarrow> if IsAlreadyExists e then Inr () else Inl e | Inr _ \<Rightarrow> Inr ()) = (Inr () :: unit res)"
    by (auto simp: CreateConfigMapFor_def exec_oask_bind Let_def)
  from u have "existsAfter u" by (cases "oUnit u") (auto simp: existsAfter_def split: if_splits)
  with t show ?thesis unfolding configMapReady_def by (intro exI [of _ ?cm]) (simp add: genConfigMap_def)
qed

lemma exec_claim:
  assumes "exec (claimFor a) t (Inr pvcName)"
  shows "if artField artVolume a = [] then \<exists>n. pvcName = Some n \<and> claimReady t a n else pvcName = None"
proof (cases "artField artVolume a = []")
  case False
  with assms show ?thesis by (simp add: claimFor_def)
next
  case True
  with assms obtain c where e: "exec (createPVC a) t (Inr c)" and n: "pvcName = Some (Name (pvcMeta c))"
    by (auto simp: claimFor_def exec_attempt)
  let ?claim = "(newArtifactPVC a)\<lparr>pvcMeta := labelledFor a (pvcMeta (newArtifactPVC a))\<rparr>"
  have f: "Name (pvcMeta ?claim) = Name (osMeta a) @ ''-artifacts''" "Namespace (pvcMeta ?claim) = Namespace (osMeta a)"
    by (simp_all add: newArtifactPVC_def)
  from e obtain u t2 where t: "t = (CreatePVC ?claim, u) # t2" and
    e2: "exec (case oUnit u of Inr _ \<Rightarrow> Ret (Inr ?claim) | Inl e \<Rightarrow>
          if IsAlreadyExists e then oask (GetPVC (Namespace (osMeta a)) (Name (osMeta a) @ ''-artifacts'')) oPVC
          else Ret (Inl e)) t2 (Inr c)"
    unfolding createPVC_def Let_def exec_oask_bind f by blast
  have "claimReady t a (Name (pvcMeta c))"
  proof (cases "oUnit u")
    case (Inr v)
    with e2 have "c = ?claim" "u = OUnit (Inr ())" by simp_all
    with t f show ?thesis unfolding claimReady_def by (intro disjI1 exI [of _ ?claim]) simp
  next
    case (Inl x)
    with e2 have "t2 = [(GetPVC (Namespace (osMeta a)) (Name (osMeta a) @ ''-artifacts''), OPVC (Inr c))]"
      by (auto simp: exec_oask split: if_splits)
    with t show ?thesis unfolding claimReady_def by auto
  qed
  with True n show ?thesis by simp
qed

lemma newBuilderPod_fields:
  assumes "newBuilderPod cfg a pvcName = Some p" and "imgRef (imageOf a) \<noteq> [] \<or> hasOCISpecRef (imageOf a)"
  shows "builderVolumes a pvcName = Some (Volumes (podSpec p))" "Namespace (podMeta p) = Namespace (osMeta a)"
proof -
  from assms(2) have "imageContainer cfg a \<noteq> None" by (auto simp: imageContainer_def Let_def)
  then obtain cs where "builderContainers cfg a = Some cs"
    by (cases "builderContainers cfg a") (auto simp: builderContainers_def)
  moreover obtain i m where "promoteLast cs = (i, m)" by (cases "promoteLast cs")
  ultimately show "builderVolumes a pvcName = Some (Volumes (podSpec p))" "Namespace (podMeta p) = Namespace (osMeta a)"
    using assms(1) by (auto simp: newBuilderPod_def)
qed

lemma builderVolumes_has:
  assumes "builderVolumes a pvcName = Some vs"
  shows "\<lparr>volName = configVolumeName, volSource = ConfigMapVolume (Name (osMeta a))\<rparr> \<in> set vs"
    and "artField artVolume a = [] \<Longrightarrow> pvcName = Some n \<Longrightarrow>
      \<lparr>volName = artifactsVolumeName, volSource = PVCVolume n False\<rparr> \<in> set vs"
    and "OCISpec (imageOf a) = Some o' \<Longrightarrow> ociRef o' = Some ref \<Longrightarrow>
      \<lparr>volName = ocispecVolumeName, volSource = SecretVolume (selName ref) [] None\<rparr> \<in> set vs"
  using assms by (auto simp: builderVolumes_def builderPodBaseVolumes_def artifactsVolume_def ociSpecVolume_def)

lemma rendered_ref:
  obtains o' where "OCISpec (imageOf (withRenderedSpec a)) = Some o'"
    "ociRef o' = Some \<lparr>selName = renderedSecretName a, selKey = OCISpecSecretKey\<rparr>"
  by (simp add: withRenderedSpec_def Let_def)

lemma exec_resolve_ok:
  assumes "exec (resolveFinalOCISpec r a) t (a', Inr ())" and "Validate (osSpec a) = Inr ()"
  shows "osMeta a' = osMeta a" "artifactsOf a' = artifactsOf a" "osVolumes (osSpec a') = osVolumes (osSpec a)"
    "Importers (osSpec a') = Importers (osSpec a)" "Validate (osSpec a') = Inr ()"
    "imgRef (imageOf a') \<noteq> [] \<or> hasOCISpecRef (imageOf a')" "artField f a' = artField f a"
proof -
  consider "a' = a" "imgRef (imageOf a) \<noteq> []" | "a' = withRenderedSpec a"
    using exec_resolve [OF assms(1)] by (auto split: if_splits)
  note cases = this
  from cases show "osMeta a' = osMeta a" "artifactsOf a' = artifactsOf a" "osVolumes (osSpec a') = osVolumes (osSpec a)"
    "Importers (osSpec a') = Importers (osSpec a)" "artField f a' = artField f a"
    by (cases; simp)+
  from cases show "Validate (osSpec a') = Inr ()" "imgRef (imageOf a') \<noteq> [] \<or> hasOCISpecRef (imageOf a')"
    by (cases; simp add: rendered_valid assms(2))+
qed

lemma startBuild_prefix:
  assumes "exec (startBuild r a) tr res" and "tr = pre @ (CreateBuilderPod p, u) # post"
  obtains a' pvcName q t1 t2 t3 where "pre = t1 @ t2 @ t3" "p = labelledPod a' q" "Validate (osSpec a) = Inr ()"
    "exec (resolveFinalOCISpec r a) t1 (a', Inr ())" "exec (CreateConfigMapFor a') t2 (Inr ())"
    "exec (claimFor a') t3 (Inr pvcName)" "newBuilderPod (builder_config.truncate r) a' pvcName = Some q"
  using assms(1)
proof (cases rule: exec_startBuild)
  case stopped
  with assms(2) have False by fastforce
  then show thesis ..
next
  case (pod a' pvcName q t1 t2 t3 v post')
  have "pre = t1 @ t2 @ t3 \<and> (CreateBuilderPod p, u) = (CreateBuilderPod (labelledPod a' q), v) \<and> post = post'"
  proof (rule only_one_split [where P = "\<lambda>e. \<exists>p. fst e = CreateBuilderPod p"])
    show "(t1 @ t2 @ t3) @ (CreateBuilderPod (labelledPod a' q), v) # post' = pre @ (CreateBuilderPod p, u) # post"
      using pod(1) assms(2) by simp
    show "\<And>x. x \<in> set (t1 @ t2 @ t3) \<Longrightarrow> \<not> (\<exists>p. fst x = CreateBuilderPod p)"
      using prepared [OF pod(3) only_resolve] prepared [OF pod(4) only_configMap] prepared [OF pod(5) only_claim] by fastforce
    show "\<And>y. y \<in> set post' \<Longrightarrow> \<not> (\<exists>p. fst y = CreateBuilderPod p)" using pod(7) by fastforce
  qed simp
  then have "pre = t1 @ t2 @ t3" "p = labelledPod a' q" by simp_all
  from that [OF this pod(2-6)] show thesis .
qed

text \<open>
  C11. When a build creates a builder Pod, the spec is valid and everything the Pod takes from the
  cluster is there: its ConfigMap was created or existed, so did the claim behind its artifacts
  volume unless the spec names a volume, and when an image is built the rendered definition was
  written to the Secret the Pod mounts. Its mounts name volumes of the Pod exactly when those do that
  nobody validates, the keys volume of a spec without signed outputs and the importers' own. The
  label of the Pod is the one the next reconcile lists by and its events lead back to the artifact
  by.
\<close>

theorem builder_pod_prerequisites:
  assumes "exec (startBuild r a) tr res" and "tr = pre @ (CreateBuilderPod p, u) # post"
  shows "Validate (osSpec a) = Inr () \<and> configMapReady pre a \<and>
    \<lparr>volName = configVolumeName, volSource = ConfigMapVolume (Name (osMeta a))\<rparr> \<in> set (Volumes (podSpec p)) \<and>
    (artField artVolume a = [] \<longrightarrow> (\<exists>n. claimReady pre a n \<and>
       \<lparr>volName = artifactsVolumeName, volSource = PVCVolume n False\<rparr> \<in> set (Volumes (podSpec p)))) \<and>
    (imgRef (imageOf a) = [] \<longrightarrow> (\<exists>data. (renderedWrite a data, OUnit (Inr ())) \<in> set pre) \<and>
       \<lparr>volName = ocispecVolumeName, volSource = SecretVolume (renderedSecretName a) [] None\<rparr> \<in> set (Volumes (podSpec p))) \<and>
    (mountsResolve (podSpec p) \<longleftrightarrow> mountsKnown (if imgRef (imageOf a) = [] then withRenderedSpec a else a)) \<and>
    MatchingLabels (artifactSelector a) (Labels (podMeta p)) \<and>
    findOwningArtifact (podMeta p) = [(Namespace (osMeta a), Name (osMeta a))]"
proof -
  from assms obtain a' pvcName q t1 t2 t3 where pre: "pre = t1 @ t2 @ t3" and p: "p = labelledPod a' q"
    and valid: "Validate (osSpec a) = Inr ()"
    and er: "exec (resolveFinalOCISpec r a) t1 (a', Inr ())" and ecm: "exec (CreateConfigMapFor a') t2 (Inr ())"
    and ecl: "exec (claimFor a') t3 (Inr pvcName)" and q: "newBuilderPod (builder_config.truncate r) a' pvcName = Some q"
    by (rule startBuild_prefix)
  note same = exec_resolve_ok [OF er valid]
  note nb = newBuilderPod_fields [OF q same(6)]
  note bv = builderVolumes_has [OF nb(1)]
  note claim = exec_claim [OF ecl]
  have ps: "podSpec p = podSpec q" by (simp add: p labelledPod_def)
  have "configMapReady pre a"
    using exec_configMap [OF ecm] by (auto simp: configMapReady_def genConfigMap_def same pre)
  moreover have "\<exists>n. claimReady pre a n \<and>
      \<lparr>volName = artifactsVolumeName, volSource = PVCVolume n False\<rparr> \<in> set (Volumes (podSpec p))" if "artField artVolume a = []"
    using claim that bv(2) by (auto simp: claimReady_def pre ps same)
  moreover have "(\<exists>data. (renderedWrite a data, OUnit (Inr ())) \<in> set pre) \<and>
      \<lparr>volName = ocispecVolumeName, volSource = SecretVolume (renderedSecretName a) [] None\<rparr> \<in> set (Volumes (podSpec p))"
    if "imgRef (imageOf a) = []"
  proof -
    have w: "\<exists>data. (renderedWrite a data, OUnit (Inr ())) \<in> set pre" and a': "a' = withRenderedSpec a"
      using exec_resolve [OF er] that by (auto simp: pre)
    obtain o' where "OCISpec (imageOf a') = Some o'" "ociRef o' = Some \<lparr>selName = renderedSecretName a, selKey = OCISpecSecretKey\<rparr>"
      unfolding a' by (rule rendered_ref)
    from bv(3) [OF this] w show ?thesis by (simp add: ps)
  qed
  moreover have "mountsResolve (podSpec p) \<longleftrightarrow> mountsKnown (if imgRef (imageOf a) = [] then withRenderedSpec a else a)"
    using builder_pod_ok(2) [OF same(5) q same(6)] exec_resolve [OF er] by (simp add: ps)
  moreover have "MatchingLabels (artifactSelector a) (Labels (podMeta p))" "findOwningArtifact (podMeta p) = [(Namespace (osMeta a), Name (osMeta a))]"
    by (simp_all add: p labelledPod_def MatchingLabels_def artifactSelector_def findOwningArtifact_def nb same)
  ultimately show ?thesis using valid bv(1) ps same by simp
qed

section \<open>Two reconciles\<close>

text \<open>An artifact whose image is built, and the same artifact while its builder Pod runs.\<close>

definition sample_options :: build_options where
  "sample_options = \<lparr>boVersion = ''v1'', BaseImage = ''ubuntu:24.04'', boModel = [], TrustedBoot = False,
     KubernetesDistro = [], KubernetesVersion = [], FIPS = False, KairosInitImage = []\<rparr>"

definition new_artifact :: os_artifact where
  "new_artifact = sample_artifact\<lparr>osMeta := (osMeta sample_artifact)\<lparr>Finalizers := [FinalizerName]\<rparr>,
     osSpec := (osSpec sample_artifact)\<lparr>osImage := sample_image\<lparr>imgRef := [], BuildOptions := Some sample_options\<rparr>\<rparr>\<rparr>"

definition building_artifact :: os_artifact where
  "building_artifact = setPhase Building new_artifact"

definition builder_pod_in :: "string \<Rightarrow> string \<Rightarrow> pod" where
  "builder_pod_in namespace phase = \<lparr>podMeta = empty_meta\<lparr>Name := ''b'', Namespace := namespace, Labels := [(artifactLabel, ''a1'')]\<rparr>,
     podSpec = empty_pod_spec, podStatus = \<lparr>podPhase = phase, podReason = [], podMessage = [], podConditions = [],
       ContainerStatuses = []\<rparr>\<rparr>"

lemma new_artifact_facts:
  "Name (osMeta new_artifact) = ''a1''" "Namespace (osMeta new_artifact) = ''ns1''" "DeletionTimestamp (osMeta new_artifact) = None"
  "FinalizerName \<in> set (Finalizers (osMeta new_artifact))" "phaseOf new_artifact = Pending"
  "imgRef (imageOf new_artifact) = []" "artField artVolume new_artifact = []" "OCISpec (imageOf new_artifact) = None"
  by (simp_all add: new_artifact_def sample_defs empty_meta_def phaseOf_def artField_def)

lemma building_artifact_facts:
  "osMeta building_artifact = osMeta new_artifact" "phaseOf building_artifact = Building"
  by (simp_all add: building_artifact_def setPhase_def phaseOf_def)

lemma new_artifact_valid: "Validate (osSpec new_artifact) = Inr ()"
  by (simp add: Validate_iff validSpec_def volumesOk_def imageOk_def buildOk_def artifactsOk_def refOk_def hasStandard_def
      hasUKI_def reservedVolumeNames_def new_artifact_def sample_options_def sample_defs)

lemma exec_attemptI: "exec m t1 (Inr x) \<Longrightarrow> exec (f x) t2 y \<Longrightarrow> exec (attempt m f) (t1 @ t2) y"
  by (auto simp: exec_attempt)

lemma exec_bindI: "exec m t1 x \<Longrightarrow> exec (f x) t2 y \<Longrightarrow> exec (bind m f) (t1 @ t2) y"
  by (auto simp: exec_bind)

lemma exec_attempt_oaskI: "dec u = Inr x \<Longrightarrow> exec (f x) t y \<Longrightarrow> exec (attempt (oask q dec) f) ((q, u) # t) y"
  by (simp add: exec_oask_attempt)

lemma reconcile_live:
  assumes "DeletionTimestamp (osMeta a) = None" and "FinalizerName \<in> set (Finalizers (osMeta a))"
    and "buildPhase a" and "exec (checkBuild r a) t res"
  shows "exec (osReconcile r namespace nm)
    ((GetArtifact namespace nm, OArtifact (Inr a)) # (GetNamespace (Namespace (osMeta a)), ONamespace (Inr None)) # t) res"
  using assms unfolding osReconcile_def exec_oask_bind buildPhase_def phaseOf_def
  by (simp add: exec_oask_bind ensureFinalizer_def attempt_def Let_def)

lemma build_decided:
  "podPhase (podStatus p) = PodSucceeded \<Longrightarrow> exec (checkBuild r a)
     [(ListPodsByLabel None (artifactSelector a), OPods (Inr [p])), (UpdateArtifactStatus (setPhase Exporting a), OVersion (Inr v))]
     (Inr ())"
  unfolding checkBuild_def
  by (rule exec_attempt_oaskI [where x = "[p]"]) (simp_all add: Let_def artifactStatusUpdate_def exec_oask)

text \<open>A whole build: what is requested, with the answers of a cluster that has nothing of it yet.\<close>

definition build_trace :: "pod \<Rightarrow> os_trace" where
  "build_trace p =
     (let a = withRenderedSpec new_artifact; claim = newArtifactPVC a; cm = genConfigMap a in
      [(GetSecret ''ns1'' (renderedSecretName new_artifact), OSecret (Inl (ApiError NotFound ''secret''))),
       (renderedWrite new_artifact (AssembleFinalOCISpec True []), OUnit (Inr ())),
       (CreateConfigMap (cm\<lparr>cmMeta := labelledFor a (cmMeta cm)\<rparr>), OUnit (Inr ())),
       (CreatePVC (claim\<lparr>pvcMeta := labelledFor a (pvcMeta claim)\<rparr>), OUnit (Inr ())),
       (CreateBuilderPod (labelledPod a p), OUnit (Inr ())),
       (GetArtifact ''ns1'' ''a1'', OArtifact (Inr new_artifact)),
       (UpdateArtifactStatus building_artifact, OVersion (Inr ''8''))])"

lemma exec_resolve_new:
  "exec (resolveFinalOCISpec r new_artifact)
     [(GetSecret ''ns1'' (renderedSecretName new_artifact), OSecret (Inl (ApiError NotFound ''secret''))),
      (renderedWrite new_artifact (AssembleFinalOCISpec True []), OUnit (Inr ()))] (withRenderedSpec new_artifact, Inr ())"
proof -
  have b: "(BuildOptions (imageOf new_artifact) \<noteq> None) = True" by (simp add: new_artifact_def)
  have w: "exec (writeRenderedSecret (withRenderedSpec new_artifact) (AssembleFinalOCISpec True []))
     [(GetSecret ''ns1'' (renderedSecretName new_artifact), OSecret (Inl (ApiError NotFound ''secret''))),
      (renderedWrite new_artifact (AssembleFinalOCISpec True []), OUnit (Inr ()))] (Inr ())"
    by (simp add: writeRenderedSecret_def checkSecretOwnership_def attempt_def bind_assoc exec_oask_bind exec_oask
        new_artifact_facts IsNotFound_def renderedWrite_def wrapped_def Let_def)
  show ?thesis
    unfolding resolveFinalOCISpec_def b fetchAndRenderUserOCISpec_def new_artifact_facts(6,8)
    using w by (simp add: Let_def exec_bind)
qed

lemma exec_build:
  assumes "newBuilderPod (builder_config.truncate r) (withRenderedSpec new_artifact) (Some ''a1-artifacts'') = Some p"
  shows "exec (startBuild r new_artifact) (build_trace p) (Inr ())"
proof -
  let ?a = "withRenderedSpec new_artifact"
  let ?cm = "(genConfigMap ?a)\<lparr>cmMeta := labelledFor ?a (cmMeta (genConfigMap ?a))\<rparr>"
  let ?claim = "(newArtifactPVC ?a)\<lparr>pvcMeta := labelledFor ?a (pvcMeta (newArtifactPVC ?a))\<rparr>"
  have cm: "exec (CreateConfigMapFor ?a) [(CreateConfigMap ?cm, OUnit (Inr ()))] (Inr ())"
    by (simp add: CreateConfigMapFor_def exec_oask_bind Let_def)
  have n: "Name (pvcMeta ?claim) = ''a1-artifacts''" by (simp add: newArtifactPVC_def new_artifact_facts)
  have "exec (createPVC ?a) [(CreatePVC ?claim, OUnit (Inr ()))] (Inr ?claim)"
    by (simp add: createPVC_def exec_oask_bind Let_def)
  then have "exec (attempt (createPVC ?a) (\<lambda>claim. Ret (Inr (Some (Name (pvcMeta claim))))))
      ([(CreatePVC ?claim, OUnit (Inr ()))] @ []) (Inr (Some (Name (pvcMeta ?claim))))"
    by (rule exec_attemptI) simp
  moreover have "claimFor ?a = attempt (createPVC ?a) (\<lambda>claim. Ret (Inr (Some (Name (pvcMeta claim)))))"
    by (simp add: claimFor_def new_artifact_facts)
  ultimately have cl: "exec (claimFor ?a) [(CreatePVC ?claim, OUnit (Inr ()))] (Inr (Some ''a1-artifacts''))" unfolding n by simp
  have pod: "exec (createBuilderPod r ?a (Some ''a1-artifacts'')) [(CreateBuilderPod (labelledPod ?a p), OUnit (Inr ()))] (Inr ())"
    by (simp add: createBuilderPod_def assms exec_oask labelledPod_def)
  have st: "exec (artifactStatusUpdate (setPhase Building new_artifact))
      [(UpdateArtifactStatus building_artifact, OVersion (Inr ''8''))] (Inr ())"
    by (simp add: artifactStatusUpdate_def exec_oask building_artifact_def)
  have "exec (attempt (CreateConfigMapFor ?a) (\<lambda>_. attempt (claimFor ?a) (\<lambda>pvcName.
       attempt (createBuilderPod r ?a pvcName) (\<lambda>_.
       attempt (oask (GetArtifact (Namespace (osMeta new_artifact)) (Name (osMeta new_artifact))) oArtifact) (\<lambda>fresh.
       artifactStatusUpdate (setPhase Building fresh))))))
     ([(CreateConfigMap ?cm, OUnit (Inr ()))] @ [(CreatePVC ?claim, OUnit (Inr ()))] @
      [(CreateBuilderPod (labelledPod ?a p), OUnit (Inr ()))] @
      (GetArtifact ''ns1'' ''a1'', OArtifact (Inr new_artifact)) # [(UpdateArtifactStatus building_artifact, OVersion (Inr ''8''))])
     (Inr ())"
    unfolding new_artifact_facts(1,2)
    by (rule exec_attemptI [OF cm], rule exec_attemptI [OF cl], rule exec_attemptI [OF pod],
        rule exec_attempt_oaskI [where x = new_artifact], simp, rule st)
  note tail = this
  have "exec (startBuild r new_artifact)
     ([(GetSecret ''ns1'' (renderedSecretName new_artifact), OSecret (Inl (ApiError NotFound ''secret''))),
       (renderedWrite new_artifact (AssembleFinalOCISpec True []), OUnit (Inr ()))] @
      [(CreateConfigMap ?cm, OUnit (Inr ()))] @ [(CreatePVC ?claim, OUnit (Inr ()))] @
      [(CreateBuilderPod (labelledPod ?a p), OUnit (Inr ()))] @
      (GetArtifact ''ns1'' ''a1'', OArtifact (Inr new_artifact)) # [(UpdateArtifactStatus building_artifact, OVersion (Inr ''8''))])
     (Inr ())"
    unfolding startBuild_def new_artifact_valid sum.case
    by (rule exec_bindI [OF exec_resolve_new], unfold prod.case sum.case, rule tail)
  then show ?thesis unfolding build_trace_def Let_def append.simps .
qed

definition sample_reconciler :: "string reconciler" where
  "sample_reconciler = \<lparr>ToolImage = ''t'', BuildahImage = ''b'', QuoteCommand = (\<lambda>ws. Join ws '' ''),
     ParseTemplate = Inr, ExecuteTemplate = (\<lambda>t v. Inr t)\<rparr>"

lemma sample_build:
  obtains p where "exec (startBuild sample_reconciler new_artifact) (build_trace p) (Inr ())"
proof -
  from newBuilderPod_None [of "builder_config.truncate sample_reconciler" "withRenderedSpec new_artifact" "Some ''a1-artifacts''"]
  obtain p where "newBuilderPod (builder_config.truncate sample_reconciler) (withRenderedSpec new_artifact) (Some ''a1-artifacts'') = Some p"
    by auto
  from that [OF exec_build [OF this]] show thesis .
qed

lemma sample_reconcile:
  obtains p where "exec (osReconcile sample_reconciler ''ns1'' ''a1'')
    ((GetArtifact ''ns1'' ''a1'', OArtifact (Inr new_artifact)) # (GetNamespace ''ns1'', ONamespace (Inr None)) #
     (ListPodsByLabel None (artifactSelector new_artifact), OPods (Inr [])) # build_trace p) (Inr ())"
proof -
  obtain p where b: "exec (startBuild sample_reconciler new_artifact) (build_trace p) (Inr ())" by (rule sample_build)
  have "exec (checkBuild sample_reconciler new_artifact)
      ((ListPodsByLabel None (artifactSelector new_artifact), OPods (Inr [])) # build_trace p) (Inr ())"
    unfolding checkBuild_def by (rule exec_attempt_oaskI [where x = "[]"]) (simp_all add: b)
  from reconcile_live [OF new_artifact_facts(3,4) _ this, of "''ns1''" "''a1''"] that show thesis
    by (simp add: buildPhase_def new_artifact_facts artifact_phases)
qed

lemma build_trace_split:
  "build_trace p = (GetSecret ''ns1'' (renderedSecretName new_artifact), OSecret (Inl (ApiError NotFound ''secret''))) #
     (renderedWrite new_artifact (AssembleFinalOCISpec True []), OUnit (Inr ())) # drop 2 (build_trace p)"
  "\<exists>cm claim. build_trace p = take 2 (build_trace p) @ [cm, claim] @
     (CreateBuilderPod (labelledPod (withRenderedSpec new_artifact) p), OUnit (Inr ())) # drop 5 (build_trace p)"
  by (simp_all add: build_trace_def Let_def numeral_2_eq_2 numeral_eq_Suc)

lemma sample_secret_write:
  obtains pre post where "exec (osReconcile sample_reconciler ''ns1'' ''a1'')
      (pre @ (renderedWrite new_artifact (AssembleFinalOCISpec True []), OUnit (Inr ())) # post) (Inr ())"
proof -
  obtain p where "exec (osReconcile sample_reconciler ''ns1'' ''a1'')
    ((GetArtifact ''ns1'' ''a1'', OArtifact (Inr new_artifact)) # (GetNamespace ''ns1'', ONamespace (Inr None)) #
     (ListPodsByLabel None (artifactSelector new_artifact), OPods (Inr [])) # build_trace p) (Inr ())"
    by (rule sample_reconcile)
  then have "exec (osReconcile sample_reconciler ''ns1'' ''a1'')
    ([(GetArtifact ''ns1'' ''a1'', OArtifact (Inr new_artifact)), (GetNamespace ''ns1'', ONamespace (Inr None)),
      (ListPodsByLabel None (artifactSelector new_artifact), OPods (Inr [])),
      (GetSecret ''ns1'' (renderedSecretName new_artifact), OSecret (Inl (ApiError NotFound ''secret'')))] @
     (renderedWrite new_artifact (AssembleFinalOCISpec True []), OUnit (Inr ())) # drop 2 (build_trace p)) (Inr ())"
    by (subst (asm) build_trace_split(1)) simp
  then show thesis by (rule that)
qed

theorem phase_changes_on_evidence_witness:
  "\<exists>tr w u. exec (osReconcile sample_reconciler ''ns1'' ''a1'') tr (Inr ()) \<and> (UpdateArtifactStatus w, u) \<in> set tr \<and>
     phaseOf w = Exporting \<and> phaseEvidence tr building_artifact Exporting"
proof -
  let ?a = building_artifact and ?p = "builder_pod_in ''ns1'' PodSucceeded"
  let ?tr = "(GetArtifact ''ns1'' ''a1'', OArtifact (Inr ?a)) # (GetNamespace (Namespace (osMeta ?a)), ONamespace (Inr None)) #
     [(ListPodsByLabel None (artifactSelector ?a), OPods (Inr [?p])), (UpdateArtifactStatus (setPhase Exporting ?a), OVersion (Inr ''9''))]"
  have b: "buildPhase ?a" by (simp add: buildPhase_def building_artifact_facts)
  have "exec (osReconcile sample_reconciler ''ns1'' ''a1'') ?tr (Inr ())"
    by (rule reconcile_live [OF _ _ b build_decided])
      (simp_all add: building_artifact_facts new_artifact_facts builder_pod_in_def)
  note ex = this
  from phase_changes_on_evidence [OF ex, of "setPhase Exporting ?a" "OVersion (Inr ''9'')"] have "phaseEvidence ?tr ?a Exporting"
    by auto
  with ex show ?thesis by (intro exI [of _ ?tr] exI [of _ "setPhase Exporting ?a"] exI) auto
qed

theorem creates_only_when_live_witness:
  "\<exists>pre e post res. exec (osReconcile sample_reconciler ''ns1'' ''a1'') (pre @ e # post) res \<and> creating (fst e) \<and>
     (\<exists>a :: os_artifact. (GetNamespace (Namespace (osMeta a)), ONamespace (Inr None)) \<in> set pre \<and> DeletionTimestamp (osMeta a) = None)"
proof -
  obtain pre post where ex: "exec (osReconcile sample_reconciler ''ns1'' ''a1'')
      (pre @ (renderedWrite new_artifact (AssembleFinalOCISpec True []), OUnit (Inr ())) # post) (Inr ())"
    by (rule sample_secret_write)
  have c: "creating (fst (renderedWrite new_artifact (AssembleFinalOCISpec True []), OUnit (Inr ())))"
    by (simp add: renderedWrite_def)
  from guardedD [OF conjunct1 [OF creates_only_when_live [OF ex]] c] have
    "\<exists>a :: os_artifact. (GetNamespace (Namespace (osMeta a)), ONamespace (Inr None)) \<in> set pre \<and> DeletionTimestamp (osMeta a) = None"
    by blast
  with ex c show ?thesis by blast
qed

theorem never_overwrites_foreign_secret_witness:
  "\<exists>pre e post res. exec (osReconcile sample_reconciler ''ns1'' ''a1'') (pre @ e # post) res \<and> secretWrite e \<and>
     (\<exists>g \<in> set pre. secretChecked g e)"
proof -
  obtain pre post where ex: "exec (osReconcile sample_reconciler ''ns1'' ''a1'')
      (pre @ (renderedWrite new_artifact (AssembleFinalOCISpec True []), OUnit (Inr ())) # post) (Inr ())"
    by (rule sample_secret_write)
  have s: "secretWrite (renderedWrite new_artifact (AssembleFinalOCISpec True []), OUnit (Inr ()))"
    by (simp add: secretWrite_def renderedWrite_def)
  from guardedD [OF never_overwrites_foreign_secret [OF ex] s] have "\<exists>g \<in> set pre. secretChecked g
      (renderedWrite new_artifact (AssembleFinalOCISpec True []), OUnit (Inr ()))" .
  with ex s show ?thesis by blast
qed

theorem builder_pod_prerequisites_witness:
  "\<exists>pre p u post. exec (startBuild sample_reconciler new_artifact) (pre @ (CreateBuilderPod p, u) # post) (Inr ()) \<and>
     configMapReady pre new_artifact \<and> mountsResolve (podSpec p) \<and> (\<exists>n. claimReady pre new_artifact n)"
proof -
  obtain p where b: "exec (startBuild sample_reconciler new_artifact) (build_trace p) (Inr ())" by (rule sample_build)
  obtain cm claim where s: "build_trace p = take 2 (build_trace p) @ [cm, claim] @
      (CreateBuilderPod (labelledPod (withRenderedSpec new_artifact) p), OUnit (Inr ())) # drop 5 (build_trace p)"
    using build_trace_split(2) by blast
  let ?pre = "take 2 (build_trace p) @ [cm, claim]" and ?p = "labelledPod (withRenderedSpec new_artifact) p"
  have t: "build_trace p = ?pre @ (CreateBuilderPod ?p, OUnit (Inr ())) # drop 5 (build_trace p)" using s by simp
  have k: "mountsKnown (withRenderedSpec new_artifact)"
    by (rule known_refs, simp_all add: keysRefOk_def refOk_def importersOk_def)
      (simp_all add: new_artifact_def sample_defs artField_def keysVolumeOf_def)
  have "mountsKnown (if imgRef (imageOf new_artifact) = [] then withRenderedSpec new_artifact else new_artifact)"
    using k new_artifact_facts(6) by simp
  with builder_pod_prerequisites [OF b t] new_artifact_facts(7)
  have "configMapReady ?pre new_artifact \<and> mountsResolve (podSpec ?p) \<and> (\<exists>n. claimReady ?pre new_artifact n)" by blast
  moreover from b t have "exec (startBuild sample_reconciler new_artifact)
      (?pre @ (CreateBuilderPod ?p, OUnit (Inr ())) # drop 5 (build_trace p)) (Inr ())" by simp
  ultimately show ?thesis by blast
qed

end
