(* ===== verification/OSArtifactTemplate.thy ===== *)
theory OSArtifactTemplate
  imports OSArtifactFlow
begin

text \<open>
  The build definition an OSArtifact is built from: which templates are refused, and what the
  rendered Secret holds.
\<close>

section \<open>Forbidden directives\<close>

text \<open>What \<open>\{\{-?\s*(define|template|block)\s\<close> matches, and where it matches in a text.\<close>

definition directives :: "string set" where
  "directives = {''define'', ''template'', ''block''}"

definition forbiddenMatch :: "string \<Rightarrow> bool" where
  "forbiddenMatch m \<longleftrightarrow> (\<exists>dash ws d c. m = ''{{'' @ dash @ ws @ d @ [c] \<and> dash \<in> {[], ''-''} \<and> set ws \<subseteq> re_space \<and>
     d \<in> directives \<and> c \<in> re_space)"

lemma directive_heads:
  "d \<in> directives \<Longrightarrow> \<exists>h t. d = h # t \<and> h \<notin> re_space \<and> h \<noteq> CHR ''-''"
  by (auto simp: re_space_def directives_def)

lemma spaces_dropped:
  assumes "set ws \<subseteq> re_space" and "d \<in> directives"
  shows "dropWhile (\<lambda>c. c \<in> re_space) (ws @ d @ rest) = d @ rest"
proof -
  from directive_heads [OF assms(2)] obtain h t where d: "d = h # t" "h \<notin> re_space" by blast
  have "dropWhile (\<lambda>c. c \<in> re_space) (ws @ d @ rest) = dropWhile (\<lambda>c. c \<in> re_space) (d @ rest)"
    using assms(1) by (intro dropWhile_append2) auto
  with d show ?thesis by simp
qed

definition trimDash :: "string \<Rightarrow> string" where
  "trimDash s = (if HasPrefix s ''-'' then drop 1 s else s)"

definition startsDirective :: "string \<Rightarrow> bool" where
  "startsDirective s \<longleftrightarrow> (\<exists>d \<in> directives. \<exists>c post. s = d @ c # post \<and> c \<in> re_space)"

lemma forbiddenAt_open:
  "forbiddenAt s \<longleftrightarrow> (\<exists>s1. s = ''{{'' @ s1 \<and> startsDirective (dropWhile (\<lambda>c. c \<in> re_space) (trimDash s1)))"
proof -
  have d: "(HasPrefix r d \<and> (case drop (length d) r of [] \<Rightarrow> False | c # _ \<Rightarrow> c \<in> re_space)) \<longleftrightarrow>
      (\<exists>c post. r = d @ c # post \<and> c \<in> re_space)" for r d :: string
    by (auto simp: HasPrefix_iff split: list.splits)
  have "forbiddenAt s \<longleftrightarrow> HasPrefix s ''{{'' \<and> startsDirective (dropWhile (\<lambda>c. c \<in> re_space) (trimDash (drop 2 s)))"
    unfolding forbiddenAt_def startsDirective_def trimDash_def Let_def d list_ex_iff by (simp add: directives_def)
  moreover have "drop 2 (''{{'' @ s1) = s1" for s1 by simp
  ultimately show ?thesis by (metis HasPrefix_iff)
qed

lemma forbiddenAt_iff: "forbiddenAt s \<longleftrightarrow> (\<exists>m post. s = m @ post \<and> forbiddenMatch m)"
proof
  assume "forbiddenAt s"
  then obtain s1 where s: "s = ''{{'' @ s1" and
    st: "startsDirective (dropWhile (\<lambda>c. c \<in> re_space) (trimDash s1))" unfolding forbiddenAt_open by blast
  from st obtain d c post where "dropWhile (\<lambda>c. c \<in> re_space) (trimDash s1) = d @ c # post" and
    d: "d \<in> directives" "c \<in> re_space" unfolding startsDirective_def by blast
  then have t: "trimDash s1 = takeWhile (\<lambda>c. c \<in> re_space) (trimDash s1) @ d @ c # post"
    by (metis takeWhile_dropWhile_id)
  have ws: "set (takeWhile (\<lambda>c. c \<in> re_space) (trimDash s1)) \<subseteq> re_space" by (auto dest: set_takeWhileD)
  obtain dash where dash: "s1 = dash @ trimDash s1" "dash \<in> {[], ''-''}"
    by (cases "HasPrefix s1 ''-''") (auto simp: trimDash_def HasPrefix_iff)
  let ?m = "''{{'' @ dash @ takeWhile (\<lambda>c. c \<in> re_space) (trimDash s1) @ d @ [c]"
  have "s = ''{{'' @ dash @ trimDash s1" using s dash(1) by simp
  also have "\<dots> = ?m @ post" by (subst t) simp
  finally have "s = ?m @ post" .
  moreover have "forbiddenMatch ?m" unfolding forbiddenMatch_def using dash(2) ws d by blast
  ultimately show "\<exists>m post. s = m @ post \<and> forbiddenMatch m" by blast
next
  assume "\<exists>m post. s = m @ post \<and> forbiddenMatch m"
  then obtain x post where x: "s = x @ post" "forbiddenMatch x" by blast
  from x(2) obtain dash ws d c where xs: "x = ''{{'' @ dash @ ws @ d @ [c]" and
    m: "dash \<in> {[], ''-''}" "set ws \<subseteq> re_space" "d \<in> directives" "c \<in> re_space"
    unfolding forbiddenMatch_def by blast
  from x(1) xs have s: "s = ''{{'' @ dash @ ws @ d @ c # post" by simp
  from directive_heads [OF m(3)] obtain h t where d: "d = h # t" "h \<notin> re_space" "h \<noteq> CHR ''-''" by blast
  have "\<not> HasPrefix (ws @ d @ c # post) ''-''"
    using d m(2) by (cases ws) (auto simp: HasPrefix_iff re_space_def)
  with m(1) have "trimDash (dash @ ws @ d @ c # post) = ws @ d @ c # post"
    by (auto simp: trimDash_def HasPrefix_iff)
  then have "startsDirective (dropWhile (\<lambda>c. c \<in> re_space) (trimDash (dash @ ws @ d @ c # post)))"
    using spaces_dropped [OF m(2,3)] m(3,4) unfolding startsDirective_def by metis
  with s show "forbiddenAt s" unfolding forbiddenAt_open by blast
qed

text \<open>A template is refused exactly when the regular expression matches somewhere in it.\<close>

theorem forbiddenDirective_iff: "forbiddenDirective s \<longleftrightarrow> (\<exists>pre m post. s = pre @ m @ post \<and> forbiddenMatch m)"
proof (induction s)
  case Nil
  then show ?case by (simp add: forbiddenMatch_def)
next
  case (Cons c s)
  have "(\<exists>pre m post. c # s = pre @ m @ post \<and> forbiddenMatch m) \<longleftrightarrow>
      (\<exists>m post. c # s = m @ post \<and> forbiddenMatch m) \<or> (\<exists>pre m post. s = pre @ m @ post \<and> forbiddenMatch m)"
    by (metis append_Cons append_Nil append_eq_Cons_conv)
  with Cons show ?case by (simp add: forbiddenAt_iff)
qed

section \<open>The rendered definition\<close>

definition keyOf :: "secret_key_selector \<Rightarrow> string" where
  "keyOf ref = (if selKey ref = [] then OCISpecSecretKey else selKey ref)"

text \<open>The values of a template: those of the spec, over those of a Secret that was read.\<close>

definition templateValues :: "os_trace \<Rightarrow> os_artifact \<Rightarrow> oci_spec \<Rightarrow> (string \<Rightarrow> string option) \<Rightarrow> bool" where
  "templateValues t a o' vals \<longleftrightarrow> (\<exists>fromSecret.
     vals = (\<lambda>k. case map_of (TemplateValues o') k of None \<Rightarrow> map_of fromSecret k | Some v \<Rightarrow> Some v) \<and>
     (case TemplateValuesFrom o' of None \<Rightarrow> fromSecret = []
      | Some from \<Rightarrow> \<exists>s. (GetSecret (Namespace (osMeta a)) (selName from), OSecret (Inr s)) \<in> set t \<and> fromSecret = secData s))"

lemma templateValues_mono: "set t \<subseteq> set t' \<Longrightarrow> templateValues t a o' vals \<Longrightarrow> templateValues t' a o' vals"
  unfolding templateValues_def by (cases "TemplateValuesFrom o'") auto

definition renderedFrom :: "'t reconciler \<Rightarrow> os_trace \<Rightarrow> os_artifact \<Rightarrow> oci_spec \<Rightarrow> secret_key_selector \<Rightarrow> string \<Rightarrow> bool" where
  "renderedFrom r t a o' ref middle \<longleftrightarrow> (\<exists>s content tmpl vals.
     (GetSecret (Namespace (osMeta a)) (selName ref), OSecret (Inr s)) \<in> set t \<and>
     map_of (secData s) (keyOf ref) = Some content \<and>
     (\<forall>pre m post. content = pre @ m @ post \<longrightarrow> \<not> forbiddenMatch m) \<and>
     ParseTemplate r content = Inr tmpl \<and> templateValues t a o' vals \<and> ExecuteTemplate r tmpl vals = Inr middle)"

lemma wrapped_Inr [simp]: "wrapped w x = Inr v \<longleftrightarrow> x = Inr v" "Inr v = wrapped w x \<longleftrightarrow> x = Inr v"
  by (auto simp: wrapped_def split: sum.splits)

lemma render_ok:
  assumes "renderOCIBuildTemplate r content vals = Inr middle"
  shows "\<not> forbiddenDirective content \<and> (\<exists>tmpl. ParseTemplate r content = Inr tmpl \<and> ExecuteTemplate r tmpl vals = Inr middle)"
  using assms by (auto simp: renderOCIBuildTemplate_def split: if_splits sum.splits)

lemma exec_templateSecretValues:
  assumes "exec (templateSecretValues a o') t (Inr fromSecret)"
  shows "case TemplateValuesFrom o' of None \<Rightarrow> fromSecret = []
    | Some from \<Rightarrow> \<exists>s. (GetSecret (Namespace (osMeta a)) (selName from), OSecret (Inr s)) \<in> set t \<and> fromSecret = secData s"
proof (cases "TemplateValuesFrom o'")
  case None
  with assms show ?thesis by (simp add: templateSecretValues_def)
next
  case (Some src)
  with assms show ?thesis by (auto simp: templateSecretValues_def exec_attempt exec_oask)
qed

lemma exec_fetch:
  assumes "exec (fetchAndRenderUserOCISpec r a) t (Inr middle)"
  shows "case OCISpec (imageOf a) of None \<Rightarrow> middle = []
    | Some o' \<Rightarrow> (case ociRef o' of None \<Rightarrow> middle = [] | Some ref \<Rightarrow> renderedFrom r t a o' ref middle)"
proof (cases "OCISpec (imageOf a)")
  case None
  with assms show ?thesis by (simp add: fetchAndRenderUserOCISpec_def)
next
  case o': (Some o')
  show ?thesis
  proof (cases "ociRef o'")
    case None
    with o' assms show ?thesis by (simp add: fetchAndRenderUserOCISpec_def)
  next
    case ref: (Some ref)
    let ?q = "GetSecret (Namespace (osMeta a)) (selName ref)"
    let ?body = "\<lambda>s. case map_of (secData s) (keyOf ref) of
            None \<Rightarrow> Ret (Inl (Errorf (''key '' @ quoted (keyOf ref) @ '' not found in secret '' @ quoted (Name (secMeta s)))))
          | Some content \<Rightarrow> attempt (templateSecretValues a o') (\<lambda>fromSecret.
              Ret (wrapped ''failed to render OCI build template''
                (renderOCIBuildTemplate r content (putAll (TemplateValues o') (putAll fromSecret Map.empty)))))"
    let ?got = "wrapped (''failed to fetch OCI build definition secret '' @ quoted (selName ref)) \<circ> oSecret"
    have "exec (attempt (oask ?q ?got) ?body) t (Inr middle)"
      using assms unfolding fetchAndRenderUserOCISpec_def o' ref option.case keyOf_def Let_def .
    then obtain g t2 where tg: "t = (?q, g) # t2" and
      e1: "exec (case ?got g of Inl e \<Rightarrow> Ret (Inl e) | Inr s \<Rightarrow> ?body s) t2 (Inr middle)"
      unfolding exec_oask_attempt by blast
    from e1 obtain s where "?got g = Inr s" by (cases "?got g") simp_all
    then have g: "g = OSecret (Inr s)" by simp
    with e1 have e2: "exec (?body s) t2 (Inr middle)" by (simp add: wrapped_def)
    have t: "t = (?q, OSecret (Inr s)) # t2" using tg g by simp
    from e2 obtain content where c: "map_of (secData s) (keyOf ref) = Some content"
      by (cases "map_of (secData s) (keyOf ref)") auto
    with e2 obtain fromSecret where v: "exec (templateSecretValues a o') t2 (Inr fromSecret)" and
      rd: "renderOCIBuildTemplate r content (putAll (TemplateValues o') (putAll fromSecret Map.empty)) = Inr middle"
      by (auto simp: exec_attempt)
    have p: "putAll (TemplateValues o') (putAll fromSecret Map.empty) =
        (\<lambda>k. case map_of (TemplateValues o') k of None \<Rightarrow> map_of fromSecret k | Some v \<Rightarrow> Some v)"
      by (auto simp: putAll_def fun_eq_iff split: option.splits)
    have "templateValues t a o' (putAll (TemplateValues o') (putAll fromSecret Map.empty))"
      using exec_templateSecretValues [OF v] t unfolding templateValues_def p
      by (intro exI [of _ fromSecret]) (auto split: option.splits)
    moreover have "(?q, OSecret (Inr s)) \<in> set t" using t by simp
    moreover obtain tmpl where "ParseTemplate r content = Inr tmpl"
        "ExecuteTemplate r tmpl (putAll (TemplateValues o') (putAll fromSecret Map.empty)) = Inr middle"
        "\<forall>pre m post. content = pre @ m @ post \<longrightarrow> \<not> forbiddenMatch m"
      using render_ok [OF rd] unfolding forbiddenDirective_iff by blast
    ultimately have "renderedFrom r t a o' ref middle" using c unfolding renderedFrom_def by blast
    with o' ref show ?thesis by simp
  qed
qed

text \<open>
  C18. The rendered Secret belongs to the artifact, and what it holds is determined by the spec: with
  build options the user's definition between the two default sections, without them the user's
  definition alone. That definition is the Secret the spec names, under its key (ociSpec when the
  spec names none), free of forbidden directives, parsed and executed on the values of the spec
  over those of the values Secret; with no such reference it is empty. All entries of the values
  Secret are used: the code never reads the key of \<open>templateValuesFrom\<close>, although the API's comment
  uses all of them only when that key is empty.
\<close>

theorem rendered_definition:
  assumes "exec (resolveFinalOCISpec r a) t (a', res)" and "(CreateOrUpdateSecret ns sn labels data m, u) \<in> set t"
  shows "imgRef (imageOf a) = [] \<and> ns = Namespace (osMeta a) \<and> sn = renderedSecretName a \<and>
    labels = [(artifactLabel, Name (osMeta a))] \<and> m = osMeta a \<and>
    (\<exists>middle. data = [(OCISpecSecretKey, AssembleFinalOCISpec (BuildOptions (imageOf a) \<noteq> None) middle)] \<and>
      (case OCISpec (imageOf a) of None \<Rightarrow> middle = []
       | Some o' \<Rightarrow> (case ociRef o' of None \<Rightarrow> middle = [] | Some ref \<Rightarrow> renderedFrom r t a o' ref middle)))"
proof (cases "imgRef (imageOf a) = []")
  case False
  with assms show ?thesis by (simp add: resolveFinalOCISpec_def)
next
  case True
  then have ne: "(imgRef (imageOf a) \<noteq> []) = False" by simp
  from assms(1) obtain t1 mid t2 where t: "t = t1 @ t2" and e1: "exec (fetchAndRenderUserOCISpec r a) t1 mid"
    and e2: "exec (case mid of Inl e \<Rightarrow> Ret (a, Inl e) | Inr middleContent \<Rightarrow>
          (let final = AssembleFinalOCISpec (BuildOptions (imageOf a) \<noteq> None) middleContent;
               artifact' = withRenderedSpec a
           in bind (writeRenderedSecret artifact' final) (\<lambda>written. Ret (artifact', written)))) t2 (a', res)"
    unfolding resolveFinalOCISpec_def ne if_False exec_bind by blast
  have "only (\<lambda>q. \<forall>ns sn l d o'. q \<noteq> CreateOrUpdateSecret ns sn l d o') (fetchAndRenderUserOCISpec r a)"
    by (rule only_fetch) simp
  with e1 have "(CreateOrUpdateSecret ns sn labels data m, u) \<notin> set t1" by (auto dest: only_exec)
  with assms(2) t have mem: "(CreateOrUpdateSecret ns sn labels data m, u) \<in> set t2" by auto
  with e2 obtain middle where mid: "mid = Inr middle" by (cases mid) auto
  let ?data = "AssembleFinalOCISpec (BuildOptions (imageOf a) \<noteq> None) middle"
  from e2 mid have e3: "exec (writeRenderedSecret (withRenderedSpec a) ?data) t2 res" by (auto simp: Let_def exec_bind)
  have "only (\<lambda>q. (\<exists>n s. q = GetSecret n s) \<or> q = renderedWrite a ?data) (writeRenderedSecret (withRenderedSpec a) ?data)"
    by (auto simp: writeRenderedSecret_def checkSecretOwnership_def renderedWrite_def Let_def intro!: only_attempt only_bind)
  from only_exec [OF e3 this mem] have w: "CreateOrUpdateSecret ns sn labels data m = renderedWrite a ?data" by simp
  have mono: "renderedFrom r t1 a o' ref middle \<Longrightarrow> renderedFrom r t a o' ref middle" for o' ref
    using templateValues_mono [of t1 t] t unfolding renderedFrom_def set_append by (metis Un_iff set_append sup_ge1)
  from exec_fetch e1 mid have "case OCISpec (imageOf a) of None \<Rightarrow> middle = []
      | Some o' \<Rightarrow> (case ociRef o' of None \<Rightarrow> middle = [] | Some ref \<Rightarrow> renderedFrom r t1 a o' ref middle)" by blast
  with mono True w show ?thesis
    by (auto simp: renderedWrite_def split: option.splits)
qed

definition templated_artifact :: os_artifact where
  "templated_artifact = new_artifact\<lparr>osSpec := (osSpec new_artifact)\<lparr>osImage := sample_image\<lparr>imgRef := [],
     OCISpec := Some \<lparr>ociRef = Some \<lparr>selName = ''def'', selKey = []\<rparr>, TemplateValuesFrom = None,
       TemplateValues = [(''Tag'', ''24.04'')], BuildContextVolume = []\<rparr>\<rparr>\<rparr>\<rparr>"

definition tag_reconciler :: "string reconciler" where
  "tag_reconciler = sample_reconciler\<lparr>ExecuteTemplate :=
     (\<lambda>tmpl v. Inr (tmpl @ (case v ''Tag'' of None \<Rightarrow> [] | Some tag \<Rightarrow> tag)))\<rparr>"

definition definition_secret :: secret where
  "definition_secret = \<lparr>secMeta = empty_meta, secData = [(OCISpecSecretKey, ''FROM ubuntu:'')]\<rparr>"

lemma templated_artifact_facts:
  "imgRef (imageOf templated_artifact) = []" "BuildOptions (imageOf templated_artifact) = None"
  "osMeta templated_artifact = osMeta new_artifact"
  "OCISpec (imageOf templated_artifact) = Some \<lparr>ociRef = Some \<lparr>selName = ''def'', selKey = []\<rparr>, TemplateValuesFrom = None,
       TemplateValues = [(''Tag'', ''24.04'')], BuildContextVolume = []\<rparr>"
  by (simp_all add: templated_artifact_def sample_image_def)

lemma templated_run:
  "exec (resolveFinalOCISpec tag_reconciler templated_artifact)
     [(GetSecret ''ns1'' ''def'', OSecret (Inr definition_secret)),
      (GetSecret ''ns1'' (renderedSecretName templated_artifact), OSecret (Inl (ApiError NotFound ''secret''))),
      (renderedWrite templated_artifact ''FROM ubuntu:24.04'', OUnit (Inr ()))] (withRenderedSpec templated_artifact, Inr ())"
proof -
  have rd: "renderOCIBuildTemplate tag_reconciler ''FROM ubuntu:'' (putAll [(''Tag'', ''24.04'')] (putAll [] Map.empty)) =
      Inr ''FROM ubuntu:24.04''"
    by (simp add: renderOCIBuildTemplate_def forbiddenAt_def putAll_def tag_reconciler_def sample_reconciler_def)
  have e1: "exec (fetchAndRenderUserOCISpec tag_reconciler templated_artifact)
      [(GetSecret ''ns1'' ''def'', OSecret (Inr definition_secret))] (Inr ''FROM ubuntu:24.04'')"
    unfolding fetchAndRenderUserOCISpec_def templated_artifact_facts(3,4) new_artifact_facts(2) option.case oci_spec.simps
      secret_key_selector.simps
    by (rule exec_attempt_oaskI [where x = definition_secret], simp add: wrapped_def)
      (simp add: definition_secret_def templateSecretValues_def attempt_def rd Let_def)
  have w: "exec (writeRenderedSecret (withRenderedSpec templated_artifact) ''FROM ubuntu:24.04'')
     [(GetSecret ''ns1'' (renderedSecretName templated_artifact), OSecret (Inl (ApiError NotFound ''secret''))),
      (renderedWrite templated_artifact ''FROM ubuntu:24.04'', OUnit (Inr ()))] (Inr ())"
    by (simp add: writeRenderedSecret_def checkSecretOwnership_def attempt_def bind_assoc exec_oask_bind exec_oask
        templated_artifact_facts new_artifact_facts IsNotFound_def renderedWrite_def wrapped_def Let_def)
  have "exec (resolveFinalOCISpec tag_reconciler templated_artifact)
     ([(GetSecret ''ns1'' ''def'', OSecret (Inr definition_secret))] @
      ([(GetSecret ''ns1'' (renderedSecretName templated_artifact), OSecret (Inl (ApiError NotFound ''secret''))),
      (renderedWrite templated_artifact ''FROM ubuntu:24.04'', OUnit (Inr ()))] @ []))
     (withRenderedSpec templated_artifact, Inr ())"
    unfolding resolveFinalOCISpec_def templated_artifact_facts(1,2)
    by (simp only: simp_thms if_False, rule exec_bindI [OF e1])
      (simp only: sum.case Let_def AssembleFinalOCISpec_def simp_thms if_True, rule exec_bindI [OF w], simp)
  then show ?thesis by simp
qed

theorem rendered_definition_witness:
  "\<exists>t data u. exec (resolveFinalOCISpec tag_reconciler templated_artifact) t (withRenderedSpec templated_artifact, Inr ()) \<and>
     (CreateOrUpdateSecret ''ns1'' (renderedSecretName templated_artifact) [(artifactLabel, ''a1'')] data
       (osMeta templated_artifact), u) \<in> set t \<and>
     (\<exists>ref o' middle. renderedFrom tag_reconciler t templated_artifact o' ref middle \<and> data = [(OCISpecSecretKey, middle)])"
proof -
  let ?t = "[(GetSecret ''ns1'' ''def'', OSecret (Inr definition_secret)),
      (GetSecret ''ns1'' (renderedSecretName templated_artifact), OSecret (Inl (ApiError NotFound ''secret''))),
      (renderedWrite templated_artifact ''FROM ubuntu:24.04'', OUnit (Inr ()))]"
  have mem: "(CreateOrUpdateSecret ''ns1'' (renderedSecretName templated_artifact) [(artifactLabel, ''a1'')]
      [(OCISpecSecretKey, ''FROM ubuntu:24.04'')] (osMeta templated_artifact), OUnit (Inr ())) \<in> set ?t"
    by (simp add: renderedWrite_def templated_artifact_facts new_artifact_facts)
  from rendered_definition [OF templated_run mem] obtain o' ref middle where
    "renderedFrom tag_reconciler ?t templated_artifact o' ref middle" "[(OCISpecSecretKey, ''FROM ubuntu:24.04'')] = [(OCISpecSecretKey, middle)]"
    by (auto simp: templated_artifact_facts AssembleFinalOCISpec_def)
  with templated_run mem show ?thesis by blast
qed

end
