(* ===== verification/OSArtifactExport.thy ===== *)
theory OSArtifactExport
  imports OSArtifactFlow
begin

text \<open>
  The export phase of the OSArtifact controller: which export Jobs a reconcile creates, when it
  declares the artifact ready, and the cases in which Jobs and Pods it should not count decide.
\<close>

section \<open>Indices\<close>

definition digit_value :: "char \<Rightarrow> nat" where
  "digit_value c = of_char c - 48"

definition read_nat :: "string \<Rightarrow> nat" where
  "read_nat s = foldl (\<lambda>n c. 10 * n + digit_value c) 0 s"

lemma digit_value_hex: "d < 10 \<Longrightarrow> digit_value (hex_digit d) = d"
proof -
  assume "d < 10"
  then have "d \<in> {0, 1, 2, 3, 4, 5, 6, 7, 8, 9}" by auto
  then show ?thesis by (auto simp: digit_value_def hex_digit_def)
qed

lemma read_dec_nat [simp]: "read_nat (dec_nat n) = n"
proof (induction n rule: dec_nat.induct)
  case (1 n)
  show ?case
  proof (cases "n < 10")
    case True
    then show ?thesis by (subst dec_nat.simps) (simp add: read_nat_def digit_value_hex)
  next
    case False
    with 1 show ?thesis by (subst dec_nat.simps) (simp add: read_nat_def digit_value_hex)
  qed
qed

lemma dec_nat_inj: "dec_nat m = dec_nat n \<longleftrightarrow> m = n"
  by (metis read_dec_nat)

text \<open>The Job of an index is the last listed one that carries it.\<close>

lemma indexedJobs_last: "map_of (indexedJobs jobs) idx = find (\<lambda>j. exportIndex j = Some idx) (rev jobs)"
  by (induction jobs rule: rev_induct)
    (auto simp: indexedJobs_def indexJob_def exportIndex_def split: option.splits)

lemma indexedJobs_none: "map_of (indexedJobs jobs) idx = None \<longleftrightarrow> (\<forall>j \<in> set jobs. exportIndex j \<noteq> Some idx)"
  unfolding indexedJobs_last by (auto simp: find_None_iff)

section \<open>Ready exactly when every exporter is done\<close>

definition allExported :: "os_artifact \<Rightarrow> job list \<Rightarrow> bool" where
  "allExported a jobs \<longleftrightarrow> (\<forall>i < length (Exporters (osSpec a)).
     \<exists>j. map_of (indexedJobs jobs) (dec_nat i) = Some j \<and> exportDone j)"

lemma exportEach_done:
  assumes "exec (exportEach a jobs vol i specs s) tr out"
    and "\<And>k. k < length specs \<Longrightarrow> \<exists>j. map_of jobs (dec_nat (i + k)) = Some j \<and> exportDone j"
  shows "out = Succeeded (s + length specs) \<and> tr = []"
  using assms
proof (induction specs arbitrary: i s)
  case (Cons spec specs)
  from Cons.prems(2) [of 0] obtain j where j: "map_of jobs (dec_nat i) = Some j" "exportDone j" by auto
  with Cons.prems(1) have "exec (exportEach a jobs vol (Suc i) specs (Suc s)) tr out"
    by (auto simp: exportDone_def singleCompletion_def)
  from Cons.IH [OF this] Cons.prems(2) [of "Suc _"] show ?case by simp
qed simp

lemma listing_unique:
  assumes "exec (checkExport a) tr res" and "(ListJobsByLabel None (artifactSelector a), OJobs (Inr jobs)) \<in> set tr"
    and "res = Inr ()"
  obtains vol t1 t2 out t3 where
    "tr = (ListJobsByLabel None (artifactSelector a), OJobs (Inr jobs)) # t1 @ t2 @ t3"
    "\<forall>e \<in> set t1. \<not> statusWrite (fst e) \<and> \<not> creating (fst e)"
    "exec (exportEach a (indexedJobs jobs) vol 0 (Exporters (osSpec a)) 0) t2 out"
    "t3 = [] \<or> (out = Succeeded (length (Exporters (osSpec a))) \<and> (\<exists>u. t3 = [(UpdateArtifactStatus (setPhase Ready a), u)]))"
    "out = Succeeded (length (Exporters (osSpec a))) \<Longrightarrow> t3 \<noteq> []"
  using assms(1)
proof (cases rule: exec_checkExport)
  case stopped
  with assms(3) show thesis by simp
next
  case (exporting jobs' vol t1 t2 out t3)
  have "\<forall>e \<in> set t1. \<forall>n l. fst e \<noteq> ListJobsByLabel n l"
  proof -
    have "only (\<lambda>q. \<forall>n l. q \<noteq> ListJobsByLabel n l) (volumeForExportArtifacts a)"
      by (auto simp: volumeForExportArtifacts_def lookupArtifactsPVC_def Let_def intro!: only_attempt)
    from only_exec [OF exporting(2) this] show ?thesis by fastforce
  qed
  moreover have "\<forall>e \<in> set t2. \<forall>n l. fst e \<noteq> ListJobsByLabel n l"
    using exec_exportEach [OF exporting(4)] by (fastforce simp: exportEvent_def)
  moreover have "\<forall>e \<in> set t3. \<forall>n l. fst e \<noteq> ListJobsByLabel n l" using exporting(5) by auto
  ultimately have "jobs' = jobs" using assms(2) exporting(1) by fastforce
  with exporting that show thesis by blast
qed

lemma ready_iff:
  assumes "exec (checkExport a) tr (Inr ())" and "(ListJobsByLabel None (artifactSelector a), OJobs (Inr jobs)) \<in> set tr"
  shows "(\<exists>u w. (UpdateArtifactStatus w, u) \<in> set tr \<and> phaseOf w = Ready) \<longleftrightarrow> allExported a jobs"
  using assms(1,2) refl
proof (cases rule: listing_unique)
  case (1 vol t1 t2 out t3)
  note ee = exec_exportEach [OF 1(3)]
  show ?thesis
  proof
    assume "allExported a jobs"
    with exportEach_done [OF 1(3)] have "out = Succeeded (length (Exporters (osSpec a)))" by (simp add: allExported_def)
    with 1(4,5) obtain u where "t3 = [(UpdateArtifactStatus (setPhase Ready a), u)]" by auto
    with 1(1) show "\<exists>u w. (UpdateArtifactStatus w, u) \<in> set tr \<and> phaseOf w = Ready"
      by (intro exI [of _ u] exI [of _ "setPhase Ready a"]) simp
  next
    assume "\<exists>u w. (UpdateArtifactStatus w, u) \<in> set tr \<and> phaseOf w = Ready"
    then obtain u w where w: "(UpdateArtifactStatus w, u) \<in> set tr" "phaseOf w = Ready" by blast
    have "(UpdateArtifactStatus w, u) \<notin> set t1" using 1(2) by fastforce
    moreover have "(UpdateArtifactStatus w, u) \<notin> set t2" using ee w(2) by (fastforce simp: exportEvent_def)
    ultimately have "(UpdateArtifactStatus w, u) \<in> set t3" using w(1) 1(1) by auto
    with 1(4) have "out = Succeeded (length (Exporters (osSpec a)))" by auto
    with ee show "allExported a jobs" by (simp add: exportsCounted_def allExported_def)
  qed
qed

text \<open>
  C28. A pass of the export phase that ends without an error declares the artifact Ready exactly when
  every exporter has succeeded: the last listed Job with its index asks for one completion and has
  a succeeded Pod. Without exporters that is at once.
\<close>

theorem export_ready_iff:
  assumes "exec (checkExport a) tr (Inr ())" and "(ListJobsByLabel None (artifactSelector a), OJobs (Inr jobs)) \<in> set tr"
  shows "(\<exists>u w. (UpdateArtifactStatus w, u) \<in> set tr \<and> phaseOf w = Ready) \<longleftrightarrow>
    (\<forall>i < length (Exporters (osSpec a)). \<exists>j. find (\<lambda>j. exportIndex j = Some (dec_nat i)) (rev jobs) = Some j \<and>
       singleCompletion j \<and> 0 < jobSucceeded (jobStatus j))"
  using ready_iff [OF assms] unfolding allExported_def indexedJobs_last exportDone_def .

text \<open>An artifact in the export phase, with its artifacts in a volume of its own spec.\<close>

definition export_spec :: "int option \<Rightarrow> job_spec" where
  "export_spec completions = \<lparr>BackoffLimit = None, Completions = completions, templateLabels = [], templateAnnotations = [],
     templateSpec = empty_pod_spec\<rparr>"

definition exporting_artifact :: "int option \<Rightarrow> os_artifact" where
  "exporting_artifact completions = sample_artifact\<lparr>
     osMeta := (osMeta sample_artifact)\<lparr>Finalizers := [FinalizerName]\<rparr>,
     osSpec := (osSpec sample_artifact)\<lparr>Artifacts := Some (sample_artifacts\<lparr>artVolume := ''files'', RootfsVolume := []\<rparr>),
       Exporters := [export_spec completions]\<rparr>,
     osStatus := \<lparr>osPhase = Exporting, osMessage = []\<rparr>\<rparr>"

definition exported_volume :: volume where
  "exported_volume = \<lparr>volName = artifactsVolumeName, volSource = HostPath ''/srv''\<rparr>"

text \<open>The export Job the controller creates for it, later in its life.\<close>

definition export_job :: "int option \<Rightarrow> job_status \<Rightarrow> job" where
  "export_job completions status =
     (exportJob (exporting_artifact completions) exported_volume (dec_nat 0) (export_spec completions))\<lparr>jobStatus := status\<rparr>"

lemma exporting_artifact_facts:
  "length (Exporters (osSpec (exporting_artifact c))) = 1" "Exporters (osSpec (exporting_artifact c)) = [export_spec c]"
  "artField artVolume (exporting_artifact c) = ''files''" "phaseOf (exporting_artifact c) = Exporting"
  "findVolume ''files'' (osVolumes (osSpec (exporting_artifact c))) = Some \<lparr>volName = ''files'', volSource = HostPath ''/srv''\<rparr>"
  by (simp_all add: exporting_artifact_def sample_defs artField_def phaseOf_def findVolume_def)

lemma export_volume_found:
  "volumeForExportArtifacts (exporting_artifact c) = Ret (Inr exported_volume)"
  by (simp add: volumeForExportArtifacts_def exporting_artifact_facts readOnlySource_def exported_volume_def Let_def)

lemma export_job_facts [simp]:
  "exportIndex (export_job c st) = Some (dec_nat 0)" "Completions (jobSpec (export_job c st)) = c"
  "BackoffLimit (jobSpec (export_job c st)) = Some 0" "jobStatus (export_job c st) = st"
  by (simp_all add: export_job_def exportJob_def exportIndex_def SetOwnerReference_def export_spec_def Let_def)

lemma export_pass:
  assumes "map_of (indexedJobs jobs) (dec_nat 0) = Some (export_job c st)"
  shows "c = None \<Longrightarrow> 0 < jobSucceeded st \<Longrightarrow> exec (checkExport (exporting_artifact c))
      [(ListJobsByLabel None (artifactSelector (exporting_artifact c)), OJobs (Inr jobs)),
       (UpdateArtifactStatus (setPhase Ready (exporting_artifact c)), OVersion (Inr v))] (Inr ())" (is "_ \<Longrightarrow> _ \<Longrightarrow> ?ready")
    and "c \<noteq> None \<Longrightarrow> c \<noteq> Some 1 \<Longrightarrow> 0 \<le> jobFailed st \<Longrightarrow> exec (checkExport (exporting_artifact c))
      [(ListJobsByLabel None (artifactSelector (exporting_artifact c)), OJobs (Inr jobs)),
       (UpdateArtifactStatus (setFailed (exportJobFailureMessage (export_job c st)) (exporting_artifact c)), OVersion (Inr v))]
      (Inr ())" (is "_ \<Longrightarrow> _ \<Longrightarrow> _ \<Longrightarrow> ?failed")
proof -
  let ?each = "exportEach (exporting_artifact c) (indexedJobs jobs) exported_volume 0 [export_spec c] 0"
  have rest: "exec (bind ?each (\<lambda>out. case out of ReturnNow r \<Rightarrow> Ret r
       | Succeeded n \<Rightarrow> if n = Suc 0 then artifactStatusUpdate (setPhase Ready (exporting_artifact c)) else Ret (Inr ()))) t (Inr ()) \<Longrightarrow>
     exec (checkExport (exporting_artifact c))
      ((ListJobsByLabel None (artifactSelector (exporting_artifact c)), OJobs (Inr jobs)) # t) (Inr ())" for t
    unfolding checkExport_def exec_oask_attempt exporting_artifact_facts(1,2) export_volume_found attempt_def [of "Ret _"]
    by (intro exI [of _ "OJobs (Inr jobs)"] exI [of _ t]) (simp del: exportEach.simps)
  {
    assume "c = None" "0 < jobSucceeded st"
    then have "?each = Ret (Succeeded (Suc 0))" using assms by simp
    then show ?ready by (intro rest) (simp add: artifactStatusUpdate_def exec_oask)
  }
  {
    assume "c \<noteq> None" "c \<noteq> Some 1" "0 \<le> jobFailed st"
    then have "?each = failExport (exporting_artifact c) (export_job c st)" using assms by (cases c) simp_all
    then show ?failed by (intro rest) (simp add: failExport_def artifactStatusUpdate_def bind_assoc exec_oask)
  }
qed

lemma single_export: "map_of (indexedJobs [export_job c st]) (dec_nat 0) = Some (export_job c st)"
  by (simp add: indexedJobs_last)

theorem export_ready_iff_witness:
  "\<exists>tr u w. exec (checkExport (exporting_artifact None)) tr (Inr ()) \<and> (UpdateArtifactStatus w, u) \<in> set tr \<and> phaseOf w = Ready"
proof -
  let ?a = "exporting_artifact None" and ?j = "export_job None (empty_job_status\<lparr>jobSucceeded := 1\<rparr>)"
  have ex: "exec (checkExport ?a) [(ListJobsByLabel None (artifactSelector ?a), OJobs (Inr [?j])),
     (UpdateArtifactStatus (setPhase Ready ?a), OVersion (Inr ''8''))] (Inr ())"
    by (rule export_pass(1) [OF single_export]) simp_all
  have "\<exists>u w. (UpdateArtifactStatus w, u) \<in> set [(ListJobsByLabel None (artifactSelector ?a), OJobs (Inr [?j])),
     (UpdateArtifactStatus (setPhase Ready ?a), OVersion (Inr ''8''))] \<and> phaseOf w = Ready"
    by (subst export_ready_iff [OF ex, of "[?j]"]) (simp_all add: exporting_artifact_facts singleCompletion_def)
  with ex show ?thesis by blast
qed

section \<open>Jobs with several completions\<close>

text \<open>
  C29. A Job that asks for any other number of completions than one is never counted as a success, only
  against its backoff limit: its artifact never becomes Ready, and every status the export phase
  writes meanwhile is Error.
\<close>

theorem multi_completion_never_ready:
  assumes "exec (checkExport a) tr res" and "(ListJobsByLabel None (artifactSelector a), OJobs (Inr jobs)) \<in> set tr"
    and "i < length (Exporters (osSpec a))"
    and "\<And>j. j \<in> set jobs \<Longrightarrow> exportIndex j = Some (dec_nat i) \<Longrightarrow> Completions (jobSpec j) \<noteq> None \<and> Completions (jobSpec j) \<noteq> Some 1"
    and "(UpdateArtifactStatus w, u) \<in> set tr"
  shows "phaseOf w = Error"
  using assms(1)
proof (cases rule: exec_checkExport)
  case stopped
  with assms(5) show ?thesis by fastforce
next
  case (exporting jobs' vol t1 t2 out t3)
  note ee = exec_exportEach [OF exporting(4)]
  have vol: "only (\<lambda>q. \<forall>n l. q \<noteq> ListJobsByLabel n l) (volumeForExportArtifacts a)"
    by (auto simp: volumeForExportArtifacts_def lookupArtifactsPVC_def Let_def intro!: only_attempt)
  have "(ListJobsByLabel None (artifactSelector a), OJobs (Inr jobs)) \<notin> set (t1 @ t2 @ t3)"
    using only_exec [OF exporting(2) vol] ee exporting(5) by (fastforce simp: exportEvent_def)
  with assms(2) exporting(1) have jobs: "jobs' = jobs" by auto
  have "out \<noteq> Succeeded (length (Exporters (osSpec a)))"
  proof
    assume "out = Succeeded (length (Exporters (osSpec a)))"
    with ee assms(3) obtain j where j: "map_of (indexedJobs jobs) (dec_nat i) = Some j" "exportDone j"
      by (auto simp: exportsCounted_def jobs)
    with indexedJobs_in [OF j(1)] assms(4) [of j] show False by (auto simp: exportDone_def singleCompletion_def)
  qed
  with exporting(5) have "t3 = []" by auto
  with assms(5) exporting(1,3) have "(UpdateArtifactStatus w, u) \<in> set t2" by fastforce
  with ee show ?thesis by (fastforce simp: exportEvent_def)
qed

text \<open>So a Job with two completions, both succeeded and none failed, makes its artifact fail.\<close>

theorem multi_completion_never_ready_witness:
  "\<exists>tr u w. exec (checkExport (exporting_artifact (Some 2))) tr (Inr ()) \<and>
     (ListJobsByLabel None (artifactSelector (exporting_artifact (Some 2))),
      OJobs (Inr [export_job (Some 2) (empty_job_status\<lparr>jobSucceeded := 2\<rparr>)])) \<in> set tr \<and>
     (UpdateArtifactStatus w, u) \<in> set tr \<and> phaseOf w = Error"
proof -
  let ?a = "exporting_artifact (Some 2)" and ?j = "export_job (Some 2) (empty_job_status\<lparr>jobSucceeded := 2\<rparr>)"
  let ?w = "setFailed (exportJobFailureMessage ?j) ?a"
  let ?tr = "[(ListJobsByLabel None (artifactSelector ?a), OJobs (Inr [?j])), (UpdateArtifactStatus ?w, OVersion (Inr ''8''))]"
  have ex: "exec (checkExport ?a) ?tr (Inr ())"
    by (rule export_pass(2) [OF single_export]) (simp_all add: empty_job_status_def)
  have "phaseOf ?w = Error"
    by (rule multi_completion_never_ready [OF ex, of "[?j]" 0]) (auto simp: exporting_artifact_facts)
  with ex show ?thesis by (intro exI [of _ ?tr] exI) auto
qed

section \<open>The export Jobs\<close>

definition createdIndices :: "os_trace \<Rightarrow> string option list" where
  "createdIndices tr = concat (map (\<lambda>e. case fst e of CreateExportJob j \<Rightarrow> [exportIndex j] | _ \<Rightarrow> []) tr)"

lemma created_simps [simp]:
  "createdIndices [] = []" "createdIndices (s @ t) = createdIndices s @ createdIndices t"
  "createdIndices ((CreateExportJob j, u) # t) = exportIndex j # createdIndices t"
  "createdIndices ((UpdateArtifactStatus w, u) # t) = createdIndices t"
  "createdIndices ((ListJobsByLabel n l, u) # t) = createdIndices t"
  by (simp_all add: createdIndices_def)

lemma created_none: "\<forall>e \<in> set t. \<not> creating (fst e) \<Longrightarrow> createdIndices t = []"
  by (auto simp: createdIndices_def split: os_req.splits)

lemma exportJob_index [simp]: "exportIndex (exportJob a vol idx spec) = Some idx"
  by (simp add: exportJob_def exportIndex_def SetOwnerReference_def)

lemma exportEach_created:
  "exec (exportEach a jobs vol i specs s) tr out \<Longrightarrow>
     distinct (createdIndices tr) \<and> (\<forall>x \<in> set (createdIndices tr). \<exists>k \<ge> i. x = Some (dec_nat k))"
proof (induction specs arbitrary: i s tr)
  case (Cons spec specs)
  have later: ?case if "exec (exportEach a jobs vol (Suc i) specs s') tr out" for s'
    using Cons.IH [OF that] Suc_leD by blast
  have failed: ?case if "exec (failExport a j) tr out" for j
    using that by (auto simp: failExport_def artifactStatusUpdate_def exec_oask_bind)
  show ?case
  proof (cases "map_of jobs (dec_nat i)")
    case None
    with Cons.prems obtain u t where tr: "tr = (CreateExportJob (exportJob a vol (dec_nat i) spec), u) # t" and
      ex: "exec (case oUnit u of Inl e \<Rightarrow> Ret (ReturnNow (Inl e)) | Inr _ \<Rightarrow> exportEach a jobs vol (Suc i) specs s) t out"
      by (auto simp: exec_oask_bind)
    have "distinct (createdIndices t) \<and> (\<forall>x \<in> set (createdIndices t). \<exists>k \<ge> Suc i. x = Some (dec_nat k))"
    proof (cases "oUnit u")
      case (Inr v)
      with ex Cons.IH show ?thesis by simp
    qed (use ex in simp)
    with tr show ?thesis by (fastforce simp: dec_nat_inj Suc_le_eq)
  next
    case (Some j)
    with Cons.prems later failed show ?thesis by (auto split: if_splits option.splits)
  qed
qed simp

lemma exec_exportVolume:
  assumes "exec (volumeForExportArtifacts a) t (Inr vol)"
  shows "volName vol = artifactsVolumeName \<and> (\<forall>claim ro. volSource vol = PVCVolume claim ro \<longrightarrow> ro)"
  using assms
  by (auto simp: volumeForExportArtifacts_def exec_attempt readOnlySource_def Let_def
      split: if_splits option.splits volume_source.splits)

lemma exportJob_fields:
  "Labels (jobMeta (exportJob a vol idx spec)) = [(artifactLabel, Name (osMeta a))]"
  "Namespace (jobMeta (exportJob a vol idx spec)) = Namespace (osMeta a)"
  "Completions (jobSpec (exportJob a vol idx spec)) = Completions spec"
  "BackoffLimit (jobSpec (exportJob a vol idx spec)) = Some (case BackoffLimit spec of None \<Rightarrow> 0 | Some b \<Rightarrow> b)"
  "Volumes (templateSpec (jobSpec (exportJob a vol idx spec))) = Volumes (templateSpec spec) @ [vol]"
  by (simp_all add: exportJob_def SetOwnerReference_def split: option.splits)

text \<open>
  The export phase creates a Job for an exporter only when the listing showed none with its index,
  and at most one Job per index in a pass. The Job is the exporter's, carries the index, is found by
  the listing of the next pass and leads its events back to the artifact; it has a backoff limit (0
  unless the exporter sets one), and the artifacts volume is added to its Pods, a claim only for
  reading.
\<close>

theorem export_jobs:
  assumes "exec (checkExport a) tr res"
  shows "distinct (createdIndices tr) \<and>
    (\<forall>j u. (CreateExportJob j, u) \<in> set tr \<longrightarrow> (\<exists>jobs i vol.
       (ListJobsByLabel None (artifactSelector a), OJobs (Inr jobs)) \<in> set tr \<and>
       i < length (Exporters (osSpec a)) \<and> exportIndex j = Some (dec_nat i) \<and>
       (\<forall>j' \<in> set jobs. exportIndex j' \<noteq> Some (dec_nat i)) \<and>
       MatchingLabels (artifactSelector a) (Labels (jobMeta j)) \<and>
       findOwningArtifact (jobMeta j) = [(Namespace (osMeta a), Name (osMeta a))] \<and>
       BackoffLimit (jobSpec j) = Some (case BackoffLimit (Exporters (osSpec a) ! i) of None \<Rightarrow> 0 | Some b \<Rightarrow> b) \<and>
       Volumes (templateSpec (jobSpec j)) = Volumes (templateSpec (Exporters (osSpec a) ! i)) @ [vol] \<and>
       volName vol = artifactsVolumeName \<and> (\<forall>claim ro. volSource vol = PVCVolume claim ro \<longrightarrow> ro)))"
  using assms
proof (cases rule: exec_checkExport)
  case stopped
  moreover from stopped have "\<And>j u. (CreateExportJob j, u) \<notin> set tr" by fastforce
  ultimately show ?thesis by (simp add: created_none)
next
  case (exporting jobs vol t1 t2 out t3)
  note ee = exec_exportEach [OF exporting(4)] exportEach_created [OF exporting(4)]
  have d: "distinct (createdIndices tr)"
    using exporting(1,5) ee(2) created_none [of t1] exporting(3) by auto
  have "\<exists>i. i < length (Exporters (osSpec a)) \<and> map_of (indexedJobs jobs) (dec_nat i) = None \<and>
      j = exportJob a vol (dec_nat i) (Exporters (osSpec a) ! i)" if "(CreateExportJob j, u) \<in> set tr" for j u
  proof -
    have "(CreateExportJob j, u) \<notin> set t1" using exporting(3) by fastforce
    with that exporting(1,5) have "(CreateExportJob j, u) \<in> set t2" by auto
    with ee(1) have "exportEvent a (indexedJobs jobs) vol 0 (Exporters (osSpec a)) (CreateExportJob j)" by fastforce
    then show ?thesis by (auto simp: exportEvent_def)
  qed
  note created = this
  have l: "(ListJobsByLabel None (artifactSelector a), OJobs (Inr jobs)) \<in> set tr" using exporting(1) by simp
  show ?thesis
  proof (intro conjI d allI impI)
    fix j u assume "(CreateExportJob j, u) \<in> set tr"
    from created [OF this] obtain i where i: "i < length (Exporters (osSpec a))"
      "map_of (indexedJobs jobs) (dec_nat i) = None" and j: "j = exportJob a vol (dec_nat i) (Exporters (osSpec a) ! i)" by blast
    from l i exec_exportVolume [OF exporting(2)] show "\<exists>jobs i vol.
       (ListJobsByLabel None (artifactSelector a), OJobs (Inr jobs)) \<in> set tr \<and>
       i < length (Exporters (osSpec a)) \<and> exportIndex j = Some (dec_nat i) \<and>
       (\<forall>j' \<in> set jobs. exportIndex j' \<noteq> Some (dec_nat i)) \<and>
       MatchingLabels (artifactSelector a) (Labels (jobMeta j)) \<and>
       findOwningArtifact (jobMeta j) = [(Namespace (osMeta a), Name (osMeta a))] \<and>
       BackoffLimit (jobSpec j) = Some (case BackoffLimit (Exporters (osSpec a) ! i) of None \<Rightarrow> 0 | Some b \<Rightarrow> b) \<and>
       Volumes (templateSpec (jobSpec j)) = Volumes (templateSpec (Exporters (osSpec a) ! i)) @ [vol] \<and>
       volName vol = artifactsVolumeName \<and> (\<forall>claim ro. volSource vol = PVCVolume claim ro \<longrightarrow> ro)"
      unfolding j indexedJobs_none
      by (intro exI [of _ jobs] exI [of _ i] exI [of _ vol])
        (auto simp: exportJob_fields MatchingLabels_def artifactSelector_def findOwningArtifact_def)
  qed
qed

theorem export_jobs_witness:
  "\<exists>tr j. exec (checkExport (exporting_artifact None)) tr (Inr ()) \<and> (CreateExportJob j, OUnit (Inr ())) \<in> set tr \<and>
     exportIndex j = Some ''0'' \<and> BackoffLimit (jobSpec j) = Some 0 \<and> length (Volumes (templateSpec (jobSpec j))) = 1"
proof -
  let ?a = "exporting_artifact None"
  define j where "j = exportJob ?a exported_volume (dec_nat 0) (export_spec None)"
  define tr where "tr = [(ListJobsByLabel None (artifactSelector ?a), OJobs (Inr [])), (CreateExportJob j, OUnit (Inr ()))]"
  have i: "map_of (indexedJobs []) (dec_nat 0) = None" by (simp add: indexedJobs_last)
  have ex: "exec (checkExport ?a) tr (Inr ())"
    unfolding tr_def checkExport_def exec_oask_attempt exporting_artifact_facts(1,2) export_volume_found
    by (simp add: attempt_def i exec_oask_bind bind_assoc flip: j_def)
  have mem: "(CreateExportJob j, OUnit (Inr ())) \<in> set tr" by (simp add: tr_def)
  from export_jobs [OF ex] mem obtain k where "k < 1" "exportIndex j = Some (dec_nat k)"
    "BackoffLimit (jobSpec j) = Some (case BackoffLimit (Exporters (osSpec ?a) ! k) of None \<Rightarrow> 0 | Some b \<Rightarrow> b)"
    "length (Volumes (templateSpec (jobSpec j))) = Suc (length (Volumes (templateSpec (Exporters (osSpec ?a) ! k))))"
    unfolding exporting_artifact_facts(1) by fastforce
  with ex mem show ?thesis
    by (intro exI [of _ tr] exI [of _ j])
      (simp add: exporting_artifact_facts export_spec_def empty_pod_spec_def dec_nat.simps hex_digit_def)
qed

section \<open>Pods of other namespaces\<close>

text \<open>
  The builder Pods are listed by the artifact's name in all namespaces. A succeeded Pod of another
  namespace, which nothing of this artifact owns, moves it to Exporting before its own Pod ended.
\<close>

theorem foreign_pod_decides:
  "\<exists>tr p u. exec (osReconcile r ''ns1'' ''a1'') tr (Inr ()) \<and>
     (GetArtifact ''ns1'' ''a1'', OArtifact (Inr building_artifact)) \<in> set tr \<and>
     (ListPodsByLabel None (artifactSelector building_artifact), OPods (Inr [p])) \<in> set tr \<and>
     MatchingLabels (artifactSelector building_artifact) (Labels (podMeta p)) \<and>
     Namespace (podMeta p) \<noteq> Namespace (osMeta building_artifact) \<and> OwnerReferences (podMeta p) = [] \<and>
     findOwningArtifact (podMeta p) \<noteq> [(''ns1'', ''a1'')] \<and>
     (UpdateArtifactStatus (setPhase Exporting building_artifact), u) \<in> set tr"
proof -
  let ?a = building_artifact and ?p = "builder_pod_in ''ns2'' PodSucceeded"
  let ?tr = "(GetArtifact ''ns1'' ''a1'', OArtifact (Inr ?a)) # (GetNamespace (Namespace (osMeta ?a)), ONamespace (Inr None)) #
     [(ListPodsByLabel None (artifactSelector ?a), OPods (Inr [?p])), (UpdateArtifactStatus (setPhase Exporting ?a), OVersion (Inr ''9''))]"
  have b: "buildPhase ?a" by (simp add: buildPhase_def building_artifact_facts)
  have ex: "exec (osReconcile r ''ns1'' ''a1'') ?tr (Inr ())"
    by (rule reconcile_live [OF _ _ b build_decided])
      (simp_all add: building_artifact_facts new_artifact_facts builder_pod_in_def)
  have "MatchingLabels (artifactSelector ?a) (Labels (podMeta ?p))" "Namespace (podMeta ?p) \<noteq> Namespace (osMeta ?a)"
    "OwnerReferences (podMeta ?p) = []" "findOwningArtifact (podMeta ?p) \<noteq> [(''ns1'', ''a1'')]"
    by (simp_all add: MatchingLabels_def artifactSelector_def findOwningArtifact_def builder_pod_in_def empty_meta_def
        building_artifact_facts new_artifact_facts)
  with ex show ?thesis
    by (intro exI [of _ ?tr] exI [of _ ?p] exI [of _ "OVersion (Inr ''9'')"]) simp
qed

end
