(* ===== verification/OSArtifactHistory.thy ===== *)
theory OSArtifactHistory
  imports OSArtifactExport
begin

text \<open>
  The life of an OSArtifact over any number of reconciles: the versions of it the API server can
  hold after a history of edits and reconciles, and what must have been seen in that history.
\<close>

section \<open>Histories\<close>

definition isArtifact :: "string \<Rightarrow> string \<Rightarrow> os_artifact \<Rightarrow> bool" where
  "isArtifact namespace nm a \<longleftrightarrow> Namespace (osMeta a) = namespace \<and> Name (osMeta a) = nm"

text \<open>
  A history is everything requested and answered so far and the versions the artifact had. It is
  created without a phase or as Pending; users change anything but its status; a reconcile reads
  any version, however old, and the server may accept any of the statuses it writes.
\<close>

inductive os_history :: "'t reconciler \<Rightarrow> string \<Rightarrow> string \<Rightarrow> os_trace \<Rightarrow> os_artifact list \<Rightarrow> bool"
  for r namespace nm where
  created: "isArtifact namespace nm a \<Longrightarrow> phaseOf a \<in> {[], Pending} \<Longrightarrow> os_history r namespace nm [] [a]"
| edited: "os_history r namespace nm H V \<Longrightarrow> a \<in> set V \<Longrightarrow> isArtifact namespace nm a' \<Longrightarrow> osStatus a' = osStatus a \<Longrightarrow>
    os_history r namespace nm H (a' # V)"
| reconciled: "os_history r namespace nm H V \<Longrightarrow> exec (osReconcile r namespace nm) tr res \<Longrightarrow>
    (\<And>b. (GetArtifact namespace nm, OArtifact (Inr b)) \<in> set tr \<Longrightarrow> b \<in> set V) \<Longrightarrow>
    (\<And>w. w \<in> set W \<Longrightarrow> isArtifact namespace nm w \<and> (\<exists>u. (UpdateArtifactStatus w, u) \<in> set tr)) \<Longrightarrow>
    os_history r namespace nm (H @ tr) (W @ V)"

section \<open>What a phase says of the past\<close>

definition builderSeen :: "os_trace \<Rightarrow> string \<Rightarrow> string \<Rightarrow> bool" where
  "builderSeen H nm phase \<longleftrightarrow> (\<exists>pods p. (ListPodsByLabel None [(artifactLabel, nm)], OPods (Inr pods)) \<in> set H \<and>
     p \<in> set pods \<and> podPhase (podStatus p) = phase)"

definition exportsSeen :: "os_trace \<Rightarrow> string \<Rightarrow> nat \<Rightarrow> bool" where
  "exportsSeen H nm n \<longleftrightarrow> (\<exists>jobs. (ListJobsByLabel None [(artifactLabel, nm)], OJobs (Inr jobs)) \<in> set H \<and>
     (\<forall>i < n. \<exists>j \<in> set jobs. exportIndex j = Some (dec_nat i) \<and> exportDone j))"

definition givenUpSeen :: "os_trace \<Rightarrow> string \<Rightarrow> bool" where
  "givenUpSeen H nm \<longleftrightarrow> (\<exists>jobs j. (ListJobsByLabel None [(artifactLabel, nm)], OJobs (Inr jobs)) \<in> set H \<and>
     j \<in> set jobs \<and> exportIndex j \<noteq> None \<and> exportGivenUp j)"

text \<open>First one thing was seen, then the other.\<close>

definition inOrder :: "(os_trace \<Rightarrow> bool) \<Rightarrow> (os_trace \<Rightarrow> bool) \<Rightarrow> os_trace \<Rightarrow> bool" where
  "inOrder P Q H \<longleftrightarrow> (\<exists>H1 H2. H = H1 @ H2 \<and> P H1 \<and> Q H2)"

definition phaseExplained :: "string \<Rightarrow> os_trace \<Rightarrow> os_artifact list \<Rightarrow> string \<Rightarrow> bool" where
  "phaseExplained nm H V phase \<longleftrightarrow>
     phase = [] \<or> phase = Pending \<or>
     (phase = Building \<and> (\<exists>p. (CreateBuilderPod p, OUnit (Inr ())) \<in> set H)) \<or>
     (phase = Exporting \<and> builderSeen H nm PodSucceeded) \<or>
     (phase = Ready \<and> (\<exists>b \<in> set V. inOrder (\<lambda>h. builderSeen h nm PodSucceeded)
        (\<lambda>h. exportsSeen h nm (length (Exporters (osSpec b)))) H)) \<or>
     (phase = Error \<and> (builderSeen H nm PodFailed \<or>
        inOrder (\<lambda>h. builderSeen h nm PodSucceeded) (\<lambda>h. givenUpSeen h nm) H))"

lemma seen_append:
  "builderSeen H nm ph \<Longrightarrow> builderSeen (H @ t) nm ph" "builderSeen t nm ph \<Longrightarrow> builderSeen (H @ t) nm ph"
  "exportsSeen H nm n \<Longrightarrow> exportsSeen (H @ t) nm n" "givenUpSeen H nm \<Longrightarrow> givenUpSeen (H @ t) nm"
  unfolding builderSeen_def exportsSeen_def givenUpSeen_def set_append by blast+

lemma inOrder_append: "inOrder P Q H \<Longrightarrow> (\<And>h. Q h \<Longrightarrow> Q (h @ t)) \<Longrightarrow> inOrder P Q (H @ t)"
  unfolding inOrder_def by (metis append.assoc)

lemma inOrderI: "P H \<Longrightarrow> Q t \<Longrightarrow> inOrder P Q (H @ t)"
  by (auto simp: inOrder_def)

lemma inOrder_later:
  "inOrder P (\<lambda>h. exportsSeen h nm n) H \<Longrightarrow> inOrder P (\<lambda>h. exportsSeen h nm n) (H @ t)"
  "inOrder P (\<lambda>h. givenUpSeen h nm) H \<Longrightarrow> inOrder P (\<lambda>h. givenUpSeen h nm) (H @ t)"
  by (erule inOrder_append, erule seen_append)+

lemma explained_later:
  assumes "phaseExplained nm H V phase" and "set V \<subseteq> set V'"
  shows "phaseExplained nm (H @ t) V' phase"
proof -
  have "\<exists>b \<in> set V'. inOrder P (\<lambda>h. exportsSeen h nm (length (Exporters (osSpec b)))) (H @ t)"
    if "\<exists>b \<in> set V. inOrder P (\<lambda>h. exportsSeen h nm (length (Exporters (osSpec b)))) H" for P
    using that assms(2) inOrder_later(1) by blast
  with assms(1) show ?thesis
    unfolding phaseExplained_def using seen_append(1) inOrder_later(2) by auto
qed

text \<open>The evidence of one reconcile that read a version whose phase is explained.\<close>

lemma evidence_explains:
  assumes ev: "phaseEvidence tr a phase" and a: "a \<in> set V" "Name (osMeta a) = nm"
    and old: "phaseExplained nm H V (phaseOf a)"
  shows "phaseExplained nm (H @ tr) V phase"
proof -
  have sel: "artifactSelector a = [(artifactLabel, nm)]" using a by (simp add: artifactSelector_def)
  have exporting: "builderSeen H nm PodSucceeded" if "phaseOf a = Exporting"
    using old that by (auto simp: phaseExplained_def artifact_phases)
  consider "phase = Building" | "phase = Exporting" | "phase = Ready" | "phase \<notin> {Building, Exporting, Ready}" by blast
  then show ?thesis
  proof cases
    case 1
    with ev show ?thesis by (auto simp: phaseEvidence_def phaseExplained_def)
  next
    case 2
    with ev have "builderSeen tr nm PodSucceeded" by (simp add: phaseEvidence_def podSeen_def builderSeen_def sel)
    with 2 seen_append(2) show ?thesis by (simp add: phaseExplained_def)
  next
    case 3
    with ev have "phaseOf a = Exporting" "exportsSeen tr nm (length (Exporters (osSpec a)))"
      by (auto simp: phaseEvidence_def exportsSeen_def sel)
    with exporting have "inOrder (\<lambda>h. builderSeen h nm PodSucceeded)
        (\<lambda>h. exportsSeen h nm (length (Exporters (osSpec a)))) (H @ tr)" by (intro inOrderI) auto
    with 3 a(1) show ?thesis by (auto simp: phaseExplained_def)
  next
    case 4
    with ev have e: "phase = Error" "podSeen tr a PodFailed \<or> (phaseOf a = Exporting \<and> givenUpSeen tr nm)"
      by (auto simp: phaseEvidence_def givenUpSeen_def sel)
    from e(2) have "builderSeen (H @ tr) nm PodFailed \<or>
        inOrder (\<lambda>h. builderSeen h nm PodSucceeded) (\<lambda>h. givenUpSeen h nm) (H @ tr)"
    proof
      assume "podSeen tr a PodFailed"
      then have "builderSeen tr nm PodFailed" by (simp add: podSeen_def builderSeen_def sel)
      then show ?thesis using seen_append(2) by blast
    next
      assume "phaseOf a = Exporting \<and> givenUpSeen tr nm"
      with exporting show ?thesis by (intro disjI2 inOrderI) auto
    qed
    with e(1) show ?thesis by (simp add: phaseExplained_def)
  qed
qed

lemma history_explained:
  "os_history r namespace nm H V \<Longrightarrow> \<forall>a \<in> set V. isArtifact namespace nm a \<and> phaseExplained nm H V (phaseOf a)"
proof (induction rule: os_history.induct)
  case (created a)
  then show ?case by (auto simp: phaseExplained_def)
next
  case (edited H V a a')
  then have "phaseOf a' = phaseOf a" by (simp add: phaseOf_def)
  with edited explained_later [of nm H V _ "a' # V" "[]"] show ?case by auto
next
  case (reconciled H V tr res W)
  have "phaseExplained nm (H @ tr) (W @ V) (phaseOf w)" if "w \<in> set W" for w
  proof -
    from reconciled.hyps(4) [OF that] obtain u where "(UpdateArtifactStatus w, u) \<in> set tr" by blast
    from status_write_evidence [OF reconciled.hyps(2) this] obtain a where
      "(GetArtifact namespace nm, OArtifact (Inr a)) \<in> set tr" and ev: "phaseEvidence tr a (phaseOf w)" by blast
    with reconciled.hyps(3) have a: "a \<in> set V" by blast
    with reconciled.IH ev have "phaseExplained nm (H @ tr) V (phaseOf w)"
      by (intro evidence_explains) (auto simp: isArtifact_def)
    from explained_later [OF this, of "W @ V" "[]"] show ?thesis by simp
  qed
  with reconciled.IH reconciled.hyps(4) explained_later [of nm H V _ "W @ V" tr] show ?case by auto
qed

text \<open>
  C13. Whatever happens to an OSArtifact, its phase tells its past: it is Building only after a builder
  Pod was created, Exporting only after one was seen to have succeeded, Ready only after that and
  then every exporter of one of its versions was seen to have succeeded, and Error only after a
  builder Pod failed, or one succeeded and then an export was given up. There is no other phase.
\<close>

theorem phase_tells_history:
  assumes "os_history r namespace nm H V" and "a \<in> set V"
  shows "phaseExplained nm H V (phaseOf a)"
  using history_explained [OF assms(1)] assms(2) by blast

theorem phase_tells_history_witness:
  "\<exists>H V. os_history sample_reconciler ''ns1'' ''a1'' H V \<and> setPhase Exporting building_artifact \<in> set V \<and>
     builderSeen H ''a1'' PodSucceeded"
proof -
  let ?b = building_artifact and ?p = "builder_pod_in ''ns1'' PodSucceeded"
  let ?tr = "(GetArtifact ''ns1'' ''a1'', OArtifact (Inr ?b)) # (GetNamespace (Namespace (osMeta ?b)), ONamespace (Inr None)) #
     [(ListPodsByLabel None (artifactSelector ?b), OPods (Inr [?p])), (UpdateArtifactStatus (setPhase Exporting ?b), OVersion (Inr ''9''))]"
  have art: "isArtifact ''ns1'' ''a1'' new_artifact" "isArtifact ''ns1'' ''a1'' ?b" "isArtifact ''ns1'' ''a1'' (setPhase Exporting ?b)"
    by (simp_all add: isArtifact_def new_artifact_facts building_artifact_facts setPhase_def)
  have h0: "os_history sample_reconciler ''ns1'' ''a1'' [] [new_artifact]"
    by (rule created) (simp_all add: art new_artifact_facts)
  obtain p where e1: "exec (osReconcile sample_reconciler ''ns1'' ''a1'')
    ((GetArtifact ''ns1'' ''a1'', OArtifact (Inr new_artifact)) # (GetNamespace ''ns1'', ONamespace (Inr None)) #
     (ListPodsByLabel None (artifactSelector new_artifact), OPods (Inr [])) # build_trace p) (Inr ())" (is "exec _ ?t1 _")
    by (rule sample_reconcile)
  have h1: "os_history sample_reconciler ''ns1'' ''a1'' ([] @ ?t1) ([?b] @ [new_artifact])"
    by (rule reconciled [OF h0 e1]) (auto simp: art build_trace_def renderedWrite_def Let_def)
  have "buildPhase ?b" by (simp add: buildPhase_def building_artifact_facts)
  then have e2: "exec (osReconcile sample_reconciler ''ns1'' ''a1'') ?tr (Inr ())"
    by (intro reconcile_live build_decided) (simp_all add: building_artifact_facts new_artifact_facts builder_pod_in_def)
  have h2: "os_history sample_reconciler ''ns1'' ''a1'' (([] @ ?t1) @ ?tr) ([setPhase Exporting ?b] @ ([?b] @ [new_artifact]))"
    by (rule reconciled [OF h1 e2]) (auto simp: art)
  have "phaseExplained ''a1'' (([] @ ?t1) @ ?tr) ([setPhase Exporting ?b] @ ([?b] @ [new_artifact])) Exporting"
    using phase_tells_history [OF h2, of "setPhase Exporting ?b"] by simp
  then have "builderSeen (([] @ ?t1) @ ?tr) ''a1'' PodSucceeded" by (simp add: phaseExplained_def artifact_phases)
  with h2 show ?thesis by (intro exI conjI) auto
qed

end
