(* ===== verification/Progress.thy ===== *)
theory Progress
  imports Effects
begin

text \<open>
  What a program does for certain when every answer it gets is a good one: \<open>always ok m Q\<close> says that
  every execution whose answers satisfy \<open>ok\<close> ends in \<open>Q\<close>. The rules follow the constructors of
  programs, so a handler is walked through the way it is written.
\<close>

definition faultless :: "('q \<Rightarrow> 'r \<Rightarrow> bool) \<Rightarrow> ('q \<times> 'r) list \<Rightarrow> bool" where
  "faultless ok tr \<longleftrightarrow> (\<forall>(q, r) \<in> set tr. ok q r)"

lemma faultless_simps [simp]:
  "faultless ok []" "faultless ok ((q, r) # tr) \<longleftrightarrow> ok q r \<and> faultless ok tr"
  "faultless ok (s @ t) \<longleftrightarrow> faultless ok s \<and> faultless ok t"
  by (auto simp: faultless_def)

definition always :: "('q \<Rightarrow> 'r \<Rightarrow> bool) \<Rightarrow> ('q, 'r, 'a) prog \<Rightarrow> (('q \<times> 'r) list \<Rightarrow> 'a \<Rightarrow> bool) \<Rightarrow> bool" where
  "always ok m Q \<longleftrightarrow> (\<forall>tr a. exec m tr a \<longrightarrow> faultless ok tr \<longrightarrow> Q tr a)"

lemma alwaysD: "always ok m Q \<Longrightarrow> exec m tr a \<Longrightarrow> faultless ok tr \<Longrightarrow> Q tr a"
  by (simp add: always_def)

lemma always_mono: "always ok m P \<Longrightarrow> (\<And>t a. P t a \<Longrightarrow> Q t a) \<Longrightarrow> always ok m Q"
  by (auto simp: always_def)

lemma always_Ret [simp]: "always ok (Ret a) Q \<longleftrightarrow> Q [] a"
  by (simp add: always_def)

lemma always_True [simp]: "always ok m (\<lambda>t a. True)"
  by (simp add: always_def)

lemma always_Call: "always ok (Call q k) Q \<longleftrightarrow> (\<forall>r. ok q r \<longrightarrow> always ok (k r) (\<lambda>t. Q ((q, r) # t)))"
  by (auto simp: always_def exec_Call_iff)

lemma always_bind:
  "always ok m P \<Longrightarrow> (\<And>t a. P t a \<Longrightarrow> always ok (f a) (\<lambda>t2. Q (t @ t2))) \<Longrightarrow> always ok (bind m f) Q"
  by (fastforce simp: always_def exec_bind)

text \<open>A step that succeeds, and what comes after it.\<close>

lemma always_attempt:
  assumes "always ok m (\<lambda>t x. \<exists>y. x = Inr y \<and> P t y)"
    and "\<And>t y. P t y \<Longrightarrow> always ok (f y) (\<lambda>t2. Q (t @ t2))"
  shows "always ok (attempt m f) Q"
  unfolding attempt_def by (rule always_bind [OF assms(1)]) (auto intro: assms(2))

lemma always_forEach:
  "(\<And>x. x \<in> set xs \<Longrightarrow> always ok (f x) (\<lambda>t r. r = Inr ())) \<Longrightarrow> always ok (forEach f xs) (\<lambda>t r. r = Inr ())"
  by (induction xs) (auto intro!: always_attempt [where P = "\<lambda>t y. True"])

text \<open>
  Loops that thread a state: an invariant of the elements visited, the trace and the state, which a
  successful iteration extends to one more element.
\<close>

lemma always_forEachS:
  assumes "\<And>x s t D. x \<in> set xs \<Longrightarrow> x \<notin> D \<Longrightarrow> I D t s \<Longrightarrow>
      always ok (f x s) (\<lambda>t' y. snd y = Inr () \<and> I (insert x D) (t @ t') (fst y))"
    and "distinct xs" and "D \<inter> set xs = {}" and "I D t s"
  shows "always ok (forEachS f xs s) (\<lambda>t' y. snd y = Inr () \<and> I (D \<union> set xs) (t @ t') (fst y))"
  using assms
proof (induction xs arbitrary: D t s)
  case Nil
  then show ?case by simp
next
  case (Cons x xs)
  have body: "always ok (f x s) (\<lambda>t' y. snd y = Inr () \<and> I (insert x D) (t @ t') (fst y))" using Cons.prems by auto
  have rest: "always ok (forEachS f xs s') (\<lambda>t2 y. snd y = Inr () \<and> I (D \<union> set (x # xs)) (t @ t' @ t2) (fst y))"
    if "I (insert x D) (t @ t') s'" for t' s'
    using Cons.IH [of "insert x D" "t @ t'" s'] Cons.prems that by simp
  show ?case
    unfolding forEachS.simps attemptS_def
    by (rule always_bind [OF body]) (use rest in \<open>auto simp: case_prod_beta\<close>)
qed

section \<open>Reliable servers\<close>

text \<open>A server that has a good answer to every request, so that the executions above exist.\<close>

locale reliable =
  fixes ok :: "'q \<Rightarrow> 'r \<Rightarrow> bool"
  assumes answers: "\<exists>r. ok q r"
begin

lemma faultless_exec: "\<exists>tr a. exec m tr a \<and> faultless ok tr"
proof (induction m)
  case (Ret a)
  then show ?case by (intro exI [of _ "[]"] exI [of _ a]) simp
next
  case (Call q k)
  obtain r where "ok q r" using answers by blast
  moreover from Call obtain tr a where "exec (k r) tr a" "faultless ok tr" by blast
  ultimately show ?case by (intro exI [of _ "(q, r) # tr"] exI [of _ a]) (simp add: exec_Call_iff)
qed

lemma reached: "always ok m Q \<Longrightarrow> \<exists>tr a. exec m tr a \<and> faultless ok tr \<and> Q tr a"
  using faultless_exec [of m] by (auto simp: always_def)

end

end
