(* ===== verification/OSArtifactProgress.thy ===== *)
theory OSArtifactProgress
  imports OSArtifactFlow Progress
begin

text \<open>
  Builds get going: against a cluster that accepts what it is asked for, one reconcile of a new
  artifact creates its builder Pod and moves it to Building.
\<close>

section \<open>A cluster that accepts everything\<close>

text \<open>
  It knows the Secrets of its users, but nothing yet of this artifact: no builder Pod, and no Secret
  with the name of the rendered definition (\<open>absent\<close>).
\<close>

fun freshCluster :: "(string \<Rightarrow> secret) \<Rightarrow> string \<Rightarrow> os_req \<Rightarrow> os_resp \<Rightarrow> bool" where
  "freshCluster secrets absent (GetArtifact namespace nm) u \<longleftrightarrow> (\<exists>b. u = OArtifact (Inr b))"
| "freshCluster secrets absent (UpdateArtifact b) u \<longleftrightarrow> (\<exists>v. u = OVersion (Inr v))"
| "freshCluster secrets absent (UpdateArtifactStatus b) u \<longleftrightarrow> (\<exists>v. u = OVersion (Inr v))"
| "freshCluster secrets absent (GetNamespace n) u \<longleftrightarrow> u = ONamespace (Inr None)"
| "freshCluster secrets absent (ListPodsByLabel n l) u \<longleftrightarrow> u = OPods (Inr [])"
| "freshCluster secrets absent (ListJobsByLabel n l) u \<longleftrightarrow> u = OJobs (Inr [])"
| "freshCluster secrets absent (ListPVCs n l) u \<longleftrightarrow> u = OPVCs (Inr [])"
| "freshCluster secrets absent (GetSecret n s) u \<longleftrightarrow> u = OSecret
     (if s = absent then Inl (ApiError NotFound ''secret'') else Inr (secrets s))"
| "freshCluster secrets absent (GetPVC n s) u \<longleftrightarrow> (\<exists>c. u = OPVC (Inr c))"
| "freshCluster secrets absent (CreateOrUpdateSecret n s l d m) u \<longleftrightarrow> u = OUnit (Inr ())"
| "freshCluster secrets absent (CreateConfigMap c) u \<longleftrightarrow> u = OUnit (Inr ())"
| "freshCluster secrets absent (CreatePVC c) u \<longleftrightarrow> u = OUnit (Inr ())"
| "freshCluster secrets absent (CreateBuilderPod p) u \<longleftrightarrow> u = OUnit (Inr ())"
| "freshCluster secrets absent (CreateExportJob j) u \<longleftrightarrow> u = OUnit (Inr ())"

interpretation fresh: reliable "freshCluster secrets absent" for secrets absent
proof
  show "\<exists>u. freshCluster secrets absent q u" for q
    by (cases q) auto
qed

section \<open>The steps of the build\<close>

lemma always_oask: "(\<And>u. ok q u \<Longrightarrow> Q [(q, u)] (dec u)) \<Longrightarrow> always ok (oask q dec) Q"
  by (simp add: oask_def always_Call)

lemma always_update: "always (freshCluster s n) (artifactStatusUpdate w) (\<lambda>t x. x = Inr () \<and> (\<exists>u. (UpdateArtifactStatus w, u) \<in> set t))"
  unfolding artifactStatusUpdate_def by (rule always_oask) auto

lemma always_finalizer: "always (freshCluster s n) (ensureFinalizer a) (\<lambda>t x. \<exists>a'. x = Inr a' \<and> sameArtifact a a')"
  by (auto simp: ensureFinalizer_def Let_def sameArtifact_update intro!: always_oask)

lemma always_written: "always (freshCluster s (renderedSecretName a)) (writeRenderedSecret (withRenderedSpec a) d) (\<lambda>t x. x = Inr ())"
proof -
  have "always (freshCluster s (renderedSecretName a)) (checkSecretOwnership (renderedSecretName a) n b) (\<lambda>t x. \<exists>y. x = Inr y \<and> True)" for n b
    unfolding checkSecretOwnership_def
    by (rule always_bind [where P = "\<lambda>t g. g = Inl (ApiError NotFound ''secret'')"])
      (auto intro!: always_oask simp: IsNotFound_def)
  then show ?thesis
    unfolding writeRenderedSecret_def Let_def rendered_same
    by (rule always_attempt) (auto intro!: always_oask simp: wrapped_def)
qed

lemma always_resolved:
  assumes "imgRef (imageOf a) \<noteq> [] \<or> always (freshCluster s (renderedSecretName a)) (fetchAndRenderUserOCISpec r a) (\<lambda>t x. \<exists>m. x = Inr m)"
  shows "always (freshCluster s (renderedSecretName a)) (resolveFinalOCISpec r a) (\<lambda>t x. snd x = Inr () \<and> (fst x = a \<or> fst x = withRenderedSpec a))"
proof (cases "imgRef (imageOf a) = []")
  case False
  then show ?thesis by (simp add: resolveFinalOCISpec_def)
next
  case True
  with assms have "always (freshCluster s (renderedSecretName a)) (fetchAndRenderUserOCISpec r a) (\<lambda>t x. \<exists>m. x = Inr m)" by simp
  then show ?thesis
    unfolding resolveFinalOCISpec_def using True
    by (auto intro!: always_bind [where Q = "\<lambda>t x. snd x = Inr () \<and> (fst x = a \<or> fst x = withRenderedSpec a)"]
        always_bind [OF always_written] simp: Let_def)
qed

lemma always_configMap: "always (freshCluster s n) (CreateConfigMapFor b) (\<lambda>t x. \<exists>y. x = Inr y \<and> True)"
  unfolding CreateConfigMapFor_def Let_def
  by (rule always_bind [where P = "\<lambda>t g. g = Inr ()"]) (auto intro!: always_oask)

lemma always_claim:
  "always (freshCluster s n) (claimFor b) (\<lambda>t x. \<exists>y. x = Inr y \<and> (artField artVolume b = [] \<longrightarrow> y \<noteq> None))"
proof -
  have "always (freshCluster s n) (createPVC b) (\<lambda>t x. \<exists>y. x = Inr y \<and> True)"
    unfolding createPVC_def Let_def
    by (rule always_bind [where P = "\<lambda>t g. g = Inr ()"]) (auto intro!: always_oask)
  then show ?thesis
    unfolding claimFor_def by (auto intro!: always_attempt)
qed

lemma newBuilderPod_defined: "artField artVolume a = [] \<longrightarrow> pvcName \<noteq> None \<Longrightarrow> \<exists>p. newBuilderPod cfg a pvcName = Some p"
  by (auto simp: newBuilderPod_def builderVolumes_def builderPodBaseVolumes_def artifactsVolume_def)

lemma always_builderPod:
  "artField artVolume b = [] \<longrightarrow> pvcName \<noteq> None \<Longrightarrow> always (freshCluster s n) (createBuilderPod r b pvcName)
     (\<lambda>t x. \<exists>y. x = Inr y \<and> (\<exists>p. (CreateBuilderPod p, OUnit (Inr ())) \<in> set t))"
  using newBuilderPod_defined [of b pvcName "builder_config.truncate r"]
  by (auto simp: createBuilderPod_def intro!: always_oask)

text \<open>The Pod is created and the status saved.\<close>

definition buildStarted :: "os_trace \<Rightarrow> bool" where
  "buildStarted t \<longleftrightarrow> (\<exists>p. (CreateBuilderPod p, OUnit (Inr ())) \<in> set t) \<and>
     (\<exists>w u. (UpdateArtifactStatus w, u) \<in> set t \<and> phaseOf w = Building)"

lemma buildStarted_append [intro]: "buildStarted t \<Longrightarrow> buildStarted (s @ t)"
  unfolding buildStarted_def by auto

lemma buildStarted_Pod [intro]:
  "(CreateBuilderPod p, OUnit (Inr ())) \<in> set s \<Longrightarrow> (UpdateArtifactStatus w, u) \<in> set t \<Longrightarrow> phaseOf w = Building \<Longrightarrow>
     buildStarted (s @ t)"
  unfolding buildStarted_def by auto

text \<open>The user's definition renders: it is there, under its key, parses and executes.\<close>

definition renders :: "'t reconciler \<Rightarrow> (string \<Rightarrow> secret) \<Rightarrow> os_artifact \<Rightarrow> bool" where
  "renders r s a \<longleftrightarrow> imgRef (imageOf a) \<noteq> [] \<or>
     always (freshCluster s (renderedSecretName a)) (fetchAndRenderUserOCISpec r a) (\<lambda>t x. \<exists>m. x = Inr m)"

lemma always_startBuild:
  assumes "Validate (osSpec a) = Inr ()" and "renders r s a"
  shows "always (freshCluster s (renderedSecretName a)) (startBuild r a) (\<lambda>t x. x = Inr () \<and> buildStarted t)"
proof -
  let ?ok = "freshCluster s (renderedSecretName a)"
  have fin: "always ?ok (attempt (oask (GetArtifact n m) oArtifact) (\<lambda>fresh. artifactStatusUpdate (setPhase Building fresh)))
      (\<lambda>t x. x = Inr () \<and> (\<exists>w u. (UpdateArtifactStatus w, u) \<in> set t \<and> phaseOf w = Building))" for n m
    by (rule always_attempt [where P = "\<lambda>t y. True"])
      (auto intro!: always_oask always_mono [OF always_update])
  have pod: "always ?ok (attempt (createBuilderPod r b p) (\<lambda>_. attempt (oask (GetArtifact n m) oArtifact) (\<lambda>fresh.
        artifactStatusUpdate (setPhase Building fresh)))) (\<lambda>t x. x = Inr () \<and> buildStarted t)"
    if "artField artVolume b = [] \<longrightarrow> p \<noteq> None" for b p n m
    by (rule always_attempt [OF always_builderPod [OF that]])
      (rule always_mono [OF fin], auto)
  have claim: "always ?ok (attempt (claimFor b) (\<lambda>p. attempt (createBuilderPod r b p) (\<lambda>_.
        attempt (oask (GetArtifact n m) oArtifact) (\<lambda>fresh. artifactStatusUpdate (setPhase Building fresh)))))
      (\<lambda>t x. x = Inr () \<and> buildStarted t)" for b n m
    by (rule always_attempt [OF always_claim])
      (rule always_mono [OF pod], auto)
  have rest: "always ?ok (attempt (CreateConfigMapFor b) (\<lambda>_. attempt (claimFor b) (\<lambda>p. attempt (createBuilderPod r b p) (\<lambda>_.
        attempt (oask (GetArtifact n m) oArtifact) (\<lambda>fresh. artifactStatusUpdate (setPhase Building fresh))))))
      (\<lambda>t x. x = Inr () \<and> buildStarted t)" for b n m
    by (rule always_attempt [OF always_configMap])
      (rule always_mono [OF claim], auto)
  show ?thesis
    unfolding startBuild_def assms(1) sum.case
    by (rule always_bind [OF always_resolved [OF assms(2) [unfolded renders_def]]])
      (auto intro!: always_mono [OF rest] )
qed

section \<open>A reconcile\<close>

lemma sameArtifact_renders: "sameArtifact a a' \<Longrightarrow> renders r s a \<Longrightarrow> renders r s a'"
  by (simp add: renders_def sameArtifact_def renderedSecretName_def fetchAndRenderUserOCISpec_def templateSecretValues_def
      cong: option.case_cong)

text \<open>What is left of a reconcile once the artifact was read.\<close>

definition afterRead :: "'t reconciler \<Rightarrow> string \<Rightarrow> string \<Rightarrow> os_artifact \<Rightarrow> unit res oprog" where
  "afterRead r namespace nm a = bind (oask (GetNamespace (Namespace (osMeta a))) oNamespace) (\<lambda>ns. case ns of
       Inl e \<Rightarrow> Ret (if IsNotFound e then Inr () else Inl e)
     | Inr terminating \<Rightarrow>
         if terminating \<noteq> None then Ret (Inr ())
         else attempt (ensureFinalizer a) (\<lambda>artifact'.
           let phase = osPhase (osStatus artifact') in
           if phase = Exporting then checkExport artifact'
           else if phase = Ready \<or> phase = Error then Ret (Inr ())
           else checkBuild r artifact'))"

lemma exec_afterRead:
  assumes "DeletionTimestamp (osMeta a) = None"
  shows "exec (osReconcile r namespace nm) ((GetArtifact namespace nm, OArtifact (Inr a)) # t) res \<longleftrightarrow>
    exec (afterRead r namespace nm a) t res"
proof -
  have ne: "(DeletionTimestamp (osMeta a) \<noteq> None) = False" using assms by simp
  show ?thesis
    unfolding osReconcile_def afterRead_def exec_oask_bind [of "GetArtifact namespace nm"]
    by (simp only: list.inject prod.inject simp_thms conj_assoc os_values sum.case ne if_False ex_simps)
qed

lemma always_checkBuild:
  assumes "Validate (osSpec a) = Inr ()" and "renders r s a"
  shows "always (freshCluster s (renderedSecretName a)) (checkBuild r a) (\<lambda>t x. x = Inr () \<and> buildStarted t)"
  unfolding checkBuild_def
  by (rule always_attempt [where P = "\<lambda>t y. y = []"])
    (auto intro!: always_oask always_mono [OF always_startBuild [OF assms]] )

lemma always_reconcile:
  assumes "buildPhase a" and "Validate (osSpec a) = Inr ()" and "renders r s a"
  shows "always (freshCluster s (renderedSecretName a)) (afterRead r namespace nm a) (\<lambda>t x. x = Inr () \<and> buildStarted t)"
proof -
  let ?ok = "freshCluster s (renderedSecretName a)"
  have "always ?ok (let phase = osPhase (osStatus a') in
           if phase = Exporting then checkExport a'
           else if phase = Ready \<or> phase = Error then Ret (Inr ()) else checkBuild r a')
         (\<lambda>t x. x = Inr () \<and> buildStarted t)" if "sameArtifact a a'" for a'
  proof -
    from that assms(1) have p: "osPhase (osStatus a') \<noteq> Exporting" "osPhase (osStatus a') \<noteq> Ready" "osPhase (osStatus a') \<noteq> Error"
      by (simp_all add: sameArtifact_def buildPhase_def phaseOf_def)
    from that have n: "renderedSecretName a = renderedSecretName a'" "osSpec a' = osSpec a"
      by (simp_all add: sameArtifact_def renderedSecretName_def)
    from p assms(2) always_checkBuild [of a' r s] sameArtifact_renders [OF that assms(3)] show ?thesis
      by (simp add: n Let_def)
  qed
  then have fin: "always ?ok (attempt (ensureFinalizer a) (\<lambda>artifact'.
           let phase = osPhase (osStatus artifact') in
           if phase = Exporting then checkExport artifact'
           else if phase = Ready \<or> phase = Error then Ret (Inr ()) else checkBuild r artifact'))
         (\<lambda>t x. x = Inr () \<and> buildStarted t)"
    by (intro always_attempt [where P = "\<lambda>t a'. sameArtifact a a'"] always_finalizer) (rule always_mono, blast, auto)
  show ?thesis
    unfolding afterRead_def
    by (rule always_bind [where P = "\<lambda>t g. g = Inr None"])
      (auto intro!: always_oask always_mono [OF fin] )
qed

text \<open>
  C16. One reconcile of a valid artifact that is not being built yet, with a definition that renders,
  creates its builder Pod and saves the phase Building, whenever the cluster accepts every request;
  and against such a cluster the reconcile does run to its end.
\<close>

theorem builds_start:
  assumes "DeletionTimestamp (osMeta a) = None" and "buildPhase a" and "Validate (osSpec a) = Inr ()" and "renders r s a"
  shows "(\<exists>tr res. exec (osReconcile r namespace nm) ((GetArtifact namespace nm, OArtifact (Inr a)) # tr) res \<and>
      faultless (freshCluster s (renderedSecretName a)) tr) \<and>
    (\<forall>tr res. exec (osReconcile r namespace nm) ((GetArtifact namespace nm, OArtifact (Inr a)) # tr) res \<longrightarrow>
      faultless (freshCluster s (renderedSecretName a)) tr \<longrightarrow> res = Inr () \<and>
      (\<exists>p. (CreateBuilderPod p, OUnit (Inr ())) \<in> set tr) \<and>
      (\<exists>w u. (UpdateArtifactStatus w, u) \<in> set tr \<and> phaseOf w = Building))"
  using fresh.faultless_exec [of "afterRead r namespace nm a" s "renderedSecretName a"]
    alwaysD [OF always_reconcile [OF assms(2-4)]]
  unfolding exec_afterRead [OF assms(1)] buildStarted_def by blast

theorem builds_start_witness:
  "\<exists>tr res p. exec (osReconcile sample_reconciler ''ns1'' ''a1'') ((GetArtifact ''ns1'' ''a1'', OArtifact (Inr new_artifact)) # tr) res \<and>
     res = Inr () \<and> (CreateBuilderPod p, OUnit (Inr ())) \<in> set tr"
proof -
  have "renders sample_reconciler s new_artifact" for s
    by (simp add: renders_def fetchAndRenderUserOCISpec_def new_artifact_facts)
  moreover have "buildPhase new_artifact" by (simp add: buildPhase_def new_artifact_facts artifact_phases)
  ultimately show ?thesis
    using builds_start [OF new_artifact_facts(3) _ new_artifact_valid, of sample_reconciler undefined "''ns1''" "''a1''"] by blast
qed

end
