(* ===== verification/NodeOpTypes.thy ===== *)
theory NodeOpTypes
  imports KubeObjects
begin

text \<open>
  The v1alpha1 API types: NodeOp and NodeOpUpgrade (api/v1alpha1/nodeop_types.go,
  nodeopupgrade_types.go), their resource defaults, and the defaults of the boolean fields
  (internal/controller/defaults.go). A nil pointer field is \<open>None\<close>; \<open>Concurrency\<close> keeps its
  32 bits, since the scheduler computes with it.
\<close>

section \<open>NodeOp\<close>

record label_requirement =
  reqKey :: string
  reqOperator :: string
  reqValues :: "string list"

record label_selector =
  MatchLabels :: strmap
  MatchExpressions :: "label_requirement list"

record preflight_spec =
  pfCommand :: "string list"
  pfImage :: string
  pfActiveDeadlineSeconds :: "int option"

record drain_options =
  drEnabled :: "bool option"
  drForce :: "bool option"
  drGracePeriodSeconds :: "int option"
  drIgnoreDaemonSets :: "bool option"
  drDeleteEmptyDirData :: "bool option"
  drTimeoutSeconds :: "int option"

record node_op_spec =
  opNodeSelector :: "label_selector option"
  opCommand :: "string list"
  opHostMountPath :: string
  opImage :: string
  opImagePullSecrets :: "string list"
  opCordon :: "bool option"
  opUncordonOnFailure :: "bool option"
  opDrainOptions :: "drain_options option"
  opRebootOnSuccess :: "bool option"
  opBackoffLimit :: "int option"
  opConcurrency :: "32 word"
  opStopOnFailure :: "bool option"
  opPreflight :: "preflight_spec option"
  opResources :: "resource_requirements option"
  opPreflightResources :: "resource_requirements option"
  opRebootResources :: "resource_requirements option"

record node_status =
  nsPhase :: string
  nsJobName :: string
  nsMessage :: string
  nsRebootStatus :: string
  nsPreRebootBootID :: string
  nsLastUpdated :: time

record node_op_status =
  stPhase :: string
  NodeStatuses :: "(string \<times> node_status) list"
  stLastUpdated :: time

record node_op =
  opMeta :: object_meta
  opSpec :: node_op_spec
  opStatus :: node_op_status

section \<open>NodeOpUpgrade\<close>

record node_op_upgrade_spec =
  upNodeSelector :: "label_selector option"
  upImage :: string
  upImagePullSecrets :: "string list"
  upConcurrency :: "32 word"
  upStopOnFailure :: "bool option"
  upUpgradeRecovery :: "bool option"
  upUpgradeActive :: "bool option"
  upForce :: "bool option"
  upDebug :: "bool option"
  upUncordonOnFailure :: "bool option"
  upExcludePaths :: "string list"
  upResources :: "resource_requirements option"
  upPreflightResources :: "resource_requirements option"
  upRebootResources :: "resource_requirements option"

record node_op_upgrade_status =
  usPhase :: string
  usNodeOpName :: string
  usNodeStatuses :: "(string \<times> node_status) list"
  usMessage :: string
  usLastUpdated :: time

record node_op_upgrade =
  upMeta :: object_meta
  upSpec :: node_op_upgrade_spec
  upStatus :: node_op_upgrade_status

section \<open>Defaults\<close>

definition RebootOnSuccessDefault :: bool where "RebootOnSuccessDefault = False"
definition CordonDefault :: bool where "CordonDefault = False"
definition UncordonOnFailureDefault :: bool where "UncordonOnFailureDefault = False"
definition StopOnFailureDefault :: bool where "StopOnFailureDefault = False"
definition DrainEnabledDefault :: bool where "DrainEnabledDefault = False"
definition DrainForceDefault :: bool where "DrainForceDefault = False"
definition DrainIgnoreDaemonSetsDefault :: bool where "DrainIgnoreDaemonSetsDefault = True"
definition UpgradeActiveDefault :: bool where "UpgradeActiveDefault = True"
definition UpgradeRecoveryDefault :: bool where "UpgradeRecoveryDefault = False"
definition UpgradeForceDefault :: bool where "UpgradeForceDefault = False"
definition UpgradeDebugDefault :: bool where "UpgradeDebugDefault = False"

definition defaultHostMountPath :: string where
  "defaultHostMountPath = ''/host''"

definition upgradeAlwaysExcludePaths :: "string list" where
  "upgradeAlwaysExcludePaths = [''/etc/hostname'', ''/etc/hosts'']"

definition getBool :: "bool option \<Rightarrow> bool \<Rightarrow> bool" where
  "getBool p d = (case p of None \<Rightarrow> d | Some b \<Rightarrow> b)"

definition asBool :: "bool \<Rightarrow> bool option" where
  "asBool b = Some b"

lemma getBool_simps [simp]: "getBool None d = d" "getBool (Some b) d = b" "getBool (asBool b) d = b"
  by (simp_all add: getBool_def asBool_def)

text \<open>The flags of a NodeOp, with their defaults, as the handlers read them.\<close>

abbreviation cordonRequested :: "node_op \<Rightarrow> bool" where
  "cordonRequested op \<equiv> getBool (opCordon (opSpec op)) CordonDefault"

abbreviation rebootRequested :: "node_op \<Rightarrow> bool" where
  "rebootRequested op \<equiv> getBool (opRebootOnSuccess (opSpec op)) RebootOnSuccessDefault"

abbreviation stopOnFailure :: "node_op \<Rightarrow> bool" where
  "stopOnFailure op \<equiv> getBool (opStopOnFailure (opSpec op)) StopOnFailureDefault"

abbreviation statuses :: "node_op \<Rightarrow> (string \<times> node_status) list" where
  "statuses op \<equiv> NodeStatuses (opStatus op)"

section \<open>Resources\<close>

definition defaultPodResources :: strmap where
  "defaultPodResources = [(''cpu'', ''200m''), (''memory'', ''128Mi'')]"

definition setPodResources :: "resource_requirements option \<Rightarrow> resource_requirements" where
  "setPodResources res =
     (case res of
        None \<Rightarrow> \<lparr>Requests = defaultPodResources, Limits = defaultPodResources\<rparr>
      | Some r \<Rightarrow> r)"

definition ResourcesOrDefault :: "node_op \<Rightarrow> resource_requirements" where
  "ResourcesOrDefault n = (case opResources (opSpec n) of Some r \<Rightarrow> r | None \<Rightarrow> no_resources)"

definition PreflightResourcesOrDefault :: "node_op \<Rightarrow> resource_requirements" where
  "PreflightResourcesOrDefault n = setPodResources (opPreflightResources (opSpec n))"

definition RebootResourcesOrDefault :: "node_op \<Rightarrow> resource_requirements" where
  "RebootResourcesOrDefault n = setPodResources (opRebootResources (opSpec n))"

section \<open>Updating one object\<close>

text \<open>\<open>nodeOp.Status.NodeStatuses[n] = st\<close>, its deletion, and the new resource version an update returns.\<close>

definition setStatus :: "string \<Rightarrow> node_status \<Rightarrow> node_op \<Rightarrow> node_op" where
  "setStatus n st op = op\<lparr>opStatus := (opStatus op)\<lparr>NodeStatuses := put n st (statuses op)\<rparr>\<rparr>"

definition dropStatus :: "string \<Rightarrow> node_op \<Rightarrow> node_op" where
  "dropStatus n op = op\<lparr>opStatus := (opStatus op)\<lparr>NodeStatuses := AList.delete n (statuses op)\<rparr>\<rparr>"

definition setVersion :: "string \<Rightarrow> node_op \<Rightarrow> node_op" where
  "setVersion v op = op\<lparr>opMeta := (opMeta op)\<lparr>ResourceVersion := v\<rparr>\<rparr>"

lemma setStatus_fields [simp]:
  "opMeta (setStatus n st op) = opMeta op" "opSpec (setStatus n st op) = opSpec op"
  "statuses (setStatus n st op) = put n st (statuses op)"
  by (simp_all add: setStatus_def)

lemma dropStatus_fields [simp]:
  "opMeta (dropStatus n op) = opMeta op" "opSpec (dropStatus n op) = opSpec op"
  "statuses (dropStatus n op) = AList.delete n (statuses op)"
  by (simp_all add: dropStatus_def)

lemma setVersion_fields [simp]:
  "opSpec (setVersion v op) = opSpec op" "opStatus (setVersion v op) = opStatus op"
  "Name (opMeta (setVersion v op)) = Name (opMeta op)"
  "Namespace (opMeta (setVersion v op)) = Namespace (opMeta op)"
  "UID (opMeta (setVersion v op)) = UID (opMeta op)"
  "DeletionTimestamp (opMeta (setVersion v op)) = DeletionTimestamp (opMeta op)"
  by (simp_all add: setVersion_def)

text \<open>Two NodeOps that differ only in status and resource version: what the handlers keep.\<close>

definition same_op :: "node_op \<Rightarrow> node_op \<Rightarrow> bool" where
  "same_op a b \<longleftrightarrow> opSpec a = opSpec b \<and> Name (opMeta a) = Name (opMeta b) \<and>
     Namespace (opMeta a) = Namespace (opMeta b) \<and> UID (opMeta a) = UID (opMeta b)"

lemma same_op_refl [simp, intro]: "same_op a a"
  by (simp add: same_op_def)

lemma same_op_trans: "same_op a b \<Longrightarrow> same_op b c \<Longrightarrow> same_op a c"
  by (simp add: same_op_def)

lemma same_op_updates [simp]:
  "same_op a (setStatus n st b) \<longleftrightarrow> same_op a b" "same_op a (dropStatus n b) \<longleftrightarrow> same_op a b"
  "same_op a (setVersion v b) \<longleftrightarrow> same_op a b" "same_op a (b\<lparr>opStatus := s\<rparr>) \<longleftrightarrow> same_op a b"
  "same_op (setStatus n st a) b \<longleftrightarrow> same_op a b" "same_op (dropStatus n a) b \<longleftrightarrow> same_op a b"
  "same_op (setVersion v a) b \<longleftrightarrow> same_op a b" "same_op (a\<lparr>opStatus := s\<rparr>) b \<longleftrightarrow> same_op a b"
  by (simp_all add: same_op_def)

end
