(* ===== verification/NodeOpEnv.thy ===== *)
theory NodeOpEnv
  imports NodeOpTypes Effects
begin

text \<open>
  The requests the NodeOp and NodeOpUpgrade controllers make of their surroundings: the
  Kubernetes API (through the cached client or, where the code uses \<open>apiReader()\<close>, directly),
  the clock, environment variables, random suffixes and Go's unspecified map order. A response
  of the wrong kind is a decoding error, so the responses are not constrained further.
\<close>

section \<open>Requests and responses\<close>

datatype reader = Cache | Live

datatype node_req =
    GetNodeOp string string
  | UpdateNodeOp node_op
  | UpdateNodeOpStatus node_op
  | CreateNodeOp node_op
  | GetNodeOpUpgrade string string
  | UpdateNodeOpUpgradeStatus node_op_upgrade
  | ListNodes
  | GetNode string
  | UpdateNode node
  | ListPods reader "string option" strmap
  | CreatePod pod
  | DeletePod string string "int option"
  | GetJob reader string string
  | CreateJob job
  | CreateServiceAccount object_meta
  | GetRole reader string string
  | CreateRole role
  | UpdateRole role
  | CreateRoleBinding role_binding
  | DeleteClusterRoleBinding string
  | Now
  | RandString nat
  | Getenv string
  | RangeKeys "string list"

datatype node_resp =
    RUnit "unit res"
  | RVersion "string res"
  | RNodeOp "node_op res"
  | RUpgrade "node_op_upgrade res"
  | RNodes "node list res"
  | RNode "node res"
  | RPods "pod list res"
  | RPod "pod res"
  | RJob "job res"
  | RRole "role res"
  | RTime time
  | RString string
  | RKeys "string list"

type_synonym 'a nprog = "(node_req, node_resp, 'a) prog"
type_synonym trace = "(node_req \<times> node_resp) list"

definition asUnit :: "node_resp \<Rightarrow> unit res" where
  "asUnit r = (case r of RUnit x \<Rightarrow> x | _ \<Rightarrow> Inl decodeError)"
definition asVersion :: "node_resp \<Rightarrow> string res" where
  "asVersion r = (case r of RVersion x \<Rightarrow> x | _ \<Rightarrow> Inl decodeError)"
definition asNodeOp :: "node_resp \<Rightarrow> node_op res" where
  "asNodeOp r = (case r of RNodeOp x \<Rightarrow> x | _ \<Rightarrow> Inl decodeError)"
definition asUpgrade :: "node_resp \<Rightarrow> node_op_upgrade res" where
  "asUpgrade r = (case r of RUpgrade x \<Rightarrow> x | _ \<Rightarrow> Inl decodeError)"
definition asNodes :: "node_resp \<Rightarrow> node list res" where
  "asNodes r = (case r of RNodes x \<Rightarrow> x | _ \<Rightarrow> Inl decodeError)"
definition asNode :: "node_resp \<Rightarrow> node res" where
  "asNode r = (case r of RNode x \<Rightarrow> x | _ \<Rightarrow> Inl decodeError)"
definition asPods :: "node_resp \<Rightarrow> pod list res" where
  "asPods r = (case r of RPods x \<Rightarrow> x | _ \<Rightarrow> Inl decodeError)"
definition asPod :: "node_resp \<Rightarrow> pod res" where
  "asPod r = (case r of RPod x \<Rightarrow> x | _ \<Rightarrow> Inl decodeError)"
definition asJob :: "node_resp \<Rightarrow> job res" where
  "asJob r = (case r of RJob x \<Rightarrow> x | _ \<Rightarrow> Inl decodeError)"
definition asRole :: "node_resp \<Rightarrow> role res" where
  "asRole r = (case r of RRole x \<Rightarrow> x | _ \<Rightarrow> Inl decodeError)"
definition asTime :: "node_resp \<Rightarrow> time" where
  "asTime r = (case r of RTime t \<Rightarrow> t | _ \<Rightarrow> Time 0)"
definition asString :: "node_resp \<Rightarrow> string" where
  "asString r = (case r of RString s \<Rightarrow> s | _ \<Rightarrow> [])"

text \<open>Ranging over a map visits every key once, in an order the response chooses.\<close>

definition asKeys :: "string list \<Rightarrow> node_resp \<Rightarrow> string list" where
  "asKeys ks r = (case r of RKeys xs \<Rightarrow> (if distinct xs \<and> set xs = set ks then xs else ks) | _ \<Rightarrow> ks)"

lemmas decoders = asUnit_def asVersion_def asNodeOp_def asUpgrade_def asNodes_def asNode_def
  asPods_def asPod_def asJob_def asRole_def asTime_def asString_def asKeys_def

lemma decoded [simp]:
  "asUnit r = Inr u \<longleftrightarrow> r = RUnit (Inr u)" "asVersion r = Inr v \<longleftrightarrow> r = RVersion (Inr v)"
  "asNodeOp r = Inr op \<longleftrightarrow> r = RNodeOp (Inr op)" "asUpgrade r = Inr up \<longleftrightarrow> r = RUpgrade (Inr up)"
  "asNodes r = Inr ns \<longleftrightarrow> r = RNodes (Inr ns)" "asNode r = Inr n \<longleftrightarrow> r = RNode (Inr n)"
  "asPods r = Inr ps \<longleftrightarrow> r = RPods (Inr ps)" "asPod r = Inr p \<longleftrightarrow> r = RPod (Inr p)"
  "asJob r = Inr j \<longleftrightarrow> r = RJob (Inr j)" "asRole r = Inr ro \<longleftrightarrow> r = RRole (Inr ro)"
  by (auto simp: decoders split: node_resp.splits)

lemma decoded_sym [simp]:
  "Inr u = asUnit r \<longleftrightarrow> r = RUnit (Inr u)" "Inr v = asVersion r \<longleftrightarrow> r = RVersion (Inr v)"
  "Inr op = asNodeOp r \<longleftrightarrow> r = RNodeOp (Inr op)" "Inr up = asUpgrade r \<longleftrightarrow> r = RUpgrade (Inr up)"
  "Inr ns = asNodes r \<longleftrightarrow> r = RNodes (Inr ns)" "Inr n = asNode r \<longleftrightarrow> r = RNode (Inr n)"
  "Inr ps = asPods r \<longleftrightarrow> r = RPods (Inr ps)" "Inr p = asPod r \<longleftrightarrow> r = RPod (Inr p)"
  "Inr j = asJob r \<longleftrightarrow> r = RJob (Inr j)" "Inr ro = asRole r \<longleftrightarrow> r = RRole (Inr ro)"
  by (simp_all flip: decoded add: eq_commute)

lemma decoded_values [simp]:
  "asUnit (RUnit u) = u" "asVersion (RVersion v) = v" "asNodeOp (RNodeOp op) = op"
  "asUpgrade (RUpgrade up) = up" "asNodes (RNodes ns) = ns" "asNode (RNode n) = n"
  "asPods (RPods ps) = ps" "asPod (RPod p) = p" "asJob (RJob j) = j" "asRole (RRole ro) = ro"
  "asTime (RTime t) = t" "asString (RString s) = s"
  by (simp_all add: asUnit_def asVersion_def asNodeOp_def asUpgrade_def asNodes_def asNode_def
      asPods_def asPod_def asJob_def asRole_def asTime_def asString_def)

lemma asKeys_set [simp]: "set (asKeys ks r) = set ks"
  by (auto simp: asKeys_def split: node_resp.splits)

lemma asKeys_distinct: "distinct ks \<Longrightarrow> distinct (asKeys ks r)"
  by (auto simp: asKeys_def split: node_resp.splits)

section \<open>The client's operations\<close>

definition ask :: "node_req \<Rightarrow> (node_resp \<Rightarrow> 'a) \<Rightarrow> 'a nprog" where
  "ask q dec = Call q (\<lambda>r. Ret (dec r))"

definition getNodeOpObj :: "string \<Rightarrow> string \<Rightarrow> node_op res nprog" where
  "getNodeOpObj ns n = ask (GetNodeOp ns n) asNodeOp"
definition updateNodeOp :: "node_op \<Rightarrow> unit res nprog" where
  "updateNodeOp op = ask (UpdateNodeOp op) asUnit"
definition createNodeOpObj :: "node_op \<Rightarrow> unit res nprog" where
  "createNodeOpObj op = ask (CreateNodeOp op) asUnit"
definition getUpgrade :: "string \<Rightarrow> string \<Rightarrow> node_op_upgrade res nprog" where
  "getUpgrade ns n = ask (GetNodeOpUpgrade ns n) asUpgrade"
definition updateUpgradeStatus :: "node_op_upgrade \<Rightarrow> unit res nprog" where
  "updateUpgradeStatus u = ask (UpdateNodeOpUpgradeStatus u) asUnit"
definition listNodes :: "node list res nprog" where
  "listNodes = ask ListNodes asNodes"
definition getNode :: "string \<Rightarrow> node res nprog" where
  "getNode n = ask (GetNode n) asNode"
definition updateNode :: "node \<Rightarrow> unit res nprog" where
  "updateNode n = ask (UpdateNode n) asUnit"
definition listPods :: "reader \<Rightarrow> string option \<Rightarrow> strmap \<Rightarrow> pod list res nprog" where
  "listPods rd ns sel = ask (ListPods rd ns sel) asPods"
definition createPod :: "pod \<Rightarrow> pod res nprog" where
  "createPod p = ask (CreatePod p) asPod"
definition deletePod :: "pod \<Rightarrow> int option \<Rightarrow> unit res nprog" where
  "deletePod p grace = ask (DeletePod (Namespace (podMeta p)) (Name (podMeta p)) grace) asUnit"
definition getJob :: "reader \<Rightarrow> string \<Rightarrow> string \<Rightarrow> job res nprog" where
  "getJob rd ns n = ask (GetJob rd ns n) asJob"
definition createJob :: "job \<Rightarrow> unit res nprog" where
  "createJob j = ask (CreateJob j) asUnit"
definition createServiceAccount :: "object_meta \<Rightarrow> unit res nprog" where
  "createServiceAccount m = ask (CreateServiceAccount m) asUnit"
definition getRole :: "reader \<Rightarrow> string \<Rightarrow> string \<Rightarrow> role res nprog" where
  "getRole rd ns n = ask (GetRole rd ns n) asRole"
definition createRole :: "role \<Rightarrow> unit res nprog" where
  "createRole r = ask (CreateRole r) asUnit"
definition updateRole :: "role \<Rightarrow> unit res nprog" where
  "updateRole r = ask (UpdateRole r) asUnit"
definition createRoleBinding :: "role_binding \<Rightarrow> unit res nprog" where
  "createRoleBinding b = ask (CreateRoleBinding b) asUnit"
definition deleteClusterRoleBinding :: "string \<Rightarrow> unit res nprog" where
  "deleteClusterRoleBinding n = ask (DeleteClusterRoleBinding n) asUnit"
definition now :: "time nprog" where
  "now = ask Now asTime"
definition randString :: "nat \<Rightarrow> string nprog" where
  "randString n = ask (RandString n) asString"
definition getenv :: "string \<Rightarrow> string nprog" where
  "getenv v = ask (Getenv v) asString"
definition rangeKeys :: "string list \<Rightarrow> string list nprog" where
  "rangeKeys ks = ask (RangeKeys ks) (asKeys ks)"

text \<open>
  \<open>r.Status().Update(ctx, nodeOp)\<close> sends the whole object and, on success, decodes the stored
  object into \<open>nodeOp\<close>: the same object with a new resource version.
\<close>

definition statusUpdate :: "node_op \<Rightarrow> (node_op \<times> unit res) nprog" where
  "statusUpdate op = ask (UpdateNodeOpStatus op)
     (\<lambda>r. case asVersion r of Inl e \<Rightarrow> (op, Inl e) | Inr v \<Rightarrow> (setVersion v op, Inr ()))"

lemmas client_defs = getNodeOpObj_def updateNodeOp_def createNodeOpObj_def getUpgrade_def
  updateUpgradeStatus_def listNodes_def getNode_def updateNode_def listPods_def createPod_def
  deletePod_def getJob_def createJob_def createServiceAccount_def getRole_def createRole_def
  updateRole_def createRoleBinding_def deleteClusterRoleBinding_def now_def randString_def
  getenv_def rangeKeys_def statusUpdate_def

lemma sat_ask [sat_rules]: "sat (ask q dec) P = (\<forall>r. P [(q, r)] (dec r))"
  by (simp add: ask_def sat_Call)

lemma only_ask [simp]: "only A (ask q dec) = A q"
  by (simp add: ask_def)

lemma exec_ask: "exec (ask q dec) tr a \<longleftrightarrow> (\<exists>r. tr = [(q, r)] \<and> dec r = a)"
  by (auto simp: ask_def exec_Call_iff)

lemma exec_ask_bind:
  "exec (bind (ask q dec) f) tr b \<longleftrightarrow> (\<exists>r t. tr = (q, r) # t \<and> exec (f (dec r)) t b)"
  by (auto simp: ask_def exec_Call_iff)

lemma exec_wrapped:
  "exec (case x of Inl e \<Rightarrow> Ret (Inl (f e)) | Inr _ \<Rightarrow> Ret (Inr ())) t (Inr ()) \<longleftrightarrow> t = [] \<and> x = Inr ()"
  for x :: "unit res"
  by (cases x) auto

text \<open>Which requests change the cluster; the others read it, or the process's surroundings.\<close>

fun mutating :: "node_req \<Rightarrow> bool" where
  "mutating (UpdateNodeOp _) = True"
| "mutating (UpdateNodeOpStatus _) = True"
| "mutating (CreateNodeOp _) = True"
| "mutating (UpdateNodeOpUpgradeStatus _) = True"
| "mutating (UpdateNode _) = True"
| "mutating (CreatePod _) = True"
| "mutating (DeletePod _ _ _) = True"
| "mutating (CreateJob _) = True"
| "mutating (CreateServiceAccount _) = True"
| "mutating (CreateRole _) = True"
| "mutating (UpdateRole _) = True"
| "mutating (CreateRoleBinding _) = True"
| "mutating (DeleteClusterRoleBinding _) = True"
| "mutating _ = False"

end
