(* ===== verification/NodeCordon.thy ===== *)
theory NodeCordon
  imports NodeOpEnv
begin

text \<open>
  Cordoning, uncordoning and draining a node (nodeop_controller.go: nodeOpOwnerRef, cordonNode,
  uncordonNode, drainNode). The state is the Node object in the cluster; a cordon is owned by
  the NodeOp named in the node's annotation.
\<close>

section \<open>Constants\<close>

definition cordonedByAnnotation :: string where [kconst]:
  "cordonedByAnnotation = ''operator.kairos.io/cordoned-by''"
definition labelKeyNodeOp :: string where [kconst]: "labelKeyNodeOp = ''kairos.io/nodeop''"
definition labelKeyNode :: string where [kconst]: "labelKeyNode = ''kairos.io/node''"
definition labelKeyReboot :: string where [kconst]: "labelKeyReboot = ''kairos.io/reboot''"
definition labelKeyPreflight :: string where [kconst]: "labelKeyPreflight = ''kairos.io/preflight''"
definition controllerPodNameEnv :: string where [kconst]:
  "controllerPodNameEnv = ''CONTROLLER_POD_NAME''"
definition controllerPodNamespaceEnv :: string where [kconst]:
  "controllerPodNamespaceEnv = ''CONTROLLER_POD_NAMESPACE''"

section \<open>Operations\<close>

definition nodeOpOwnerRef :: "node_op \<Rightarrow> string" where
  "nodeOpOwnerRef op =
     Namespace (opMeta op) @ ''/'' @ Name (opMeta op) @ ''@'' @ UID (opMeta op)"

definition setAnnotations :: "strmap \<Rightarrow> node \<Rightarrow> node" where
  "setAnnotations a n = n\<lparr>nodeMeta := (nodeMeta n)\<lparr>Annotations := a\<rparr>\<rparr>"

definition cordonNode :: "node_op \<Rightarrow> string \<Rightarrow> unit res nprog" where
  "cordonNode op nodeName =
     attempt (getNode nodeName) (\<lambda>latest.
       if Unschedulable latest then Ret (Inr ())
       else updateNode
         (setAnnotations (put cordonedByAnnotation (nodeOpOwnerRef op) (Annotations (nodeMeta latest)))
           (latest\<lparr>Unschedulable := True\<rparr>)))"

definition uncordonNode :: "node_op \<Rightarrow> string \<Rightarrow> unit res nprog" where
  "uncordonNode op nodeName =
     attempt (getNode nodeName) (\<lambda>latest.
       let ann = Annotations (nodeMeta latest) in
       if \<not> Unschedulable latest then
         (if has_key cordonedByAnnotation ann
          then updateNode (setAnnotations (AList.delete cordonedByAnnotation ann) latest)
          else Ret (Inr ()))
       else case map_of ann cordonedByAnnotation of
              None \<Rightarrow> Ret (Inr ())
            | Some owner \<Rightarrow>
                if owner \<noteq> nodeOpOwnerRef op then Ret (Inr ())
                else updateNode (setAnnotations (AList.delete cordonedByAnnotation ann)
                       (latest\<lparr>Unschedulable := False\<rparr>)))"

text \<open>The \<open>continue\<close> conditions of the drain loop, in their order.\<close>

definition drainSkips :: "string \<Rightarrow> string \<Rightarrow> string \<Rightarrow> drain_options \<Rightarrow> pod \<Rightarrow> bool" where
  "drainSkips nodeName ctrlName ctrlNamespace opts p =
     (if NodeName (podSpec p) \<noteq> nodeName then True
      else if DeletionTimestamp (podMeta p) \<noteq> None then True
      else if ctrlName \<noteq> [] \<and> ctrlNamespace \<noteq> [] \<and>
              Name (podMeta p) = ctrlName \<and> Namespace (podMeta p) = ctrlNamespace then True
      else if has_key labelKeyReboot (Labels (podMeta p)) then True
      else if getBool (drIgnoreDaemonSets opts) DrainIgnoreDaemonSetsDefault \<and>
              list_ex (\<lambda>r. orKind r = ''DaemonSet'') (OwnerReferences (podMeta p)) then True
      else if \<not> getBool (drForce opts) DrainForceDefault \<and>
              \<not> list_ex (\<lambda>r. orController r = Some True) (OwnerReferences (podMeta p)) then True
      else False)"

definition drainGrace :: "drain_options \<Rightarrow> int option" where
  "drainGrace opts =
     (case drGracePeriodSeconds opts of
        Some g \<Rightarrow> if 0 \<le> g then Some g else None
      | None \<Rightarrow> None)"

definition drainNode :: "string \<Rightarrow> drain_options \<Rightarrow> unit res nprog" where
  "drainNode nodeName opts =
     bind (getenv controllerPodNameEnv) (\<lambda>ctrlName.
     bind (getenv controllerPodNamespaceEnv) (\<lambda>ctrlNamespace.
     attempt (listPods Cache None []) (\<lambda>pods.
       forEach (\<lambda>p. if drainSkips nodeName ctrlName ctrlNamespace opts p then Ret (Inr ())
                     else deletePod p (drainGrace opts)) pods)))"

section \<open>Lemmas\<close>

lemma setAnnotations_fields [simp]:
  "Unschedulable (setAnnotations a n) = Unschedulable n"
  "Annotations (nodeMeta (setAnnotations a n)) = a"
  "Name (nodeMeta (setAnnotations a n)) = Name (nodeMeta n)"
  "BootID (setAnnotations a n) = BootID n"
  "nodeConditions (setAnnotations a n) = nodeConditions n"
  by (simp_all add: setAnnotations_def)

lemma separator_inj:
  assumes "a @ x # b = a' @ x # b'" and "x \<notin> set a" and "x \<notin> set a'"
  shows "a = a' \<and> b = b'"
  using assms
proof (induction a arbitrary: a')
  case Nil
  then show ?case by (cases a') auto
next
  case (Cons c a)
  then show ?case by (cases a') auto
qed

text \<open>
  Kubernetes namespaces have no slash and names no \<open>@\<close>, so the annotation value identifies
  the NodeOp: a NodeOp recreated under the same name has another UID and another value.
\<close>

lemma nodeOpOwnerRef_inj:
  assumes "nodeOpOwnerRef a = nodeOpOwnerRef b"
    and "CHR ''/'' \<notin> set (Namespace (opMeta a))" "CHR ''/'' \<notin> set (Namespace (opMeta b))"
    and "CHR ''@'' \<notin> set (Name (opMeta a))" "CHR ''@'' \<notin> set (Name (opMeta b))"
  shows "Namespace (opMeta a) = Namespace (opMeta b) \<and> Name (opMeta a) = Name (opMeta b) \<and>
    UID (opMeta a) = UID (opMeta b)"
proof -
  have outer: "Namespace (opMeta a) = Namespace (opMeta b)"
      "Name (opMeta a) @ CHR ''@'' # UID (opMeta a) = Name (opMeta b) @ CHR ''@'' # UID (opMeta b)"
    using assms(1) separator_inj [OF _ assms(2,3)] by (auto simp: nodeOpOwnerRef_def)
  with separator_inj [OF outer(2) assms(4,5)] show ?thesis by simp
qed

text \<open>The requests the three operations can make.\<close>

lemma only_cordonNode: "only (\<lambda>q. q = GetNode n \<or> (\<exists>nd. q = UpdateNode nd)) (cordonNode op n)"
  unfolding cordonNode_def client_defs by (intro only_attempt) auto

lemma only_uncordonNode: "only (\<lambda>q. q = GetNode n \<or> (\<exists>nd. q = UpdateNode nd)) (uncordonNode op n)"
  unfolding uncordonNode_def client_defs Let_def by (intro only_attempt) (auto split: option.splits)

lemma only_drainNode:
  "only (\<lambda>q. (\<exists>v. q = Getenv v) \<or> q = ListPods Cache None [] \<or> (\<exists>ns p g. q = DeletePod ns p g))
     (drainNode n opts)"
  unfolding drainNode_def client_defs by (intro only_bind only_attempt only_forEach) auto

text \<open>The possible executions of the two node writers, one case per branch of the code.\<close>

lemma exec_cordonNode:
  assumes "exec (cordonNode op n) tr r"
  obtains (failed) x e where "tr = [(GetNode n, x)]" "asNode x = Inl e" "r = Inl e"
    | (already) latest where "tr = [(GetNode n, RNode (Inr latest))]" "Unschedulable latest" "r = Inr ()"
    | (written) latest y where "\<not> Unschedulable latest" "r = asUnit y"
        "tr = [(GetNode n, RNode (Inr latest)), (UpdateNode (setAnnotations
          (put cordonedByAnnotation (nodeOpOwnerRef op) (Annotations (nodeMeta latest)))
          (latest\<lparr>Unschedulable := True\<rparr>)), y)]"
  using assms unfolding cordonNode_def exec_attempt client_defs exec_ask
  by (auto simp: exec_ask split: if_splits)

lemma exec_uncordonNode:
  assumes "exec (uncordonNode op n) tr r"
  obtains (failed) x e where "tr = [(GetNode n, x)]" "asNode x = Inl e" "r = Inl e"
    | (left_alone) latest where "tr = [(GetNode n, RNode (Inr latest))]" "r = Inr ()"
        "if Unschedulable latest
         then map_of (Annotations (nodeMeta latest)) cordonedByAnnotation \<noteq> Some (nodeOpOwnerRef op)
         else \<not> has_key cordonedByAnnotation (Annotations (nodeMeta latest))"
    | (cleaned) latest y where "\<not> Unschedulable latest" "r = asUnit y"
        "has_key cordonedByAnnotation (Annotations (nodeMeta latest))"
        "tr = [(GetNode n, RNode (Inr latest)), (UpdateNode (setAnnotations
          (AList.delete cordonedByAnnotation (Annotations (nodeMeta latest))) latest), y)]"
    | (released) latest y where "Unschedulable latest" "r = asUnit y"
        "map_of (Annotations (nodeMeta latest)) cordonedByAnnotation = Some (nodeOpOwnerRef op)"
        "tr = [(GetNode n, RNode (Inr latest)), (UpdateNode (setAnnotations
          (AList.delete cordonedByAnnotation (Annotations (nodeMeta latest)))
          (latest\<lparr>Unschedulable := False\<rparr>)), y)]"
proof -
  from assms consider (e) x e where "tr = [(GetNode n, x)]" "asNode x = Inl e" "r = Inl e"
    | (k) latest t2 where "tr = (GetNode n, RNode (Inr latest)) # t2"
        "exec (let ann = Annotations (nodeMeta latest) in
           if \<not> Unschedulable latest then
             (if has_key cordonedByAnnotation ann
              then updateNode (setAnnotations (AList.delete cordonedByAnnotation ann) latest)
              else Ret (Inr ()))
           else case map_of ann cordonedByAnnotation of
                  None \<Rightarrow> Ret (Inr ())
                | Some owner \<Rightarrow>
                    if owner \<noteq> nodeOpOwnerRef op then Ret (Inr ())
                    else updateNode (setAnnotations (AList.delete cordonedByAnnotation ann)
                           (latest\<lparr>Unschedulable := False\<rparr>))) t2 r"
    unfolding uncordonNode_def exec_attempt getNode_def exec_ask by auto
  then show thesis
  proof cases
    case e
    then show thesis by (rule failed)
  next
    case k
    show thesis
    proof (cases "Unschedulable latest")
      case False
      with k show thesis
        by (auto simp: Let_def updateNode_def exec_ask split: if_splits intro: cleaned left_alone)
    next
      case True
      with k show thesis
        by (auto simp: Let_def updateNode_def exec_ask split: if_splits option.splits
            intro: released left_alone)
    qed
  qed
qed

text \<open>The specification of a drain: which Pods it is to evict.\<close>

definition evictable :: "string \<Rightarrow> string \<Rightarrow> string \<Rightarrow> drain_options \<Rightarrow> pod \<Rightarrow> bool" where
  "evictable nodeName ctrlName ctrlNamespace opts p \<longleftrightarrow>
     NodeName (podSpec p) = nodeName \<and>
     DeletionTimestamp (podMeta p) = None \<and>
     (Name (podMeta p) = ctrlName \<and> Namespace (podMeta p) = ctrlNamespace
        \<longrightarrow> ctrlName = [] \<or> ctrlNamespace = []) \<and>
     labelKeyReboot \<notin> fst ` set (Labels (podMeta p)) \<and>
     ((\<exists>r \<in> set (OwnerReferences (podMeta p)). orKind r = ''DaemonSet'')
        \<longrightarrow> drIgnoreDaemonSets opts = Some False) \<and>
     ((\<exists>r \<in> set (OwnerReferences (podMeta p)). orController r = Some True) \<or> drForce opts = Some True)"

lemma drainSkips_iff: "drainSkips n cn cns opts p \<longleftrightarrow> \<not> evictable n cn cns opts p"
  by (auto simp: drainSkips_def evictable_def has_key_keys list_ex_iff getBool_def
      DrainIgnoreDaemonSetsDefault_def DrainForceDefault_def split: option.splits)

text \<open>What cordoning and uncordoning write: the node as it was read, but for the cordon and its owner.\<close>

definition cordonedNode :: "node_op \<Rightarrow> node \<Rightarrow> node" where
  "cordonedNode op latest = setAnnotations
     (put cordonedByAnnotation (nodeOpOwnerRef op) (Annotations (nodeMeta latest))) (latest\<lparr>Unschedulable := True\<rparr>)"

definition releasedNode :: "node \<Rightarrow> node" where
  "releasedNode latest = setAnnotations
     (AList.delete cordonedByAnnotation (Annotations (nodeMeta latest))) (latest\<lparr>Unschedulable := False\<rparr>)"

lemma schedulable_id: "\<not> Unschedulable nd \<Longrightarrow> nd\<lparr>Unschedulable := False\<rparr> = nd"
  by (cases nd) simp

lemma cordonNode_update:
  assumes "exec (cordonNode op n) tr r" and "(UpdateNode nd, x) \<in> set tr"
  shows "\<exists>latest. (GetNode n, RNode (Inr latest)) \<in> set tr \<and> nd = cordonedNode op latest"
  using assms(1) by (rule exec_cordonNode) (use assms(2) in \<open>auto simp: cordonedNode_def\<close>)

lemma uncordonNode_update:
  assumes "exec (uncordonNode op n) tr r" and "(UpdateNode nd, x) \<in> set tr"
  shows "\<exists>latest. (GetNode n, RNode (Inr latest)) \<in> set tr \<and> nd = releasedNode latest \<and>
    (if Unschedulable latest
     then map_of (Annotations (nodeMeta latest)) cordonedByAnnotation = Some (nodeOpOwnerRef op)
     else has_key cordonedByAnnotation (Annotations (nodeMeta latest)))"
  using assms(1) by (rule exec_uncordonNode) (use assms(2) in \<open>auto simp: releasedNode_def schedulable_id\<close>)

text \<open>The evidence that a node is drained: a listing of the Pods, and the eviction of all of them that are evictable.\<close>

definition drained :: "string \<Rightarrow> drain_options \<Rightarrow> trace \<Rightarrow> bool" where
  "drained n opts tr \<longleftrightarrow> (\<exists>cn cns pods. (Getenv controllerPodNameEnv, cn) \<in> set tr \<and>
     (Getenv controllerPodNamespaceEnv, cns) \<in> set tr \<and> (ListPods Cache None [], RPods (Inr pods)) \<in> set tr \<and>
     (\<forall>pod \<in> set pods. evictable n (asString cn) (asString cns) opts pod \<longrightarrow>
        (DeletePod (Namespace (podMeta pod)) (Name (podMeta pod)) (drainGrace opts), RUnit (Inr ())) \<in> set tr))"

lemma drained_mono: "drained n opts t \<Longrightarrow> set t \<subseteq> set tr \<Longrightarrow> drained n opts tr"
  unfolding drained_def by blast

lemma drainNode_drained:
  assumes "exec (drainNode n opts) tr (Inr ())"
  shows "drained n opts tr"
proof -
  from assms obtain cn cns x t where tr: "tr = (Getenv controllerPodNameEnv, cn) #
      (Getenv controllerPodNamespaceEnv, cns) # (ListPods Cache None [], x) # t"
    and t: "\<exists>ps. x = RPods (Inr ps) \<and> exec (forEach (\<lambda>p. if drainSkips n (asString cn) (asString cns) opts p then Ret (Inr ())
       else deletePod p (drainGrace opts)) ps) t (Inr ())"
    unfolding drainNode_def client_defs exec_bind exec_attempt by (auto simp: exec_ask)
  from t obtain pods where x: "x = RPods (Inr pods)"
    and loop: "exec (forEach (\<lambda>p. if drainSkips n (asString cn) (asString cns) opts p then Ret (Inr ())
       else deletePod p (drainGrace opts)) pods) t (Inr ())" by blast
  have "(DeletePod (Namespace (podMeta pod)) (Name (podMeta pod)) (drainGrace opts), RUnit (Inr ())) \<in> set t"
    if "pod \<in> set pods" "evictable n (asString cn) (asString cns) opts pod" for pod
    using exec_forEach_ok [OF loop that(1)] that(2) by (auto simp: drainSkips_iff client_defs exec_ask)
  then show ?thesis unfolding drained_def tr x by (intro exI [of _ cn] exI [of _ cns] exI [of _ pods]) auto
qed

section \<open>Properties\<close>

text \<open>
  Whatever the cluster answers, cordonNode writes a node only after reading it as
  schedulable, and then writes exactly that node, unschedulable and annotated as cordoned by
  this NodeOp; it succeeds only if the node was already cordoned or the write succeeded.
\<close>

theorem cordonNode_claims_free_node:
  assumes "exec (cordonNode op n) tr r"
  shows "(\<forall>nd x. (UpdateNode nd, x) \<in> set tr \<longrightarrow>
            (\<exists>latest. (GetNode n, RNode (Inr latest)) \<in> set tr \<and> \<not> Unschedulable latest \<and>
               nd = setAnnotations (put cordonedByAnnotation (nodeOpOwnerRef op)
                      (Annotations (nodeMeta latest))) (latest\<lparr>Unschedulable := True\<rparr>))) \<and>
         (r = Inr () \<longrightarrow>
            (\<exists>latest. (GetNode n, RNode (Inr latest)) \<in> set tr \<and> Unschedulable latest) \<or>
            (\<exists>nd. (UpdateNode nd, RUnit (Inr ())) \<in> set tr))"
  using assms by (rule exec_cordonNode) auto

definition sample_meta :: "string \<Rightarrow> object_meta" where
  "sample_meta n = empty_meta\<lparr>Name := n, Namespace := ''system'', UID := ''u-1''\<rparr>"

definition sample_spec :: node_op_spec where
  "sample_spec = \<lparr>opNodeSelector = None, opCommand = [''upgrade''], opHostMountPath = [],
     opImage = ''img'', opImagePullSecrets = [], opCordon = Some True,
     opUncordonOnFailure = Some True, opDrainOptions = None, opRebootOnSuccess = Some True,
     opBackoffLimit = None, opConcurrency = 1, opStopOnFailure = Some True, opPreflight = None,
     opResources = None, opPreflightResources = None, opRebootResources = None\<rparr>"

definition sample_op :: node_op where
  "sample_op = \<lparr>opMeta = sample_meta ''up'', opSpec = sample_spec,
     opStatus = \<lparr>stPhase = [], NodeStatuses = [], stLastUpdated = Time 0\<rparr>\<rparr>"

definition sample_node :: node where
  "sample_node = \<lparr>nodeMeta = empty_meta\<lparr>Name := ''n1''\<rparr>, Unschedulable = False,
     BootID = ''b'', nodeConditions = []\<rparr>"

definition cordoned_sample :: node where
  "cordoned_sample = setAnnotations [(cordonedByAnnotation, nodeOpOwnerRef sample_op)]
     (sample_node\<lparr>Unschedulable := True\<rparr>)"

lemmas sample_defs = sample_op_def sample_node_def sample_meta_def empty_meta_def
  cordoned_sample_def setAnnotations_def

text \<open>A concrete run of each, for the witnesses here and in the later theories.\<close>

lemma cordon_run:
  "exec (cordonNode sample_op ''n1'')
     [(GetNode ''n1'', RNode (Inr sample_node)), (UpdateNode cordoned_sample, RUnit (Inr ()))] (Inr ())"
  by (simp add: exec_iff_scripted cordonNode_def attempt_def client_defs ask_def sample_defs asNode_def
      asUnit_def put_def)

lemma uncordon_run:
  "exec (uncordonNode sample_op ''n1'')
     [(GetNode ''n1'', RNode (Inr cordoned_sample)), (UpdateNode sample_node, RUnit (Inr ()))] (Inr ())"
  by (simp add: exec_iff_scripted uncordonNode_def attempt_def client_defs ask_def sample_defs
      asNode_def asUnit_def has_key_def Let_def)

theorem cordonNode_claims_free_node_witness:
  "\<exists>latest. (GetNode ''n1'', RNode (Inr latest)) \<in>
     set [(GetNode ''n1'', RNode (Inr sample_node)), (UpdateNode cordoned_sample, RUnit (Inr ()))] \<and>
     \<not> Unschedulable latest"
  using cordonNode_claims_free_node [OF cordon_run] by (metis list.set_intros(1,2))

text \<open>
  Whatever the cluster answers, uncordonNode makes a node schedulable only after reading
  on it this NodeOp's own cordon annotation; its only other write removes a stale annotation
  from a node that was schedulable already. A cordon made by a person or by another NodeOp is
  never undone.
\<close>

theorem uncordonNode_only_own_cordon:
  assumes "exec (uncordonNode op n) tr r" and "(UpdateNode nd, x) \<in> set tr"
  shows "\<exists>latest. (GetNode n, RNode (Inr latest)) \<in> set tr \<and>
           Annotations (nodeMeta nd) =
             AList.delete cordonedByAnnotation (Annotations (nodeMeta latest)) \<and>
           \<not> Unschedulable nd \<and>
           (Unschedulable latest \<longrightarrow>
              map_of (Annotations (nodeMeta latest)) cordonedByAnnotation = Some (nodeOpOwnerRef op))"
  using assms(1) by (rule exec_uncordonNode) (use assms(2) in auto)

theorem uncordonNode_only_own_cordon_witness:
  "\<exists>latest. (GetNode ''n1'', RNode (Inr latest)) \<in>
     set [(GetNode ''n1'', RNode (Inr cordoned_sample)), (UpdateNode sample_node, RUnit (Inr ()))] \<and>
     \<not> Unschedulable sample_node"
  using uncordonNode_only_own_cordon [OF uncordon_run, of sample_node "RUnit (Inr ())"] by auto

text \<open>
  C38. A node that a NodeOp cordoned and later uncordons, with its cordon and annotations
  unchanged in between, is written back as it was found, but schedulable and with exactly the
  annotations it had before the cordon, less any earlier cordon annotation.
\<close>

theorem cordon_uncordon_roundtrip:
  assumes cordon: "exec (cordonNode op n) tr1 r1" "(GetNode n, RNode (Inr before)) \<in> set tr1"
      "(UpdateNode stored, RUnit (Inr ())) \<in> set tr1"
    and uncordon: "exec (uncordonNode op n) tr2 (Inr ())" "(GetNode n, RNode (Inr found)) \<in> set tr2"
    and unchanged: "Unschedulable found = Unschedulable stored"
      "Annotations (nodeMeta found) = Annotations (nodeMeta stored)"
  shows "\<exists>after. (UpdateNode after, RUnit (Inr ())) \<in> set tr2 \<and> \<not> Unschedulable after \<and>
    after = found\<lparr>Unschedulable := False, nodeMeta := (nodeMeta found)\<lparr>Annotations := Annotations (nodeMeta after)\<rparr>\<rparr> \<and>
    map_of (Annotations (nodeMeta after)) =
      (map_of (Annotations (nodeMeta before)))(cordonedByAnnotation := None)"
proof -
  have stored: "stored = setAnnotations (put cordonedByAnnotation (nodeOpOwnerRef op)
      (Annotations (nodeMeta before))) (before\<lparr>Unschedulable := True\<rparr>)"
    using cordon(1) by (rule exec_cordonNode) (use cordon(2,3) in auto)
  with unchanged have own: "Unschedulable found"
      "map_of (Annotations (nodeMeta found)) cordonedByAnnotation = Some (nodeOpOwnerRef op)"
    by simp_all
  show ?thesis
    using uncordon(1)
    by (rule exec_uncordonNode)
      (use uncordon(2) own unchanged stored in \<open>auto simp: delete_conv' fun_upd_upd setAnnotations_def\<close>)
qed

theorem cordon_uncordon_roundtrip_witness:
  "\<exists>after. (UpdateNode after, RUnit (Inr ())) \<in>
     set [(GetNode ''n1'', RNode (Inr cordoned_sample)), (UpdateNode sample_node, RUnit (Inr ()))] \<and>
     \<not> Unschedulable after"
  using cordon_uncordon_roundtrip [OF cordon_run _ _ uncordon_run,
      of sample_node cordoned_sample cordoned_sample] by auto

text \<open>
  C22. Draining evicts only evictable Pods of its listing (Pods of that node that are not
  terminating, not the operator's own, not reboot Pods, not DaemonSet Pods unless asked, and
  with a controller unless forced), with the configured grace period, and when it succeeds it
  has evicted all of them.
\<close>

theorem drainNode_evicts_exactly:
  assumes "exec (drainNode n opts) tr r"
    and "(Getenv controllerPodNameEnv, RString cn) \<in> set tr"
    and "(Getenv controllerPodNamespaceEnv, RString cns) \<in> set tr"
    and "(ListPods Cache None [], RPods (Inr pods)) \<in> set tr"
  shows "(\<forall>ns p g x. (DeletePod ns p g, x) \<in> set tr \<longrightarrow>
            g = drainGrace opts \<and> (\<exists>pod \<in> set pods. evictable n cn cns opts pod \<and>
              ns = Namespace (podMeta pod) \<and> p = Name (podMeta pod))) \<and>
         (r = Inr () \<longrightarrow> (\<forall>pod \<in> set pods. evictable n cn cns opts pod \<longrightarrow>
            (DeletePod (Namespace (podMeta pod)) (Name (podMeta pod)) (drainGrace opts), RUnit (Inr ()))
              \<in> set tr))"
proof -
  define body where "body = (\<lambda>cn cns p. if drainSkips n cn cns opts p then Ret (Inr ())
                     else deletePod p (drainGrace opts))"
  from assms(1) obtain x1 x2 x3 t where tr: "tr = (Getenv controllerPodNameEnv, x1) #
      (Getenv controllerPodNamespaceEnv, x2) # (ListPods Cache None [], x3) # t"
    and t: "t = [] \<and> (\<exists>e. asPods x3 = Inl e \<and> r = Inl e) \<or>
       (\<exists>ps. x3 = RPods (Inr ps) \<and> exec (forEach (body (asString x1) (asString x2)) ps) t r)"
    unfolding drainNode_def body_def client_defs exec_bind exec_attempt by (auto simp: exec_ask)
  have body_event: "ev = (DeletePod (Namespace (podMeta p)) (Name (podMeta p)) (drainGrace opts), x) \<and>
      evictable n c1 c2 opts p" if "exec (body c1 c2 p) t' a" "ev \<in> set t'" "ev = (q, x)" for c1 c2 p t' a ev q x
    using that by (auto simp: body_def drainSkips_iff client_defs exec_ask split: if_splits)
  have body_ok: "(DeletePod (Namespace (podMeta p)) (Name (podMeta p)) (drainGrace opts), RUnit (Inr ())) \<in> set t'"
    if "exec (body c1 c2 p) t' (Inr ())" "evictable n c1 c2 opts p" for c1 c2 p t'
    using that by (auto simp: body_def drainSkips_iff client_defs exec_ask split: if_splits)
  have late: "\<exists>ns p g. q = DeletePod ns p g" if "(q, x) \<in> set t" for q x
    using t that body_event by (auto dest!: exec_forEach_event) blast
  have envs: "asString x1 = cn" "asString x2 = cns" "x3 = RPods (Inr pods)"
    using assms(2-4) late unfolding tr by (fastforce simp: asString_def kconst)+
  with t have loop: "exec (forEach (body cn cns) pods) t r" by (auto simp: asPods_def)
  show ?thesis
  proof (intro conjI allI impI ballI)
    fix ns p g x
    assume "(DeletePod ns p g, x) \<in> set tr"
    then have "(DeletePod ns p g, x) \<in> set t" by (auto simp: tr)
    from exec_forEach_event [OF loop this] body_event
    show "g = drainGrace opts" and "\<exists>pod \<in> set pods. evictable n cn cns opts pod \<and>
              ns = Namespace (podMeta pod) \<and> p = Name (podMeta pod)" by blast+
  next
    fix pod
    assume ok: "r = Inr ()" and pod: "pod \<in> set pods" "evictable n cn cns opts pod"
    from exec_forEach_ok [OF loop [unfolded ok] pod(1)] body_ok pod(2)
    show "(DeletePod (Namespace (podMeta pod)) (Name (podMeta pod)) (drainGrace opts), RUnit (Inr ()))
              \<in> set tr" unfolding tr by fastforce
  qed
qed

definition drained_pod :: pod where
  "drained_pod = \<lparr>podMeta = (sample_meta ''web'')\<lparr>OwnerReferences :=
       [\<lparr>orKind = ''ReplicaSet'', orName = ''web'', orUID = ''u-2'', orController = Some True\<rparr>]\<rparr>,
     podSpec = empty_pod_spec\<lparr>NodeName := ''n1''\<rparr>, podStatus = empty_pod_status\<rparr>"

definition sample_drain :: drain_options where
  "sample_drain = \<lparr>drEnabled = Some True, drForce = None, drGracePeriodSeconds = Some 30,
     drIgnoreDaemonSets = None, drDeleteEmptyDirData = None, drTimeoutSeconds = None\<rparr>"

lemma drained_pod_evictable:
  "evictable ''n1'' ''op'' ''system'' sample_drain drained_pod"
  "Name (podMeta drained_pod) = ''web''" "Namespace (podMeta drained_pod) = ''system''"
  "drainGrace sample_drain = Some 30"
  by (simp_all add: evictable_def drained_pod_def sample_drain_def sample_meta_def empty_meta_def drainGrace_def)

lemma drain_run:
  "exec (drainNode ''n1'' sample_drain) [(Getenv controllerPodNameEnv, RString ''op''),
     (Getenv controllerPodNamespaceEnv, RString ''system''), (ListPods Cache None [], RPods (Inr [drained_pod])),
     (DeletePod ''system'' ''web'' (Some 30), RUnit (Inr ()))] (Inr ())"
  by (simp add: exec_iff_scripted drainNode_def client_defs ask_def attempt_def drainSkips_iff drained_pod_evictable)

theorem drainNode_evicts_exactly_witness:
  "\<exists>pod \<in> {drained_pod}. evictable ''n1'' ''op'' ''system'' sample_drain pod \<and> Name (podMeta pod) = ''web''"
  using drainNode_evicts_exactly [OF drain_run, of "''op''" "''system''" "[drained_pod]"] by (simp add: drained_pod_evictable)

end
