(* ===== verification/Names.thy ===== *)
theory Names
  imports GoStrings
begin

text \<open>
  Resource names: internal/utils/name.go, the DNS subdomain syntax the API server asks of a
  name, and the interface the controllers build their generated names on.
\<close>

section \<open>TruncateNameWithHash\<close>

definition KubernetesNameLengthLimit :: int where
  "KubernetesNameLengthLimit = 63"

definition hashSuffixLength :: int where
  "hashSuffixLength = 13"

text \<open>\<open>None\<close> is the run-time panic of a slice out of range.\<close>

definition TruncateNameWithHash :: "string \<Rightarrow> int \<Rightarrow> string option" where
  "TruncateNameWithHash name maxLength =
     (let prefixLength = maxLength - hashSuffixLength in
      if int (length name) \<le> prefixLength then Some name
      else case sliceTo (hex16 (fnv64a name)) 12 of None \<Rightarrow> None | Some hash \<Rightarrow>
        (case sliceTo name prefixLength of None \<Rightarrow> None | Some front \<Rightarrow>
           let pre = TrimRight front ''-.''
           in if pre = [] then Some hash else Some (pre @ ''-'' @ hash)))"

text \<open>The branch beyond the limit, as one equation.\<close>

lemma truncate_long:
  assumes "maxLength - 13 < int (length name)" and "13 \<le> maxLength"
  shows "TruncateNameWithHash name maxLength =
    Some (let hash = take 12 (hex16 (fnv64a name));
              pre = TrimRight (take (nat (maxLength - 13)) name) ''-.''
          in if pre = [] then hash else pre @ ''-'' @ hash)"
  using assms by (simp add: TruncateNameWithHash_def sliceTo_def hashSuffixLength_def Let_def)

lemma truncate_short:
  "int (length name) \<le> maxLength - 13 \<Longrightarrow> TruncateNameWithHash name maxLength = Some name"
  by (simp add: TruncateNameWithHash_def hashSuffixLength_def)

text \<open>What is left of the name is a prefix of it.\<close>

lemma truncate_prefix:
  assumes "13 \<le> maxLength"
  shows "\<exists>k. int k \<le> maxLength - 13 \<and> TrimRight (take (nat (maxLength - 13)) name) ''-.'' = take k name"
proof -
  let ?cut = "take (nat (maxLength - 13)) name"
  obtain t where t: "?cut = TrimRight ?cut ''-.'' @ t" using TrimRight_prefix by blast
  have l: "length (TrimRight ?cut ''-.'') \<le> nat (maxLength - 13)"
    using TrimRight_length [of ?cut "''-.''"] by simp
  have "TrimRight ?cut ''-.'' = take (length (TrimRight ?cut ''-.'')) ?cut"
    using t by (metis append_eq_conv_conj)
  then have "TrimRight ?cut ''-.'' = take (length (TrimRight ?cut ''-.'')) name" using l by (simp add: min_def)
  then show ?thesis using assms l by (intro exI [of _ "length (TrimRight ?cut ''-.'')"]) simp
qed

lemma truncate_length:
  assumes "13 \<le> maxLength"
  shows "\<exists>s. TruncateNameWithHash name maxLength = Some s \<and> int (length s) \<le> maxLength"
proof (cases "maxLength - 13 < int (length name)")
  case False
  with assms show ?thesis by (intro exI [of _ name]) (simp add: truncate_short)
next
  case True
  have "length (TrimRight (take (nat (maxLength - 13)) name) ''-.'') \<le> nat (maxLength - 13)"
    using TrimRight_length [of "take (nat (maxLength - 13)) name" "''-.''"] by simp
  with assms show ?thesis
    unfolding truncate_long [OF True assms] Let_def by (auto simp: nat_le_iff int_ops)
qed

section \<open>DNS subdomain names\<close>

text \<open>
  The names the API server accepts: dot-separated labels of \<open>[a-z0-9-]\<close>, each starting and
  ending with a letter or digit, as the automaton of that expression. \<open>DStart\<close>: a label has
  to start; \<open>DGood\<close>: the name could end here; \<open>DDash\<close>: after a dash.
\<close>

datatype dns_state = DStart | DGood | DDash

definition alnum :: "char \<Rightarrow> bool" where
  "alnum c \<longleftrightarrow> c \<in> set ''abcdefghijklmnopqrstuvwxyz0123456789''"

fun dns_step :: "dns_state \<Rightarrow> char \<Rightarrow> dns_state option" where
  "dns_step DStart c = (if alnum c then Some DGood else None)"
| "dns_step DGood c =
     (if alnum c then Some DGood else if c = CHR ''-'' then Some DDash
      else if c = CHR ''.'' then Some DStart else None)"
| "dns_step DDash c =
     (if alnum c then Some DGood else if c = CHR ''-'' then Some DDash else None)"

fun dns_run :: "dns_state \<Rightarrow> string \<Rightarrow> dns_state option" where
  "dns_run st [] = Some st"
| "dns_run st (c # s) = (case dns_step st c of None \<Rightarrow> None | Some st' \<Rightarrow> dns_run st' s)"

definition valid_name :: "string \<Rightarrow> bool" where
  "valid_name s \<longleftrightarrow> dns_run DStart s = Some DGood"

lemma dns_run_append:
  "dns_run st (a @ b) = (case dns_run st a of None \<Rightarrow> None | Some st' \<Rightarrow> dns_run st' b)"
  by (induction a arbitrary: st) (auto split: option.splits)

lemma dns_step_alnum: "alnum c \<Longrightarrow> dns_step st c = Some DGood"
  by (cases st) auto

lemma dns_run_alnum: "\<forall>c \<in> set s. alnum c \<Longrightarrow> s \<noteq> [] \<Longrightarrow> dns_run st s = Some DGood"
proof (induction s arbitrary: st)
  case Nil
  then show ?case by simp
next
  case (Cons c s)
  then show ?case by (cases "s = []") (auto simp: dns_step_alnum)
qed

lemma dns_step_chars: "dns_step st c = Some st' \<Longrightarrow> alnum c \<or> c \<in> set ''-.''"
  by (cases st) (auto split: if_splits)

text \<open>After a character other than a separator, the automaton is in its accepting state.\<close>

lemma dns_run_ends_good:
  assumes "dns_run st p = Some st'" and "p \<noteq> []" and "last p \<notin> set ''-.''"
  shows "st' = DGood"
proof -
  obtain q c where p: "p = q @ [c]" using assms(2) by (cases p rule: rev_cases) auto
  with assms(1) obtain m where "dns_step m c = Some st'"
    by (auto simp: dns_run_append split: option.splits)
  moreover have "c \<notin> set ''-.''" using assms(3) p by simp
  ultimately show ?thesis using dns_step_chars [of m c] dns_step_alnum [of c m] by auto
qed

lemma hex_alnum: "c \<in> set hex_chars \<Longrightarrow> alnum c"
  by (auto simp: hex_chars_def alnum_def)

lemma hash_alnum: "\<forall>c \<in> set (take 12 (hex16 w)). alnum c"
  using hex16_chars [of w] by (auto dest!: in_set_takeD intro: hex_alnum)

lemma valid_name_extend:
  assumes "valid_name base" and "\<forall>c \<in> set sfx. alnum c" and "sfx \<noteq> []"
  shows "valid_name (base @ ''-'' @ sfx)"
  using assms by (simp add: valid_name_def dns_run_append dns_run_alnum alnum_def)

lemma truncate_valid:
  assumes "valid_name name" and "TruncateNameWithHash name maxLength = Some r" and "13 \<le> maxLength"
  shows "valid_name r"
proof (cases "maxLength - 13 < int (length name)")
  case False
  with assms show ?thesis by (simp add: truncate_short)
next
  case True
  define pre where "pre = TrimRight (take (nat (maxLength - 13)) name) ''-.''"
  define hash where "hash = take 12 (hex16 (fnv64a name))"
  have hash: "\<forall>c \<in> set hash. alnum c" "hash \<noteq> []"
    unfolding hash_def by (rule hash_alnum) (simp flip: length_0_conv)
  have r: "r = (if pre = [] then hash else pre @ ''-'' @ hash)"
    using assms(2) truncate_long [OF True assms(3)] unfolding pre_def hash_def Let_def
    by (simp del: append_Cons)
  obtain rest where "name = pre @ rest"
    using TrimRight_prefix [of "take (nat (maxLength - 13)) name" "''-.''"]
    unfolding pre_def by (metis append.assoc append_take_drop_id)
  with assms(1) obtain st where st: "dns_run DStart pre = Some st"
    by (auto simp: valid_name_def dns_run_append split: option.splits)
  show ?thesis
  proof (cases "pre = []")
    case True
    with r hash show ?thesis by (simp add: valid_name_def dns_run_alnum)
  next
    case False
    then have "st = DGood"
      using dns_run_ends_good [OF st] TrimRight_last unfolding pre_def by blast
    with st have "valid_name pre" by (simp add: valid_name_def)
    from valid_name_extend [OF this hash] False r show ?thesis by simp
  qed
qed

section \<open>The interface of the name generator\<close>

text \<open>
  What the controllers rely on when they build a generated name: a base truncated to six
  bytes below the limit, a dash, and five bytes from the API server or from
  \<open>rand.String(5)\<close>.
\<close>

locale name_truncation =
  fixes trunc :: "string \<Rightarrow> int \<Rightarrow> string option" and least :: int
  assumes fits: "least \<le> n \<Longrightarrow> \<exists>s. trunc name n = Some s \<and> int (length s) \<le> n"
    and keeps_valid: "valid_name name \<Longrightarrow> trunc name n = Some r \<Longrightarrow> least \<le> n \<Longrightarrow> valid_name r"
begin

lemma defined: "least \<le> n \<Longrightarrow> trunc name n = Some (the (trunc name n))"
  using fits [of n name] by auto

lemma generated_fits:
  assumes "least \<le> n" and "length sfx \<le> 5"
  shows "int (length (the (trunc name n) @ ''-'' @ sfx)) \<le> n + 6"
  using fits [OF assms(1), of name] assms(2) by auto

lemma generated_valid:
  assumes "valid_name name" and "least \<le> n" and "\<forall>c \<in> set sfx. alnum c" and "sfx \<noteq> []"
  shows "valid_name (the (trunc name n) @ ''-'' @ sfx)"
  using keeps_valid [OF assms(1) defined [OF assms(2)] assms(2)] assms(3,4)
  by (rule valid_name_extend)

end

interpretation utils_name: name_truncation TruncateNameWithHash 13
  by unfold_locales (use truncate_length truncate_valid in auto)

section \<open>Properties\<close>

text \<open>
  C37. For a limit of at least 13 and every name, \<open>TruncateNameWithHash\<close> does not panic and its
  result is not longer than the limit. A name at least 13 bytes below the limit is returned as it is;
  a longer one becomes twelve digits of its hash, after a prefix of the name and a dash if anything
  is left of the name. A DNS subdomain name stays one.
\<close>

theorem TruncateNameWithHash_spec:
  assumes "13 \<le> maxLength"
  shows "\<exists>s. TruncateNameWithHash name maxLength = Some s \<and> int (length s) \<le> maxLength \<and>
    (valid_name name \<longrightarrow> valid_name s) \<and> (int (length name) \<le> maxLength - 13 \<longrightarrow> s = name) \<and>
    (maxLength - 13 < int (length name) \<longrightarrow>
       s = take 12 (hex16 (fnv64a name)) \<or>
       (\<exists>k. int k \<le> maxLength - 13 \<and> s = take k name @ ''-'' @ take 12 (hex16 (fnv64a name))))"
proof -
  obtain s where s: "TruncateNameWithHash name maxLength = Some s" "int (length s) \<le> maxLength"
    using truncate_length [OF assms(1)] by blast
  have "valid_name name \<Longrightarrow> valid_name s" using truncate_valid [OF _ s(1) assms(1)] .
  moreover have "int (length name) \<le> maxLength - 13 \<Longrightarrow> s = name" using truncate_short s(1) by simp
  moreover have "s = take 12 (hex16 (fnv64a name)) \<or>
      (\<exists>k. int k \<le> maxLength - 13 \<and> s = take k name @ ''-'' @ take 12 (hex16 (fnv64a name)))"
    if "maxLength - 13 < int (length name)"
    using truncate_long [OF that assms] s(1) truncate_prefix [OF assms, of name]
    by (auto simp: Let_def split: if_splits)
  ultimately show ?thesis using s by blast
qed

theorem TruncateNameWithHash_spec_witness:
  "\<exists>s. TruncateNameWithHash ''upgrade-a.very-long.example.com'' 20 = Some s \<and> int (length s) \<le> 20 \<and> valid_name s"
proof -
  have "valid_name ''upgrade-a.very-long.example.com''" by (simp add: valid_name_def alnum_def)
  then show ?thesis using TruncateNameWithHash_spec [of 20 "''upgrade-a.very-long.example.com''"] by auto
qed

end
