(* ===== verification/BootId.thy ===== *)
theory BootId
  imports KubeObjects GoStrings
begin

text \<open>
  internal/bootid/bootid.go: the form of a boot ID, finding the one an upgrade Job reported,
  and reading the node's own. The operator and the reboot Pod both decide on these.
\<close>

definition ReporterContainerName :: string where
  "ReporterContainerName = ''boot-id-reporter''"

definition hostBootIDPath :: string where
  "hostBootIDPath = ''/proc/sys/kernel/random/boot_id''"

text \<open>The regular expression, as the sequence of its character classes.\<close>

definition boot_hex :: "char \<Rightarrow> bool" where
  "boot_hex c \<longleftrightarrow> c \<in> set ''0123456789abcdefABCDEF''"

definition is_dash :: "char \<Rightarrow> bool" where
  "is_dash c \<longleftrightarrow> c = CHR ''-''"

definition pattern :: "(char \<Rightarrow> bool) list" where
  "pattern = replicate 8 boot_hex @ [is_dash] @ replicate 4 boot_hex @ [is_dash] @
     replicate 4 boot_hex @ [is_dash] @ replicate 4 boot_hex @ [is_dash] @ replicate 12 boot_hex"

definition Valid :: "string \<Rightarrow> bool" where
  "Valid s = list_all2 (\<lambda>p c. p c) pattern s"

text \<open>
  The inner loop looks at the container statuses of one Pod, the outer one at the Pods; an
  empty result of the inner loop means it found nothing, since \<open>Valid\<close> excludes it.
\<close>

fun from_statuses :: "container_status list \<Rightarrow> string option" where
  "from_statuses [] = None"
| "from_statuses (cs # rest) =
     (if csName cs \<noteq> ReporterContainerName then from_statuses rest
      else case csTerminated cs of
             None \<Rightarrow> from_statuses rest
           | Some t \<Rightarrow> (let bid = TrimSpace (tMessage t) in
                        if Valid bid then Some bid else from_statuses rest))"

fun FromJobPods :: "pod list \<Rightarrow> string" where
  "FromJobPods [] = []"
| "FromJobPods (p # ps) =
     (if podPhase (podStatus p) \<noteq> PodSucceeded then FromJobPods ps
      else case from_statuses (ContainerStatuses (podStatus p)) of
             Some bid \<Rightarrow> bid
           | None \<Rightarrow> FromJobPods ps)"

text \<open>\<open>ReadHost\<close> on what \<open>os.ReadFile\<close> returns: \<open>None\<close> is its error.\<close>

definition ReadHost :: "string option \<Rightarrow> string" where
  "ReadHost file =
     (case file of None \<Rightarrow> []
      | Some b \<Rightarrow> (let bid = TrimSpace b in if Valid bid then bid else []))"

section \<open>Lemmas\<close>

lemma Valid_length: "Valid s \<Longrightarrow> length s = 36"
  by (auto simp: Valid_def pattern_def dest!: list_all2_lengthD)

lemma Valid_nonempty [simp]: "\<not> Valid []"
  using Valid_length [of "[]"] by auto

lemma from_statuses_Some:
  "from_statuses css = Some bid \<Longrightarrow>
     Valid bid \<and> (\<exists>cs \<in> set css. csName cs = ReporterContainerName \<and>
       (\<exists>t. csTerminated cs = Some t \<and> bid = TrimSpace (tMessage t)))"
  by (induction css) (auto split: if_splits option.splits simp: Let_def)

definition reports :: "pod \<Rightarrow> string \<Rightarrow> bool" where
  "reports p bid \<longleftrightarrow> podPhase (podStatus p) = PodSucceeded \<and>
     (\<exists>cs \<in> set (ContainerStatuses (podStatus p)). csName cs = ReporterContainerName \<and>
       (\<exists>t. csTerminated cs = Some t \<and> bid = TrimSpace (tMessage t)))"

lemma FromJobPods_cases:
  "FromJobPods ps = [] \<or> Valid (FromJobPods ps) \<and> (\<exists>p \<in> set ps. reports p (FromJobPods ps))"
  by (induction ps) (auto split: option.splits dest!: from_statuses_Some simp: reports_def)

lemma from_statuses_None:
  "from_statuses css = None \<Longrightarrow> cs \<in> set css \<Longrightarrow> csName cs = ReporterContainerName \<Longrightarrow>
     csTerminated cs = Some t \<Longrightarrow> \<not> Valid (TrimSpace (tMessage t))"
  by (induction css) (auto split: if_splits option.splits simp: Let_def)

lemma FromJobPods_empty:
  "FromJobPods ps = [] \<Longrightarrow> p \<in> set ps \<Longrightarrow> reports p bid \<Longrightarrow> \<not> Valid bid"
proof (induction ps)
  case Nil
  then show ?case by simp
next
  case (Cons q ps)
  then show ?case
    by (auto split: if_splits option.splits simp: reports_def
        dest: from_statuses_Some from_statuses_None)
qed

section \<open>The interface to the boot IDs\<close>

text \<open>
  What both users of a reported boot ID rely on: it is empty or well-formed and comes from a
  succeeded Pod, and the host's own is empty or well-formed.
\<close>

locale boot_id_source =
  fixes valid :: "string \<Rightarrow> bool" and from_pods :: "pod list \<Rightarrow> string"
    and said_by :: "pod \<Rightarrow> string \<Rightarrow> bool"
  assumes nonempty: "\<not> valid []"
    and reported: "from_pods ps \<noteq> [] \<Longrightarrow> valid (from_pods ps) \<and> (\<exists>p \<in> set ps. said_by p (from_pods ps))"
    and complete: "p \<in> set ps \<Longrightarrow> said_by p bid \<Longrightarrow> valid bid \<Longrightarrow> from_pods ps \<noteq> []"
begin

lemma valid_iff_nonempty: "valid (from_pods ps) \<longleftrightarrow> from_pods ps \<noteq> []"
  using nonempty reported by metis

lemma reported_iff: "from_pods ps \<noteq> [] \<longleftrightarrow> (\<exists>p \<in> set ps. \<exists>bid. said_by p bid \<and> valid bid)"
  using reported complete by blast

end

interpretation bootid: boot_id_source Valid FromJobPods reports
  using FromJobPods_cases FromJobPods_empty by unfold_locales auto

section \<open>Properties\<close>

text \<open>
  \<open>FromJobPods\<close> finds a boot ID exactly when some succeeded Pod's boot-id-reporter
  container terminated with a message that is a well-formed boot ID once trimmed, and then
  what it returns is well-formed and was reported by one of the Pods.
\<close>

theorem FromJobPods_spec:
  "(FromJobPods ps \<noteq> [] \<longleftrightarrow> (\<exists>p \<in> set ps. \<exists>bid. reports p bid \<and> Valid bid)) \<and>
   (FromJobPods ps = [] \<or> Valid (FromJobPods ps) \<and> (\<exists>p \<in> set ps. reports p (FromJobPods ps)))"
  using bootid.reported_iff bootid.reported by blast

end
