(* ===== verification/NodeJobs.thy ===== *)
theory NodeJobs
  imports NodeCordon Names BootId
begin

text \<open>
  The upgrade Job of a node (nodeop_controller.go: getNodeOpImage to createStandardJobSpec,
  createNodeJob, recordNodeJob, adoptExistingJob, newJobName). \<open>rd\<close> is the reader that
  \<open>apiReader()\<close> returns. A handler that changes the NodeOp in memory returns it, with the error
  or success, also when it fails.
\<close>

section \<open>Constants\<close>

definition phasePending :: string where [kconst]: "phasePending = ''Pending''"
definition phaseFailed :: string where [kconst]: "phaseFailed = ''Failed''"
definition phaseRunning :: string where [kconst]: "phaseRunning = ''Running''"
definition phaseCompleted :: string where [kconst]: "phaseCompleted = ''Completed''"
definition phasePreflight :: string where [kconst]: "phasePreflight = ''Preflight''"
definition rebootStatusNotRequested :: string where [kconst]:
  "rebootStatusNotRequested = ''not-requested''"
definition rebootStatusCancelled :: string where [kconst]: "rebootStatusCancelled = ''cancelled''"
definition rebootStatusPending :: string where [kconst]: "rebootStatusPending = ''pending''"
definition rebootStatusCompleted :: string where [kconst]: "rebootStatusCompleted = ''completed''"
definition jobCompletedMessage :: string where [kconst]:
  "jobCompletedMessage = ''Job completed successfully''"
definition jobAndRebootCompletedMessage :: string where [kconst]:
  "jobAndRebootCompletedMessage = ''Job and reboot completed successfully''"
definition hostRootVolumeName :: string where [kconst]: "hostRootVolumeName = ''host-root''"
definition hostDirEnv :: string where [kconst]: "hostDirEnv = ''HOST_DIR''"
definition kindNodeOp :: string where [kconst]: "kindNodeOp = ''NodeOp''"

lemma phases_distinct [simp]:
  "phasePending \<noteq> phaseFailed" "phasePending \<noteq> phaseRunning" "phasePending \<noteq> phaseCompleted"
  "phasePending \<noteq> phasePreflight" "phaseFailed \<noteq> phaseRunning" "phaseFailed \<noteq> phaseCompleted"
  "phaseFailed \<noteq> phasePreflight" "phaseRunning \<noteq> phaseCompleted" "phaseRunning \<noteq> phasePreflight"
  "phaseCompleted \<noteq> phasePreflight"
  by (simp_all add: kconst)

lemmas phases_distinct_sym [simp] = phases_distinct [THEN not_sym]

lemma reboot_statuses_distinct [simp]:
  "rebootStatusNotRequested \<noteq> rebootStatusCancelled" "rebootStatusNotRequested \<noteq> rebootStatusPending"
  "rebootStatusNotRequested \<noteq> rebootStatusCompleted" "rebootStatusCancelled \<noteq> rebootStatusPending"
  "rebootStatusCancelled \<noteq> rebootStatusCompleted" "rebootStatusPending \<noteq> rebootStatusCompleted"
  "rebootStatusNotRequested \<noteq> []" "rebootStatusCancelled \<noteq> []" "rebootStatusPending \<noteq> []"
  "rebootStatusCompleted \<noteq> []"
  by (simp_all add: kconst)

lemmas reboot_statuses_distinct_sym [simp] = reboot_statuses_distinct [THEN not_sym]

section \<open>Images and the Job's Pod\<close>

definition getNodeOpImage :: "node_op \<Rightarrow> string nprog" where
  "getNodeOpImage op =
     (if opImage (opSpec op) \<noteq> [] then Ret (opImage (opSpec op))
      else bind (getenv ''NODEOP_DEFAULT_IMAGE'') (\<lambda>img.
        Ret (if img \<noteq> [] then img else ''busybox:latest'')))"

definition bootIDReporterScript :: string where
  "bootIDReporterScript = ''read -r boot_id < /proc/sys/kernel/random/boot_id'' @
     '' && printf '%s' \"$boot_id\" > /dev/termination-log''"

definition bootIDReporterImage :: "node_op \<Rightarrow> string nprog" where
  "bootIDReporterImage op =
     bind (getenv ''SENTINEL_IMAGE'') (\<lambda>img.
       Ret (if img \<noteq> [] then img
            else if opImage (opSpec op) \<noteq> [] then opImage (opSpec op)
            else ''busybox:latest''))"

definition getHostMountPath :: "node_op \<Rightarrow> string" where
  "getHostMountPath op =
     (if opHostMountPath (opSpec op) \<noteq> [] then opHostMountPath (opSpec op) else defaultHostMountPath)"

definition bootIDReporterResources :: strmap where
  "bootIDReporterResources = [(''cpu'', ''10m''), (''memory'', ''32Mi'')]"

definition hostRootVolume :: volume where
  "hostRootVolume = \<lparr>volName = hostRootVolumeName, volSource = HostPath ''/''\<rparr>"

definition envValueOf :: "string \<Rightarrow> string \<Rightarrow> env_var" where
  "envValueOf n v = \<lparr>envName = n, envValue = v, envFieldRef = None\<rparr>"

definition privileged :: security_context where
  "privileged = no_security\<lparr>scPrivileged := asBool True\<rparr>"

text \<open>The container that runs the user's command, the same in both kinds of Job.\<close>

definition nodeopContainer :: "node_op \<Rightarrow> string \<Rightarrow> container" where
  "nodeopContainer op img = empty_container\<lparr>
     cName := ''nodeop'', cImage := img, cCommand := opCommand (opSpec op),
     cResources := ResourcesOrDefault op, cSecurityContext := Some privileged,
     cEnv := [envValueOf hostDirEnv (getHostMountPath op)],
     cVolumeMounts := [volumeMount hostRootVolumeName (getHostMountPath op)]\<rparr>"

definition reporterContainer :: "string \<Rightarrow> container" where
  "reporterContainer img = empty_container\<lparr>
     cName := ReporterContainerName, cImage := img,
     cResources := \<lparr>Requests = bootIDReporterResources, Limits = bootIDReporterResources\<rparr>,
     cCommand := [''/bin/sh'', ''-c'', bootIDReporterScript],
     cTerminationMessagePolicy := ''File''\<rparr>"

definition jobSpecOf :: "pod_spec \<Rightarrow> int \<Rightarrow> job_spec" where
  "jobSpecOf ps backoff = \<lparr>BackoffLimit = Some backoff, Completions = None, templateLabels = [],
     templateAnnotations = [], templateSpec = ps\<rparr>"

definition createRebootJobSpec :: "node_op \<Rightarrow> string \<Rightarrow> int \<Rightarrow> job_spec nprog" where
  "createRebootJobSpec op nodeName backoff =
     bind (getNodeOpImage op) (\<lambda>img.
     bind (bootIDReporterImage op) (\<lambda>reporter.
     Ret (jobSpecOf (empty_pod_spec\<lparr>
       NodeName := nodeName, ImagePullSecrets := opImagePullSecrets (opSpec op),
       InitContainers := [nodeopContainer op img],
       Containers := [reporterContainer reporter],
       Volumes := [hostRootVolume], RestartPolicy := ''Never''\<rparr>) backoff)))"

definition createStandardJobSpec :: "node_op \<Rightarrow> string \<Rightarrow> int \<Rightarrow> job_spec nprog" where
  "createStandardJobSpec op nodeName backoff =
     bind (getNodeOpImage op) (\<lambda>img.
     Ret (jobSpecOf (empty_pod_spec\<lparr>
       NodeName := nodeName, ImagePullSecrets := opImagePullSecrets (opSpec op),
       Containers := [nodeopContainer op img],
       Volumes := [hostRootVolume], RestartPolicy := ''Never''\<rparr>) backoff))"

section \<open>Creating and recording the Job\<close>

definition jobCreated :: "node_op \<Rightarrow> string \<Rightarrow> time \<Rightarrow> node_status" where
  "jobCreated op jobName t =
     \<lparr>nsPhase = phasePending, nsJobName = jobName, nsMessage = ''Job created'',
      nsRebootStatus = (if rebootRequested op then rebootStatusPending else rebootStatusNotRequested),
      nsPreRebootBootID = [], nsLastUpdated = t\<rparr>"

definition recordNodeJob :: "node_op \<Rightarrow> string \<Rightarrow> string \<Rightarrow> (node_op \<times> unit res) nprog" where
  "recordNodeJob op nodeName jobName =
     bind now (\<lambda>t.
       statusUpdate (setStatus nodeName (jobCreated op jobName t) op))"

definition notControlled :: "string \<Rightarrow> node_op \<Rightarrow> string" where
  "notControlled jobName op =
     ''job '' @ jobName @ '' exists and is not controlled by NodeOp '' @ Name (opMeta op)"

definition adoptExistingJob :: "node_op \<Rightarrow> string \<Rightarrow> error \<Rightarrow> unit res nprog" where
  "adoptExistingJob op jobName createErr =
     (if \<not> IsAlreadyExists createErr then Ret (Inl createErr)
      else attempt (getJob Cache (Namespace (opMeta op)) jobName) (\<lambda>existing.
        if \<not> IsControlledBy (jobMeta existing) (opMeta op)
        then Ret (Inl (Wrapf (notControlled jobName op) createErr))
        else Ret (Inr ())))"

text \<open>The cordon and drain part of createNodeJob, with the uncordon after a failed drain.\<close>

definition prepareNode :: "node_op \<Rightarrow> string \<Rightarrow> unit res nprog" where
  "prepareNode op nodeName =
     (if \<not> cordonRequested op then Ret (Inr ())
      else attempt (cordonNode op nodeName) (\<lambda>_.
        case opDrainOptions (opSpec op) of
          None \<Rightarrow> Ret (Inr ())
        | Some opts \<Rightarrow>
            if \<not> getBool (drEnabled opts) DrainEnabledDefault then Ret (Inr ())
            else bind (drainNode nodeName opts) (\<lambda>r.
              case r of
                Inr u \<Rightarrow> Ret (Inr ())
              | Inl e \<Rightarrow> bind (uncordonNode op nodeName) (\<lambda>_. Ret (Inl e)))))"

definition jobBackoffLimit :: "node_op \<Rightarrow> int" where
  "jobBackoffLimit op = (case opBackoffLimit (opSpec op) of None \<Rightarrow> 6 | Some b \<Rightarrow> b)"

definition upgradeJob :: "node_op \<Rightarrow> string \<Rightarrow> string \<Rightarrow> job_spec \<Rightarrow> job" where
  "upgradeJob op nodeName jobName spec =
     \<lparr>jobMeta = SetControllerReference kindNodeOp (opMeta op)
        (empty_meta\<lparr>Name := jobName, Namespace := Namespace (opMeta op),
           Labels := [(labelKeyNodeOp, Name (opMeta op)), (labelKeyNode, nodeName)]\<rparr>),
      jobSpec = spec, jobStatus = empty_job_status\<rparr>"

definition createNodeJob ::
  "reader \<Rightarrow> node_op \<Rightarrow> string \<Rightarrow> string \<Rightarrow> (node_op \<times> unit res) nprog" where
  "createNodeJob rd op nodeName jobName =
     bind (getJob rd (Namespace (opMeta op)) jobName) (\<lambda>found.
     case found of
       Inr existing \<Rightarrow>
         if \<not> IsControlledBy (jobMeta existing) (opMeta op)
         then Ret (op, Inl (Errorf (notControlled jobName op)))
         else recordNodeJob op nodeName jobName
     | Inl e \<Rightarrow>
         if \<not> IsNotFound e then Ret (op, Inl e)
         else bind (prepareNode op nodeName) (\<lambda>p. case p of Inl e \<Rightarrow> Ret (op, Inl e) | Inr _ \<Rightarrow>
           bind (if rebootRequested op
                 then createRebootJobSpec op nodeName (jobBackoffLimit op)
                 else createStandardJobSpec op nodeName (jobBackoffLimit op)) (\<lambda>spec.
           bind (createJob (upgradeJob op nodeName jobName spec)) (\<lambda>c. case c of
               Inr _ \<Rightarrow> recordNodeJob op nodeName jobName
             | Inl createErr \<Rightarrow>
                 bind (adoptExistingJob op jobName createErr) (\<lambda>a. case a of
                   Inl e \<Rightarrow> Ret (op, Inl e)
                 | Inr _ \<Rightarrow> recordNodeJob op nodeName jobName)))))"

definition newJobName :: "node_op \<Rightarrow> string \<Rightarrow> string nprog" where
  "newJobName op nodeName =
     (let jobBaseName = the (TruncateNameWithHash (Name (opMeta op) @ ''-'' @ nodeName)
                               (KubernetesNameLengthLimit - 6))
      in bind (randString 5) (\<lambda>sfx. Ret (jobBaseName @ ''-'' @ sfx)))"

section \<open>Lemmas\<close>

text \<open>
  The requests that disturb a node: writing it, evicting Pods, and starting an upgrade Job.
\<close>

fun disruptive :: "node_req \<Rightarrow> bool" where
  "disruptive (UpdateNode _) = True"
| "disruptive (DeletePod _ _ _) = True"
| "disruptive (CreateJob _) = True"
| "disruptive _ = False"

fun isDelete :: "node_req \<Rightarrow> bool" where
  "isDelete (DeletePod _ _ _) = True"
| "isDelete _ = False"

fun isCreateJob :: "node_req \<Rightarrow> bool" where
  "isCreateJob (CreateJob _) = True"
| "isCreateJob _ = False"

fun isStatusWrite :: "node_req \<Rightarrow> bool" where
  "isStatusWrite (UpdateNodeOpStatus _) = True"
| "isStatusWrite Now = True"
| "isStatusWrite _ = False"

text \<open>A success of \<open>statusUpdate\<close> and of \<open>recordNodeJob\<close>, and what they leave in memory.\<close>

lemma exec_statusUpdate:
  assumes "exec (statusUpdate op) tr (op', r)"
  obtains y where "tr = [(UpdateNodeOpStatus op, y)]" "same_op op op'" "opStatus op' = opStatus op"
    "r = Inr () \<Longrightarrow> \<exists>v. y = RVersion (Inr v)"
proof -
  from assms obtain y where tr: "tr = [(UpdateNodeOpStatus op, y)]"
    and res: "(case asVersion y of Inl e \<Rightarrow> (op, Inl e) | Inr v \<Rightarrow> (setVersion v op, Inr ())) = (op', r)"
    unfolding statusUpdate_def exec_ask by blast
  from res have "same_op op op'" "opStatus op' = opStatus op"
    "r = Inr () \<Longrightarrow> \<exists>v. y = RVersion (Inr v)" by (auto split: sum.splits)
  with tr show thesis by (rule that)
qed

lemma exec_recordNodeJob:
  assumes "exec (recordNodeJob op n j) tr (op', r)"
  obtains t y where "tr = [(Now, t), (UpdateNodeOpStatus (setStatus n (jobCreated op j (asTime t)) op), y)]"
    "same_op op op'" "statuses op' = put n (jobCreated op j (asTime t)) (statuses op)"
    "r = Inr () \<Longrightarrow> \<exists>v. y = RVersion (Inr v)"
proof -
  from assms obtain t t2 where tr: "tr = (Now, t) # t2"
    and up: "exec (statusUpdate (setStatus n (jobCreated op j (asTime t)) op)) t2 (op', r)"
    unfolding recordNodeJob_def now_def exec_bind exec_ask by auto
  from up show thesis
  proof (rule exec_statusUpdate)
    fix y
    assume "t2 = [(UpdateNodeOpStatus (setStatus n (jobCreated op j (asTime t)) op), y)]"
      "same_op (setStatus n (jobCreated op j (asTime t)) op) op'"
      "opStatus op' = opStatus (setStatus n (jobCreated op j (asTime t)) op)"
      "r = Inr () \<Longrightarrow> \<exists>v. y = RVersion (Inr v)"
    with tr show thesis by (intro that [of t y]) simp_all
  qed
qed

lemma only_statusUpdate: "only isStatusWrite (statusUpdate op)"
  by (simp add: statusUpdate_def)

lemma only_recordNodeJob: "only isStatusWrite (recordNodeJob op n j)"
  unfolding recordNodeJob_def now_def by (intro only_bind only_statusUpdate) simp

lemma only_adoptExistingJob: "only (\<lambda>q. \<not> mutating q) (adoptExistingJob op j e)"
  unfolding adoptExistingJob_def client_defs by (auto intro!: only_attempt)

lemma only_jobSpec:
  "only (\<lambda>q. \<exists>v. q = Getenv v) (createRebootJobSpec op n b)"
  "only (\<lambda>q. \<exists>v. q = Getenv v) (createStandardJobSpec op n b)"
  unfolding createRebootJobSpec_def createStandardJobSpec_def getNodeOpImage_def
    bootIDReporterImage_def client_defs by (auto intro!: only_bind)

fun nodeAccess :: "node_req \<Rightarrow> bool" where
  "nodeAccess (GetNode _) = True"
| "nodeAccess (UpdateNode _) = True"
| "nodeAccess (Getenv _) = True"
| "nodeAccess (ListPods _ _ _) = True"
| "nodeAccess (DeletePod _ _ _) = True"
| "nodeAccess _ = False"

lemma only_prepareNode: "only nodeAccess (prepareNode op n)"
proof -
  have "only nodeAccess (cordonNode op n)" using only_cordonNode by (rule only_mono) auto
  moreover have "only nodeAccess (uncordonNode op n)" using only_uncordonNode by (rule only_mono) auto
  moreover have "only nodeAccess (drainNode n opts)" for opts using only_drainNode by (rule only_mono) auto
  ultimately show ?thesis
    unfolding prepareNode_def by (auto intro!: only_attempt only_bind split: option.splits sum.splits)
qed

text \<open>An event that shows the node is cordoned: it was read so, or this NodeOp wrote it so.\<close>

definition cordonSeen :: "string \<Rightarrow> node_req \<times> node_resp \<Rightarrow> bool" where
  "cordonSeen n ev \<longleftrightarrow>
     (\<exists>nd. ev = (GetNode n, RNode (Inr nd)) \<and> Unschedulable nd) \<or>
     (\<exists>nd. ev = (UpdateNode nd, RUnit (Inr ())) \<and> Unschedulable nd)"

lemma cordonNode_seen:
  "exec (cordonNode op n) tr (Inr ()) \<Longrightarrow> \<exists>g \<in> set tr. cordonSeen n g"
  by (erule exec_cordonNode) (auto simp: cordonSeen_def)

lemma no_delete_in_node_writers:
  "exec (cordonNode op n) tr r \<Longrightarrow> ev \<in> set tr \<Longrightarrow> \<not> isDelete (fst ev)"
  "exec (uncordonNode op n) tr r \<Longrightarrow> ev \<in> set tr \<Longrightarrow> \<not> isDelete (fst ev)"
  by (auto elim!: exec_cordonNode exec_uncordonNode)

lemma prepareNode_guarded:
  assumes "exec (prepareNode op n) tr r"
  shows "guarded (\<lambda>g e. cordonSeen n g) (isDelete \<circ> fst) tr"
    and "r = Inr u \<Longrightarrow> cordonRequested op \<Longrightarrow> \<exists>g \<in> set tr. cordonSeen n g"
proof -
  consider (no) "\<not> cordonRequested op" | (err) e where "exec (cordonNode op n) tr (Inl e)" "r = Inl e"
    | (ok) t1 t2 where "tr = t1 @ t2" "exec (cordonNode op n) t1 (Inr ())"
    using assms unfolding prepareNode_def by (auto simp: exec_attempt split: if_splits)
  then have "guarded (\<lambda>g e. cordonSeen n g) (isDelete \<circ> fst) tr \<and>
    (r = Inr u \<longrightarrow> cordonRequested op \<longrightarrow> (\<exists>g \<in> set tr. cordonSeen n g))"
  proof cases
    case no
    with assms show ?thesis by (simp add: prepareNode_def)
  next
    case err
    then show ?thesis by (auto intro!: guarded_none dest: no_delete_in_node_writers)
  next
    case ok
    from cordonNode_seen [OF ok(2)] obtain g where g: "g \<in> set t1" "cordonSeen n g" by auto
    have "guarded (\<lambda>g e. cordonSeen n g) (isDelete \<circ> fst) (t1 @ t2)"
      by (rule guarded_append)
        (use g ok(2) in \<open>auto intro!: guarded_none dest: no_delete_in_node_writers\<close>)
    with g ok(1) show ?thesis by auto
  qed
  then show "guarded (\<lambda>g e. cordonSeen n g) (isDelete \<circ> fst) tr"
    and "r = Inr u \<Longrightarrow> cordonRequested op \<Longrightarrow> \<exists>g \<in> set tr. cordonSeen n g" by blast+
qed

text \<open>A preparation that succeeds has drained the node if that was asked for.\<close>

definition drainRequested :: "node_op \<Rightarrow> drain_options \<Rightarrow> bool" where
  "drainRequested op opts \<longleftrightarrow> cordonRequested op \<and> opDrainOptions (opSpec op) = Some opts \<and>
     getBool (drEnabled opts) DrainEnabledDefault"

lemma prepareNode_drained:
  assumes "exec (prepareNode op n) tr (Inr ())" and "drainRequested op opts"
  shows "drained n opts tr"
proof -
  from assms obtain t1 t2 where tr: "tr = t1 @ t2" and d: "exec (bind (drainNode n opts) (\<lambda>r. case r of
      Inr u \<Rightarrow> Ret (Inr ()) | Inl e \<Rightarrow> bind (uncordonNode op n) (\<lambda>_. Ret (Inl e)))) t2 (Inr ())"
    by (auto simp: prepareNode_def drainRequested_def exec_attempt)
  from d obtain t3 x t4 where t2: "t2 = t3 @ t4" and x: "exec (drainNode n opts) t3 x"
    and rest: "exec (case x of Inr u \<Rightarrow> Ret (Inr ()) | Inl e \<Rightarrow> bind (uncordonNode op n) (\<lambda>_. Ret (Inl e))) t4 (Inr ())"
    unfolding exec_bind by blast
  from rest have "x = Inr ()" by (cases x) (auto simp: exec_bind)
  with x have "drained n opts t3" by (simp add: drainNode_drained)
  then show ?thesis by (rule drained_mono) (auto simp: tr t2)
qed

text \<open>The only node a preparation writes is the one it has read under the node's name.\<close>

definition ownNodeWrites :: "node_op \<Rightarrow> string \<Rightarrow> trace \<Rightarrow> bool" where
  "ownNodeWrites op n tr \<longleftrightarrow> (\<forall>nd x. (UpdateNode nd, x) \<in> set tr \<longrightarrow>
     (\<exists>latest. (GetNode n, RNode (Inr latest)) \<in> set tr \<and> (nd = cordonedNode op latest \<or> nd = releasedNode latest)))"

lemma ownNodeWrites_none: "(\<And>q x. (q, x) \<in> set tr \<Longrightarrow> \<not> disruptive q) \<Longrightarrow> ownNodeWrites op n tr"
  by (fastforce simp: ownNodeWrites_def)

lemma ownNodeWrites_append: "ownNodeWrites op n t1 \<Longrightarrow> ownNodeWrites op n t2 \<Longrightarrow> ownNodeWrites op n (t1 @ t2)"
  unfolding ownNodeWrites_def set_append by blast

lemma ownNodeWrites_Cons: "(\<And>nd. q \<noteq> UpdateNode nd) \<Longrightarrow> ownNodeWrites op n t \<Longrightarrow> ownNodeWrites op n ((q, x) # t)"
  by (auto simp: ownNodeWrites_def)

lemma node_writers_own:
  "exec (cordonNode op n) t r \<Longrightarrow> ownNodeWrites op n t" "exec (uncordonNode op n) t r \<Longrightarrow> ownNodeWrites op n t"
  "exec (drainNode n opts) t r \<Longrightarrow> ownNodeWrites op n t"
  unfolding ownNodeWrites_def
  by (blast dest: cordonNode_update) (blast dest: uncordonNode_update, use only_exec [OF _ only_drainNode] in fastforce)

lemma prepareNode_own:
  assumes "exec (prepareNode op n) tr r"
  shows "ownNodeWrites op n tr"
proof (cases "cordonRequested op")
  case False
  with assms show ?thesis by (simp add: prepareNode_def ownNodeWrites_def)
next
  case True
  define rest where "rest = (case opDrainOptions (opSpec op) of
          None \<Rightarrow> Ret (Inr ())
        | Some opts \<Rightarrow>
            if \<not> getBool (drEnabled opts) DrainEnabledDefault then Ret (Inr ())
            else bind (drainNode n opts) (\<lambda>r.
              case r of
                Inr u \<Rightarrow> Ret (Inr ())
              | Inl e \<Rightarrow> bind (uncordonNode op n) (\<lambda>_. Ret (Inl e))))"
  have nil: "ownNodeWrites op n []" by (simp add: ownNodeWrites_def)
  have "ownNodeWrites op n t" if e: "exec rest t a" for t a
  proof (cases "\<exists>opts. opDrainOptions (opSpec op) = Some opts \<and> getBool (drEnabled opts) DrainEnabledDefault")
    case False
    with e nil show ?thesis by (auto simp: rest_def split: option.splits)
  next
    case True
    with e obtain opts t1 x t2 where t: "t = t1 @ t2" and d: "exec (drainNode n opts) t1 x"
      and k: "exec (case x of Inr u \<Rightarrow> Ret (Inr ()) | Inl e \<Rightarrow> bind (uncordonNode op n) (\<lambda>_. Ret (Inl e))) t2 a"
      by (auto simp: rest_def exec_bind [of "drainNode _ _"])
    have "ownNodeWrites op n t2"
      using k nil node_writers_own(2) by (cases x) (auto simp: exec_bind)
    with node_writers_own(3) [OF d] show ?thesis unfolding t by (rule ownNodeWrites_append)
  qed
  moreover have "prepareNode op n = attempt (cordonNode op n) (\<lambda>_. rest)" using True by (simp add: prepareNode_def rest_def)
  ultimately show ?thesis using assms by (auto simp: exec_attempt intro: ownNodeWrites_append node_writers_own(1))
qed

text \<open>What createNodeJob does once the node is prepared: the Job, then its record.\<close>

lemma exec_createAndRecord:
  assumes "exec (bind (if rebootRequested op then createRebootJobSpec op n (jobBackoffLimit op)
       else createStandardJobSpec op n (jobBackoffLimit op)) (\<lambda>spec.
     bind (createJob (upgradeJob op n j spec)) (\<lambda>c. case c of
         Inr _ \<Rightarrow> recordNodeJob op n j
       | Inl createErr \<Rightarrow>
           bind (adoptExistingJob op j createErr) (\<lambda>a. case a of
             Inl e \<Rightarrow> Ret (op, Inl e)
           | Inr _ \<Rightarrow> recordNodeJob op n j)))) tr (op', r)"
  obtains t2 spec y t3 where "tr = t2 @ (CreateJob (upgradeJob op n j spec), y) # t3"
    "exec (if rebootRequested op then createRebootJobSpec op n (jobBackoffLimit op)
           else createStandardJobSpec op n (jobBackoffLimit op)) t2 spec"
    "y = RUnit (Inr ()) \<and> exec (recordNodeJob op n j) t3 (op', r) \<or>
     (\<exists>ce t4 t5. asUnit y = Inl ce \<and> t3 = t4 @ t5 \<and>
        (exec (adoptExistingJob op j ce) t4 (Inr ()) \<and> exec (recordNodeJob op n j) t5 (op', r) \<or>
         (\<exists>e. exec (adoptExistingJob op j ce) t4 (Inl e) \<and> t5 = [] \<and> op' = op \<and> r = Inl e)))"
proof -
  from assms obtain t2 spec y t3 where tr: "tr = t2 @ (CreateJob (upgradeJob op n j spec), y) # t3"
    and spec: "exec (if rebootRequested op then createRebootJobSpec op n (jobBackoffLimit op)
       else createStandardJobSpec op n (jobBackoffLimit op)) t2 spec"
    and k: "exec (case asUnit y of
         Inr _ \<Rightarrow> recordNodeJob op n j
       | Inl createErr \<Rightarrow>
           bind (adoptExistingJob op j createErr) (\<lambda>a. case a of
             Inl e \<Rightarrow> Ret (op, Inl e)
           | Inr _ \<Rightarrow> recordNodeJob op n j)) t3 (op', r)"
    unfolding createJob_def by (auto simp: exec_bind exec_ask)
  show thesis
  proof (cases "asUnit y")
    case (Inr u)
    with k that [OF tr spec] show thesis by simp
  next
    case (Inl ce)
    with k obtain t4 a t5 where "t3 = t4 @ t5" "exec (adoptExistingJob op j ce) t4 a"
      "exec (case a of Inl e \<Rightarrow> Ret (op, Inl e) | Inr _ \<Rightarrow> recordNodeJob op n j) t5 (op', r)"
      by (auto simp: exec_bind)
    with Inl that [OF tr spec] show thesis by (cases a) auto
  qed
qed

text \<open>The executions of createNodeJob, by the outcome of its first read.\<close>

lemma exec_createNodeJob:
  assumes "exec (createNodeJob rd op n j) tr (op', r)"
  obtains (foreign) ex where "tr = [(GetJob rd (Namespace (opMeta op)) j, RJob (Inr ex))]"
      "\<not> IsControlledBy (jobMeta ex) (opMeta op)" "op' = op" "\<exists>e. r = Inl e"
    | (own) ex t where "tr = (GetJob rd (Namespace (opMeta op)) j, RJob (Inr ex)) # t"
      "IsControlledBy (jobMeta ex) (opMeta op)" "exec (recordNodeJob op n j) t (op', r)"
    | (unread) x e where "tr = [(GetJob rd (Namespace (opMeta op)) j, x)]" "asJob x = Inl e"
      "\<not> IsNotFound e" "op' = op" "r = Inl e"
    | (unprepared) x e0 t e where "tr = (GetJob rd (Namespace (opMeta op)) j, x) # t"
      "asJob x = Inl e0" "IsNotFound e0" "exec (prepareNode op n) t (Inl e)" "op' = op" "r = Inl e"
    | (tried) x e0 t1 t2 t3 spec y where
      "tr = (GetJob rd (Namespace (opMeta op)) j, x) # t1 @ t2 @ (CreateJob (upgradeJob op n j spec), y) # t3"
      "asJob x = Inl e0" "IsNotFound e0" "exec (prepareNode op n) t1 (Inr ())"
      "exec (if rebootRequested op then createRebootJobSpec op n (jobBackoffLimit op)
             else createStandardJobSpec op n (jobBackoffLimit op)) t2 spec"
      "y = RUnit (Inr ()) \<and> exec (recordNodeJob op n j) t3 (op', r) \<or>
       (\<exists>ce t4 t5. asUnit y = Inl ce \<and> t3 = t4 @ t5 \<and>
          (exec (adoptExistingJob op j ce) t4 (Inr ()) \<and> exec (recordNodeJob op n j) t5 (op', r) \<or>
           (\<exists>e. exec (adoptExistingJob op j ce) t4 (Inl e) \<and> t5 = [] \<and> op' = op \<and> r = Inl e)))"
proof -
  define create where "create = bind (if rebootRequested op then createRebootJobSpec op n (jobBackoffLimit op)
       else createStandardJobSpec op n (jobBackoffLimit op)) (\<lambda>spec.
     bind (createJob (upgradeJob op n j spec)) (\<lambda>c. case c of
         Inr _ \<Rightarrow> recordNodeJob op n j
       | Inl createErr \<Rightarrow>
           bind (adoptExistingJob op j createErr) (\<lambda>a. case a of
             Inl e \<Rightarrow> Ret (op, Inl e)
           | Inr _ \<Rightarrow> recordNodeJob op n j)))"
  from assms obtain x t where tr: "tr = (GetJob rd (Namespace (opMeta op)) j, x) # t"
    and rest: "exec (case asJob x of
       Inr existing \<Rightarrow>
         if \<not> IsControlledBy (jobMeta existing) (opMeta op)
         then Ret (op, Inl (Errorf (notControlled j op)))
         else recordNodeJob op n j
     | Inl e \<Rightarrow>
         if \<not> IsNotFound e then Ret (op, Inl e)
         else bind (prepareNode op n) (\<lambda>p. case p of Inl e \<Rightarrow> Ret (op, Inl e) | Inr _ \<Rightarrow> create)) t (op', r)"
    unfolding createNodeJob_def getJob_def exec_bind [of "ask _ _"] exec_ask create_def by auto
  show thesis
  proof (cases "asJob x")
    case (Inr ex)
    with tr rest show thesis by (auto split: if_splits intro: foreign own)
  next
    case (Inl e)
    with rest consider (failed) "\<not> IsNotFound e" "t = []" "op' = op" "r = Inl e"
      | (no_prepare) e2 where "IsNotFound e" "exec (prepareNode op n) t (Inl e2)" "op' = op" "r = Inl e2"
      | (prepared) t1 t2 where "IsNotFound e" "t = t1 @ t2" "exec (prepareNode op n) t1 (Inr ())" "exec create t2 (op', r)"
    proof (cases "IsNotFound e")
      case False
      with Inl rest show thesis by (intro failed) auto
    next
      case True
      with Inl rest obtain t1 p t2 where "t = t1 @ t2" "exec (prepareNode op n) t1 p"
        "exec (case p of Inl e \<Rightarrow> Ret (op, Inl e) | Inr _ \<Rightarrow> create) t2 (op', r)"
        by (auto simp: exec_bind)
      with True show thesis by (cases p) (auto intro: no_prepare prepared)
    qed
    then show thesis
    proof cases
      case prepared
      from prepared(4) [unfolded create_def] obtain t3 spec y t4 where t2: "t2 = t3 @ (CreateJob (upgradeJob op n j spec), y) # t4"
        and created: "exec (if rebootRequested op then createRebootJobSpec op n (jobBackoffLimit op)
             else createStandardJobSpec op n (jobBackoffLimit op)) t3 spec"
          "y = RUnit (Inr ()) \<and> exec (recordNodeJob op n j) t4 (op', r) \<or>
           (\<exists>ce t5 t6. asUnit y = Inl ce \<and> t4 = t5 @ t6 \<and>
              (exec (adoptExistingJob op j ce) t5 (Inr ()) \<and> exec (recordNodeJob op n j) t6 (op', r) \<or>
               (\<exists>e. exec (adoptExistingJob op j ce) t5 (Inl e) \<and> t6 = [] \<and> op' = op \<and> r = Inl e)))"
        by (rule exec_createAndRecord)
      show thesis by (rule tried [OF _ Inl prepared(1,3) created]) (simp add: tr prepared(2) t2)
    qed (use tr Inl in \<open>auto intro: unread unprepared\<close>)
  qed
qed

text \<open>The shape of both Job specs.\<close>

lemma exec_jobSpecs:
  assumes "exec (if rebootRequested op then createRebootJobSpec op n b else createStandardJobSpec op n b) tr spec"
  obtains img reporter where
    "spec = jobSpecOf (if rebootRequested op
       then empty_pod_spec\<lparr>NodeName := n, ImagePullSecrets := opImagePullSecrets (opSpec op),
         InitContainers := [nodeopContainer op img], Containers := [reporterContainer reporter],
         Volumes := [hostRootVolume], RestartPolicy := ''Never''\<rparr>
       else empty_pod_spec\<lparr>NodeName := n, ImagePullSecrets := opImagePullSecrets (opSpec op),
         Containers := [nodeopContainer op img],
         Volumes := [hostRootVolume], RestartPolicy := ''Never''\<rparr>) b"
  using assms by (auto simp: createRebootJobSpec_def createStandardJobSpec_def exec_bind split: if_splits)

text \<open>What follows the creation of the Job neither evicts Pods nor creates another Job.\<close>

lemma after_create_quiet:
  assumes "y = RUnit (Inr ()) \<and> exec (recordNodeJob op n j) t3 (op', r) \<or>
       (\<exists>ce t4 t5. asUnit y = Inl ce \<and> t3 = t4 @ t5 \<and>
          (exec (adoptExistingJob op j ce) t4 (Inr ()) \<and> exec (recordNodeJob op n j) t5 (op', r) \<or>
           (\<exists>e. exec (adoptExistingJob op j ce) t4 (Inl e) \<and> t5 = [] \<and> op' = op \<and> r = Inl e)))"
    and "(q, x) \<in> set t3"
  shows "\<not> disruptive q"
proof -
  have rec: "\<not> disruptive q" if "exec (recordNodeJob op n j) t a" "(q, x) \<in> set t" for t a
    using only_exec [OF that(1) only_recordNodeJob that(2)] by (cases q) auto
  have ad: "\<not> disruptive q" if "exec (adoptExistingJob op j ce) t a" "(q, x) \<in> set t" for t a ce
    using only_exec [OF that(1) only_adoptExistingJob that(2)] by (cases q) auto
  show ?thesis using assms rec ad by auto
qed

lemma quiet_kinds: "\<not> disruptive q \<Longrightarrow> \<not> isDelete q \<and> \<not> isCreateJob q"
  by (cases q) auto

lemma before_create_quiet:
  "exec (prepareNode op n) t r \<Longrightarrow> (q, x) \<in> set t \<Longrightarrow> \<not> isCreateJob q"
  using only_exec [OF _ only_prepareNode] by (cases q) fastforce+

lemma spec_quiet:
  "exec (if rebootRequested op then createRebootJobSpec op n b else createStandardJobSpec op n b) t spec
     \<Longrightarrow> (q, x) \<in> set t \<Longrightarrow> \<not> disruptive q"
  using only_exec [OF _ only_jobSpec(1)] only_exec [OF _ only_jobSpec(2)]
  by (cases q) (fastforce split: if_splits)+

section \<open>Properties\<close>

text \<open>
  When the upgrade Job already exists and belongs to the NodeOp, createNodeJob only records
  it: no cordon, no drain, no second Job. When it exists and is not the NodeOp's, nothing is
  written and an error is returned.
\<close>

theorem createNodeJob_resumes:
  assumes "exec (createNodeJob rd op n j) ((GetJob rd (Namespace (opMeta op)) j, RJob (Inr ex)) # t) (op', r)"
  shows "(\<forall>q x. (q, x) \<in> set t \<longrightarrow> isStatusWrite q) \<and>
    (if IsControlledBy (jobMeta ex) (opMeta op)
     then \<exists>tm. statuses op' = put n (jobCreated op j tm) (statuses op)
     else t = [] \<and> op' = op \<and> (\<exists>e. r = Inl e))"
  using assms
  by (rule exec_createNodeJob)
    (auto elim!: exec_recordNodeJob dest: only_exec [OF _ only_recordNodeJob])

definition sample_job :: job where
  "sample_job = upgradeJob sample_op ''n1'' ''up-n1-abcde'' (jobSpecOf empty_pod_spec 6)"

lemma sample_job_controlled: "IsControlledBy (jobMeta sample_job) (opMeta sample_op)"
  by (simp add: sample_job_def upgradeJob_def controlled_by_owner empty_meta_def)

lemma resume_run:
  "\<exists>op'. exec (createNodeJob Live sample_op ''n1'' ''up-n1-abcde'')
     [(GetJob Live ''system'' ''up-n1-abcde'', RJob (Inr sample_job)), (Now, RTime (Time 7)),
      (UpdateNodeOpStatus (setStatus ''n1'' (jobCreated sample_op ''up-n1-abcde'' (Time 7)) sample_op),
        RVersion (Inr ''2''))] (op', Inr ())"
  using sample_job_controlled
  by (simp add: exec_iff_scripted createNodeJob_def recordNodeJob_def client_defs ask_def sample_op_def
      sample_meta_def empty_meta_def)

theorem createNodeJob_resumes_witness:
  "\<exists>op' tm. statuses op' = put ''n1'' (jobCreated sample_op ''up-n1-abcde'' tm) []"
proof -
  obtain op' where run: "exec (createNodeJob Live sample_op ''n1'' ''up-n1-abcde'')
     ((GetJob Live (Namespace (opMeta sample_op)) ''up-n1-abcde'', RJob (Inr sample_job)) # [(Now, RTime (Time 7)),
      (UpdateNodeOpStatus (setStatus ''n1'' (jobCreated sample_op ''up-n1-abcde'' (Time 7)) sample_op),
        RVersion (Inr ''2''))]) (op', Inr ())"
    using resume_run by (auto simp: sample_op_def sample_meta_def)
  from createNodeJob_resumes [OF run] sample_job_controlled show ?thesis
    by (auto simp: sample_op_def)
qed

text \<open>The run of createNodeJob that gets to creating the Job.\<close>

lemma tried_order:
  assumes tr: "tr = (GetJob rd (Namespace (opMeta op)) j, x) # t1 @ t2 @ (CreateJob (upgradeJob op n j spec), y) # t3"
    and x: "asJob x = Inl e0" "IsNotFound e0" and p: "exec (prepareNode op n) t1 (Inr ())"
    and quiet: "\<forall>e \<in> set t2 \<union> set t3. \<not> disruptive (fst e)"
  shows "guarded (\<lambda>g e. cordonSeen n g) (isDelete \<circ> fst) tr"
    and "guarded (\<lambda>g e. (\<exists>x e0. g = (GetJob rd (Namespace (opMeta op)) j, x) \<and> asJob x = Inl e0 \<and> IsNotFound e0))
      (isCreateJob \<circ> fst) tr"
    and "cordonRequested op \<Longrightarrow> guarded (\<lambda>g e. cordonSeen n g) (isCreateJob \<circ> fst) tr"
    and "(CreateJob jb, z) \<in> set tr \<Longrightarrow> jb = upgradeJob op n j spec"
proof -
  define before where "before = (GetJob rd (Namespace (opMeta op)) j, x) # t1 @ t2"
  have tr': "tr = before @ (CreateJob (upgradeJob op n j spec), y) # t3" by (simp add: tr before_def)
  have before: "\<not> (isCreateJob \<circ> fst) ev" if "ev \<in> set before" for ev
    using that before_create_quiet [OF p, of "fst ev" "snd ev"] quiet quiet_kinds by (auto simp: before_def)
  have after: "\<not> (isCreateJob \<circ> fst) ev" if "ev \<in> set t3" for ev
    using that quiet quiet_kinds by auto
  have "guarded (\<lambda>g e. cordonSeen n g) (isDelete \<circ> fst) (t2 @ (CreateJob (upgradeJob op n j spec), y) # t3)"
    by (rule guarded_none) (use quiet quiet_kinds in auto)
  with prepareNode_guarded(1) [OF p] show "guarded (\<lambda>g e. cordonSeen n g) (isDelete \<circ> fst) tr"
    unfolding tr by (intro guarded_Cons guarded_append_both [of _ _ t1]) simp_all
  show "guarded (\<lambda>g e. (\<exists>x e0. g = (GetJob rd (Namespace (opMeta op)) j, x) \<and> asJob x = Inl e0 \<and> IsNotFound e0))
      (isCreateJob \<circ> fst) tr"
    unfolding tr' using before after x by (intro guarded_single) (auto simp: before_def)
  show "guarded (\<lambda>g e. cordonSeen n g) (isCreateJob \<circ> fst) tr" if "cordonRequested op"
    unfolding tr' using before after prepareNode_guarded(2) [OF p _ that]
    by (intro guarded_single) (auto simp: before_def)
  show "jb = upgradeJob op n j spec" if "(CreateJob jb, z) \<in> set tr"
    using that before after unfolding tr' by fastforce
qed

text \<open>The Job is created once, after the drain, and nothing is evicted after it.\<close>

definition drainedFirst :: "node_op \<Rightarrow> string \<Rightarrow> trace \<Rightarrow> bool" where
  "drainedFirst op n tr \<longleftrightarrow> (\<forall>pre jb y post. tr = pre @ (CreateJob jb, y) # post \<longrightarrow>
     (\<forall>opts. drainRequested op opts \<longrightarrow> drained n opts pre) \<and> (\<forall>e \<in> set post. \<not> isDelete (fst e)))"

lemma drainedFirst_none: "(\<And>e. e \<in> set tr \<Longrightarrow> \<not> isCreateJob (fst e)) \<Longrightarrow> drainedFirst op n tr"
  by (fastforce simp: drainedFirst_def)

lemma drainedFirst_tried:
  assumes "tr = (GetJob rd ns j, x) # t1 @ t2 @ (CreateJob jb, y) # t3" and p: "exec (prepareNode op n) t1 (Inr ())"
    and quiet: "\<forall>e \<in> set t2 \<union> set t3. \<not> disruptive (fst e)"
  shows "drainedFirst op n tr"
  unfolding drainedFirst_def
proof (intro allI impI)
  fix pre jb' y' post
  assume eq: "tr = pre @ (CreateJob jb', y') # post"
  define before where "before = (GetJob rd ns j, x) # t1 @ t2"
  have tr: "tr = before @ (CreateJob jb, y) # t3" by (simp add: assms(1) before_def)
  have b: "\<not> isCreateJob (fst ev)" if "ev \<in> set before" for ev
    using that before_create_quiet [OF p, of "fst ev" "snd ev"] quiet quiet_kinds by (auto simp: before_def)
  have a: "\<not> isCreateJob (fst ev)" if "ev \<in> set t3" for ev using that quiet quiet_kinds by auto
  have "(CreateJob jb', y') \<notin> set before" "(CreateJob jb', y') \<notin> set t3" using a b by fastforce+
  then have "pre = before" "post = t3"
    using eq unfolding tr append_eq_append_conv2 by (auto simp: append_eq_Cons_conv Cons_eq_append_conv)
  moreover have "drained n opts before" if "drainRequested op opts" for opts
    using prepareNode_drained [OF p that] by (rule drained_mono) (auto simp: before_def)
  moreover have "\<forall>e \<in> set t3. \<not> isDelete (fst e)" using quiet quiet_kinds by auto
  ultimately show "(\<forall>opts. drainRequested op opts \<longrightarrow> drained n opts pre) \<and> (\<forall>e \<in> set post. \<not> isDelete (fst e))" by simp
qed

text \<open>The Job is recorded after it was created, or found to be this NodeOp's own.\<close>

fun recordsStatus :: "node_req \<Rightarrow> bool" where
  "recordsStatus (UpdateNodeOpStatus _) = True"
| "recordsStatus _ = False"

definition jobThere :: "node_op \<Rightarrow> string \<Rightarrow> node_req \<times> node_resp \<Rightarrow> bool" where
  "jobThere op j g \<longleftrightarrow> (\<exists>jb. g = (CreateJob jb, RUnit (Inr ())) \<and> Name (jobMeta jb) = j \<and> IsControlledBy (jobMeta jb) (opMeta op)) \<or>
     (\<exists>rd ex. g = (GetJob rd (Namespace (opMeta op)) j, RJob (Inr ex)) \<and> IsControlledBy (jobMeta ex) (opMeta op))"

definition recordedLast :: "node_op \<Rightarrow> string \<Rightarrow> string \<Rightarrow> trace \<Rightarrow> bool" where
  "recordedLast op n j tr \<longleftrightarrow> guarded (\<lambda>g e. jobThere op j g) (recordsStatus \<circ> fst) tr \<and>
     (\<forall>w x. (UpdateNodeOpStatus w, x) \<in> set tr \<longrightarrow> (\<exists>tm. w = setStatus n (jobCreated op j tm) op))"

lemma recordedLast_none: "(\<And>e. e \<in> set tr \<Longrightarrow> \<not> recordsStatus (fst e)) \<Longrightarrow> recordedLast op n j tr"
  by (fastforce simp: recordedLast_def intro: guarded_none)

lemma recordedLast_record:
  assumes "exec (recordNodeJob op n j) t a" and "\<And>e. e \<in> set pre \<Longrightarrow> \<not> recordsStatus (fst e)"
    and "\<exists>g \<in> set pre. jobThere op j g"
  shows "recordedLast op n j (pre @ t)"
proof -
  obtain op' r where a: "a = (op', r)" by (cases a)
  from assms(1) [unfolded a] obtain tm y where
    t: "t = [(Now, tm), (UpdateNodeOpStatus (setStatus n (jobCreated op j (asTime tm)) op), y)]" by (rule exec_recordNodeJob)
  have "guarded (\<lambda>g e. jobThere op j g) (recordsStatus \<circ> fst) (pre @ t)"
    by (rule guarded_append) (use assms(2,3) in \<open>auto intro!: guarded_none\<close>)
  moreover have "(UpdateNodeOpStatus w, x) \<notin> set pre" for w x using assms(2) by fastforce
  ultimately show ?thesis by (auto simp: recordedLast_def t)
qed

lemma upgradeJob_controlled: "IsControlledBy (jobMeta (upgradeJob op n j spec)) (opMeta op) \<and> Name (jobMeta (upgradeJob op n j spec)) = j"
  by (simp add: upgradeJob_def controlled_by_owner SetControllerReference_def empty_meta_def)
    (auto simp: IsControlledBy_def GetControllerOf_def)

lemma not_records:
  "exec (prepareNode op n) t r \<Longrightarrow> (q, x) \<in> set t \<Longrightarrow> \<not> recordsStatus q"
  "exec (adoptExistingJob op j e) t r2 \<Longrightarrow> (q, x) \<in> set t \<Longrightarrow> \<not> recordsStatus q"
  "exec (if rebootRequested op then createRebootJobSpec op n b else createStandardJobSpec op n b) t spec
     \<Longrightarrow> (q, x) \<in> set t \<Longrightarrow> \<not> recordsStatus q"
  using only_exec [OF _ only_prepareNode] only_exec [OF _ only_adoptExistingJob] only_exec [OF _ only_jobSpec(1)]
    only_exec [OF _ only_jobSpec(2)]
  by (cases q; fastforce split: if_splits)+

lemma adopted_there:
  "exec (adoptExistingJob op j ce) t (Inr ()) \<Longrightarrow> \<exists>g \<in> set t. jobThere op j g"
  by (auto simp: adoptExistingJob_def exec_attempt getJob_def exec_ask jobThere_def split: if_splits)

lemma recordedLast_tried:
  assumes tr: "tr = (GetJob rd (Namespace (opMeta op)) j, x) # t1 @ t2 @ (CreateJob (upgradeJob op n j spec), y) # t3"
    and p: "exec (prepareNode op n) t1 (Inr ())"
    and s: "exec (if rebootRequested op then createRebootJobSpec op n b else createStandardJobSpec op n b) t2 spec"
    and c: "y = RUnit (Inr ()) \<and> exec (recordNodeJob op n j) t3 (op', r) \<or>
       (\<exists>ce t4 t5. asUnit y = Inl ce \<and> t3 = t4 @ t5 \<and>
          (exec (adoptExistingJob op j ce) t4 (Inr ()) \<and> exec (recordNodeJob op n j) t5 (op', r) \<or>
           (\<exists>e. exec (adoptExistingJob op j ce) t4 (Inl e) \<and> t5 = [] \<and> op' = op \<and> r = Inl e)))"
  shows "recordedLast op n j tr"
proof -
  define before where "before = ((GetJob rd (Namespace (opMeta op)) j, x) # t1 @ t2) @ [(CreateJob (upgradeJob op n j spec), y)]"
  have tr': "tr = before @ t3" by (simp add: tr before_def)
  have b: "\<not> recordsStatus (fst e)" if "e \<in> set before" for e
    using that not_records(1) [OF p, of "fst e" "snd e"] not_records(3) [OF s, of "fst e" "snd e"] by (auto simp: before_def)
  from c consider (made) "y = RUnit (Inr ())" "exec (recordNodeJob op n j) t3 (op', r)"
    | (adopted) ce t4 t5 where "t3 = t4 @ t5" "exec (adoptExistingJob op j ce) t4 (Inr ())" "exec (recordNodeJob op n j) t5 (op', r)"
    | (failed) ce e where "exec (adoptExistingJob op j ce) t3 (Inl e)" by auto
  then show ?thesis
  proof cases
    case made
    have "\<exists>g \<in> set before. jobThere op j g"
      using upgradeJob_controlled [of op n j spec] made(1) by (auto simp: before_def jobThere_def)
    with made(2) b show ?thesis unfolding tr' by (intro recordedLast_record)
  next
    case adopted
    have "recordedLast op n j ((before @ t4) @ t5)"
    proof (rule recordedLast_record [OF adopted(3)])
      show "\<not> recordsStatus (fst e)" if "e \<in> set (before @ t4)" for e
        using that b [of e] not_records(2) [OF adopted(2), of "fst e" "snd e"] by (cases "e \<in> set before") auto
      show "\<exists>g \<in> set (before @ t4). jobThere op j g" using adopted_there [OF adopted(2)] by auto
    qed
    then show ?thesis by (simp add: tr' adopted(1))
  next
    case failed
    then show ?thesis unfolding tr'
      using b not_records(2) [OF failed] by (intro recordedLast_none) (metis Un_iff prod.collapse set_append)
  qed
qed

text \<open>
  C21. The order of createNodeJob, whatever the cluster answers: a Pod is evicted only after the
  node was seen cordoned; an upgrade Job is created only after the live read said no Job of
  that name exists, when cordoning is requested after the node was seen cordoned, and when a drain is
  requested after every evictable Pod of its listing was evicted, and nothing is evicted later; the Job
  is recorded, under this node and its name, only after it was created or found to be controlled by the
  NodeOp. The only node written is the one read under the node's name, with the cordon set or lifted,
  and the Job created is the named one, pinned to the node and controlled by the NodeOp.
\<close>

theorem createNodeJob_order:
  assumes "exec (createNodeJob rd op n j) tr (op', r)"
  shows "guarded (\<lambda>g e. cordonSeen n g) (isDelete \<circ> fst) tr \<and>
    guarded (\<lambda>g e. (\<exists>x e0. g = (GetJob rd (Namespace (opMeta op)) j, x) \<and> asJob x = Inl e0 \<and> IsNotFound e0))
      (isCreateJob \<circ> fst) tr \<and>
    (cordonRequested op \<longrightarrow> guarded (\<lambda>g e. cordonSeen n g) (isCreateJob \<circ> fst) tr) \<and>
    drainedFirst op n tr \<and> recordedLast op n j tr \<and> ownNodeWrites op n tr \<and>
    (\<forall>jb y. (CreateJob jb, y) \<in> set tr \<longrightarrow> Name (jobMeta jb) = j \<and>
       NodeName (templateSpec (jobSpec jb)) = n \<and> IsControlledBy (jobMeta jb) (opMeta op))"
  using assms
proof (cases rule: exec_createNodeJob)
  case (own ex t)
  have "recordedLast op n j ([(GetJob rd (Namespace (opMeta op)) j, RJob (Inr ex))] @ t)"
    using own(2,3) by (intro recordedLast_record) (auto simp: jobThere_def)
  with own show ?thesis
    by (auto elim!: exec_recordNodeJob intro!: guarded_none drainedFirst_none ownNodeWrites_none)
next
  case (unprepared x e0 t e)
  have none: "\<not> (isCreateJob \<circ> fst) ev" if "ev \<in> set tr" for ev
    using that before_create_quiet [OF unprepared(4), of "fst ev" "snd ev"] by (auto simp: unprepared(1))
  have "guarded (\<lambda>g e. cordonSeen n g) (isDelete \<circ> fst) tr"
    unfolding unprepared(1) by (intro guarded_Cons prepareNode_guarded(1) [OF unprepared(4)]) simp
  moreover have "recordedLast op n j tr"
    unfolding unprepared(1) using not_records(1) [OF unprepared(4)] by (intro recordedLast_none) fastforce
  moreover have "ownNodeWrites op n tr"
    unfolding unprepared(1) by (intro ownNodeWrites_Cons prepareNode_own [OF unprepared(4)]) simp
  moreover have "drainedFirst op n tr" using none by (intro drainedFirst_none) simp
  ultimately show ?thesis using none by (fastforce intro!: guarded_none)
next
  case (tried x e0 t1 t2 t3 spec y)
  have quiet: "\<forall>e \<in> set t2 \<union> set t3. \<not> disruptive (fst e)"
    using spec_quiet [OF tried(5)] after_create_quiet [OF tried(6)] by (metis Un_iff prod.collapse)
  note order = tried_order [OF tried(1-4) quiet]
  have "\<not> disruptive q" if "(q, z) \<in> set t2 \<union> set t3" for q z using bspec [OF quiet that] by simp
  then have later: "ownNodeWrites op n (t2 @ (CreateJob (upgradeJob op n j spec), y) # t3)"
    by (intro ownNodeWrites_append ownNodeWrites_Cons ownNodeWrites_none) auto
  have "ownNodeWrites op n tr"
    unfolding tried(1) by (intro ownNodeWrites_Cons ownNodeWrites_append [OF prepareNode_own [OF tried(4)] later]) simp
  note more = this drainedFirst_tried [OF tried(1,4) quiet] recordedLast_tried [OF tried(1,4-6)]
  have "NodeName (templateSpec spec) = n"
    using tried(5) by (rule exec_jobSpecs) (auto simp: jobSpecOf_def)
  then have "Name (jobMeta jb) = j \<and> NodeName (templateSpec (jobSpec jb)) = n \<and> IsControlledBy (jobMeta jb) (opMeta op)"
    if "(CreateJob jb, z) \<in> set tr" for jb z
    using order(4) [OF that]
    upgradeJob_controlled [of op n j spec] by (simp add: upgradeJob_def)
  with order(1-3) more show ?thesis by blast
qed (auto intro!: guarded_none drainedFirst_none recordedLast_none ownNodeWrites_none)

text \<open>A first run of createNodeJob to the end, on a cluster that answers without errors.\<close>

definition sample_answers :: "node_resp list" where
  "sample_answers = [RJob (Inl (ApiError NotFound [])), RNode (Inr sample_node), RUnit (Inr ()),
     RString [], RUnit (Inr ()), RTime (Time 7), RVersion (Inr ''2'')]"

lemma create_run:
  obtains tr op' where "exec (createNodeJob Live sample_op ''n1'' ''up-n1-abcde'') tr (op', Inr ())"
    "map_of (statuses op') ''n1'' = Some (jobCreated sample_op ''up-n1-abcde'' (Time 7))"
    "isCreateJob (fst (tr ! 4))" "length tr = 7"
proof -
  have "\<exists>tr op'. run scripted (createNodeJob Live sample_op ''n1'' ''up-n1-abcde'') sample_answers =
      ((op', Inr ()), tr, []) \<and> isCreateJob (fst (tr ! 4)) \<and> length tr = 7 \<and>
      map_of (statuses op') ''n1'' = Some (jobCreated sample_op ''up-n1-abcde'' (Time 7))"
    by (simp add: createNodeJob_def prepareNode_def cordonNode_def createRebootJobSpec_def
        getNodeOpImage_def bootIDReporterImage_def recordNodeJob_def client_defs ask_def attempt_def
        sample_answers_def sample_op_def sample_spec_def sample_node_def sample_meta_def IsNotFound_def)
  then obtain tr op' where
    r: "run scripted (createNodeJob Live sample_op ''n1'' ''up-n1-abcde'') sample_answers = ((op', Inr ()), tr, [])"
    and rest: "isCreateJob (fst (tr ! 4))" "length tr = 7"
      "map_of (statuses op') ''n1'' = Some (jobCreated sample_op ''up-n1-abcde'' (Time 7))" by blast
  show thesis by (rule that [OF run_exec [OF r]]) (use rest in simp_all)
qed

theorem createNodeJob_order_witness:
  "\<exists>tr. guarded (\<lambda>g e. cordonSeen ''n1'' g) (isCreateJob \<circ> fst) tr \<and> isCreateJob (fst (tr ! 4)) \<and> length tr = 7"
proof (rule create_run)
  fix tr op'
  assume run: "exec (createNodeJob Live sample_op ''n1'' ''up-n1-abcde'') tr (op', Inr ())"
    and "isCreateJob (fst (tr ! 4))" "length tr = 7"
  moreover have "cordonRequested sample_op" by (simp add: sample_op_def sample_spec_def)
  ultimately show ?thesis using createNodeJob_order [OF run] by blast
qed

text \<open>
  When createNodeJob succeeds, the NodeOp in memory records the named Job for the node, as
  pending, with the reboot pending exactly when one is requested; the Job was then created, or
  found to exist and to belong to the NodeOp; and no other node's status has changed. When it
  fails the other nodes' statuses have not changed either.
\<close>

theorem createNodeJob_records:
  assumes "exec (createNodeJob rd op n j) tr (op', r)"
  shows "same_op op op' \<and>
    (\<forall>m. m \<noteq> n \<longrightarrow> map_of (statuses op') m = map_of (statuses op) m) \<and>
    (r = Inr () \<longrightarrow>
       (\<exists>tm. map_of (statuses op') n = Some (jobCreated op j tm)) \<and>
       ((\<exists>jb. (CreateJob jb, RUnit (Inr ())) \<in> set tr) \<or>
        (\<exists>rd' ex. (GetJob rd' (Namespace (opMeta op)) j, RJob (Inr ex)) \<in> set tr \<and>
           IsControlledBy (jobMeta ex) (opMeta op))))"
proof -
  have recorded: "same_op op op' \<and> (\<forall>m. m \<noteq> n \<longrightarrow> map_of (statuses op') m = map_of (statuses op) m) \<and>
      (\<exists>tm. map_of (statuses op') n = Some (jobCreated op j tm))"
    if "exec (recordNodeJob op n j) t (op', r)" for t
    using that by (rule exec_recordNodeJob) auto
  have adopted: "\<exists>ex. (GetJob Cache (Namespace (opMeta op)) j, RJob (Inr ex)) \<in> set t \<and>
      IsControlledBy (jobMeta ex) (opMeta op)"
    if "exec (adoptExistingJob op j ce) t (Inr ())" for t ce
    using that by (auto simp: adoptExistingJob_def exec_attempt getJob_def exec_ask split: if_splits)
  show ?thesis
    using assms
  proof (rule exec_createNodeJob)
    fix x e0 t1 t2 t3 spec y
    assume tr: "tr = (GetJob rd (Namespace (opMeta op)) j, x) # t1 @ t2 @ (CreateJob (upgradeJob op n j spec), y) # t3"
      and "y = RUnit (Inr ()) \<and> exec (recordNodeJob op n j) t3 (op', r) \<or>
       (\<exists>ce t4 t5. asUnit y = Inl ce \<and> t3 = t4 @ t5 \<and>
          (exec (adoptExistingJob op j ce) t4 (Inr ()) \<and> exec (recordNodeJob op n j) t5 (op', r) \<or>
           (\<exists>e. exec (adoptExistingJob op j ce) t4 (Inl e) \<and> t5 = [] \<and> op' = op \<and> r = Inl e)))"
    then consider (c) "y = RUnit (Inr ())" "exec (recordNodeJob op n j) t3 (op', r)"
      | (a) ce t4 t5 where "t3 = t4 @ t5" "exec (adoptExistingJob op j ce) t4 (Inr ())"
          "exec (recordNodeJob op n j) t5 (op', r)"
      | (f) e where "op' = op" "r = Inl e" by blast
    then show ?thesis
    proof cases
      case c
      with tr recorded show ?thesis by auto
    next
      case a
      from adopted [OF a(2)] obtain ex where
        ex: "(GetJob Cache (Namespace (opMeta op)) j, RJob (Inr ex)) \<in> set tr"
          "IsControlledBy (jobMeta ex) (opMeta op)" using tr a(1) by auto
      then show ?thesis using recorded [OF a(3)] by blast
    next
      case f
      then show ?thesis by simp
    qed
  qed (auto dest!: recorded)
qed

theorem createNodeJob_records_witness:
  "\<exists>op' tm. map_of (statuses op') ''n1'' = Some (jobCreated sample_op ''up-n1-abcde'' tm)"
proof (rule create_run)
  fix tr op'
  assume "exec (createNodeJob Live sample_op ''n1'' ''up-n1-abcde'') tr (op', Inr ())"
  from createNodeJob_records [OF this] show ?thesis by blast
qed

text \<open>
  Both kinds of Job run on the node, never restart a Pod in place, mount only declared
  volumes and run the user's command privileged with the host root mounted. With a reboot the
  command is an init container and the boot-id-reporter the only main container, so the boot
  ID is reported only after the command succeeded.
\<close>

theorem upgrade_job_shape:
  assumes "exec (if rebootRequested op then createRebootJobSpec op n b else createStandardJobSpec op n b) tr spec"
  shows "BackoffLimit spec = Some b \<and> NodeName (templateSpec spec) = n \<and>
    RestartPolicy (templateSpec spec) = ''Never'' \<and> mountsResolve (templateSpec spec) \<and>
    (\<exists>img. InitContainers (templateSpec spec) @ Containers (templateSpec spec) =
       nodeopContainer op img # (if rebootRequested op then Containers (templateSpec spec) else [])) \<and>
    (rebootRequested op \<longrightarrow> length (InitContainers (templateSpec spec)) = 1 \<and>
       map cName (Containers (templateSpec spec)) = [ReporterContainerName])"
  using assms
  by (rule exec_jobSpecs)
    (auto simp: jobSpecOf_def mountsResolve_def empty_pod_spec_def nodeopContainer_def reporterContainer_def
      empty_container_def hostRootVolume_def volumeMount_def)

theorem upgrade_job_shape_witness:
  "\<exists>spec :: job_spec. BackoffLimit spec = Some 6 \<and> NodeName (templateSpec spec) = ''n1'' \<and>
     mountsResolve (templateSpec spec) \<and> map cName (Containers (templateSpec spec)) = [ReporterContainerName]"
proof -
  have "rebootRequested sample_op" by (simp add: sample_op_def sample_spec_def)
  moreover obtain tr spec where run:
    "exec (if rebootRequested sample_op then createRebootJobSpec sample_op ''n1'' 6
           else createStandardJobSpec sample_op ''n1'' 6) tr spec"
    using exec_exists by metis
  ultimately show ?thesis using upgrade_job_shape [OF run] by (intro exI [of _ spec]) simp
qed

text \<open>
  A generated upgrade Job name fits the 63 bytes Kubernetes allows and is a valid name,
  for every NodeOp and node name whose combination is a valid name, given the five
  alphanumeric characters \<open>rand.String(5)\<close> returns.
\<close>

theorem newJobName_valid:
  assumes "exec (newJobName op n) tr j"
    and "(RandString 5, RString sfx) \<in> set tr" and "length sfx = 5" and "\<forall>c \<in> set sfx. alnum c"
    and "valid_name (Name (opMeta op) @ ''-'' @ n)"
  shows "valid_name j \<and> length j \<le> 63"
proof -
  have j: "j = the (TruncateNameWithHash (Name (opMeta op) @ ''-'' @ n) 57) @ ''-'' @ sfx"
    using assms(1,2) by (auto simp: newJobName_def Let_def exec_bind client_defs exec_ask
        KubernetesNameLengthLimit_def)
  have "sfx \<noteq> []" using assms(3) by auto
  then have "valid_name j"
    unfolding j by (intro utils_name.generated_valid assms(4,5)) simp
  moreover have "int (length j) \<le> 57 + 6"
    unfolding j by (intro utils_name.generated_fits) (simp_all add: assms(3))
  ultimately show ?thesis by simp
qed

theorem newJobName_valid_witness:
  "valid_name ''up-n1-abcde'' \<and> length ''up-n1-abcde'' \<le> 63"
proof -
  have "exec (newJobName sample_op ''n1'') [(RandString 5, RString ''abcde'')] ''up-n1-abcde''"
    by (simp add: newJobName_def Let_def exec_bind client_defs exec_ask KubernetesNameLengthLimit_def
        sample_op_def sample_meta_def truncate_short)
  then show ?thesis
    by (rule newJobName_valid [where sfx = "''abcde''"])
      (simp_all add: alnum_def valid_name_def sample_op_def sample_meta_def)
qed

end
