(* ===== verification/NodeReboot.thy ===== *)
theory NodeReboot
  imports NodeJobs
begin

text \<open>
  The reboot Pod of a node and the proof of its reboot (nodeop_controller.go: rebootRBACName to
  isNodeReady, rebootPodReady, rebootContainerStatus). The reboot Pod is created before the
  upgrade Job and carries that Job's name.
\<close>

section \<open>Constants\<close>

definition rebootContainerName :: string where [kconst]: "rebootContainerName = ''reboot''"
definition JobNameEnv :: string where [kconst]: "JobNameEnv = ''JOB_NAME''"
definition NamespaceEnv :: string where [kconst]: "NamespaceEnv = ''POD_NAMESPACE''"
definition SubcommandName :: string where [kconst]: "SubcommandName = ''reboot-watcher''"

definition Command :: "string list" where
  "Command = [''/manager'', SubcommandName]"

section \<open>Permissions\<close>

definition rebootRBACName :: "node_op \<Rightarrow> string" where
  "rebootRBACName op = Name (opMeta op) @ ''-reboot''"

definition rebootRoleRules :: "policy_rule list" where
  "rebootRoleRules =
     [\<lparr>Verbs = [''get''], APIGroups = [''batch''], Resources = [''jobs''], ResourceNames = [], NonResourceURLs = []\<rparr>,
      \<lparr>Verbs = [''list''], APIGroups = [''''], Resources = [''pods''], ResourceNames = [], NonResourceURLs = []\<rparr>]"

definition rbacMeta :: "node_op \<Rightarrow> object_meta" where
  "rbacMeta op = SetControllerReference kindNodeOp (opMeta op)
     (empty_meta\<lparr>Name := rebootRBACName op, Namespace := Namespace (opMeta op)\<rparr>)"

text \<open>createRebootRBACObject, on the create request for the object at hand.\<close>

definition createRebootRBACObject :: "node_op \<Rightarrow> string \<Rightarrow> unit res nprog \<Rightarrow> unit res nprog" where
  "createRebootRBACObject op objType create =
     bind create (\<lambda>r. case r of
       Inr _ \<Rightarrow> Ret (Inr ())
     | Inl e \<Rightarrow> if IsAlreadyExists e then Ret (Inr ())
         else Ret (Inl (Wrapf (''creating reboot '' @ objType @ '' '' @ rebootRBACName op) e)))"

definition ensureRebootRole :: "reader \<Rightarrow> node_op \<Rightarrow> unit res nprog" where
  "ensureRebootRole rd op =
     bind (getRole rd (Namespace (opMeta op)) (rebootRBACName op)) (\<lambda>found. case found of
       Inl e \<Rightarrow>
         if IsNotFound e
         then bind (createRole \<lparr>roleMeta = rbacMeta op, Rules = rebootRoleRules\<rparr>) (\<lambda>c. case c of
                Inl ce \<Rightarrow> Ret (Inl (Wrapf (''creating reboot Role '' @ rebootRBACName op) ce))
              | Inr _ \<Rightarrow> Ret (Inr ()))
         else Ret (Inl (Wrapf (''getting reboot Role '' @ rebootRBACName op) e))
     | Inr ro \<Rightarrow>
         if Rules ro = rebootRoleRules then Ret (Inr ())
         else bind (updateRole (ro\<lparr>Rules := rebootRoleRules\<rparr>)) (\<lambda>u. case u of
                Inl ue \<Rightarrow> Ret (Inl (Wrapf (''updating reboot Role '' @ rebootRBACName op) ue))
              | Inr _ \<Rightarrow> Ret (Inr ())))"

definition rebootRoleBinding :: "node_op \<Rightarrow> role_binding" where
  "rebootRoleBinding op =
     \<lparr>rbMeta = rbacMeta op,
      Subjects = [\<lparr>subKind = ''ServiceAccount'', subName = rebootRBACName op,
                   subNamespace = Namespace (opMeta op)\<rparr>],
      RoleRef = \<lparr>refAPIGroup = ''rbac.authorization.k8s.io'', refKind = ''Role'',
                 refName = rebootRBACName op\<rparr>\<rparr>"

definition ensureRebootRBAC :: "reader \<Rightarrow> node_op \<Rightarrow> unit res nprog" where
  "ensureRebootRBAC rd op =
     attempt (createRebootRBACObject op ''*v1.ServiceAccount'' (createServiceAccount (rbacMeta op))) (\<lambda>_.
     attempt (ensureRebootRole rd op) (\<lambda>_.
     createRebootRBACObject op ''*v1.RoleBinding'' (createRoleBinding (rebootRoleBinding op))))"

section \<open>The reboot Pod\<close>

definition noExecuteToleration :: "string \<Rightarrow> toleration" where
  "noExecuteToleration key = \<lparr>tolKey = key, tolOperator = ''Exists'', tolEffect = ''NoExecute''\<rparr>"

definition rebootPodOf :: "node_op \<Rightarrow> string \<Rightarrow> string \<Rightarrow> string \<Rightarrow> pod" where
  "rebootPodOf op nodeName jobName operatorImage =
     \<lparr>podMeta = SetControllerReference kindNodeOp (opMeta op) (empty_meta\<lparr>
        GenerateName := the (TruncateNameWithHash (Name (opMeta op) @ ''-reboot'')
                               (KubernetesNameLengthLimit - 6)) @ ''-'',
        Namespace := Namespace (opMeta op),
        Labels := [(labelKeyNodeOp, Name (opMeta op)), (labelKeyReboot, ''true''), (labelKeyNode, nodeName)]\<rparr>),
      podSpec = empty_pod_spec\<lparr>
        NodeName := nodeName, HostPID := True,
        Containers := [empty_container\<lparr>
          cName := rebootContainerName, cImage := operatorImage,
          cResources := RebootResourcesOrDefault op, cCommand := Command,
          cSecurityContext := Some (privileged\<lparr>scRunAsUser := Some 0\<rparr>),
          cEnv := [envValueOf JobNameEnv jobName,
                   \<lparr>envName = NamespaceEnv, envValue = [], envFieldRef = Some ''metadata.namespace''\<rparr>]\<rparr>],
        RestartPolicy := ''OnFailure'', ServiceAccountName := rebootRBACName op,
        Tolerations := [noExecuteToleration ''node.kubernetes.io/not-ready'',
                        noExecuteToleration ''node.kubernetes.io/unreachable'']\<rparr>,
      podStatus = empty_pod_status\<rparr>"

definition createRebootPod :: "reader \<Rightarrow> node_op \<Rightarrow> string \<Rightarrow> string \<Rightarrow> pod res nprog" where
  "createRebootPod rd op nodeName jobName =
     attempt (ensureRebootRBAC rd op) (\<lambda>_.
     bind (getenv ''OPERATOR_IMAGE'') (\<lambda>img.
     createPod (rebootPodOf op nodeName jobName
       (if img = [] then ''quay.io/kairos/kairos-operator:latest'' else img))))"

definition rebootSelector :: "node_op \<Rightarrow> string \<Rightarrow> strmap" where
  "rebootSelector op nodeName =
     [(labelKeyNodeOp, Name (opMeta op)), (labelKeyReboot, ''true''), (labelKeyNode, nodeName)]"

definition listRebootPods :: "reader \<Rightarrow> node_op \<Rightarrow> string \<Rightarrow> pod list res nprog" where
  "listRebootPods rd op nodeName =
     listPods rd (Some (Namespace (opMeta op))) (rebootSelector op nodeName)"

definition terminating :: "pod \<Rightarrow> bool" where
  "terminating p \<longleftrightarrow> DeletionTimestamp (podMeta p) \<noteq> None"

definition deleteRebootPods :: "pod list \<Rightarrow> unit res nprog" where
  "deleteRebootPods pods =
     forEach (\<lambda>p. if terminating p then Ret (Inr ())
       else bind (deletePod p None) (\<lambda>r. case r of
              Inl e \<Rightarrow> if IsNotFound e then Ret (Inr ()) else Ret (Inl e)
            | Inr _ \<Rightarrow> Ret (Inr ()))) pods"

text \<open>The three groups of keepOneRebootPod: terminating, finished and live.\<close>

definition podFinished :: "pod \<Rightarrow> bool" where
  "podFinished p \<longleftrightarrow> podPhase (podStatus p) = PodSucceeded \<or> podPhase (podStatus p) = PodFailed"

definition finishedPods :: "pod list \<Rightarrow> pod list" where
  "finishedPods pods = filter (\<lambda>p. \<not> terminating p \<and> podFinished p) pods"

definition livePods :: "pod list \<Rightarrow> pod list" where
  "livePods pods = filter (\<lambda>p. \<not> terminating p \<and> \<not> podFinished p) pods"

definition keepOneRebootPod :: "reader \<Rightarrow> node_op \<Rightarrow> string \<Rightarrow> pod option res nprog" where
  "keepOneRebootPod rd op nodeName =
     attempt (listRebootPods rd op nodeName) (\<lambda>pods.
     attempt (deleteRebootPods (finishedPods pods)) (\<lambda>_.
       case sort_key (\<lambda>p. (CreationTimestamp (podMeta p), Name (podMeta p))) (livePods pods) of
         [] \<Rightarrow> Ret (Inr None)
       | oldest # others \<Rightarrow> attempt (deleteRebootPods others) (\<lambda>_. Ret (Inr (Some oldest)))))"

text \<open>The first environment variable of that name, over all containers.\<close>

definition rebootPodJobName :: "pod \<Rightarrow> string" where
  "rebootPodJobName p =
     (case find (\<lambda>e. envName e = JobNameEnv) (concat (map cEnv (Containers (podSpec p)))) of
        Some e \<Rightarrow> envValue e
      | None \<Rightarrow> [])"

definition cleanupRebootPodForNode :: "node_op \<Rightarrow> string \<Rightarrow> unit res nprog" where
  "cleanupRebootPodForNode op nodeName =
     attempt (listRebootPods Cache op nodeName) deleteRebootPods"

definition rebootContainerStatus :: "pod \<Rightarrow> container_status option" where
  "rebootContainerStatus p = find (\<lambda>s. csName s = rebootContainerName) (ContainerStatuses (podStatus p))"

text \<open>The last Ready condition decides.\<close>

definition podReadyCondition :: "condition list \<Rightarrow> bool" where
  "podReadyCondition cs =
     foldl (\<lambda>ready c. if condType c = PodReady then condStatus c = ConditionTrue else ready) False cs"

definition rebootPodReady :: "pod \<Rightarrow> bool" where
  "rebootPodReady p =
     (if \<not> podReadyCondition (podConditions (podStatus p)) then False
      else case rebootContainerStatus p of None \<Rightarrow> False | Some s \<Rightarrow> csRunning s)"

section \<open>Was the node rebooted\<close>

text \<open>The first Ready condition decides.\<close>

definition isNodeReady :: "node \<Rightarrow> bool" where
  "isNodeReady nd =
     (case find (\<lambda>c. condType c = NodeReady) (nodeConditions nd) of
        Some c \<Rightarrow> condStatus c = ConditionTrue
      | None \<Rightarrow> False)"

definition nodeRebootedSince :: "string \<Rightarrow> string \<Rightarrow> bool res nprog" where
  "nodeRebootedSince nodeName preRebootBootID =
     (if preRebootBootID = [] then Ret (Inr False)
      else bind (getNode nodeName) (\<lambda>r. case r of
          Inl e \<Rightarrow> if IsNotFound e then Ret (Inr False) else Ret (Inl e)
        | Inr nd \<Rightarrow>
            if BootID nd = [] \<or> BootID nd = preRebootBootID then Ret (Inr False)
            else Ret (Inr (isNodeReady nd))))"

definition jobPodBootID :: "string \<Rightarrow> string \<Rightarrow> string res nprog" where
  "jobPodBootID ns jobName =
     (if jobName = [] then Ret (Inr [])
      else attempt (listPods Cache (Some ns) [(JobNameLabel, jobName)]) (\<lambda>pods.
        Ret (Inr (FromJobPods pods))))"

definition isRebootCompleted ::
  "node_op \<Rightarrow> string \<Rightarrow> node_status \<Rightarrow> (node_status \<times> bool res) nprog" where
  "isRebootCompleted op nodeName st =
     (if nsPreRebootBootID st = [] then
        bind (jobPodBootID (Namespace (opMeta op)) (nsJobName st)) (\<lambda>r. case r of
          Inl e \<Rightarrow> Ret (st, Inl e)
        | Inr bootID \<Rightarrow>
            if \<not> Valid bootID then Ret (st, Inr False)
            else bind now (\<lambda>t.
              let st' = st\<lparr>nsPreRebootBootID := bootID, nsLastUpdated := t\<rparr>
              in bind (nodeRebootedSince nodeName bootID) (\<lambda>b. Ret (st', b))))
      else bind (nodeRebootedSince nodeName (nsPreRebootBootID st)) (\<lambda>b. Ret (st, b)))"

section \<open>Lemmas\<close>

text \<open>One iteration of deleteRebootPods.\<close>

definition deleteOne :: "pod \<Rightarrow> unit res nprog" where
  "deleteOne p = (if terminating p then Ret (Inr ())
     else bind (deletePod p None) (\<lambda>r. case r of
            Inl e \<Rightarrow> if IsNotFound e then Ret (Inr ()) else Ret (Inl e)
          | Inr _ \<Rightarrow> Ret (Inr ())))"

lemma exec_deleteOne:
  assumes "exec (deleteOne p) t a"
  obtains (skip) "terminating p" "t = []" "a = Inr ()"
    | (del) x where "\<not> terminating p"
      "t = [(DeletePod (Namespace (podMeta p)) (Name (podMeta p)) None, x)]"
      "a = Inr () \<Longrightarrow> x = RUnit (Inr ()) \<or> (\<exists>e. asUnit x = Inl e \<and> IsNotFound e)"
proof (cases "terminating p")
  case True
  with assms show thesis by (intro skip) (auto simp: deleteOne_def)
next
  case False
  with assms obtain x t' where t: "t = (DeletePod (Namespace (podMeta p)) (Name (podMeta p)) None, x) # t'"
    and rest: "exec (case asUnit x of Inl e \<Rightarrow> if IsNotFound e then Ret (Inr ()) else Ret (Inl e)
          | Inr _ \<Rightarrow> Ret (Inr ())) t' a"
    by (auto simp: deleteOne_def deletePod_def exec_ask_bind)
  show thesis
  proof (cases "asUnit x")
    case (Inl e)
    with rest t False show thesis by (intro del [of x]) (auto split: if_splits)
  next
    case (Inr u)
    with rest t False show thesis by (intro del [of x]) auto
  qed
qed

lemma deleteRebootPods_loop: "deleteRebootPods ps = forEach deleteOne ps"
  by (simp add: deleteRebootPods_def deleteOne_def [abs_def])

lemma deleteRebootPods_event:
  assumes "exec (deleteRebootPods ps) tr r" and "(q, x) \<in> set tr"
  obtains p where "p \<in> set ps" "\<not> terminating p"
    "q = DeletePod (Namespace (podMeta p)) (Name (podMeta p)) None"
proof -
  from assms(1) have "exec (forEach deleteOne ps) tr r" by (simp add: deleteRebootPods_loop)
  from exec_forEach_event [OF this assms(2)] obtain p t a where "p \<in> set ps" "(q, x) \<in> set t"
    and one: "exec (deleteOne p) t a" by blast
  from one show thesis
    by (rule exec_deleteOne) (use \<open>p \<in> set ps\<close> \<open>(q, x) \<in> set t\<close> in \<open>auto intro: that\<close>)
qed

text \<open>A Pod that a trace shows deleted or already gone.\<close>

definition podGone :: "trace \<Rightarrow> pod \<Rightarrow> bool" where
  "podGone tr p \<longleftrightarrow> (\<exists>x. (DeletePod (Namespace (podMeta p)) (Name (podMeta p)) None, x) \<in> set tr \<and>
     (x = RUnit (Inr ()) \<or> (\<exists>e. asUnit x = Inl e \<and> IsNotFound e)))"

lemma podGone_mono: "podGone t p \<Longrightarrow> set t \<subseteq> set tr \<Longrightarrow> podGone tr p"
  unfolding podGone_def by blast

lemma deleteRebootPods_ok:
  assumes "exec (deleteRebootPods ps) tr (Inr ())" and "p \<in> set ps" and "\<not> terminating p"
  shows "podGone tr p"
proof -
  from assms(1) have "exec (forEach deleteOne ps) tr (Inr ())" by (simp add: deleteRebootPods_loop)
  from exec_forEach_ok [OF this assms(2)] obtain t where one: "exec (deleteOne p) t (Inr ())"
    and sub: "set t \<subseteq> set tr" by blast
  from one have "podGone t p"
    by (rule exec_deleteOne) (use assms(3) in \<open>auto simp: podGone_def\<close>)
  then show ?thesis using sub by (rule podGone_mono)
qed

definition podKey :: "pod \<Rightarrow> time \<times> string" where
  "podKey p = (CreationTimestamp (podMeta p), Name (podMeta p))"

lemma sort_key_head:
  "sort_key f xs = y # ys \<Longrightarrow> y \<in> set xs \<and> set xs = insert y (set ys) \<and> (\<forall>x \<in> set xs. f y \<le> f x)"
proof -
  assume eq: "sort_key f xs = y # ys"
  have st: "set xs = insert y (set ys)" using eq set_sort [of f xs] by (metis list.simps(15))
  moreover have "sorted (map f (y # ys))" using sorted_sort_key [of f xs] by (simp only: eq)
  ultimately show ?thesis by auto
qed

lemma sorted_live:
  assumes "sort_key podKey (livePods ps) = k # others"
  shows "k \<in> set ps \<and> \<not> terminating k \<and> \<not> podFinished k \<and>
    (\<forall>p. p \<in> set others \<longrightarrow> p \<in> set ps \<and> \<not> terminating p \<and> \<not> podFinished p) \<and>
    (\<forall>p \<in> set ps. \<not> terminating p \<and> \<not> podFinished p \<longrightarrow> podKey k \<le> podKey p \<and> (p = k \<or> p \<in> set others)) \<and>
    (distinct ps \<longrightarrow> k \<notin> set others)"
proof -
  have "distinct ps \<longrightarrow> distinct (sort_key podKey (livePods ps))" by (simp add: livePods_def)
  then have "distinct ps \<longrightarrow> k \<notin> set others" by (simp add: assms)
  with sort_key_head [OF assms] show ?thesis by (auto simp: livePods_def)
qed

lemma find_concat_job:
  "rebootPodJobName (rebootPodOf op n j img) = j"
  by (simp add: rebootPodJobName_def rebootPodOf_def empty_pod_spec_def empty_container_def
      envValueOf_def kconst)

lemma exec_jobPodBootID:
  assumes "exec (jobPodBootID ns j) tr (Inr b)" and "b \<noteq> []"
  obtains ps where "tr = [(ListPods Cache (Some ns) [(JobNameLabel, j)], RPods (Inr ps))]"
    "b = FromJobPods ps"
  using assms by (auto simp: jobPodBootID_def exec_attempt listPods_def exec_ask split: if_splits)

lemma exec_nodeRebootedSince:
  assumes "exec (nodeRebootedSince n b) tr (Inr True)"
  obtains nd where "tr = [(GetNode n, RNode (Inr nd))]" "isNodeReady nd" "BootID nd \<noteq> []"
    "BootID nd \<noteq> b" "b \<noteq> []"
proof (cases "b = []")
  case True
  with assms show thesis by (simp add: nodeRebootedSince_def)
next
  case False
  with assms obtain x t where tr: "tr = (GetNode n, x) # t"
    and rest: "exec (case asNode x of
          Inl e \<Rightarrow> if IsNotFound e then Ret (Inr False) else Ret (Inl e)
        | Inr nd \<Rightarrow>
            if BootID nd = [] \<or> BootID nd = b then Ret (Inr False)
            else Ret (Inr (isNodeReady nd))) t (Inr True)"
    by (auto simp: nodeRebootedSince_def getNode_def exec_ask_bind)
  show thesis
  proof (cases "asNode x")
    case (Inl e)
    with rest show thesis by (auto split: if_splits)
  next
    case (Inr nd)
    with rest tr False show thesis by (intro that [of nd]) (auto split: if_splits)
  qed
qed

fun reads :: "node_req \<Rightarrow> bool" where
  "reads (GetNode _) = True"
| "reads (ListPods _ _ _) = True"
| "reads (GetJob _ _ _) = True"
| "reads Now = True"
| "reads _ = False"

lemma only_isRebootCompleted: "only reads (isRebootCompleted op n st)"
  unfolding isRebootCompleted_def jobPodBootID_def nodeRebootedSince_def client_defs
  by (auto intro!: only_bind only_attempt split: sum.splits)

text \<open>Two statuses of a node that differ at most in the recorded boot ID and the time stamp.\<close>

definition same_progress :: "node_status \<Rightarrow> node_status \<Rightarrow> bool" where
  "same_progress a b \<longleftrightarrow> nsPhase b = nsPhase a \<and> nsJobName b = nsJobName a \<and>
     nsMessage b = nsMessage a \<and> nsRebootStatus b = nsRebootStatus a"

lemma exec_isRebootCompleted:
  assumes "exec (isRebootCompleted op n st) tr (st', r)"
  shows "same_progress st st' \<and> (nsPreRebootBootID st \<noteq> [] \<longrightarrow> st' = st) \<and>
    (st' = st \<or> Valid (nsPreRebootBootID st'))"
proof (cases "nsPreRebootBootID st = []")
  case False
  with assms show ?thesis by (auto simp: isRebootCompleted_def exec_bind same_progress_def)
next
  case True
  with assms obtain t1 x t2 where "exec (case x of Inl e \<Rightarrow> Ret (st, Inl e)
      | Inr bootID \<Rightarrow>
          if \<not> Valid bootID then Ret (st, Inr False)
          else bind now (\<lambda>t.
            let st' = st\<lparr>nsPreRebootBootID := bootID, nsLastUpdated := t\<rparr>
            in bind (nodeRebootedSince n bootID) (\<lambda>b. Ret (st', b)))) t2 (st', r)"
    by (auto simp: isRebootCompleted_def exec_bind)
  with True show ?thesis
    by (cases x) (auto simp: exec_bind Let_def same_progress_def split: if_splits)
qed

lemma exec_keepOneRebootPod:
  assumes "exec (keepOneRebootPod rd op n) tr r"
  obtains (list_error) y e where "r = Inl e"
      "tr = [(ListPods rd (Some (Namespace (opMeta op))) (rebootSelector op n), y)]"
    | (finished_error) ps t e where
      "tr = (ListPods rd (Some (Namespace (opMeta op))) (rebootSelector op n), RPods (Inr ps)) # t"
      "exec (deleteRebootPods (finishedPods ps)) t (Inl e)" "r = Inl e"
    | (no_live) ps t where
      "tr = (ListPods rd (Some (Namespace (opMeta op))) (rebootSelector op n), RPods (Inr ps)) # t"
      "exec (deleteRebootPods (finishedPods ps)) t (Inr ())" "r = Inr None" "livePods ps = []"
    | (others_error) ps k others t1 t2 e where
      "tr = (ListPods rd (Some (Namespace (opMeta op))) (rebootSelector op n), RPods (Inr ps)) # t1 @ t2"
      "exec (deleteRebootPods (finishedPods ps)) t1 (Inr ())" "sort_key podKey (livePods ps) = k # others"
      "exec (deleteRebootPods others) t2 (Inl e)" "r = Inl e"
    | (kept) ps k others t1 t2 where
      "tr = (ListPods rd (Some (Namespace (opMeta op))) (rebootSelector op n), RPods (Inr ps)) # t1 @ t2"
      "exec (deleteRebootPods (finishedPods ps)) t1 (Inr ())" "sort_key podKey (livePods ps) = k # others"
      "exec (deleteRebootPods others) t2 (Inr ())" "r = Inr (Some k)"
proof -
  have key: "(\<lambda>p. (CreationTimestamp (podMeta p), Name (podMeta p))) = podKey"
    by (simp add: podKey_def fun_eq_iff)
  from assms consider (l) y e where "r = Inl e"
      "tr = [(ListPods rd (Some (Namespace (opMeta op))) (rebootSelector op n), y)]"
    | (f) ps t e where
      "tr = (ListPods rd (Some (Namespace (opMeta op))) (rebootSelector op n), RPods (Inr ps)) # t"
      "exec (deleteRebootPods (finishedPods ps)) t (Inl e)" "r = Inl e"
    | (d) ps t1 t2 where
      "tr = (ListPods rd (Some (Namespace (opMeta op))) (rebootSelector op n), RPods (Inr ps)) # t1 @ t2"
      "exec (deleteRebootPods (finishedPods ps)) t1 (Inr ())"
      "exec (case sort_key podKey (livePods ps) of [] \<Rightarrow> Ret (Inr None)
        | oldest # others \<Rightarrow> attempt (deleteRebootPods others) (\<lambda>_. Ret (Inr (Some oldest)))) t2 r"
    unfolding keepOneRebootPod_def listRebootPods_def listPods_def exec_attempt exec_ask key by auto
  then show thesis
  proof cases
    case l
    then show thesis by (rule list_error)
  next
    case f
    then show thesis by (rule finished_error)
  next
    case d
    show thesis
    proof (cases "sort_key podKey (livePods ps)")
      case Nil
      moreover from Nil have "livePods ps = []" by (metis length_sort length_0_conv)
      ultimately show thesis using d by (intro no_live [of ps t1]) auto
    next
      case (Cons k others)
      with d show thesis
        by (auto simp: exec_attempt intro: others_error kept)
    qed
  qed
qed

text \<open>What has to be seen before the reboot Pod may rely on its permissions.\<close>

definition roleGranted :: "node_req \<times> node_resp \<Rightarrow> bool" where
  "roleGranted ev \<longleftrightarrow> (\<exists>ro. Rules ro = rebootRoleRules \<and>
     ((\<exists>rd ns nm. ev = (GetRole rd ns nm, RRole (Inr ro))) \<or> ev = (CreateRole ro, RUnit (Inr ())) \<or>
      ev = (UpdateRole ro, RUnit (Inr ()))))"

definition existsNow :: "node_resp \<Rightarrow> bool" where
  "existsNow x \<longleftrightarrow> x = RUnit (Inr ()) \<or> (\<exists>e. asUnit x = Inl e \<and> IsAlreadyExists e)"

definition roleBound :: "node_op \<Rightarrow> node_req \<times> node_resp \<Rightarrow> bool" where
  "roleBound op ev \<longleftrightarrow> (\<exists>x. ev = (CreateRoleBinding (rebootRoleBinding op), x) \<and> existsNow x)"

fun isCreatePod :: "node_req \<Rightarrow> bool" where
  "isCreatePod (CreatePod _) = True"
| "isCreatePod _ = False"

fun isCreateRoleBinding :: "node_req \<Rightarrow> bool" where
  "isCreateRoleBinding (CreateRoleBinding _) = True"
| "isCreateRoleBinding _ = False"

fun roleAccess :: "node_req \<Rightarrow> bool" where
  "roleAccess (GetRole _ _ _) = True"
| "roleAccess (CreateRole _) = True"
| "roleAccess (UpdateRole _) = True"
| "roleAccess _ = False"

lemma exec_createRebootRBACObject:
  assumes "exec (createRebootRBACObject op ty (ask q asUnit)) tr r"
  obtains x where "tr = [(q, x)]" "r = Inr () \<longleftrightarrow> existsNow x"
proof -
  from assms obtain x t where tr: "tr = (q, x) # t" and rest: "exec (case asUnit x of
       Inr _ \<Rightarrow> Ret (Inr ())
     | Inl e \<Rightarrow> if IsAlreadyExists e then Ret (Inr ())
         else Ret (Inl (Wrapf (''creating reboot '' @ ty @ '' '' @ rebootRBACName op) e))) t r"
    unfolding createRebootRBACObject_def exec_ask_bind by blast
  show thesis
    by (rule that [of x], insert tr rest; cases "asUnit x") (auto simp: existsNow_def split: if_splits)
qed

lemma only_ensureRebootRole: "only roleAccess (ensureRebootRole rd op)"
  unfolding ensureRebootRole_def client_defs by (auto intro!: only_bind split: sum.splits)

lemma exec_ensureRebootRole:
  assumes "exec (ensureRebootRole rd op) tr (Inr ())"
  shows "\<exists>g \<in> set tr. roleGranted g"
proof -
  from assms obtain x t where tr: "tr = (GetRole rd (Namespace (opMeta op)) (rebootRBACName op), x) # t"
    and rest: "exec (case asRole x of
       Inl e \<Rightarrow>
         if IsNotFound e
         then bind (createRole \<lparr>roleMeta = rbacMeta op, Rules = rebootRoleRules\<rparr>) (\<lambda>c. case c of
                Inl ce \<Rightarrow> Ret (Inl (Wrapf (''creating reboot Role '' @ rebootRBACName op) ce))
              | Inr _ \<Rightarrow> Ret (Inr ()))
         else Ret (Inl (Wrapf (''getting reboot Role '' @ rebootRBACName op) e))
     | Inr ro \<Rightarrow>
         if Rules ro = rebootRoleRules then Ret (Inr ())
         else bind (updateRole (ro\<lparr>Rules := rebootRoleRules\<rparr>)) (\<lambda>u. case u of
                Inl ue \<Rightarrow> Ret (Inl (Wrapf (''updating reboot Role '' @ rebootRBACName op) ue))
              | Inr _ \<Rightarrow> Ret (Inr ()))) t (Inr ())"
    unfolding ensureRebootRole_def getRole_def exec_ask_bind by blast
  show ?thesis
  proof (cases "asRole x")
    case (Inl e)
    with rest obtain y t' where "t = (CreateRole \<lparr>roleMeta = rbacMeta op, Rules = rebootRoleRules\<rparr>, y) # t'"
      "y = RUnit (Inr ())" by (auto simp: createRole_def exec_ask_bind exec_wrapped split: if_splits)
    with tr show ?thesis by (auto simp: roleGranted_def)
  next
    case (Inr ro)
    show ?thesis
    proof (cases "Rules ro = rebootRoleRules")
      case True
      with Inr tr show ?thesis by (auto simp: roleGranted_def)
    next
      case False
      with Inr rest obtain y t' where "t = (UpdateRole (ro\<lparr>Rules := rebootRoleRules\<rparr>), y) # t'"
        "y = RUnit (Inr ())" by (auto simp: updateRole_def exec_ask_bind exec_wrapped)
      with tr show ?thesis by (auto simp: roleGranted_def)
    qed
  qed
qed

lemma exec_ensureRebootRBAC:
  assumes "exec (ensureRebootRBAC rd op) tr r"
  obtains (account) x e where "tr = [(CreateServiceAccount (rbacMeta op), x)]" "r = Inl e"
    | (role) x t e where "tr = (CreateServiceAccount (rbacMeta op), x) # t"
        "exec (ensureRebootRole rd op) t (Inl e)" "r = Inl e"
    | (binding) x t y where "tr = (CreateServiceAccount (rbacMeta op), x) # t @
          [(CreateRoleBinding (rebootRoleBinding op), y)]"
        "exec (ensureRebootRole rd op) t (Inr ())" "r = Inr () \<longleftrightarrow> existsNow y"
proof -
  have sa: "\<exists>x. t = [(CreateServiceAccount (rbacMeta op), x)]"
    if "exec (createRebootRBACObject op ''*v1.ServiceAccount'' (createServiceAccount (rbacMeta op))) t a" for t a
    using that unfolding createServiceAccount_def by (auto elim: exec_createRebootRBACObject)
  have rb: "\<exists>y. t = [(CreateRoleBinding (rebootRoleBinding op), y)] \<and> (a = Inr () \<longleftrightarrow> existsNow y)"
    if "exec (createRebootRBACObject op ''*v1.RoleBinding'' (createRoleBinding (rebootRoleBinding op))) t a" for t a
    using that unfolding createRoleBinding_def by (auto elim: exec_createRebootRBACObject)
  from assms show thesis
    unfolding ensureRebootRBAC_def exec_attempt
    by (fastforce dest!: sa rb intro: account role binding)
qed

lemma ensureRebootRBAC_order:
  assumes "exec (ensureRebootRBAC rd op) tr r"
  shows "guarded (\<lambda>g e. roleGranted g) (isCreateRoleBinding \<circ> fst) tr \<and>
    (\<forall>q x. (q, x) \<in> set tr \<longrightarrow> \<not> isCreatePod q) \<and>
    (r = Inr () \<longrightarrow> (\<exists>g \<in> set tr. roleBound op g))"
proof -
  have role: "\<not> isCreatePod q \<and> \<not> isCreateRoleBinding q"
    if "exec (ensureRebootRole rd op) t a" "(q, x) \<in> set t" for t a q x
    using only_exec [OF that(1) only_ensureRebootRole that(2)] by (cases q) auto
  from assms show ?thesis
  proof (rule exec_ensureRebootRBAC)
    fix x t e
    assume "tr = (CreateServiceAccount (rbacMeta op), x) # t" "exec (ensureRebootRole rd op) t (Inl e)" "r = Inl e"
    then show ?thesis by (auto intro!: guarded_none dest: role)
  next
    fix x t y
    assume tr: "tr = (CreateServiceAccount (rbacMeta op), x) # t @ [(CreateRoleBinding (rebootRoleBinding op), y)]"
      and ro: "exec (ensureRebootRole rd op) t (Inr ())" and ok: "r = Inr () \<longleftrightarrow> existsNow y"
    have tr': "tr = ((CreateServiceAccount (rbacMeta op), x) # t) @ [(CreateRoleBinding (rebootRoleBinding op), y)]"
      by (simp add: tr)
    have "guarded (\<lambda>g e. roleGranted g) (isCreateRoleBinding \<circ> fst) tr"
      unfolding tr' using exec_ensureRebootRole [OF ro] role [OF ro] by (intro guarded_single) auto
    then show ?thesis using ok role [OF ro] by (auto simp: tr roleBound_def)
  qed (auto intro!: guarded_none)
qed

text \<open>The evidence behind a reported reboot, shared by the handlers that ask for it.\<close>

definition rebootProven :: "string \<Rightarrow> string \<Rightarrow> trace \<Rightarrow> bool" where
  "rebootProven n bootID tr \<longleftrightarrow> bootID \<noteq> [] \<and>
     (\<exists>nd. (GetNode n, RNode (Inr nd)) \<in> set tr \<and> isNodeReady nd \<and> BootID nd \<noteq> [] \<and> BootID nd \<noteq> bootID)"

lemma rebootProven_mono: "rebootProven n b t \<Longrightarrow> set t \<subseteq> set tr \<Longrightarrow> rebootProven n b tr"
  unfolding rebootProven_def by blast

lemma nodeRebootedSince_proven: "exec (nodeRebootedSince n b) tr (Inr True) \<Longrightarrow> rebootProven n b tr"
  by (erule exec_nodeRebootedSince) (auto simp: rebootProven_def)

lemma isRebootCompleted_proven:
  assumes "exec (isRebootCompleted op n st) tr (st', Inr True)"
  shows "rebootProven n (nsPreRebootBootID st') tr"
proof (cases "nsPreRebootBootID st = []")
  case False
  with assms show ?thesis
    by (auto simp: isRebootCompleted_def exec_bind dest: nodeRebootedSince_proven)
next
  case True
  with assms obtain t1 x t2 where tr: "tr = t1 @ t2" and rest: "exec (case x of Inl e \<Rightarrow> Ret (st, Inl e)
      | Inr bootID \<Rightarrow>
          if \<not> Valid bootID then Ret (st, Inr False)
          else bind now (\<lambda>t.
            let st' = st\<lparr>nsPreRebootBootID := bootID, nsLastUpdated := t\<rparr>
            in bind (nodeRebootedSince n bootID) (\<lambda>b. Ret (st', b)))) t2 (st', Inr True)"
    by (auto simp: isRebootCompleted_def exec_bind)
  from rest obtain b where "x = Inr b" "Valid b" by (cases x) (auto split: if_splits)
  with rest obtain t3 t4 where "t2 = t3 @ t4" "nsPreRebootBootID st' = b"
    "exec (nodeRebootedSince n b) t4 (Inr True)" by (auto simp: exec_bind Let_def)
  with tr show ?thesis by (auto intro: rebootProven_mono [OF nodeRebootedSince_proven])
qed

text \<open>The converse: a node that was read like that counts as rebooted.\<close>

lemma nodeRebootedSince_iff: "exec (nodeRebootedSince n b) tr r \<Longrightarrow> rebootProven n b tr \<longleftrightarrow> r = Inr True"
proof (cases "b = []")
  case True
  then show "exec (nodeRebootedSince n b) tr r \<Longrightarrow> ?thesis" by (auto simp: nodeRebootedSince_def rebootProven_def)
next
  case False
  assume "exec (nodeRebootedSince n b) tr r"
  with False obtain x t where tr: "tr = (GetNode n, x) # t"
    and rest: "exec (case asNode x of Inl e \<Rightarrow> if IsNotFound e then Ret (Inr False) else Ret (Inl e)
        | Inr nd \<Rightarrow> if BootID nd = [] \<or> BootID nd = b then Ret (Inr False) else Ret (Inr (isNodeReady nd))) t r"
    by (auto simp: nodeRebootedSince_def getNode_def exec_ask_bind)
  show ?thesis
  proof (cases "asNode x")
    case (Inl e)
    then have "x \<noteq> RNode (Inr nd)" for nd by auto
    with Inl rest show ?thesis by (auto simp: tr rebootProven_def split: if_splits)
  next
    case (Inr nd)
    with rest False show ?thesis by (auto simp: tr rebootProven_def split: if_splits)
  qed
qed

lemma isRebootCompleted_iff:
  assumes "exec (isRebootCompleted op n st) tr (st', r)"
  shows "rebootProven n (nsPreRebootBootID st') tr \<longleftrightarrow> r = Inr True"
proof (cases "nsPreRebootBootID st = []")
  case False
  with assms show ?thesis
    by (auto simp: isRebootCompleted_def exec_bind nodeRebootedSince_iff)
next
  case True
  with assms obtain t1 x t2 where tr: "tr = t1 @ t2" and j: "exec (jobPodBootID (Namespace (opMeta op)) (nsJobName st)) t1 x"
    and rest: "exec (case x of Inl e \<Rightarrow> Ret (st, Inl e)
      | Inr bootID \<Rightarrow>
          if \<not> Valid bootID then Ret (st, Inr False)
          else bind now (\<lambda>t.
            let st' = st\<lparr>nsPreRebootBootID := bootID, nsLastUpdated := t\<rparr>
            in bind (nodeRebootedSince n bootID) (\<lambda>b. Ret (st', b)))) t2 (st', r)"
    by (auto simp: isRebootCompleted_def exec_bind)
  have none: "(GetNode n, y) \<notin> set t1" for y
    using j by (auto simp: jobPodBootID_def client_defs exec_attempt exec_ask split: if_splits)
  consider (no) e where "x = Inl e" | (bad) b where "x = Inr b" "\<not> Valid b" | (ok) b where "x = Inr b" "Valid b"
    by (cases x) auto
  then show ?thesis
  proof cases
    case no
    with rest True show ?thesis by (auto simp: rebootProven_def)
  next
    case bad
    with rest True show ?thesis by (auto simp: rebootProven_def)
  next
    case ok
    with rest obtain tm t3 where t2: "t2 = (Now, tm) # t3" and st': "nsPreRebootBootID st' = b"
      and e: "exec (nodeRebootedSince n b) t3 r" by (auto simp: now_def exec_ask_bind exec_bind exec_ask Let_def)
    have "rebootProven n b tr = rebootProven n b t3" using none by (auto simp: rebootProven_def tr t2)
    then show ?thesis using nodeRebootedSince_iff [OF e] st' by simp
  qed
qed

section \<open>Properties\<close>

text \<open>
  C2. A reboot is reported as completed only on proof: the node was read Ready with a
  non-empty boot ID that differs from the recorded one, and the recorded one is either the one
  recorded earlier or a well-formed boot ID that a succeeded Pod of the node's upgrade Job
  reported. Nothing else of the node's status is changed and nothing is written to the cluster.
\<close>

theorem isRebootCompleted_proof:
  assumes "exec (isRebootCompleted op n st) tr (st', Inr True)"
  shows "(\<exists>nd. (GetNode n, RNode (Inr nd)) \<in> set tr \<and> isNodeReady nd \<and> BootID nd \<noteq> [] \<and>
            BootID nd \<noteq> nsPreRebootBootID st') \<and>
    nsPreRebootBootID st' \<noteq> [] \<and>
    (if nsPreRebootBootID st \<noteq> [] then st' = st
     else \<exists>ps. (ListPods Cache (Some (Namespace (opMeta op))) [(JobNameLabel, nsJobName st)], RPods (Inr ps))
            \<in> set tr \<and> Valid (nsPreRebootBootID st') \<and> (\<exists>p \<in> set ps. reports p (nsPreRebootBootID st'))) \<and>
    same_progress st st' \<and>
    (\<forall>q x. (q, x) \<in> set tr \<longrightarrow> \<not> mutating q)"
proof -
  have quiet: "\<forall>q x. (q, x) \<in> set tr \<longrightarrow> \<not> mutating q"
    using only_exec [OF assms only_isRebootCompleted] by (metis mutating.simps reads.simps node_req.exhaust)
  have same: "same_progress st st'" using exec_isRebootCompleted [OF assms] by blast
  show ?thesis
  proof (cases "nsPreRebootBootID st = []")
    case False
    with assms have "exec (nodeRebootedSince n (nsPreRebootBootID st)) tr (Inr True)" "st' = st"
      by (auto simp: isRebootCompleted_def exec_bind)
    from this(1) show ?thesis
      by (rule exec_nodeRebootedSince) (use False quiet same \<open>st' = st\<close> in auto)
  next
    case True
    with assms obtain t1 x t23 where tr1: "tr = t1 @ t23"
      and j1: "exec (jobPodBootID (Namespace (opMeta op)) (nsJobName st)) t1 x"
      and rest: "exec (case x of Inl e \<Rightarrow> Ret (st, Inl e)
        | Inr bootID \<Rightarrow>
            if \<not> Valid bootID then Ret (st, Inr False)
            else bind now (\<lambda>t.
              let st' = st\<lparr>nsPreRebootBootID := bootID, nsLastUpdated := t\<rparr>
              in bind (nodeRebootedSince n bootID) (\<lambda>b. Ret (st', b)))) t23 (st', Inr True)"
      by (auto simp: isRebootCompleted_def exec_bind)
    from rest obtain b where x: "x = Inr b" and b: "Valid b"
      by (cases x) (auto split: if_splits)
    with rest obtain tm t3 where t23: "t23 = (Now, tm) # t3"
      and st': "st' = st\<lparr>nsPreRebootBootID := b, nsLastUpdated := asTime tm\<rparr>"
      and nr: "exec (nodeRebootedSince n b) t3 (Inr True)"
      by (auto simp: Let_def now_def exec_ask exec_bind)
    note j = j1 [unfolded x] and tr = tr1 [unfolded t23]
    have "b \<noteq> []" using b by auto
    with j obtain ps where t1: "t1 = [(ListPods Cache (Some (Namespace (opMeta op)))
        [(JobNameLabel, nsJobName st)], RPods (Inr ps))]" and fj: "b = FromJobPods ps"
      by (rule exec_jobPodBootID)
    have rep: "\<exists>p \<in> set ps. reports p b" using bootid.reported [of ps] \<open>b \<noteq> []\<close> fj by simp
    from nr show ?thesis
      by (rule exec_nodeRebootedSince) (use True tr t1 b st' quiet same rep in auto)
  qed
qed

text \<open>A concrete run: the Pod of the upgrade Job reported a boot ID and the node has another one.\<close>

definition sample_boot_id :: string where
  "sample_boot_id = ''0a1b2c3d-0000-1111-2222-333344445555''"

definition reported_pod :: pod where
  "reported_pod = \<lparr>podMeta = empty_meta, podSpec = empty_pod_spec,
     podStatus = empty_pod_status\<lparr>podPhase := PodSucceeded,
       ContainerStatuses := [\<lparr>csName = ReporterContainerName, csWaiting = None, csRunning = False,
         csTerminated = Some \<lparr>tExitCode = 0, tReason = [], tMessage = sample_boot_id\<rparr>\<rparr>]\<rparr>\<rparr>"

definition ready_node :: node where
  "ready_node = sample_node\<lparr>nodeConditions :=
     [\<lparr>condType = NodeReady, condStatus = ConditionTrue, condReason = [], condMessage = []\<rparr>]\<rparr>"

lemma reported_sample: "FromJobPods [reported_pod] = sample_boot_id" "Valid sample_boot_id"
  by code_simp+

lemma completed_run:
  "exec (isRebootCompleted sample_op ''n1'' (jobCreated sample_op ''j'' (Time 1)))
     [(ListPods Cache (Some ''system'') [(JobNameLabel, ''j'')], RPods (Inr [reported_pod])),
      (Now, RTime (Time 9)), (GetNode ''n1'', RNode (Inr ready_node))]
     ((jobCreated sample_op ''j'' (Time 1))\<lparr>nsPreRebootBootID := sample_boot_id, nsLastUpdated := Time 9\<rparr>,
      Inr True)"
proof -
  have "sample_boot_id \<noteq> ''b''" "sample_boot_id \<noteq> []" by (simp_all add: sample_boot_id_def)
  then show ?thesis
    using reported_sample
    by (simp add: exec_iff_scripted isRebootCompleted_def jobPodBootID_def nodeRebootedSince_def
        attempt_def client_defs ask_def jobCreated_def sample_op_def sample_meta_def ready_node_def
        sample_node_def isNodeReady_def)
qed

theorem isRebootCompleted_proof_witness:
  "\<exists>nd. (GetNode ''n1'', RNode (Inr nd)) \<in> set
     [(ListPods Cache (Some ''system'') [(JobNameLabel, ''j'')], RPods (Inr [reported_pod])),
      (Now, RTime (Time 9)), (GetNode ''n1'', RNode (Inr ready_node))] \<and>
     isNodeReady nd \<and> BootID nd \<noteq> sample_boot_id"
  using isRebootCompleted_proof [OF completed_run] by auto

text \<open>The runs of keepOneRebootPod that list the Pods \<open>ps\<close>.\<close>

lemma exec_keepOneRebootPod_listed:
  assumes "exec (keepOneRebootPod rd op n) tr r"
    and "(ListPods rd (Some (Namespace (opMeta op))) (rebootSelector op n), RPods (Inr ps)) \<in> set tr"
  obtains (failed) e where "r = Inl e" "\<And>ns nm g x. (DeletePod ns nm g, x) \<in> set tr \<Longrightarrow>
        \<exists>p \<in> set ps. \<not> terminating p \<and> ns = Namespace (podMeta p) \<and> nm = Name (podMeta p)"
    | (no_live) y t where "tr = (ListPods rd (Some (Namespace (opMeta op))) (rebootSelector op n), y) # t"
      "exec (deleteRebootPods (finishedPods ps)) t (Inr ())" "r = Inr None" "livePods ps = []"
    | (kept) y k others t1 t2 where
      "tr = (ListPods rd (Some (Namespace (opMeta op))) (rebootSelector op n), y) # t1 @ t2"
      "exec (deleteRebootPods (finishedPods ps)) t1 (Inr ())" "sort_key podKey (livePods ps) = k # others"
      "exec (deleteRebootPods others) t2 (Inr ())" "r = Inr (Some k)"
proof -
  have deletes: "isDelete q" if "exec (deleteRebootPods xs) t a" "(q, x) \<in> set t" for xs t a q x
    using that by (auto elim!: deleteRebootPods_event)
  have listed: "ps' = ps"
    if "tr = (ListPods rd (Some (Namespace (opMeta op))) (rebootSelector op n), RPods (Inr ps')) # t"
      and "\<And>q x. (q, x) \<in> set t \<Longrightarrow> isDelete q" for ps' t
    using that assms(2) by fastforce
  from assms(1) show thesis
  proof (cases rule: exec_keepOneRebootPod)
    case (list_error y e)
    then show thesis by (intro failed) auto
  next
    case (finished_error ps' t e)
    have "ps' = ps" using listed [OF finished_error(1)] deletes [OF finished_error(2)] by auto
    with finished_error show thesis
      by (intro failed [of e]) (auto elim!: deleteRebootPods_event simp: finishedPods_def)
  next
    case (no_live ps' t)
    have "ps' = ps" using listed [OF no_live(1)] deletes [OF no_live(2)] by auto
    with no_live show thesis by (intro that(2)) auto
  next
    case (others_error ps' k others t1 t2 e)
    have eq: "ps' = ps" using listed [OF others_error(1)] deletes [OF others_error(2)] deletes [OF others_error(4)] by auto
    with others_error sorted_live [OF others_error(3)] show thesis
      by (intro failed [of e]) (auto elim!: deleteRebootPods_event simp: finishedPods_def)
  next
    case (kept ps' k others t1 t2)
    have "ps' = ps" using listed [OF kept(1)] deletes [OF kept(2)] deletes [OF kept(4)] by auto
    with that(3) [OF kept(1)] kept(2-5) show thesis by simp
  qed
qed

text \<open>Its two rounds of deletions: what they delete, and what is gone after them.\<close>

lemma rounds_delete:
  assumes "exec (deleteRebootPods (finishedPods ps)) t1 a" and "exec (deleteRebootPods others) t2 b"
    and "sort_key podKey (livePods ps) = k # others" and "distinct ps" and "(DeletePod ns nm g, x) \<in> set t1 \<union> set t2"
  shows "\<exists>p \<in> set ps. \<not> terminating p \<and> ns = Namespace (podMeta p) \<and> nm = Name (podMeta p) \<and> k \<noteq> p"
  using assms(5) sorted_live [OF assms(3)] assms(1,2,4)
  by (auto elim!: deleteRebootPods_event simp: finishedPods_def)

lemma rounds_gone:
  assumes "exec (deleteRebootPods (finishedPods ps)) t1 (Inr ())" and "exec (deleteRebootPods others) t2 (Inr ())"
    and "sort_key podKey (livePods ps) = k # others" and "p \<in> set ps" and "\<not> terminating p" and "p \<noteq> k"
  shows "podGone (e # t1 @ t2) p"
proof (cases "podFinished p")
  case True
  with assms show ?thesis
    by (intro podGone_mono [OF deleteRebootPods_ok [OF assms(1), of p]]) (auto simp: finishedPods_def)
next
  case False
  with assms sorted_live [OF assms(3)] have "p \<in> set others" by auto
  with assms show ?thesis by (intro podGone_mono [OF deleteRebootPods_ok [OF assms(2), of p]]) auto
qed

text \<open>
  C30. keepOneRebootPod deletes only Pods of its listing that are not being deleted already, and
  never the Pod it returns. That Pod is usable (neither terminating nor finished) and the oldest
  of the usable ones, ties broken by name; every other Pod that is not terminating has then been
  deleted or was gone. It returns none only when the listing has no usable Pod.
\<close>

theorem keepOneRebootPod_keeps_oldest:
  assumes "exec (keepOneRebootPod rd op n) tr r"
    and "(ListPods rd (Some (Namespace (opMeta op))) (rebootSelector op n), RPods (Inr ps)) \<in> set tr"
    and "distinct (map (Name \<circ> podMeta) ps)"
  shows "(\<forall>ns nm g x. (DeletePod ns nm g, x) \<in> set tr \<longrightarrow>
            (\<exists>p \<in> set ps. \<not> terminating p \<and> ns = Namespace (podMeta p) \<and> nm = Name (podMeta p) \<and>
               r \<noteq> Inr (Some p))) \<and>
    (r = Inr None \<longrightarrow> (\<forall>p \<in> set ps. terminating p \<or> podFinished p)) \<and>
    (\<forall>k. r = Inr (Some k) \<longrightarrow> k \<in> set ps \<and> \<not> terminating k \<and> \<not> podFinished k \<and>
       (\<forall>p \<in> set ps. \<not> terminating p \<and> \<not> podFinished p \<longrightarrow> podKey k \<le> podKey p)) \<and>
    (\<forall>kept. r = Inr kept \<longrightarrow> (\<forall>p \<in> set ps. \<not> terminating p \<and> kept \<noteq> Some p \<longrightarrow> podGone tr p))"
  using assms(1,2)
proof (cases rule: exec_keepOneRebootPod_listed)
  case (failed e)
  then show ?thesis by auto
next
  case (no_live y t)
  have all: "\<forall>p \<in> set ps. terminating p \<or> podFinished p"
    using no_live(4) unfolding livePods_def filter_empty_conv by blast
  have "podGone tr p" if "p \<in> set ps" "\<not> terminating p" for p
    using that all no_live(1)
    by (intro podGone_mono [OF deleteRebootPods_ok [OF no_live(2), of p]]) (auto simp: finishedPods_def)
  with all no_live show ?thesis by (auto elim!: deleteRebootPods_event simp: finishedPods_def)
next
  case (kept y k others t1 t2)
  note live = sorted_live [OF kept(3)]
  have "distinct ps" using assms(3) by (simp add: distinct_map)
  note deleted = rounds_delete [OF kept(2,4,3) this]
  have "\<exists>p \<in> set ps. \<not> terminating p \<and> ns = Namespace (podMeta p) \<and> nm = Name (podMeta p) \<and> k \<noteq> p"
    if "(DeletePod ns nm g, x) \<in> set tr" for ns nm g x
    using that deleted [of ns nm g x] kept(1) by simp
  moreover have "podGone tr p" if "p \<in> set ps" "\<not> terminating p" "p \<noteq> k" for p
    unfolding kept(1) using that by (rule rounds_gone [OF kept(2,4,3)])
  ultimately show ?thesis using live kept(5) by auto
qed

definition reboot_pod :: "string \<Rightarrow> nat \<Rightarrow> string \<Rightarrow> pod" where
  "reboot_pod nm t phase = \<lparr>podMeta = empty_meta\<lparr>Name := nm, Namespace := ''system'', CreationTimestamp := Time t\<rparr>,
     podSpec = empty_pod_spec, podStatus = empty_pod_status\<lparr>podPhase := phase\<rparr>\<rparr>"

definition three_pods :: "pod list" where
  "three_pods = [reboot_pod ''young'' 2 PodRunning, reboot_pod ''done'' 0 PodFailed, reboot_pod ''old'' 1 PodPending]"

lemma keep_run:
  "exec (keepOneRebootPod Live sample_op ''n1'')
     [(ListPods Live (Some ''system'') (rebootSelector sample_op ''n1''), RPods (Inr three_pods)),
      (DeletePod ''system'' ''done'' None, RUnit (Inr ())), (DeletePod ''system'' ''young'' None, RUnit (Inr ()))]
     (Inr (Some (reboot_pod ''old'' 1 PodPending)))"
  by (simp add: exec_iff_scripted keepOneRebootPod_def listRebootPods_def attempt_def client_defs ask_def
      three_pods_def reboot_pod_def finishedPods_def livePods_def terminating_def podFinished_def
      deleteRebootPods_def sample_op_def sample_meta_def empty_meta_def empty_pod_status_def less_eq_time_def
      less_time_def kconst)

theorem keepOneRebootPod_keeps_oldest_witness:
  "podGone [(ListPods Live (Some ''system'') (rebootSelector sample_op ''n1''), RPods (Inr three_pods)),
      (DeletePod ''system'' ''done'' None, RUnit (Inr ())), (DeletePod ''system'' ''young'' None, RUnit (Inr ()))]
     (reboot_pod ''young'' 2 PodRunning)"
proof -
  have "distinct (map (Name \<circ> podMeta) three_pods)" by (simp add: three_pods_def reboot_pod_def)
  moreover have "Namespace (opMeta sample_op) = ''system''" by (simp add: sample_op_def sample_meta_def)
  moreover have "reboot_pod ''young'' 2 PodRunning \<in> set three_pods" "\<not> terminating (reboot_pod ''young'' 2 PodRunning)"
    "reboot_pod ''old'' 1 PodPending \<noteq> reboot_pod ''young'' 2 PodRunning"
    by (simp_all add: three_pods_def reboot_pod_def terminating_def empty_meta_def)
  ultimately show ?thesis using keepOneRebootPod_keeps_oldest [OF keep_run, of three_pods] by auto
qed

text \<open>
  Before the reboot Pod is created, the RoleBinding for its service account was created or
  existed already, and before that the Role was seen with, created with, or updated to exactly
  the two rules the reboot watcher needs: getting Jobs and listing Pods of the NodeOp's own
  namespace. The Pod created is the reboot Pod of that node and Job.
\<close>

theorem createRebootPod_permissions_first:
  assumes "exec (createRebootPod rd op n j) tr r"
  shows "guarded (\<lambda>g e. roleBound op g) (isCreatePod \<circ> fst) tr \<and>
    guarded (\<lambda>g e. roleGranted g) (isCreateRoleBinding \<circ> fst) tr \<and>
    (\<forall>p x. (CreatePod p, x) \<in> set tr \<longrightarrow> (\<exists>img. p = rebootPodOf op n j img)) \<and>
    (\<forall>p. r = Inr p \<longrightarrow> (\<exists>img. (CreatePod (rebootPodOf op n j img), RPod (Inr p)) \<in> set tr))"
proof -
  from assms consider (rbac) e where "exec (ensureRebootRBAC rd op) tr (Inl e)" "r = Inl e"
    | (pod) t v img y where "exec (ensureRebootRBAC rd op) t (Inr ())" "r = asPod y"
      "tr = (t @ [(Getenv ''OPERATOR_IMAGE'', v)]) @ [(CreatePod (rebootPodOf op n j img), y)]"
    unfolding createRebootPod_def exec_attempt by (auto simp: getenv_def exec_ask_bind createPod_def exec_ask)
  then show ?thesis
  proof cases
    case rbac
    from ensureRebootRBAC_order [OF rbac(1)] rbac(2) show ?thesis by (fastforce intro!: guarded_none)
  next
    case pod
    note t = ensureRebootRBAC_order [OF pod(1)]
    have "guarded (\<lambda>g e. roleBound op g) (isCreatePod \<circ> fst) tr"
      unfolding pod(3) using t by (intro guarded_single) auto
    moreover have "guarded (\<lambda>g e. roleGranted g) (isCreateRoleBinding \<circ> fst) tr"
      unfolding pod(3)
      using t by (intro guarded_append_both) (simp_all add: guarded_Cons)
    moreover have "p = rebootPodOf op n j img" if "(CreatePod p, x) \<in> set tr" for p x
    proof -
      have "(CreatePod p, x) \<notin> set t" using t isCreatePod.simps(1) by blast
      with that show ?thesis unfolding pod(3) by simp
    qed
    moreover have "(CreatePod (rebootPodOf op n j img), RPod (Inr p)) \<in> set tr" if "r = Inr p" for p
      using that pod(2) unfolding pod(3) by simp
    ultimately show ?thesis by blast
  qed
qed

text \<open>A run in which everything the Pod needs is there already.\<close>

definition granted_role :: role where
  "granted_role = \<lparr>roleMeta = rbacMeta sample_op, Rules = rebootRoleRules\<rparr>"

definition exists_error :: error where
  "exists_error = ApiError AlreadyExists []"

lemma reboot_pod_run:
  "exec (createRebootPod Live sample_op ''n1'' ''j'')
     [(CreateServiceAccount (rbacMeta sample_op), RUnit (Inl exists_error)),
      (GetRole Live ''system'' ''up-reboot'', RRole (Inr granted_role)),
      (CreateRoleBinding (rebootRoleBinding sample_op), RUnit (Inl exists_error)),
      (Getenv ''OPERATOR_IMAGE'', RString ''op:1''),
      (CreatePod (rebootPodOf sample_op ''n1'' ''j'' ''op:1''), RPod (Inr (rebootPodOf sample_op ''n1'' ''j'' ''op:1'')))]
     (Inr (rebootPodOf sample_op ''n1'' ''j'' ''op:1''))"
  by (simp add: exec_iff_scripted createRebootPod_def ensureRebootRBAC_def createRebootRBACObject_def
      ensureRebootRole_def attempt_def client_defs ask_def granted_role_def exists_error_def
      IsAlreadyExists_def rebootRBACName_def sample_op_def sample_meta_def)

theorem createRebootPod_permissions_first_witness:
  "guarded (\<lambda>g e. roleBound sample_op g) (isCreatePod \<circ> fst)
     [(CreateServiceAccount (rbacMeta sample_op), RUnit (Inl exists_error)),
      (GetRole Live ''system'' ''up-reboot'', RRole (Inr granted_role)),
      (CreateRoleBinding (rebootRoleBinding sample_op), RUnit (Inl exists_error)),
      (Getenv ''OPERATOR_IMAGE'', RString ''op:1''),
      (CreatePod (rebootPodOf sample_op ''n1'' ''j'' ''op:1''), RPod (Inr (rebootPodOf sample_op ''n1'' ''j'' ''op:1'')))]"
  using createRebootPod_permissions_first [OF reboot_pod_run] by blast

text \<open>
  The reboot Pod is found again by the controller's own selector, names its upgrade Job,
  is controlled by the NodeOp, is pinned to the node, is never evicted by the drain of that
  node, and tolerates the not-ready and unreachable taints its own reboot causes.
\<close>

theorem rebootPod_shape:
  "MatchingLabels (rebootSelector op n) (Labels (podMeta (rebootPodOf op n j img))) \<and>
   rebootPodJobName (rebootPodOf op n j img) = j \<and>
   IsControlledBy (podMeta (rebootPodOf op n j img)) (opMeta op) \<and>
   NodeName (podSpec (rebootPodOf op n j img)) = n \<and>
   drainSkips n cn cns opts (rebootPodOf op n j img) \<and>
   map (\<lambda>t. (tolKey t, tolEffect t)) (Tolerations (podSpec (rebootPodOf op n j img))) =
     [(''node.kubernetes.io/not-ready'', ''NoExecute''), (''node.kubernetes.io/unreachable'', ''NoExecute'')]"
  by (simp add: find_concat_job)
    (simp add: rebootPodOf_def rebootSelector_def MatchingLabels_def kconst SetControllerReference_def
      IsControlledBy_def GetControllerOf_def empty_meta_def empty_pod_spec_def drainSkips_def has_key_def
      noExecuteToleration_def)

end
