(* ===== verification/NodePreflight.thy ===== *)
theory NodePreflight
  imports NodeJobs GoStrings
begin

text \<open>
  Preflight Pods (nodeop_controller.go: startPreflight, deletePreflightPod,
  preflightTerminationMessage, preflightFailureReason, findPreflightPod, buildPreflightPod). A
  preflight Pod runs the user's check on a node before its upgrade; its termination message is
  the verdict. \<open>nodeOp.Spec.Preflight\<close>, which every caller has tested against nil, is a parameter.
\<close>

section \<open>Constants\<close>

definition preflightContainerName :: string where [kconst]: "preflightContainerName = ''preflight''"

definition preflightDefaultActiveDeadlineSeconds :: int where
  "preflightDefaultActiveDeadlineSeconds = 120"

section \<open>The Pod\<close>

definition preflightPodOf :: "node_op \<Rightarrow> preflight_spec \<Rightarrow> string \<Rightarrow> string \<Rightarrow> pod" where
  "preflightPodOf op pf nodeName img =
     \<lparr>podMeta = empty_meta\<lparr>
        GenerateName := the (TruncateNameWithHash (Name (opMeta op) @ ''-preflight'')
                               (KubernetesNameLengthLimit - 6)) @ ''-'',
        Namespace := Namespace (opMeta op),
        Labels := [(labelKeyNodeOp, Name (opMeta op)), (labelKeyNode, nodeName), (labelKeyPreflight, ''true'')]\<rparr>,
      podSpec = empty_pod_spec\<lparr>
        NodeName := nodeName, RestartPolicy := ''OnFailure'',
        ActiveDeadlineSeconds := Some (case pfActiveDeadlineSeconds pf of
            None \<Rightarrow> preflightDefaultActiveDeadlineSeconds | Some d \<Rightarrow> d),
        ImagePullSecrets := opImagePullSecrets (opSpec op),
        Containers := [empty_container\<lparr>
          cName := preflightContainerName, cImage := img, cCommand := pfCommand pf,
          cResources := PreflightResourcesOrDefault op, cTerminationMessagePolicy := ''File'',
          cEnv := [envValueOf hostDirEnv (getHostMountPath op)],
          cVolumeMounts := [\<lparr>vmName = hostRootVolumeName, vmMountPath = getHostMountPath op,
             vmSubPath = [], vmReadOnly = True\<rparr>]\<rparr>],
        Volumes := [hostRootVolume]\<rparr>,
      podStatus = empty_pod_status\<rparr>"

definition buildPreflightPod :: "node_op \<Rightarrow> preflight_spec \<Rightarrow> string \<Rightarrow> pod nprog" where
  "buildPreflightPod op pf nodeName =
     bind (if pfImage pf = [] then getNodeOpImage op else Ret (pfImage pf)) (\<lambda>img.
       Ret (preflightPodOf op pf nodeName img))"

definition preflightSelector :: "node_op \<Rightarrow> string \<Rightarrow> strmap" where
  "preflightSelector op nodeName =
     [(labelKeyNodeOp, Name (opMeta op)), (labelKeyNode, nodeName), (labelKeyPreflight, ''true'')]"

definition findPreflightPod :: "node_op \<Rightarrow> string \<Rightarrow> pod option res nprog" where
  "findPreflightPod op nodeName =
     attempt (listPods Cache (Some (Namespace (opMeta op))) (preflightSelector op nodeName)) (\<lambda>pods.
       Ret (Inr (case pods of [] \<Rightarrow> None | p # _ \<Rightarrow> Some p)))"

section \<open>Its verdict\<close>

text \<open>The terminated state the two loops look for: the first of the preflight container.\<close>

definition preflightTerminated :: "pod \<Rightarrow> terminated_state option" where
  "preflightTerminated p =
     (case find (\<lambda>cs. csName cs = preflightContainerName \<and> csTerminated cs \<noteq> None)
             (ContainerStatuses (podStatus p)) of
        None \<Rightarrow> None
      | Some cs \<Rightarrow> csTerminated cs)"

definition preflightTerminationMessage :: "pod \<Rightarrow> string" where
  "preflightTerminationMessage p =
     (case preflightTerminated p of Some t \<Rightarrow> tMessage t | None \<Rightarrow> [])"

definition preflightFailureReason :: "pod \<Rightarrow> string" where
  "preflightFailureReason p =
     (case preflightTerminated p of
        Some t \<Rightarrow> if tReason t = [] then ''exit '' @ dec_int (tExitCode t) else tReason t
      | None \<Rightarrow> if podReason (podStatus p) \<noteq> [] then podReason (podStatus p)
                else ''container did not report a terminated state'')"

text \<open>Best effort: the error is dropped.\<close>

definition deletePreflightPod :: "pod \<Rightarrow> unit nprog" where
  "deletePreflightPod p = bind (deletePod p (Some 0)) (\<lambda>_. Ret ())"

section \<open>Starting a preflight\<close>

definition preflightStarted :: "time \<Rightarrow> node_status" where
  "preflightStarted t =
     \<lparr>nsPhase = phasePreflight, nsJobName = [], nsMessage = ''Preflight in progress'',
      nsRebootStatus = rebootStatusNotRequested, nsPreRebootBootID = [], nsLastUpdated = t\<rparr>"

definition startPreflight :: "node_op \<Rightarrow> preflight_spec \<Rightarrow> string \<Rightarrow> (node_op \<times> unit res) nprog" where
  "startPreflight op pf nodeName =
     bind (findPreflightPod op nodeName) (\<lambda>found. case found of Inl e \<Rightarrow> Ret (op, Inl e) | Inr existing \<Rightarrow>
     bind (case existing of
             Some p \<Rightarrow> Ret (Inr ())
           | None \<Rightarrow>
               bind (buildPreflightPod op pf nodeName) (\<lambda>pod.
               bind (createPod (pod\<lparr>podMeta := SetControllerReference kindNodeOp (opMeta op) (podMeta pod)\<rparr>)) (\<lambda>c.
               case c of
                 Inl e \<Rightarrow> Ret (Inl (Wrapf (''failed to create preflight Pod for '' @ nodeName) e))
               | Inr _ \<Rightarrow> Ret (Inr ())))) (\<lambda>made.
     case made of Inl e \<Rightarrow> Ret (op, Inl e) | Inr _ \<Rightarrow>
     bind now (\<lambda>t. statusUpdate (setStatus nodeName (preflightStarted t) op))))"

section \<open>Lemmas\<close>

lemma exec_getNodeOpImage: "exec (getNodeOpImage op) t img \<Longrightarrow> (q, x) \<in> set t \<Longrightarrow> \<exists>v. q = Getenv v"
  by (auto simp: getNodeOpImage_def getenv_def exec_ask_bind split: if_splits)

lemma exec_buildPreflightPod:
  assumes "exec (buildPreflightPod op pf n) t p"
  obtains img where "p = preflightPodOf op pf n img" "\<And>q x. (q, x) \<in> set t \<Longrightarrow> \<exists>v. q = Getenv v"
proof -
  from assms obtain t1 img where "t = t1" "p = preflightPodOf op pf n img"
    "exec (if pfImage pf = [] then getNodeOpImage op else Ret (pfImage pf)) t1 img"
    by (auto simp: buildPreflightPod_def exec_bind)
  then show thesis by (intro that [of img]) (auto split: if_splits dest: exec_getNodeOpImage)
qed

lemma exec_findPreflightPod:
  assumes "exec (findPreflightPod op n) tr r"
  obtains x where "tr = [(ListPods Cache (Some (Namespace (opMeta op))) (preflightSelector op n), x)]"
    "\<And>p. r = Inr (Some p) \<Longrightarrow> \<exists>ps. x = RPods (Inr (p # ps))" "r = Inr None \<Longrightarrow> x = RPods (Inr [])"
proof -
  from assms obtain x where tr: "tr = [(ListPods Cache (Some (Namespace (opMeta op))) (preflightSelector op n), x)]"
    and r: "r = (case asPods x of Inl e \<Rightarrow> Inl e | Inr ps \<Rightarrow> Inr (case ps of [] \<Rightarrow> None | p # _ \<Rightarrow> Some p))"
    by (auto simp: findPreflightPod_def exec_attempt listPods_def exec_ask)
  show thesis
    by (rule that [OF tr]; insert r; cases "asPods x") (auto split: list.splits)
qed

text \<open>The Pod a preflight adds to the cluster, with its owner.\<close>

definition ownedPreflightPod :: "node_op \<Rightarrow> preflight_spec \<Rightarrow> string \<Rightarrow> string \<Rightarrow> pod" where
  "ownedPreflightPod op pf n img = (preflightPodOf op pf n img)
     \<lparr>podMeta := SetControllerReference kindNodeOp (opMeta op) (podMeta (preflightPodOf op pf n img))\<rparr>"


lemma exec_startPreflight:
  assumes "exec (startPreflight op pf n) tr (op', r)"
  obtains (list_error) x e where "op' = op" "r = Inl e"
      "tr = [(ListPods Cache (Some (Namespace (opMeta op))) (preflightSelector op n), x)]"
    | (create_error) t img x e where "op' = op" "r = Inl e" "\<And>q y. (q, y) \<in> set t \<Longrightarrow> \<exists>v. q = Getenv v"
      "tr = (ListPods Cache (Some (Namespace (opMeta op))) (preflightSelector op n), RPods (Inr [])) # t
         @ [(CreatePod (ownedPreflightPod op pf n img), x)]"
    | (created) t img p tm t2 where "\<And>q y. (q, y) \<in> set t \<Longrightarrow> \<exists>v. q = Getenv v"
      "tr = (ListPods Cache (Some (Namespace (opMeta op))) (preflightSelector op n), RPods (Inr [])) # t
         @ (CreatePod (ownedPreflightPod op pf n img), RPod (Inr p)) # (Now, tm) # t2"
      "exec (statusUpdate (setStatus n (preflightStarted (asTime tm)) op)) t2 (op', r)"
    | (reused) p ps tm t2 where
      "tr = (ListPods Cache (Some (Namespace (opMeta op))) (preflightSelector op n), RPods (Inr (p # ps))) #
         (Now, tm) # t2"
      "exec (statusUpdate (setStatus n (preflightStarted (asTime tm)) op)) t2 (op', r)"
proof -
  define finish where "finish = (\<lambda>made :: unit res. case made of Inl e \<Rightarrow> Ret (op, Inl e) | Inr _ \<Rightarrow>
     bind now (\<lambda>t. statusUpdate (setStatus n (preflightStarted t) op)))"
  define create where "create = bind (buildPreflightPod op pf n) (\<lambda>pod.
               bind (createPod (pod\<lparr>podMeta := SetControllerReference kindNodeOp (opMeta op) (podMeta pod)\<rparr>)) (\<lambda>c.
               case c of
                 Inl e \<Rightarrow> Ret (Inl (Wrapf (''failed to create preflight Pod for '' @ n) e) :: unit res)
               | Inr _ \<Rightarrow> Ret (Inr ())))"
  from assms obtain t1 found t2 where tr: "tr = t1 @ t2" and f: "exec (findPreflightPod op n) t1 found"
    and rest: "exec (case found of Inl e \<Rightarrow> Ret (op, Inl e) | Inr existing \<Rightarrow>
      bind (case existing of Some p \<Rightarrow> Ret (Inr ()) | None \<Rightarrow> create) finish) t2 (op', r)"
    unfolding startPreflight_def exec_bind [of "findPreflightPod op n"] create_def finish_def by blast
  from f obtain x where t1: "t1 = [(ListPods Cache (Some (Namespace (opMeta op))) (preflightSelector op n), x)]"
    and some: "\<And>p. found = Inr (Some p) \<Longrightarrow> \<exists>ps. x = RPods (Inr (p # ps))"
    and none: "found = Inr None \<Longrightarrow> x = RPods (Inr [])" by (rule exec_findPreflightPod) (rule that)
  consider e where "found = Inl e" | p where "found = Inr (Some p)" | "found = Inr None"
    by (metis option.exhaust sum.exhaust)
  then show thesis
  proof cases
    case 1
    with rest tr t1 show thesis by (intro list_error) auto
  next
    case 2
    with some [OF 2] rest tr t1 show thesis by (auto simp: finish_def now_def exec_ask_bind intro: reused)
  next
    case 3
    with rest obtain t3 made t4 where t2: "t2 = t3 @ t4" and c: "exec create t3 made"
      and fin: "exec (finish made) t4 (op', r)" by (auto simp: exec_bind)
    from c obtain t5 pod t6 where t3: "t3 = t5 @ t6" and b: "exec (buildPreflightPod op pf n) t5 pod"
      and cp: "exec (bind (createPod (pod\<lparr>podMeta := SetControllerReference kindNodeOp (opMeta op) (podMeta pod)\<rparr>)) (\<lambda>c.
               case c of Inl e \<Rightarrow> Ret (Inl (Wrapf (''failed to create preflight Pod for '' @ n) e))
               | Inr _ \<Rightarrow> Ret (Inr ()))) t6 made"
      unfolding create_def exec_bind [of "buildPreflightPod op pf n"] by blast
    from b obtain img where pod: "pod = preflightPodOf op pf n img"
      and env: "\<And>q y. (q, y) \<in> set t5 \<Longrightarrow> \<exists>v. q = Getenv v" by (rule exec_buildPreflightPod) blast
    from cp obtain y t7 where t6: "t6 = (CreatePod (ownedPreflightPod op pf n img), y) # t7"
      and m: "exec (case asPod y of Inl e \<Rightarrow> Ret (Inl (Wrapf (''failed to create preflight Pod for '' @ n) e))
               | Inr _ \<Rightarrow> Ret (Inr ())) t7 made"
      unfolding createPod_def exec_ask_bind pod ownedPreflightPod_def by blast
    show thesis
    proof (cases "asPod y")
      case (Inl e)
      with m fin show thesis
        by (intro create_error [of _ t5 img y]) (auto simp: finish_def tr t1 none [OF 3] t2 t3 t6 intro: env)
    next
      case (Inr p)
      with m fin obtain tm t8 where "t4 = (Now, tm) # t8" "t7 = []"
        "exec (statusUpdate (setStatus n (preflightStarted (asTime tm)) op)) t8 (op', r)"
        by (auto simp: finish_def now_def exec_ask_bind)
      with Inr show thesis
        by (intro created [of t5 img p tm t8]) (auto simp: tr t1 none [OF 3] t2 t3 t6 intro: env)
    qed
  qed
qed

section \<open>Properties\<close>

text \<open>
  startPreflight creates a Pod only after its listing found none for the node, and then
  exactly the node's preflight Pod: found again by the controller's own selector, controlled by
  the NodeOp, pinned to the node, bounded by a deadline, with the host root mounted read-only
  through a declared volume. When it succeeds, the node is in phase Preflight and no other
  node's status has changed.
\<close>

theorem startPreflight_one_pod:
  assumes "exec (startPreflight op pf n) tr (op', r)"
  shows "(\<forall>p x. (CreatePod p, x) \<in> set tr \<longrightarrow>
       (ListPods Cache (Some (Namespace (opMeta op))) (preflightSelector op n), RPods (Inr [])) \<in> set tr \<and>
       MatchingLabels (preflightSelector op n) (Labels (podMeta p)) \<and>
       IsControlledBy (podMeta p) (opMeta op) \<and> NodeName (podSpec p) = n \<and>
       ActiveDeadlineSeconds (podSpec p) \<noteq> None \<and> mountsResolve (podSpec p) \<and>
       map (map vmReadOnly \<circ> cVolumeMounts) (Containers (podSpec p)) = [[True]]) \<and>
    same_op op op' \<and>
    (\<forall>m. m \<noteq> n \<longrightarrow> map_of (statuses op') m = map_of (statuses op) m) \<and>
    (r = Inr () \<longrightarrow> (\<exists>t. map_of (statuses op') n = Some (preflightStarted t)))"
proof -
  define good :: "pod \<Rightarrow> bool" where "good = (\<lambda>p. MatchingLabels (preflightSelector op n) (Labels (podMeta p)) \<and>
       IsControlledBy (podMeta p) (opMeta op) \<and> NodeName (podSpec p) = n \<and>
       ActiveDeadlineSeconds (podSpec p) \<noteq> None \<and> mountsResolve (podSpec p) \<and>
       map (map vmReadOnly \<circ> cVolumeMounts) (Containers (podSpec p)) = [[True]])"
  have shape: "good (ownedPreflightPod op pf n img)" for img
    unfolding good_def
    by (simp add: ownedPreflightPod_def preflightPodOf_def preflightSelector_def MatchingLabels_def kconst
        controlled_by_owner empty_meta_def mountsResolve_def empty_pod_spec_def empty_container_def hostRootVolume_def)
      (simp add: SetControllerReference_def)
  have status: "same_op op op' \<and> (\<forall>m. m \<noteq> n \<longrightarrow> map_of (statuses op') m = map_of (statuses op) m) \<and>
      (\<exists>t. map_of (statuses op') n = Some (preflightStarted t)) \<and> (\<forall>p x. (CreatePod p, x) \<notin> set t2)"
    if "exec (statusUpdate (setStatus n (preflightStarted t) op)) t2 (op', r)" for t t2
    using that by (rule exec_statusUpdate) auto
  have "(\<forall>p x. (CreatePod p, x) \<in> set tr \<longrightarrow>
       (ListPods Cache (Some (Namespace (opMeta op))) (preflightSelector op n), RPods (Inr [])) \<in> set tr \<and> good p) \<and>
    same_op op op' \<and> (\<forall>m. m \<noteq> n \<longrightarrow> map_of (statuses op') m = map_of (statuses op) m) \<and>
    (r = Inr () \<longrightarrow> (\<exists>t. map_of (statuses op') n = Some (preflightStarted t)))"
    using assms
  proof (rule exec_startPreflight)
    fix t img x e
    assume env: "\<And>q y. (q, y) \<in> set t \<Longrightarrow> \<exists>v. q = Getenv v" and "op' = op" "r = Inl e"
      and tr: "tr = (ListPods Cache (Some (Namespace (opMeta op))) (preflightSelector op n), RPods (Inr [])) # t
         @ [(CreatePod (ownedPreflightPod op pf n img), x)]"
    moreover have "(CreatePod p, y) \<notin> set t" for p y using env by blast
    ultimately show ?thesis using shape by auto
  next
    fix t img p tm t2
    assume env: "\<And>q y. (q, y) \<in> set t \<Longrightarrow> \<exists>v. q = Getenv v"
      and tr: "tr = (ListPods Cache (Some (Namespace (opMeta op))) (preflightSelector op n), RPods (Inr [])) # t
         @ (CreatePod (ownedPreflightPod op pf n img), RPod (Inr p)) # (Now, tm) # t2"
      and up: "exec (statusUpdate (setStatus n (preflightStarted (asTime tm)) op)) t2 (op', r)"
    have "(CreatePod p', y) \<notin> set t" for p' y using env by blast
    with shape status [OF up] tr show ?thesis by auto
  next
    fix p ps tm t2
    assume "tr = (ListPods Cache (Some (Namespace (opMeta op))) (preflightSelector op n), RPods (Inr (p # ps))) #
         (Now, tm) # t2"
      and up: "exec (statusUpdate (setStatus n (preflightStarted (asTime tm)) op)) t2 (op', r)"
    with status [OF up] show ?thesis by auto
  qed auto
  then show ?thesis unfolding good_def .
qed

definition sample_preflight :: preflight_spec where
  "sample_preflight = \<lparr>pfCommand = [''check''], pfImage = ''check:1'', pfActiveDeadlineSeconds = None\<rparr>"

definition preflight_trace :: trace where
  "preflight_trace =
     [(ListPods Cache (Some ''system'') (preflightSelector sample_op ''n1''), RPods (Inr [])),
      (CreatePod (ownedPreflightPod sample_op sample_preflight ''n1'' ''check:1''),
        RPod (Inr (ownedPreflightPod sample_op sample_preflight ''n1'' ''check:1''))),
      (Now, RTime (Time 3)),
      (UpdateNodeOpStatus (setStatus ''n1'' (preflightStarted (Time 3)) sample_op), RVersion (Inr ''2''))]"

lemma preflight_run:
  "exec (startPreflight sample_op sample_preflight ''n1'') preflight_trace
     (setVersion ''2'' (setStatus ''n1'' (preflightStarted (Time 3)) sample_op), Inr ())"
proof -
  have ns: "Namespace (opMeta sample_op) = ''system''" by (simp add: sample_op_def sample_meta_def)
  show ?thesis
    by (simp add: exec_iff_scripted startPreflight_def findPreflightPod_def buildPreflightPod_def attempt_def
        client_defs ask_def sample_preflight_def preflight_trace_def ownedPreflightPod_def ns)
qed

theorem startPreflight_one_pod_witness:
  "IsControlledBy (podMeta (ownedPreflightPod sample_op sample_preflight ''n1'' ''check:1'')) (opMeta sample_op)"
proof -
  have "(CreatePod (ownedPreflightPod sample_op sample_preflight ''n1'' ''check:1''),
        RPod (Inr (ownedPreflightPod sample_op sample_preflight ''n1'' ''check:1''))) \<in> set preflight_trace"
    by (simp add: preflight_trace_def)
  with startPreflight_one_pod [OF preflight_run] show ?thesis by blast
qed

end
