(* ===== verification/NodeMainJob.thy ===== *)
theory NodeMainJob
  imports NodeReboot NodePreflight
begin

text \<open>
  Starting the upgrade of one node (nodeop_controller.go: startMainJob, awaitingRebootPod,
  awaitRebootPod, advancePreflight). With a reboot requested, the upgrade Job is created only
  once a reboot Pod naming it is ready.
\<close>

section \<open>Operations\<close>

definition awaitingRebootPod :: "node_status \<Rightarrow> bool" where
  "awaitingRebootPod st \<longleftrightarrow> nsPhase st = phasePending \<and> nsJobName st = []"

definition awaitDetails :: "pod \<Rightarrow> string list" where
  "awaitDetails p =
     (let phase = podPhase (podStatus p) in
      (if phase \<noteq> [] \<and> phase \<noteq> PodPending then [''reboot Pod phase: '' @ phase] else [])) @
     (case rebootContainerStatus p of
        None \<Rightarrow> []
      | Some s \<Rightarrow> (case csWaiting s of
          None \<Rightarrow> []
        | Some reason \<Rightarrow> if reason \<noteq> [] then [''container: '' @ reason] else []))"

definition awaitMessage :: "pod \<Rightarrow> string" where
  "awaitMessage p =
     (let message = ''Waiting for the reboot Pod to be ready''; details = awaitDetails p in
      if details \<noteq> [] then message @ '' ('' @ Join details '', '' @ '')'' else message)"

definition awaitStatus :: "string \<Rightarrow> time \<Rightarrow> node_status" where
  "awaitStatus message t =
     \<lparr>nsPhase = phasePending, nsJobName = [], nsMessage = message,
      nsRebootStatus = rebootStatusPending, nsPreRebootBootID = [], nsLastUpdated = t\<rparr>"

definition awaitRebootPod :: "node_op \<Rightarrow> string \<Rightarrow> pod \<Rightarrow> (node_op \<times> unit res) nprog" where
  "awaitRebootPod op nodeName rebootPod =
     (let message = awaitMessage rebootPod;
          recorded = (case map_of (statuses op) nodeName of
             None \<Rightarrow> False | Some st \<Rightarrow> awaitingRebootPod st \<and> nsMessage st = message)
      in if recorded then Ret (op, Inr ())
         else bind now (\<lambda>t. statusUpdate (setStatus nodeName (awaitStatus message t) op)))"

text \<open>The reboot Pod to wait for: the one kept, or a new one under a new Job name.\<close>

definition obtainRebootPod :: "reader \<Rightarrow> node_op \<Rightarrow> string \<Rightarrow> pod res nprog" where
  "obtainRebootPod rd op nodeName =
     attempt (keepOneRebootPod rd op nodeName) (\<lambda>kept. case kept of
       Some p \<Rightarrow> Ret (Inr p)
     | None \<Rightarrow> bind (newJobName op nodeName) (\<lambda>jobName. createRebootPod rd op nodeName jobName))"

definition startMainJob :: "reader \<Rightarrow> node_op \<Rightarrow> string \<Rightarrow> (node_op \<times> unit res) nprog" where
  "startMainJob rd op nodeName =
     (if \<not> rebootRequested op
      then bind (newJobName op nodeName) (\<lambda>jobName. createNodeJob rd op nodeName jobName)
      else bind (obtainRebootPod rd op nodeName) (\<lambda>found. case found of
        Inl e \<Rightarrow> Ret (op, Inl e)
      | Inr rebootPod \<Rightarrow>
          (let jobName = rebootPodJobName rebootPod in
           if jobName = []
           then Ret (op, Inl (Errorf (''reboot Pod '' @ Name (podMeta rebootPod) @
                  '' does not name its upgrade Job in '' @ JobNameEnv)))
           else if \<not> rebootPodReady rebootPod then awaitRebootPod op nodeName rebootPod
           else createNodeJob rd op nodeName jobName)))"

definition preflightOutcome :: "string \<Rightarrow> string \<Rightarrow> time \<Rightarrow> node_status" where
  "preflightOutcome phase message t =
     \<lparr>nsPhase = phase, nsJobName = [], nsMessage = message,
      nsRebootStatus = rebootStatusNotRequested, nsPreRebootBootID = [], nsLastUpdated = t\<rparr>"

text \<open>Record a verdict; with a Pod, delete it once the verdict is saved.\<close>

definition recordOutcome ::
  "node_op \<Rightarrow> string \<Rightarrow> string \<Rightarrow> string \<Rightarrow> pod option \<Rightarrow> (node_op \<times> unit res) nprog" where
  "recordOutcome op nodeName phase message p =
     bind now (\<lambda>t.
     attemptS (statusUpdate (setStatus nodeName (preflightOutcome phase message t) op)) (\<lambda>op' _.
       case p of
         None \<Rightarrow> Ret (op', Inr ())
       | Some pod \<Rightarrow> bind (deletePreflightPod pod) (\<lambda>_. Ret (op', Inr ()))))"

definition advancePreflight :: "reader \<Rightarrow> node_op \<Rightarrow> string \<Rightarrow> (node_op \<times> unit res) nprog" where
  "advancePreflight rd op nodeName =
     bind (findPreflightPod op nodeName) (\<lambda>found. case found of
       Inl e \<Rightarrow> Ret (op, Inl e)
     | Inr None \<Rightarrow> recordOutcome op nodeName phaseFailed ''Preflight Pod not found'' None
     | Inr (Some p) \<Rightarrow>
         if podPhase (podStatus p) = PodSucceeded then
           (let msg = preflightTerminationMessage p in
            if msg = [] then
              attemptS (startMainJob rd op nodeName) (\<lambda>op' _.
                bind (deletePreflightPod p) (\<lambda>_. Ret (op', Inr ())))
            else recordOutcome op nodeName phaseCompleted (''Skipped by preflight: '' @ msg) (Some p))
         else if podPhase (podStatus p) = PodFailed then
           recordOutcome op nodeName phaseFailed (''Preflight failed: '' @ preflightFailureReason p) (Some p)
         else Ret (op, Inr ()))"

section \<open>The interface of one node's step\<close>

text \<open>
  What the scheduler relies on when it runs a step for one node: the NodeOp keeps its identity,
  no other node's status changes, a step for a node that already takes up a slot leaves it
  with a status, and an upgrade Job is created only behind the reboot gate.
\<close>

definition inFlight :: "node_status \<Rightarrow> bool" where
  "inFlight st \<longleftrightarrow> nsPhase st = phasePreflight \<or> nsPhase st = phasePending \<or> nsPhase st = phaseRunning \<or>
     (nsPhase st = phaseCompleted \<and> nsRebootStatus st = rebootStatusPending)"

text \<open>
  An event that shows a ready reboot Pod of the NodeOp on the node, naming the Job of a creation.
\<close>

definition rebootPodSeen :: "string \<Rightarrow> strmap \<Rightarrow> string \<Rightarrow> node_req \<times> node_resp \<Rightarrow> bool" where
  "rebootPodSeen ns sel jobName ev \<longleftrightarrow>
     (\<exists>rd ps p. ev = (ListPods rd (Some ns) sel, RPods (Inr ps)) \<and> p \<in> set ps \<and> rebootPodReady p \<and>
        rebootPodJobName p = jobName) \<or>
     (\<exists>q p. ev = (CreatePod q, RPod (Inr p)) \<and> rebootPodReady p \<and> rebootPodJobName p = jobName)"

text \<open>The gate in front of the creation of an upgrade Job, of which the labels name NodeOp and node.\<close>

definition rebootGate :: "node_op \<Rightarrow> node_req \<times> node_resp \<Rightarrow> node_req \<times> node_resp \<Rightarrow> bool" where
  "rebootGate op g e \<longleftrightarrow> (\<exists>jb x. e = (CreateJob jb, x) \<and>
     rebootPodSeen (Namespace (opMeta op)) (rebootSelector op (NodeName (templateSpec (jobSpec jb))))
       (Name (jobMeta jb)) g)"

definition gated :: "node_op \<Rightarrow> trace \<Rightarrow> bool" where
  "gated op tr \<longleftrightarrow> (rebootRequested op \<longrightarrow> guarded (rebootGate op) (isCreateJob \<circ> fst) tr)"

lemma gated_same: "same_op op op' \<Longrightarrow> gated op' = gated op"
proof -
  assume "same_op op op'"
  then have "rebootGate op' = rebootGate op" "opSpec op' = opSpec op"
    by (auto simp: rebootGate_def rebootSelector_def same_op_def fun_eq_iff)
  then show ?thesis by (intro ext) (simp add: gated_def)
qed

lemma gated_append: "gated op t1 \<Longrightarrow> gated op t2 \<Longrightarrow> gated op (t1 @ t2)"
  by (simp add: gated_def guarded_append_both)

lemma gated_quiet: "(\<And>q x. (q, x) \<in> set tr \<Longrightarrow> \<not> isCreateJob q) \<Longrightarrow> gated op tr"
  unfolding gated_def by (auto intro!: guarded_none)

lemma gated_Nil [simp]: "gated op []"
  by (simp add: gated_def)

text \<open>
  The type invariant of a node's status: one of the five phases, and a node without a Job is
  never Running. Of a NodeOp: one status per node, all of them valid.
\<close>

definition validStatus :: "node_status \<Rightarrow> bool" where
  "validStatus st \<longleftrightarrow>
     (nsPhase st = phasePreflight \<or> nsPhase st = phasePending \<or> nsPhase st = phaseRunning \<or>
      nsPhase st = phaseCompleted \<or> nsPhase st = phaseFailed) \<and>
     (nsJobName st = [] \<longrightarrow> nsPhase st \<noteq> phaseRunning)"

definition validOp :: "node_op \<Rightarrow> bool" where
  "validOp op \<longleftrightarrow> wf_map (statuses op) \<and> (\<forall>n st. map_of (statuses op) n = Some st \<longrightarrow> validStatus st)"

lemma valid_statuses [simp]:
  "validStatus (jobCreated op j t)" "validStatus (preflightStarted t)" "validStatus (awaitStatus m t)"
  "validStatus (preflightOutcome phaseFailed m t)" "validStatus (preflightOutcome phaseCompleted m t)"
  by (simp_all add: validStatus_def jobCreated_def preflightStarted_def awaitStatus_def preflightOutcome_def)

lemma validOp_put: "validOp op \<Longrightarrow> validStatus st \<Longrightarrow> statuses op' = put n st (statuses op) \<Longrightarrow> validOp op'"
  by (simp add: validOp_def)

text \<open>What one node's step may do to the statuses: set that node's, or nothing.\<close>

definition moved :: "string \<Rightarrow> node_op \<Rightarrow> node_op \<Rightarrow> bool" where
  "moved n op op' \<longleftrightarrow> same_op op op' \<and>
     (statuses op' = statuses op \<or> (\<exists>st. validStatus st \<and> statuses op' = put n st (statuses op)))"

lemma moved_refl [simp, intro]: "moved n op op"
  by (simp add: moved_def)

lemma moved_put: "statuses op' = put n st (statuses op) \<Longrightarrow> same_op op op' \<Longrightarrow> validStatus st \<Longrightarrow> moved n op op'"
  by (auto simp: moved_def)

lemma moved_others: "moved n op op' \<Longrightarrow> m \<noteq> n \<Longrightarrow> map_of (statuses op') m = map_of (statuses op) m"
  by (auto simp: moved_def)

lemma moved_keeps: "moved n op op' \<Longrightarrow> has_key m (statuses op) \<Longrightarrow> has_key m (statuses op')"
  by (auto simp: moved_def)

lemma moved_wf: "moved n op op' \<Longrightarrow> wf_map (statuses op) \<Longrightarrow> wf_map (statuses op')"
  by (auto simp: moved_def)

lemma moved_valid: "moved n op op' \<Longrightarrow> validOp op \<Longrightarrow> validOp op'"
  by (auto simp: moved_def validOp_def split: if_splits)

lemma moved_count:
  assumes "moved n op op'" and "wf_map (statuses op)"
  shows "count_if P (statuses op') \<le> count_if P (statuses op) +
    (case map_of (statuses op) n of Some st \<Rightarrow> (if P st then 0 else 1) | None \<Rightarrow> 1)"
proof -
  from assms(1) consider "statuses op' = statuses op" | st where "statuses op' = put n st (statuses op)"
    by (auto simp: moved_def)
  then show ?thesis
  proof cases
    case 1
    then show ?thesis by simp
  next
    case 2
    show ?thesis
    proof (cases "map_of (statuses op) n")
      case None
      then show ?thesis by (simp add: 2 count_if_put_new)
    next
      case (Some st')
      with count_if_put_old [OF assms(2) Some, of P st] show ?thesis by (auto simp: 2 split: if_splits)
    qed
  qed
qed

lemma moved_statusUpdate:
  "validStatus st \<Longrightarrow> exec (statusUpdate (setStatus n st op)) tr (op', r) \<Longrightarrow> moved n op op'"
  by (erule exec_statusUpdate) (auto intro: moved_put)

text \<open>The loop of the scheduler that goes on with the next node after an error.\<close>

primrec forAll :: "('x \<Rightarrow> 's \<Rightarrow> ('q, 'r, 's \<times> unit res) prog) \<Rightarrow> 'x list \<Rightarrow> 's \<Rightarrow> ('q, 'r, 's) prog" where
  "forAll f [] s = Ret s"
| "forAll f (x # xs) s = bind (f x s) (\<lambda>(s', _). forAll f xs s')"

text \<open>Every status that is written to the API server satisfies the invariant.\<close>

definition writeOk :: "node_req \<Rightarrow> bool" where
  "writeOk q \<longleftrightarrow> (\<forall>s. q = UpdateNodeOpStatus s \<longrightarrow> validOp s)"

lemma writeOk_simps [simp]:
  "writeOk (UpdateNodeOpStatus s) = validOp s" "writeOk Now" "writeOk ListNodes" "writeOk (GetNode n)"
  "writeOk (ListPods rd nso sel)" "writeOk (GetJob rd ns n)" "writeOk (CreatePod p)" "writeOk (DeletePod ns n g)"
  "writeOk (RandString k)" "writeOk (Getenv v)" "writeOk (RangeKeys ks)" "writeOk (CreateJob j)"
  "writeOk (UpdateNode nd)"
  by (simp_all add: writeOk_def)

lemma validOp_setStatus [simp, intro]: "validOp op \<Longrightarrow> validStatus st \<Longrightarrow> validOp (setStatus n st op)"
  by (rule validOp_put) simp_all

lemma writes_statusUpdate: "validOp op \<Longrightarrow> only writeOk (statusUpdate op)"
  by (simp add: statusUpdate_def)

locale node_step =
  fixes step :: "'x \<Rightarrow> node_op \<Rightarrow> (node_op \<times> unit res) nprog" and node_of :: "'x \<Rightarrow> string"
  assumes moves: "exec (step x op) tr (op', r) \<Longrightarrow> moved (node_of x) op op'"
    and gate: "exec (step x op) tr (op', r) \<Longrightarrow> gated op tr"
    and writes: "validOp op \<Longrightarrow> only writeOk (step x op)"
begin

lemma same: "exec (step x op) tr (op', r) \<Longrightarrow> same_op op op'"
  using moves by (auto simp: moved_def)

lemma loop_frame:
  assumes "exec (forAll step xs op) tr op'"
  shows "same_op op op' \<and> gated op tr \<and>
    (\<forall>m. m \<notin> node_of ` set xs \<longrightarrow> map_of (statuses op') m = map_of (statuses op) m)"
  using assms
proof (induction xs arbitrary: op tr)
  case Nil
  then show ?case by simp
next
  case (Cons x xs)
  from Cons.prems obtain t1 op1 r t2 where tr: "tr = t1 @ t2" and one: "exec (step x op) t1 (op1, r)"
    and rest: "exec (forAll step xs op1) t2 op'" by (auto simp: exec_bind)
  note IH = Cons.IH [OF rest]
  have "gated op tr" using gate [OF one] IH gated_same [OF same [OF one]] by (simp add: tr gated_append)
  moreover have "same_op op op'" using same [OF one] IH same_op_trans by blast
  ultimately show ?case using IH moved_others [OF moves [OF one]] by auto
qed

lemma loop_valid: "exec (forAll step xs op) tr op' \<Longrightarrow> validOp op \<Longrightarrow> validOp op'"
proof (induction xs arbitrary: op tr)
  case Nil
  then show ?case by simp
next
  case (Cons x xs)
  from Cons.prems(1) obtain t1 op1 r t2 where one: "exec (step x op) t1 (op1, r)"
    and rest: "exec (forAll step xs op1) t2 op'" by (auto simp: exec_bind)
  show ?case by (rule Cons.IH [OF rest moved_valid [OF moves [OF one] Cons.prems(2)]])
qed

lemma loop_writes: "validOp op \<Longrightarrow> only writeOk (forAll step xs op)"
proof (induction xs arbitrary: op)
  case Nil
  then show ?case by simp
next
  case (Cons x xs)
  have "only writeOk (case a of (s', _) \<Rightarrow> forAll step xs s')" if "exec (step x op) tr a" for tr a
    using that Cons moved_valid [OF moves] by (cases a) auto
  then show ?case unfolding forAll.simps by (intro only_bind_exec writes Cons.prems)
qed

lemma stopping_loop_writes: "validOp op \<Longrightarrow> only writeOk (forEachS step xs op)"
  by (rule only_forEachS_inv [where I = validOp]) (auto intro: writes moved_valid [OF moves])

lemma loop_count:
  assumes "exec (forAll step xs op) tr op'" and "validOp op"
  shows "count_if P (statuses op') \<le> count_if P (statuses op) + length xs"
  using assms
proof (induction xs arbitrary: op tr)
  case Nil
  then show ?case by simp
next
  case (Cons x xs)
  from Cons.prems obtain t1 op1 r t2 where one: "exec (step x op) t1 (op1, r)"
    and rest: "exec (forAll step xs op1) t2 op'" by (auto simp: exec_bind)
  note mv = moves [OF one]
  have "count_if P (statuses op1) \<le> count_if P (statuses op) + 1"
    using moved_count [OF mv, of P] Cons.prems(2) by (auto simp: validOp_def split: option.splits if_splits)
  with Cons.IH [OF rest moved_valid [OF mv Cons.prems(2)]] show ?case by auto
qed

text \<open>The same for the loop that stops at the first error.\<close>

lemma stopping_loop_frame:
  assumes "exec (forEachS step xs op) tr (op', r)"
  shows "same_op op op' \<and> gated op tr \<and> (validOp op \<longrightarrow> validOp op') \<and>
    (\<forall>m. m \<notin> node_of ` set xs \<longrightarrow> map_of (statuses op') m = map_of (statuses op) m)"
  using assms
proof (induction xs arbitrary: op tr)
  case Nil
  then show ?case by simp
next
  case (Cons x xs)
  from Cons.prems consider (err) e where "exec (step x op) tr (op', Inl e)"
    | (ok) t1 op1 u t2 where "tr = t1 @ t2" "exec (step x op) t1 (op1, Inr u)" "exec (forEachS step xs op1) t2 (op', r)"
    by (auto simp: exec_attemptS)
  then show ?case
  proof cases
    case err
    from moves [OF err] show ?thesis
      using gate [OF err] same [OF err] moved_valid moved_others by fastforce
  next
    case ok
    note IH = Cons.IH [OF ok(3)] and mv = moves [OF ok(2)]
    have "gated op tr" using gate [OF ok(2)] IH gated_same [OF same [OF ok(2)]] by (simp add: ok(1) gated_append)
    moreover have "same_op op op'" using same [OF ok(2)] IH same_op_trans by blast
    ultimately show ?thesis using IH moved_others [OF mv] moved_valid [OF mv] by auto
  qed
qed

end

text \<open>A step that only touches nodes that take up a slot already cannot take up another one.\<close>

locale slot_keeping_step = node_step step node_of
  for step :: "'x \<Rightarrow> node_op \<Rightarrow> (node_op \<times> unit res) nprog" and node_of :: "'x \<Rightarrow> string" +
  assumes keeps_slot: "exec (step x op) tr (op', r) \<Longrightarrow>
    statuses op' = statuses op \<or> (\<exists>st. map_of (statuses op) (node_of x) = Some st \<and> inFlight st)"
begin

lemma keeps_count:
  assumes "exec (step x op) tr (op', r)" and "validOp op"
  shows "count_if inFlight (statuses op') \<le> count_if inFlight (statuses op)"
  using keeps_slot [OF assms(1)] moved_count [OF moves [OF assms(1)], of inFlight] assms(2)
  by (auto simp: validOp_def)

lemma stopping_loop_count:
  "exec (forEachS step xs op) tr (op', r) \<Longrightarrow> validOp op \<Longrightarrow>
     count_if inFlight (statuses op') \<le> count_if inFlight (statuses op)"
proof (induction xs arbitrary: op tr)
  case Nil
  then show ?case by simp
next
  case (Cons x xs)
  from Cons.prems(1) consider (err) e where "exec (step x op) tr (op', Inl e)"
    | (ok) t1 op1 u t2 where "exec (step x op) t1 (op1, Inr u)" "exec (forEachS step xs op1) t2 (op', r)"
    by (auto simp: exec_attemptS)
  then show ?case
  proof cases
    case err
    with Cons.prems(2) show ?thesis by (rule keeps_count [rotated])
  next
    case ok
    from Cons.IH [OF ok(2) moved_valid [OF moves [OF ok(1)] Cons.prems(2)]] keeps_count [OF ok(1) Cons.prems(2)]
    show ?thesis by simp
  qed
qed

end

section \<open>The steps of one node keep it\<close>

lemma createNodeJob_created:
  assumes "exec (createNodeJob rd op n j) tr (op', r)" and "(CreateJob jb, x) \<in> set tr"
  shows "Name (jobMeta jb) = j \<and> NodeName (templateSpec (jobSpec jb)) = n"
  using assms(1)
proof (rule exec_createNodeJob)
  fix ex t
  assume "tr = (GetJob rd (Namespace (opMeta op)) j, RJob (Inr ex)) # t"
    "exec (recordNodeJob op n j) t (op', r)"
  then show ?thesis using assms(2) by (auto elim!: exec_recordNodeJob)
next
  fix y e0 t e
  assume "tr = (GetJob rd (Namespace (opMeta op)) j, y) # t" "exec (prepareNode op n) t (Inl e)"
  then show ?thesis using assms(2) before_create_quiet by fastforce
next
  fix y e0 t1 t2 t3 spec z
  assume tr: "tr = (GetJob rd (Namespace (opMeta op)) j, y) # t1 @ t2 @ (CreateJob (upgradeJob op n j spec), z) # t3"
    and p: "exec (prepareNode op n) t1 (Inr ())"
    and sp: "exec (if rebootRequested op then createRebootJobSpec op n (jobBackoffLimit op)
             else createStandardJobSpec op n (jobBackoffLimit op)) t2 spec"
    and after: "z = RUnit (Inr ()) \<and> exec (recordNodeJob op n j) t3 (op', r) \<or>
       (\<exists>ce t4 t5. asUnit z = Inl ce \<and> t3 = t4 @ t5 \<and>
          (exec (adoptExistingJob op j ce) t4 (Inr ()) \<and> exec (recordNodeJob op n j) t5 (op', r) \<or>
           (\<exists>e. exec (adoptExistingJob op j ce) t4 (Inl e) \<and> t5 = [] \<and> op' = op \<and> r = Inl e)))"
  have "(CreateJob jb, x) \<notin> set t1" using before_create_quiet [OF p] isCreateJob.simps(1) by blast
  moreover have "(CreateJob jb, x) \<notin> set t2" using spec_quiet [OF sp] disruptive.simps(3) by blast
  moreover have "(CreateJob jb, x) \<notin> set t3" using after_create_quiet [OF after] disruptive.simps(3) by blast
  ultimately have "jb = upgradeJob op n j spec" using assms(2) by (simp add: tr)
  moreover have "NodeName (templateSpec spec) = n"
    using sp by (rule exec_jobSpecs) (auto simp: jobSpecOf_def)
  ultimately show ?thesis by (simp add: upgradeJob_def SetControllerReference_def)
qed (use assms(2) in auto)

lemma recordNodeJob_moved: "exec (recordNodeJob op n j) tr (op', r) \<Longrightarrow> moved n op op'"
  by (erule exec_recordNodeJob) (auto intro: moved_put)

lemma createNodeJob_moved:
  "exec (createNodeJob rd op n j) tr (op', r) \<Longrightarrow> moved n op op'"
  by (erule exec_createNodeJob) (auto dest: recordNodeJob_moved)

lemma recordNodeJob_writes: "validOp op \<Longrightarrow> only writeOk (recordNodeJob op n j)"
  unfolding recordNodeJob_def now_def by (auto intro!: only_bind writes_statusUpdate)

lemma createNodeJob_writes:
  assumes "validOp op"
  shows "only writeOk (createNodeJob rd op n j)"
proof -
  have p: "only writeOk (prepareNode op n)" using only_prepareNode by (rule only_mono) (case_tac q; simp)
  have sp: "only writeOk (createRebootJobSpec op n b)" "only writeOk (createStandardJobSpec op n b)" for b
    by (rule only_mono [OF only_jobSpec(1)], force) (rule only_mono [OF only_jobSpec(2)], force)
  have ad: "only writeOk (adoptExistingJob op j e)" for e
    using only_adoptExistingJob by (rule only_mono) (case_tac q; simp add: writeOk_def)
  show ?thesis
    unfolding createNodeJob_def getJob_def createJob_def
    by (auto intro!: only_bind p sp ad recordNodeJob_writes assms split: sum.splits)
qed

text \<open>Nothing before createNodeJob creates a Job.\<close>

lemma newJobName_quiet: "exec (newJobName op n) t j \<Longrightarrow> (q, x) \<in> set t \<Longrightarrow> \<not> isCreateJob q"
  by (auto simp: newJobName_def Let_def exec_bind client_defs exec_ask)

lemma keepOneRebootPod_quiet:
  assumes "exec (keepOneRebootPod rd op n) t r" and "(q, x) \<in> set t"
  shows "\<not> isCreateJob q"
  using assms(1)
  by (rule exec_keepOneRebootPod) (use assms(2) in \<open>auto elim!: deleteRebootPods_event\<close>)

fun rbacOrPod :: "node_req \<Rightarrow> bool" where
  "rbacOrPod (CreateServiceAccount _) = True"
| "rbacOrPod (CreateRoleBinding _) = True"
| "rbacOrPod (CreatePod _) = True"
| "rbacOrPod (Getenv _) = True"
| "rbacOrPod q = roleAccess q"

lemma only_createRebootPod: "only rbacOrPod (createRebootPod rd op n j)"
proof -
  have "only rbacOrPod (ensureRebootRole rd op)"
    using only_ensureRebootRole by (rule only_mono) (case_tac q; simp)
  then show ?thesis
    unfolding createRebootPod_def ensureRebootRBAC_def createRebootRBACObject_def client_defs
    by (auto intro!: only_bind only_attempt split: sum.splits)
qed

lemma createRebootPod_quiet:
  "exec (createRebootPod rd op n j) t r \<Longrightarrow> (q, x) \<in> set t \<Longrightarrow> \<not> isCreateJob q"
  using only_exec [OF _ only_createRebootPod] by (cases q) fastforce+

text \<open>The Pod createRebootPod returns is the one the API server answered the creation with.\<close>

lemma createRebootPod_created:
  "exec (createRebootPod rd op n j) t (Inr p) \<Longrightarrow> \<exists>q. (CreatePod q, RPod (Inr p)) \<in> set t"
  unfolding createRebootPod_def exec_attempt by (auto simp: getenv_def exec_ask_bind createPod_def exec_ask)

lemma obtainRebootPod_seen:
  assumes "exec (obtainRebootPod rd op n) t r"
  shows "(\<forall>q x. (q, x) \<in> set t \<longrightarrow> \<not> isCreateJob q) \<and>
    (\<forall>p. r = Inr p \<longrightarrow> rebootPodReady p \<longrightarrow>
      (\<exists>g \<in> set t. rebootPodSeen (Namespace (opMeta op)) (rebootSelector op n) (rebootPodJobName p) g))"
proof -
  consider (kerr) e where "exec (keepOneRebootPod rd op n) t (Inl e)" "r = Inl e"
    | (kept) p where "exec (keepOneRebootPod rd op n) t (Inr (Some p))" "r = Inr p"
    | (new) t1 t2 t3 j where "exec (keepOneRebootPod rd op n) t1 (Inr None)" "t = t1 @ t2 @ t3"
        "exec (newJobName op n) t2 j" "exec (createRebootPod rd op n j) t3 r"
  proof -
    from assms consider e where "exec (keepOneRebootPod rd op n) t (Inl e)" "r = Inl e"
      | t1 o' t2 where "t = t1 @ t2" "exec (keepOneRebootPod rd op n) t1 (Inr o')"
        "exec (case o' of Some p \<Rightarrow> Ret (Inr p)
          | None \<Rightarrow> bind (newJobName op n) (\<lambda>jobName. createRebootPod rd op n jobName)) t2 r"
      unfolding obtainRebootPod_def exec_attempt by blast
    then show thesis
    proof cases
      case 1
      then show thesis by (rule kerr)
    next
      case 2
      then show thesis by (cases o') (auto simp: exec_bind intro: kept new)
    qed
  qed
  then show ?thesis
  proof cases
    case kerr
    then show ?thesis using keepOneRebootPod_quiet by blast
  next
    case kept
    from kept(1) have "\<exists>ps. p \<in> set ps \<and>
        (ListPods rd (Some (Namespace (opMeta op))) (rebootSelector op n), RPods (Inr ps)) \<in> set t"
      by (rule exec_keepOneRebootPod) (auto dest!: sorted_live)
    then show ?thesis using keepOneRebootPod_quiet [OF kept(1)] kept(2) unfolding rebootPodSeen_def by blast
  next
    case new
    then show ?thesis
      using keepOneRebootPod_quiet [OF new(1)] newJobName_quiet [OF new(3)] createRebootPod_quiet [OF new(4)]
        createRebootPod_created unfolding rebootPodSeen_def by fastforce
  qed
qed

lemma exec_startMainJob:
  assumes "exec (startMainJob rd op n) tr (op', r)"
  obtains (plain) t1 t2 j where "\<not> rebootRequested op" "tr = t1 @ t2" "exec (newJobName op n) t1 j"
      "exec (createNodeJob rd op n j) t2 (op', r)"
    | (error) e where "rebootRequested op" "op' = op" "r = Inl e" "\<exists>x. exec (obtainRebootPod rd op n) tr x"
    | (wait) p t1 t2 where "rebootRequested op" "tr = t1 @ t2" "exec (obtainRebootPod rd op n) t1 (Inr p)"
      "\<not> rebootPodReady p" "exec (awaitRebootPod op n p) t2 (op', r)"
    | (go) p t1 t2 where "rebootRequested op" "tr = t1 @ t2" "exec (obtainRebootPod rd op n) t1 (Inr p)"
      "rebootPodReady p" "exec (createNodeJob rd op n (rebootPodJobName p)) t2 (op', r)"
proof (cases "rebootRequested op")
  case False
  with assms show thesis by (auto simp: startMainJob_def exec_bind intro: plain)
next
  case True
  with assms obtain t1 x t2 where tr: "tr = t1 @ t2" and o': "exec (obtainRebootPod rd op n) t1 x"
    and rest: "exec (case x of Inl e \<Rightarrow> Ret (op, Inl e) | Inr rebootPod \<Rightarrow>
          (let jobName = rebootPodJobName rebootPod in
           if jobName = []
           then Ret (op, Inl (Errorf (''reboot Pod '' @ Name (podMeta rebootPod) @
                  '' does not name its upgrade Job in '' @ JobNameEnv)))
           else if \<not> rebootPodReady rebootPod then awaitRebootPod op n rebootPod
           else createNodeJob rd op n jobName)) t2 (op', r)"
    by (auto simp: startMainJob_def exec_bind)
  show thesis
  proof (cases x)
    case (Inl e)
    with rest o' tr True show thesis by (intro error [of e]) auto
  next
    case (Inr p)
    consider "rebootPodJobName p = []" | "rebootPodJobName p \<noteq> []" "\<not> rebootPodReady p"
      | "rebootPodJobName p \<noteq> []" "rebootPodReady p" by blast
    then show thesis
    proof cases
      case 1
      with rest o' tr True Inr show thesis by (intro error) (auto simp: Let_def)
    next
      case 2
      with rest o' tr True Inr show thesis by (intro wait [of t1 t2 p]) (auto simp: Let_def)
    next
      case 3
      with rest o' tr True Inr show thesis by (intro go [of t1 t2 p]) (auto simp: Let_def)
    qed
  qed
qed

lemma exec_awaitRebootPod:
  assumes "exec (awaitRebootPod op n p) tr (op', r)"
  obtains (recorded) st where "tr = []" "op' = op" "r = Inr ()" "map_of (statuses op) n = Some st"
      "awaitingRebootPod st" "nsMessage st = awaitMessage p"
    | (written) tm y where "same_op op op'" "statuses op' = put n (awaitStatus (awaitMessage p) (asTime tm)) (statuses op)"
      "tr = [(Now, tm), (UpdateNodeOpStatus (setStatus n (awaitStatus (awaitMessage p) (asTime tm)) op), y)]"
proof -
  have w: thesis if "exec (bind now (\<lambda>t. statusUpdate (setStatus n (awaitStatus (awaitMessage p) t) op))) tr (op', r)"
  proof -
    from that obtain tm t2 where tr: "tr = (Now, tm) # t2"
      and "exec (statusUpdate (setStatus n (awaitStatus (awaitMessage p) (asTime tm)) op)) t2 (op', r)"
      unfolding now_def exec_ask_bind by blast
    from this(2) show thesis by (rule exec_statusUpdate) (auto simp: tr intro!: written [of tm])
  qed
  show thesis
  proof (cases "map_of (statuses op) n")
    case None
    with assms w show thesis by (simp add: awaitRebootPod_def Let_def)
  next
    case (Some st)
    with assms w recorded [of st] show thesis by (auto simp: awaitRebootPod_def Let_def split: if_splits)
  qed
qed

lemma startMainJob_moved: "exec (startMainJob rd op n) tr (op', r) \<Longrightarrow> moved n op op'"
  by (erule exec_startMainJob)
    (auto dest: createNodeJob_moved elim!: exec_awaitRebootPod intro: moved_put)

lemma startMainJob_gated:
  assumes "exec (startMainJob rd op n) tr (op', r)"
  shows "gated op tr"
  using assms
proof (rule exec_startMainJob)
  assume "\<not> rebootRequested op"
  then show ?thesis by (simp add: gated_def)
next
  fix e
  assume "\<exists>x. exec (obtainRebootPod rd op n) tr x"
  then show ?thesis using obtainRebootPod_seen by (intro gated_quiet) blast
next
  fix p t1 t2
  assume tr: "tr = t1 @ t2" and o': "exec (obtainRebootPod rd op n) t1 (Inr p)"
    and w: "exec (awaitRebootPod op n p) t2 (op', r)"
  from w have "gated op t2" by (rule exec_awaitRebootPod) (auto intro!: gated_quiet)
  moreover have "gated op t1" using obtainRebootPod_seen [OF o'] by (intro gated_quiet) blast
  ultimately show ?thesis by (simp add: tr gated_append)
next
  fix p t1 t2
  assume tr: "tr = t1 @ t2" and o': "exec (obtainRebootPod rd op n) t1 (Inr p)" and ready: "rebootPodReady p"
    and c: "exec (createNodeJob rd op n (rebootPodJobName p)) t2 (op', r)"
  from obtainRebootPod_seen [OF o'] ready obtain g where g: "g \<in> set t1"
    "rebootPodSeen (Namespace (opMeta op)) (rebootSelector op n) (rebootPodJobName p) g" by blast
  have "guarded (rebootGate op) (isCreateJob \<circ> fst) t1"
    using obtainRebootPod_seen [OF o'] by (auto intro!: guarded_none)
  moreover have "\<exists>g \<in> set t1 \<union> set pre. rebootGate op g e"
    if eq: "t2 = pre @ e # post" and c': "(isCreateJob \<circ> fst) e" for pre e post
  proof -
    obtain jb x where e: "e = (CreateJob jb, x)" using c' by (cases e; cases "fst e") auto
    with eq have "(CreateJob jb, x) \<in> set t2" by simp
    from createNodeJob_created [OF c this] g show ?thesis by (auto simp: rebootGate_def e)
  qed
  ultimately show ?thesis unfolding gated_def tr by (blast intro: guarded_append)
qed

lemma startMainJob_writes:
  assumes "validOp op"
  shows "only writeOk (startMainJob rd op n)"
proof -
  have d: "only writeOk (deleteRebootPods ps)" for ps
    unfolding deleteRebootPods_def client_defs by (auto intro!: only_forEach only_bind split: sum.splits)
  have k: "only writeOk (keepOneRebootPod rd op n)"
    unfolding keepOneRebootPod_def listRebootPods_def client_defs
    by (auto intro!: only_attempt d split: list.splits)
  have c: "only writeOk (createRebootPod rd op n j)" for j
    using only_createRebootPod by (rule only_mono) (case_tac q; simp add: writeOk_def)
  have nm: "only writeOk (newJobName op n)" by (simp add: newJobName_def Let_def client_defs only_bind)
  have o': "only writeOk (obtainRebootPod rd op n)"
    unfolding obtainRebootPod_def by (auto intro!: only_attempt only_bind k c nm split: option.splits)
  have w: "only writeOk (awaitRebootPod op n p)" for p
    unfolding awaitRebootPod_def Let_def now_def using assms
    by (auto intro!: only_bind writes_statusUpdate split: option.splits)
  show ?thesis
    unfolding startMainJob_def Let_def
    by (auto intro!: only_bind nm o' w createNodeJob_writes assms split: sum.splits)
qed

interpretation main_step: node_step "\<lambda>n op. startMainJob rd op n" "\<lambda>n. n" for rd
  by unfold_locales (auto dest: startMainJob_moved startMainJob_gated startMainJob_writes)

text \<open>The executions of a preflight's evaluation, one case per branch.\<close>

lemma exec_deletePreflightPod:
  "exec (deletePreflightPod p) t u \<Longrightarrow>
     \<exists>x. t = [(DeletePod (Namespace (podMeta p)) (Name (podMeta p)) (Some 0), x)]"
  by (auto simp: deletePreflightPod_def deletePod_def exec_ask_bind)

lemma exec_recordOutcome:
  assumes "exec (recordOutcome op n phase msg po) tr (op', r)"
  obtains tm y t where "same_op op op'" "statuses op' = put n (preflightOutcome phase msg (asTime tm)) (statuses op)"
    "tr = (Now, tm) # (UpdateNodeOpStatus (setStatus n (preflightOutcome phase msg (asTime tm)) op), y) # t"
    "t = [] \<or> (\<exists>p v x. po = Some p \<and> y = RVersion (Inr v) \<and>
       t = [(DeletePod (Namespace (podMeta p)) (Name (podMeta p)) (Some 0), x)])"
proof -
  from assms obtain tm t2 where tr: "tr = (Now, tm) # t2"
    and rest: "exec (attemptS (statusUpdate (setStatus n (preflightOutcome phase msg (asTime tm)) op)) (\<lambda>op' _.
       case po of None \<Rightarrow> Ret (op', Inr ())
       | Some pod \<Rightarrow> bind (deletePreflightPod pod) (\<lambda>_. Ret (op', Inr ())))) t2 (op', r)"
    unfolding recordOutcome_def now_def exec_ask_bind by blast
  from rest consider e where "exec (statusUpdate (setStatus n (preflightOutcome phase msg (asTime tm)) op)) t2 (op', Inl e)"
    | t3 t4 where "t2 = t3 @ t4" "exec (statusUpdate (setStatus n (preflightOutcome phase msg (asTime tm)) op)) t3 (op', Inr ())"
      "t4 = [] \<or> (\<exists>p x. po = Some p \<and> t4 = [(DeletePod (Namespace (podMeta p)) (Name (podMeta p)) (Some 0), x)])"
  proof -
    from rest consider e where "exec (statusUpdate (setStatus n (preflightOutcome phase msg (asTime tm)) op)) t2 (op', Inl e)"
      | t3 s t4 where "t2 = t3 @ t4" "exec (statusUpdate (setStatus n (preflightOutcome phase msg (asTime tm)) op)) t3 (s, Inr ())"
        "exec (case po of None \<Rightarrow> Ret (s, Inr ()) | Some pod \<Rightarrow> bind (deletePreflightPod pod) (\<lambda>_. Ret (s, Inr ()))) t4 (op', r)"
      unfolding exec_attemptS by auto
    then show thesis
    proof cases
      case 1
      then show thesis by (rule that(1))
    next
      case 2
      then show thesis
        by (cases po) (auto simp: exec_bind dest!: exec_deletePreflightPod intro: that(2))
    qed
  qed
  then show thesis
  proof cases
    case 1
    from 1 show thesis by (rule exec_statusUpdate) (auto simp: tr intro!: that [of tm _ "[]"])
  next
    case 2
    from 2(2) obtain y v where "t3 = [(UpdateNodeOpStatus (setStatus n (preflightOutcome phase msg (asTime tm)) op), y)]"
      "y = RVersion (Inr v)" "same_op op op'"
      "statuses op' = put n (preflightOutcome phase msg (asTime tm)) (statuses op)"
      by (rule exec_statusUpdate) auto
    with 2 tr show thesis by (intro that [of tm y t4]) auto
  qed
qed

lemma exec_advancePreflight:
  assumes "exec (advancePreflight rd op n) tr (op', r)"
  obtains (error) x e where "tr = [(ListPods Cache (Some (Namespace (opMeta op))) (preflightSelector op n), x)]"
      "op' = op" "r = Inl e"
    | (missing) t where "exec (recordOutcome op n phaseFailed ''Preflight Pod not found'' None) t (op', r)"
      "tr = (ListPods Cache (Some (Namespace (opMeta op))) (preflightSelector op n), RPods (Inr [])) # t"
    | (proceed) p ps t1 t2 where "podPhase (podStatus p) = PodSucceeded" "preflightTerminationMessage p = []"
      "tr = (ListPods Cache (Some (Namespace (opMeta op))) (preflightSelector op n), RPods (Inr (p # ps))) # t1 @ t2"
      "exec (startMainJob rd op n) t1 (op', r)"
      "t2 = (case r of Inl e \<Rightarrow> []
         | Inr _ \<Rightarrow> [(DeletePod (Namespace (podMeta p)) (Name (podMeta p)) (Some 0), snd (last t2))])"
    | (skip) p ps t where "podPhase (podStatus p) = PodSucceeded" "preflightTerminationMessage p \<noteq> []"
      "tr = (ListPods Cache (Some (Namespace (opMeta op))) (preflightSelector op n), RPods (Inr (p # ps))) # t"
      "exec (recordOutcome op n phaseCompleted (''Skipped by preflight: '' @ preflightTerminationMessage p) (Some p))
         t (op', r)"
    | (failed) p ps t where "podPhase (podStatus p) = PodFailed"
      "tr = (ListPods Cache (Some (Namespace (opMeta op))) (preflightSelector op n), RPods (Inr (p # ps))) # t"
      "exec (recordOutcome op n phaseFailed (''Preflight failed: '' @ preflightFailureReason p) (Some p)) t (op', r)"
    | (undecided) p ps where "podPhase (podStatus p) \<noteq> PodSucceeded" "podPhase (podStatus p) \<noteq> PodFailed"
      "tr = [(ListPods Cache (Some (Namespace (opMeta op))) (preflightSelector op n), RPods (Inr (p # ps)))]"
      "op' = op" "r = Inr ()"
proof -
  from assms obtain t1 f t2 where tr: "tr = t1 @ t2" and f: "exec (findPreflightPod op n) t1 f"
    and rest: "exec (case f of
       Inl e \<Rightarrow> Ret (op, Inl e)
     | Inr None \<Rightarrow> recordOutcome op n phaseFailed ''Preflight Pod not found'' None
     | Inr (Some p) \<Rightarrow>
         if podPhase (podStatus p) = PodSucceeded then
           (let msg = preflightTerminationMessage p in
            if msg = [] then
              attemptS (startMainJob rd op n) (\<lambda>op' _.
                bind (deletePreflightPod p) (\<lambda>_. Ret (op', Inr ())))
            else recordOutcome op n phaseCompleted (''Skipped by preflight: '' @ msg) (Some p))
         else if podPhase (podStatus p) = PodFailed then
           recordOutcome op n phaseFailed (''Preflight failed: '' @ preflightFailureReason p) (Some p)
         else Ret (op, Inr ())) t2 (op', r)"
    by (auto simp: advancePreflight_def exec_bind)
  from f obtain x where t1: "t1 = [(ListPods Cache (Some (Namespace (opMeta op))) (preflightSelector op n), x)]"
    and some: "\<And>p. f = Inr (Some p) \<Longrightarrow> \<exists>ps. x = RPods (Inr (p # ps))"
    and none: "f = Inr None \<Longrightarrow> x = RPods (Inr [])" by (rule exec_findPreflightPod) (rule that)
  consider e where "f = Inl e" | "f = Inr None" | p where "f = Inr (Some p)"
    by (metis option.exhaust sum.exhaust)
  then show thesis
  proof cases
    case 1
    with rest tr t1 show thesis by (intro error) auto
  next
    case 2
    with rest tr t1 none show thesis by (intro missing) auto
  next
    case 3
    with some obtain ps where x: "x = RPods (Inr (p # ps))" by blast
    consider "podPhase (podStatus p) = PodSucceeded" "preflightTerminationMessage p = []"
      | "podPhase (podStatus p) = PodSucceeded" "preflightTerminationMessage p \<noteq> []"
      | "podPhase (podStatus p) \<noteq> PodSucceeded" "podPhase (podStatus p) = PodFailed"
      | "podPhase (podStatus p) \<noteq> PodSucceeded" "podPhase (podStatus p) \<noteq> PodFailed" by blast
    then show thesis
    proof cases
      case a: 1
      with 3 rest have "exec (attemptS (startMainJob rd op n) (\<lambda>op' _.
                bind (deletePreflightPod p) (\<lambda>_. Ret (op', Inr ())))) t2 (op', r)" by simp
      then consider e where "exec (startMainJob rd op n) t2 (op', Inl e)" "r = Inl e"
        | t3 t4 where "t2 = t3 @ t4" "exec (startMainJob rd op n) t3 (op', Inr ())" "r = Inr ()"
          "\<exists>x. t4 = [(DeletePod (Namespace (podMeta p)) (Name (podMeta p)) (Some 0), x)]"
        unfolding exec_attemptS by (auto simp: exec_bind dest!: exec_deletePreflightPod)
      then show thesis
      proof cases
        case e: 1
        with a x tr t1 show thesis by (intro proceed [of p ps t2 "[]"]) auto
      next
        case d: 2
        with a x tr t1 show thesis by (intro proceed [of p ps t3 t4]) auto
      qed
    next
      case 2
      with 3 rest x tr t1 show thesis by (intro skip [of p ps t2]) auto
    next
      case b: 3
      with 3 rest x tr t1 show thesis by (intro failed [of p ps t2]) auto
    next
      case 4
      with 3 rest x tr t1 show thesis by (intro undecided [of p ps]) auto
    qed
  qed
qed

lemma recordOutcome_moved:
  "exec (recordOutcome op n phase msg po) tr (op', r) \<Longrightarrow> phase = phaseFailed \<or> phase = phaseCompleted \<Longrightarrow>
     moved n op op'"
  by (erule exec_recordOutcome) (auto intro: moved_put)

lemma recordOutcome_quiet:
  assumes "exec (recordOutcome op n phase msg po) tr (op', r)" and "(q, x) \<in> set tr"
  shows "\<not> isCreateJob q"
  using assms(1) by (rule exec_recordOutcome) (use assms(2) in auto)

lemma advancePreflight_moved: "exec (advancePreflight rd op n) tr (op', r) \<Longrightarrow> moved n op op'"
  by (erule exec_advancePreflight) (auto dest: startMainJob_moved intro: recordOutcome_moved)

lemma gated_Cons: "\<not> isCreateJob (fst e) \<Longrightarrow> gated op t \<Longrightarrow> gated op (e # t)"
  by (simp add: gated_def guarded_Cons)

lemma advancePreflight_gated:
  assumes "exec (advancePreflight rd op n) tr (op', r)"
  shows "gated op tr"
  using assms
proof (rule exec_advancePreflight)
  fix p ps t1 t2
  assume tr: "tr = (ListPods Cache (Some (Namespace (opMeta op))) (preflightSelector op n), RPods (Inr (p # ps))) # t1 @ t2"
    and m: "exec (startMainJob rd op n) t1 (op', r)"
    and t2: "t2 = (case r of Inl e \<Rightarrow> []
         | Inr _ \<Rightarrow> [(DeletePod (Namespace (podMeta p)) (Name (podMeta p)) (Some 0), snd (last t2))])"
  have "\<not> isCreateJob q" if "(q, x) \<in> set t2" for q x
    using that by (subst (asm) t2) (auto split: sum.splits)
  then have "gated op t2" by (rule gated_quiet)
  with startMainJob_gated [OF m] show ?thesis unfolding tr by (intro gated_Cons gated_append) auto
qed (auto intro!: gated_Cons gated_quiet dest: recordOutcome_quiet)

lemma recordOutcome_writes:
  "validOp op \<Longrightarrow> phase = phaseFailed \<or> phase = phaseCompleted \<Longrightarrow> only writeOk (recordOutcome op n phase msg po)"
  unfolding recordOutcome_def deletePreflightPod_def deletePod_def now_def
  by (auto intro!: only_bind only_attemptS writes_statusUpdate split: option.splits)

lemma findPreflightPod_writes: "only writeOk (findPreflightPod op n)"
  by (auto simp: findPreflightPod_def listPods_def intro!: only_attempt)

lemma advancePreflight_writes: "validOp op \<Longrightarrow> only writeOk (advancePreflight rd op n)"
  unfolding advancePreflight_def Let_def
  by (auto intro!: only_bind only_attemptS findPreflightPod_writes recordOutcome_writes startMainJob_writes
      simp: deletePreflightPod_def deletePod_def split: sum.splits option.splits)

interpretation preflight_step: node_step "\<lambda>n op. advancePreflight rd op n" "\<lambda>n. n" for rd
  by unfold_locales (auto dest: advancePreflight_moved advancePreflight_gated advancePreflight_writes)

lemma startPreflight_moved: "exec (startPreflight op pf n) tr (op', r) \<Longrightarrow> moved n op op'"
  by (erule exec_startPreflight) (auto intro: moved_statusUpdate [rotated])

lemma startPreflight_quiet:
  assumes "exec (startPreflight op pf n) tr (op', r)" and "(q, x) \<in> set tr"
  shows "\<not> isCreateJob q"
proof -
  have up: "\<not> isCreateJob q" if "exec (statusUpdate s) t2 y" "(q, x) \<in> set t2" for s t2 y
    using only_exec [OF that(1) only_statusUpdate that(2)] by (cases q) auto
  from assms(1) show ?thesis
  proof (rule exec_startPreflight)
    fix t img y e
    assume "\<And>q y. (q, y) \<in> set t \<Longrightarrow> \<exists>v. q = Getenv v"
      "tr = (ListPods Cache (Some (Namespace (opMeta op))) (preflightSelector op n), RPods (Inr [])) # t
         @ [(CreatePod (ownedPreflightPod op pf n img), y)]"
    with assms(2) show ?thesis by fastforce
  next
    fix t img p tm t2
    assume "\<And>q y. (q, y) \<in> set t \<Longrightarrow> \<exists>v. q = Getenv v"
      "tr = (ListPods Cache (Some (Namespace (opMeta op))) (preflightSelector op n), RPods (Inr [])) # t
         @ (CreatePod (ownedPreflightPod op pf n img), RPod (Inr p)) # (Now, tm) # t2"
      "exec (statusUpdate (setStatus n (preflightStarted (asTime tm)) op)) t2 (op', r)"
    with assms(2) up show ?thesis by fastforce
  qed (use assms(2) up in auto)
qed

lemma startPreflight_writes: "validOp op \<Longrightarrow> only writeOk (startPreflight op pf n)"
  unfolding startPreflight_def buildPreflightPod_def getNodeOpImage_def client_defs
  by (auto intro!: only_bind findPreflightPod_writes split: sum.splits option.splits)

interpretation start_step: node_step "\<lambda>n op. startPreflight op pf n" "\<lambda>n. n" for pf
  by unfold_locales (auto dest: startPreflight_moved startPreflight_quiet startPreflight_writes intro: gated_quiet)

text \<open>Requests that neither write a node nor create an upgrade Job.\<close>

fun sparesNode :: "node_req \<Rightarrow> bool" where
  "sparesNode (UpdateNode _) = False"
| "sparesNode (CreateJob _) = False"
| "sparesNode _ = True"

lemma only_obtainRebootPod: "only sparesNode (obtainRebootPod rd op n)"
proof -
  have d: "only sparesNode (deleteRebootPods ps)" for ps
    unfolding deleteRebootPods_def client_defs by (auto intro!: only_forEach only_bind split: sum.splits)
  have k: "only sparesNode (keepOneRebootPod rd op n)"
    unfolding keepOneRebootPod_def listRebootPods_def client_defs
    by (auto intro!: only_attempt d split: list.splits)
  have c: "only sparesNode (createRebootPod rd op n j)" for j
    using only_createRebootPod by (rule only_mono) (case_tac q; simp)
  show ?thesis
    unfolding obtainRebootPod_def newJobName_def Let_def client_defs
    by (auto intro!: only_attempt only_bind k c split: option.splits)
qed

lemma only_awaitRebootPod: "only sparesNode (awaitRebootPod op n p)"
  unfolding awaitRebootPod_def Let_def client_defs by (auto intro!: only_bind split: option.splits)

lemma createNodeJob_recorded:
  assumes "exec (createNodeJob rd op n j) tr (op', Inr ())"
  shows "\<exists>tm. map_of (statuses op') n = Some (jobCreated op j tm)"
proof -
  have "\<exists>tm. map_of (statuses op') n = Some (jobCreated op j tm)"
    if "exec (recordNodeJob op n j) t (op', Inr ())" for t
    using that by (rule exec_recordNodeJob) auto
  with assms show ?thesis by (elim exec_createNodeJob) auto
qed

section \<open>Properties\<close>

text \<open>
  With a reboot requested, startMainJob creates an upgrade Job only after it saw, in the
  listing of the node's own reboot Pods or in the answer to creating one, a ready reboot Pod
  that names exactly this Job; the Job is the node's. No upgrade can finish on a node without a
  working reboot Pod.
\<close>

theorem startMainJob_reboot_gate:
  assumes "exec (startMainJob rd op n) (pre @ (CreateJob jb, x) # post) (op', r)"
    and "rebootRequested op"
  shows "NodeName (templateSpec (jobSpec jb)) = n \<and>
    (\<exists>g \<in> set pre. rebootPodSeen (Namespace (opMeta op)) (rebootSelector op n) (Name (jobMeta jb)) g)"
proof -
  have node: "NodeName (templateSpec (jobSpec jb)) = n"
    using assms(1)
  proof (rule exec_startMainJob)
    fix p t1 t2
    assume eq: "pre @ (CreateJob jb, x) # post = t1 @ t2" and o': "exec (obtainRebootPod rd op n) t1 (Inr p)"
      and c: "exec (createNodeJob rd op n (rebootPodJobName p)) t2 (op', r)"
    have "(CreateJob jb, x) \<in> set (t1 @ t2)" unfolding eq [symmetric] by simp
    moreover have "(CreateJob jb, x) \<notin> set t1" using obtainRebootPod_seen [OF o'] isCreateJob.simps(1) by blast
    ultimately show ?thesis using createNodeJob_created [OF c] by auto
  next
    fix p t1 t2
    assume eq: "pre @ (CreateJob jb, x) # post = t1 @ t2" and o': "exec (obtainRebootPod rd op n) t1 (Inr p)"
      and w: "exec (awaitRebootPod op n p) t2 (op', r)"
    have "(CreateJob jb, x) \<in> set (t1 @ t2)" unfolding eq [symmetric] by simp
    moreover have "(CreateJob jb, x) \<notin> set t1" using obtainRebootPod_seen [OF o'] isCreateJob.simps(1) by blast
    moreover from w have "(CreateJob jb, x) \<notin> set t2" by (rule exec_awaitRebootPod) auto
    ultimately show ?thesis by auto
  next
    fix e
    assume "\<exists>y. exec (obtainRebootPod rd op n) (pre @ (CreateJob jb, x) # post) y"
    then show ?thesis using obtainRebootPod_seen isCreateJob.simps(1) by fastforce
  qed (use assms(2) in simp)
  with startMainJob_gated [OF assms(1)] assms(2) show ?thesis
    unfolding gated_def by (auto simp: rebootGate_def dest!: guardedD)
qed

text \<open>A ready reboot Pod, and the run that finds it and creates the Job it names.\<close>

definition ready_pod :: pod where
  "ready_pod = (rebootPodOf sample_op ''n1'' ''up-n1-abcde'' ''op:1'')\<lparr>podStatus :=
     \<lparr>podPhase = PodRunning, podReason = [], podMessage = [],
      podConditions = [\<lparr>condType = PodReady, condStatus = ConditionTrue, condReason = [], condMessage = []\<rparr>],
      ContainerStatuses = [\<lparr>csName = rebootContainerName, csWaiting = None, csRunning = True, csTerminated = None\<rparr>]\<rparr>\<rparr>"

lemma ready_pod_facts:
  "rebootPodReady ready_pod" "rebootPodJobName ready_pod = ''up-n1-abcde''" "livePods [ready_pod] = [ready_pod]"
  "finishedPods [ready_pod] = []"
  by (simp_all add: ready_pod_def rebootPodReady_def podReadyCondition_def rebootContainerStatus_def kconst
      livePods_def finishedPods_def terminating_def podFinished_def rebootPodOf_def empty_meta_def
      SetControllerReference_def rebootPodJobName_def empty_pod_spec_def empty_container_def envValueOf_def)

lemma reboot_requested_sample: "rebootRequested sample_op"
  by (simp add: sample_op_def sample_spec_def)

lemma obtain_ready_run:
  "exec (obtainRebootPod Live sample_op ''n1'')
     [(ListPods Live (Some ''system'') (rebootSelector sample_op ''n1''), RPods (Inr [ready_pod]))] (Inr ready_pod)"
  by (simp add: exec_iff_scripted obtainRebootPod_def keepOneRebootPod_def listRebootPods_def attempt_def
      client_defs ask_def ready_pod_facts deleteRebootPods_def)
    (simp add: sample_op_def sample_meta_def)

lemma start_run:
  obtains pre jb x post op' where "isCreateJob (CreateJob jb)"
    "exec (startMainJob Live sample_op ''n1'') (pre @ (CreateJob jb, x) # post) (op', Inr ())"
proof (rule create_run)
  fix tr op'
  assume c: "exec (createNodeJob Live sample_op ''n1'' ''up-n1-abcde'') tr (op', Inr ())"
    and j: "isCreateJob (fst (tr ! 4))" "length tr = 7"
  then obtain jb x where jb: "tr ! 4 = (CreateJob jb, x)" by (cases "tr ! 4"; cases "fst (tr ! 4)") auto
  have "tr = take 4 tr @ (CreateJob jb, x) # drop 5 tr"
    using j(2) jb id_take_nth_drop [of 4 tr] by simp
  moreover have "exec (startMainJob Live sample_op ''n1'')
      ([(ListPods Live (Some ''system'') (rebootSelector sample_op ''n1''), RPods (Inr [ready_pod]))] @ tr) (op', Inr ())"
  proof -
    have "exec (case Inr ready_pod of Inl e \<Rightarrow> Ret (sample_op, Inl e) | Inr rebootPod \<Rightarrow>
          (let jobName = rebootPodJobName rebootPod in
           if jobName = []
           then Ret (sample_op, Inl (Errorf (''reboot Pod '' @ Name (podMeta rebootPod) @
                  '' does not name its upgrade Job in '' @ JobNameEnv)))
           else if \<not> rebootPodReady rebootPod then awaitRebootPod sample_op ''n1'' rebootPod
           else createNodeJob Live sample_op ''n1'' jobName)) tr (op', Inr ())"
      using c by (simp add: ready_pod_facts)
    with obtain_ready_run show ?thesis
      unfolding startMainJob_def using reboot_requested_sample by (simp only: exec_bind not_True_eq_False if_False) blast
  qed
  ultimately show thesis using that [of jb _ x "drop 5 tr" op'] by (metis append.assoc isCreateJob.simps(1))
qed

theorem startMainJob_reboot_gate_witness:
  "\<exists>jb g. NodeName (templateSpec (jobSpec (jb :: job))) = ''n1'' \<and>
     rebootPodSeen (Namespace (opMeta sample_op)) (rebootSelector sample_op ''n1'') (Name (jobMeta jb)) g"
proof (rule start_run)
  fix pre jb x post op'
  assume "exec (startMainJob Live sample_op ''n1'') (pre @ (CreateJob jb, x) # post) (op', Inr ())"
  from startMainJob_reboot_gate [OF this reboot_requested_sample] show ?thesis by blast
qed

text \<open>
  What a successful startMainJob leaves: the node is recorded with an upgrade Job (with a
  reboot requested, the one its ready reboot Pod names), or, only when a reboot is requested, as
  waiting for its reboot Pod; and while it waits, no node was written and no Job created, so it
  was neither cordoned nor drained.
\<close>

theorem startMainJob_outcome:
  assumes "exec (startMainJob rd op n) tr (op', Inr ())"
  shows "(\<exists>j tm. map_of (statuses op') n = Some (jobCreated op j tm)) \<or>
    rebootRequested op \<and> (\<exists>st. map_of (statuses op') n = Some st \<and> awaitingRebootPod st) \<and>
      (\<forall>q x. (q, x) \<in> set tr \<longrightarrow> sparesNode q)"
  using assms
proof (rule exec_startMainJob)
  fix p t1 t2
  assume "rebootRequested op" and tr: "tr = t1 @ t2" and o': "exec (obtainRebootPod rd op n) t1 (Inr p)"
    and w: "exec (awaitRebootPod op n p) t2 (op', Inr ())"
  moreover have "\<forall>q x. (q, x) \<in> set tr \<longrightarrow> sparesNode q"
    using only_exec [OF o' only_obtainRebootPod] only_exec [OF w only_awaitRebootPod] by (auto simp: tr)
  moreover from w have "\<exists>st. map_of (statuses op') n = Some st \<and> awaitingRebootPod st"
    by (rule exec_awaitRebootPod) (auto simp: awaitingRebootPod_def awaitStatus_def)
  ultimately show ?thesis by blast
qed (use createNodeJob_recorded in blast)+

theorem startMainJob_outcome_witness:
  "\<exists>op' j tm. map_of (statuses op') ''n1'' = Some (jobCreated sample_op j tm) \<or>
     (\<exists>st. map_of (statuses op') ''n1'' = Some st \<and> awaitingRebootPod st)"
proof (rule start_run)
  fix pre jb x post op'
  assume "exec (startMainJob Live sample_op ''n1'') (pre @ (CreateJob jb, x) # post) (op', Inr ())"
  from startMainJob_outcome [OF this] show ?thesis by blast
qed

text \<open>
  The verdict of a preflight, once saved: a Pod that is gone or that failed makes the node
  Failed, with the reason; one that succeeded with a termination message makes it Completed,
  skipped for that reason; one that succeeded without a message hands the node to startMainJob;
  any other Pod leaves everything as it is. Only the hand-over can create a Job or write a node.
\<close>

theorem advancePreflight_verdict:
  assumes "exec (advancePreflight rd op n)
     ((ListPods Cache (Some (Namespace (opMeta op))) (preflightSelector op n), RPods (Inr ps)) # t) (op', Inr ())"
  shows "case ps of
      [] \<Rightarrow> \<exists>tm. map_of (statuses op') n = Some (preflightOutcome phaseFailed ''Preflight Pod not found'' tm)
    | p # _ \<Rightarrow>
        if podPhase (podStatus p) = PodFailed then
          \<exists>tm. map_of (statuses op') n =
            Some (preflightOutcome phaseFailed (''Preflight failed: '' @ preflightFailureReason p) tm)
        else if podPhase (podStatus p) \<noteq> PodSucceeded then t = [] \<and> op' = op
        else if preflightTerminationMessage p = [] then
          \<exists>t1 d. t = t1 @ [d] \<and> exec (startMainJob rd op n) t1 (op', Inr ())
        else (\<exists>tm. map_of (statuses op') n =
            Some (preflightOutcome phaseCompleted (''Skipped by preflight: '' @ preflightTerminationMessage p) tm)) \<and>
          (\<forall>q x. (q, x) \<in> set t \<longrightarrow> sparesNode q)"
proof -
  have outcome: "(\<exists>tm. map_of (statuses op') n = Some (preflightOutcome phase msg tm)) \<and>
      (\<forall>q x. (q, x) \<in> set t' \<longrightarrow> sparesNode q)"
    if "exec (recordOutcome op n phase msg po) t' (op', Inr ())" for phase msg po t'
    using that by (rule exec_recordOutcome) auto
  have distinct: "PodSucceeded \<noteq> PodFailed" by (simp add: kconst)
  from assms show ?thesis
  proof (rule exec_advancePreflight)
    fix p ps' t1 t2
    assume "podPhase (podStatus p) = PodSucceeded" "preflightTerminationMessage p = []"
      "(ListPods Cache (Some (Namespace (opMeta op))) (preflightSelector op n), RPods (Inr ps)) # t =
       (ListPods Cache (Some (Namespace (opMeta op))) (preflightSelector op n), RPods (Inr (p # ps'))) # t1 @ t2"
      "exec (startMainJob rd op n) t1 (op', Inr ())"
      "t2 = (case (Inr () :: unit res) of Inl e \<Rightarrow> []
         | Inr _ \<Rightarrow> [(DeletePod (Namespace (podMeta p)) (Name (podMeta p)) (Some 0), snd (last t2))])"
    then show ?thesis using distinct by auto metis
  qed (use outcome distinct in auto)
qed

definition skipping_pod :: pod where
  "skipping_pod = \<lparr>podMeta = empty_meta\<lparr>Name := ''pf'', Namespace := ''system''\<rparr>, podSpec = empty_pod_spec,
     podStatus = empty_pod_status\<lparr>podPhase := PodSucceeded,
       ContainerStatuses := [\<lparr>csName = preflightContainerName, csWaiting = None, csRunning = False,
         csTerminated = Some \<lparr>tExitCode = 0, tReason = [], tMessage = ''up to date''\<rparr>\<rparr>]\<rparr>\<rparr>"

lemma skipping_pod_facts:
  "preflightTerminationMessage skipping_pod = ''up to date''" "podPhase (podStatus skipping_pod) = PodSucceeded"
  "Name (podMeta skipping_pod) = ''pf''" "Namespace (podMeta skipping_pod) = ''system''"
  by (simp_all add: skipping_pod_def preflightTerminationMessage_def preflightTerminated_def empty_pod_status_def kconst)

lemma skip_run:
  "\<exists>op'. exec (advancePreflight Live sample_op ''n1'')
     ((ListPods Cache (Some (Namespace (opMeta sample_op))) (preflightSelector sample_op ''n1''), RPods (Inr [skipping_pod]))
       # [(Now, RTime (Time 5)), (UpdateNodeOpStatus (setStatus ''n1'' (preflightOutcome phaseCompleted
            ''Skipped by preflight: up to date'' (Time 5)) sample_op), RVersion (Inr ''2'')),
          (DeletePod ''system'' ''pf'' (Some 0), RUnit (Inr ()))]) (op', Inr ())"
  by (simp add: exec_iff_scripted advancePreflight_def findPreflightPod_def recordOutcome_def attempt_def attemptS_def
      deletePreflightPod_def client_defs ask_def skipping_pod_facts Let_def)

theorem advancePreflight_verdict_witness:
  "\<exists>op' tm. map_of (statuses op') ''n1'' =
     Some (preflightOutcome phaseCompleted ''Skipped by preflight: up to date'' tm)"
proof -
  from skip_run obtain op' where run: "exec (advancePreflight Live sample_op ''n1'')
     ((ListPods Cache (Some (Namespace (opMeta sample_op))) (preflightSelector sample_op ''n1''), RPods (Inr [skipping_pod]))
       # [(Now, RTime (Time 5)), (UpdateNodeOpStatus (setStatus ''n1'' (preflightOutcome phaseCompleted
            ''Skipped by preflight: up to date'' (Time 5)) sample_op), RVersion (Inr ''2'')),
          (DeletePod ''system'' ''pf'' (Some 0), RUnit (Inr ()))]) (op', Inr ())" by blast
  have "PodSucceeded \<noteq> PodFailed" by (simp add: kconst)
  with advancePreflight_verdict [OF run] show ?thesis by (auto simp: skipping_pod_facts)
qed

end
