(* ===== verification/NodeStatusSync.thy ===== *)
theory NodeStatusSync
  imports NodeMainJob
begin

text \<open>
  Updating the NodeOp's status from its Jobs (nodeop_controller.go: processJobStatus,
  processRebootStatus, uncordonAfterFailure, updateNodeOpStatus). The loop over the status map
  visits its keys in the order the response to \<open>rangeKeys\<close> chooses; an iteration changes only
  the entry of its own key.
\<close>

section \<open>One node\<close>

text \<open>The first decisive condition of a Job: \<open>Some True\<close> for a success, \<open>Some False\<close> for a failure.\<close>

fun jobVerdict :: "condition list \<Rightarrow> bool option" where
  "jobVerdict [] = None"
| "jobVerdict (c # cs) =
     (if condStatus c = ConditionTrue then
        (if condType c = JobFailed \<or> condType c = JobFailureTarget then Some False
         else if condType c = JobSuccessCriteriaMet \<or> condType c = JobComplete then Some True
         else jobVerdict cs)
      else jobVerdict cs)"

definition jobOutcome :: "condition list \<Rightarrow> node_status \<Rightarrow> time \<Rightarrow> node_status" where
  "jobOutcome cs st t =
     (case jobVerdict cs of
        Some verdict \<Rightarrow>
          if verdict
          then st\<lparr>nsPhase := phaseCompleted,
                 nsMessage := (if nsRebootStatus st = rebootStatusCompleted then jobAndRebootCompletedMessage
                               else jobCompletedMessage),
                 nsLastUpdated := t\<rparr>
          else st\<lparr>nsPhase := phaseFailed, nsMessage := ''Job failed'', nsLastUpdated := t\<rparr>
      | None \<Rightarrow> st\<lparr>nsPhase := phaseRunning, nsMessage := ''Job is running'', nsLastUpdated := t\<rparr>)"

definition processJobStatus :: "node_op \<Rightarrow> node_status \<Rightarrow> (node_status \<times> unit res) nprog" where
  "processJobStatus op st =
     bind (getJob Cache (Namespace (opMeta op)) (nsJobName st)) (\<lambda>found. case found of
       Inl e \<Rightarrow>
         if \<not> IsNotFound e then Ret (st, Inl e)
         else bind now (\<lambda>t. Ret (st\<lparr>nsPhase := phaseFailed, nsMessage := ''Job not found'', nsLastUpdated := t\<rparr>,
                Inr ()))
     | Inr jb \<Rightarrow>
         bind now (\<lambda>t. Ret (jobOutcome (jobConditions (jobStatus jb)) st t, Inr ())))"

definition processRebootStatus ::
  "node_op \<Rightarrow> string \<Rightarrow> node_status \<Rightarrow> (node_status \<times> unit res) nprog" where
  "processRebootStatus op nodeName st =
     (if nsRebootStatus st = [] then
        bind now (\<lambda>t. Ret (st\<lparr>nsRebootStatus := (if rebootRequested op then rebootStatusPending
                                             else rebootStatusNotRequested), nsLastUpdated := t\<rparr>, Inr ()))
      else if nsPhase st = phaseFailed \<and> rebootRequested op then
        (if nsRebootStatus st \<noteq> rebootStatusCancelled then
           bind now (\<lambda>t.
           bind (cleanupRebootPodForNode op nodeName) (\<lambda>_.
           Ret (st\<lparr>nsRebootStatus := rebootStatusCancelled, nsLastUpdated := t\<rparr>, Inr ())))
         else Ret (st, Inr ()))
      else if nsPhase st = phaseCompleted \<and> nsRebootStatus st = rebootStatusPending then
        bind (isRebootCompleted op nodeName st) (\<lambda>(st', r). case r of
          Inl e \<Rightarrow> Ret (st', Inl e)
        | Inr completed \<Rightarrow>
            if completed
            then bind now (\<lambda>t. Ret (st'\<lparr>nsRebootStatus := rebootStatusCompleted,
                   nsMessage := jobAndRebootCompletedMessage, nsLastUpdated := t\<rparr>, Inr ()))
            else Ret (st', Inr ()))
      else Ret (st, Inr ()))"

definition uncordonAfterFailure :: "node_op \<Rightarrow> string \<Rightarrow> unit res nprog" where
  "uncordonAfterFailure op nodeName =
     (if \<not> cordonRequested op \<or> \<not> getBool (opUncordonOnFailure (opSpec op)) UncordonOnFailureDefault
      then Ret (Inr ())
      else uncordonNode op nodeName)"

section \<open>All nodes\<close>

text \<open>The loop's variables: the NodeOp, \<open>anyFailed\<close> and \<open>completedNodes\<close>.\<close>

type_synonym sync_state = "node_op \<times> bool \<times> nat"

text \<open>Whether an updated status counts as completed, and whether it is time to uncordon.\<close>

definition nodeDone :: "node_op \<Rightarrow> node_status \<Rightarrow> bool" where
  "nodeDone op st \<longleftrightarrow> nsPhase st = phaseCompleted \<and>
     (rebootRequested op \<longrightarrow> nsRebootStatus st = rebootStatusCompleted)"

definition uncordonWhenDone :: "node_op \<Rightarrow> string \<Rightarrow> node_status \<Rightarrow> unit res nprog" where
  "uncordonWhenDone op nodeName st =
     (if nsPhase st = phaseCompleted \<and> cordonRequested op then
        (if rebootRequested op \<and> nsRebootStatus st = rebootStatusCompleted \<or> \<not> rebootRequested op
         then uncordonNode op nodeName
         else Ret (Inr ()))
      else Ret (Inr ()))"

text \<open>The second half of an iteration: store the new status, uncordon, and count.\<close>

definition settleNode :: "string \<Rightarrow> node_status \<Rightarrow> sync_state \<Rightarrow> (sync_state \<times> unit res) nprog" where
  "settleNode nodeName st s = (case s of (op, anyFailed, completed) \<Rightarrow>
     let op2 = setStatus nodeName st op;
         failed = (anyFailed \<or> nsPhase st = phaseFailed)
     in bind (uncordonWhenDone op2 nodeName st) (\<lambda>u. case u of
          Inl e \<Rightarrow> Ret ((op2, anyFailed, completed), Inl e)
        | Inr _ \<Rightarrow>
            bind (if nsPhase st = phaseFailed then uncordonAfterFailure op2 nodeName else Ret (Inr ())) (\<lambda>v.
            case v of
              Inl e \<Rightarrow> Ret ((op2, failed, completed), Inl e)
            | Inr _ \<Rightarrow> Ret ((op2, failed, if nodeDone op2 st then completed + 1 else completed), Inr ()))))"

definition syncJobNode :: "string \<Rightarrow> node_status \<Rightarrow> sync_state \<Rightarrow> (sync_state \<times> unit res) nprog" where
  "syncJobNode nodeName st s = (case s of (op, anyFailed, completed) \<Rightarrow>
     bind (processJobStatus op st) (\<lambda>(st1, r1). case r1 of
       Inl e \<Rightarrow> Ret (s, Inl e)
     | Inr _ \<Rightarrow>
         bind (processRebootStatus op nodeName st1) (\<lambda>(st2, r2). case r2 of
           Inl e \<Rightarrow> Ret (s, Inl e)
         | Inr _ \<Rightarrow> settleNode nodeName st2 s)))"

definition syncNode :: "string \<Rightarrow> sync_state \<Rightarrow> (sync_state \<times> unit res) nprog" where
  "syncNode nodeName s = (case s of (op, anyFailed, completed) \<Rightarrow>
     (case map_of (statuses op) nodeName of
        None \<Rightarrow> Ret (s, Inr ())
      | Some st \<Rightarrow>
          if nsPhase st = phasePreflight then Ret (s, Inr ())
          else if awaitingRebootPod st then Ret (s, Inr ())
          else if nsPhase st = phaseCompleted \<and> nsJobName st = [] then Ret ((op, anyFailed, completed + 1), Inr ())
          else if nsPhase st = phaseFailed \<and> nsJobName st = [] then
            bind (uncordonAfterFailure op nodeName) (\<lambda>u. Ret ((op, True, completed), u))
          else syncJobNode nodeName st s))"

definition overallPhase :: "bool \<Rightarrow> nat \<Rightarrow> node_op \<Rightarrow> string" where
  "overallPhase anyFailed completed op =
     (if anyFailed then phaseFailed
      else if 0 < length (statuses op) \<and> completed = length (statuses op) then phaseCompleted
      else phaseRunning)"

definition setOverall :: "string \<Rightarrow> time \<Rightarrow> node_op \<Rightarrow> node_op" where
  "setOverall phase t op = op\<lparr>opStatus := (opStatus op)\<lparr>stPhase := phase, stLastUpdated := t\<rparr>\<rparr>"

definition updateNodeOpStatus :: "node_op \<Rightarrow> (node_op \<times> unit res) nprog" where
  "updateNodeOpStatus op =
     bind (rangeKeys (map fst (statuses op))) (\<lambda>keys.
     bind (forEachS syncNode keys (op, False, 0)) (\<lambda>((op1, anyFailed, completed), r). case r of
       Inl e \<Rightarrow> Ret (op1, Inl e)
     | Inr _ \<Rightarrow> bind now (\<lambda>t. statusUpdate (setOverall (overallPhase anyFailed completed op1) t op1))))"

section \<open>Lemmas\<close>

lemma setOverall_fields [simp]:
  "opMeta (setOverall p t op) = opMeta op" "opSpec (setOverall p t op) = opSpec op"
  "statuses (setOverall p t op) = statuses op" "stPhase (opStatus (setOverall p t op)) = p"
  "same_op a (setOverall p t b) = same_op a b" "same_op (setOverall p t a) b = same_op a b"
  by (simp_all add: setOverall_def)

text \<open>What the two processors do to a status.\<close>

definition jobStep :: "node_status \<Rightarrow> node_status \<Rightarrow> bool" where
  "jobStep st st' \<longleftrightarrow> nsJobName st' = nsJobName st \<and> nsRebootStatus st' = nsRebootStatus st \<and>
     nsPreRebootBootID st' = nsPreRebootBootID st \<and>
     (nsPhase st' = phaseFailed \<or> nsPhase st' = phaseCompleted \<or> nsPhase st' = phaseRunning)"

lemma jobOutcome_step:
  "jobStep st (jobOutcome cs st t)"
  "nsPhase (jobOutcome cs st t) = (case jobVerdict cs of
     Some verdict \<Rightarrow> if verdict then phaseCompleted else phaseFailed | None \<Rightarrow> phaseRunning)"
  by (simp_all add: jobOutcome_def jobStep_def split: option.splits)

lemma exec_processJobStatus:
  assumes "exec (processJobStatus op st) tr (st', r)"
  obtains (unread) x e where "tr = [(GetJob Cache (Namespace (opMeta op)) (nsJobName st), x)]" "asJob x = Inl e"
      "\<not> IsNotFound e" "st' = st" "r = Inl e"
    | (gone) x e tm where "tr = [(GetJob Cache (Namespace (opMeta op)) (nsJobName st), x), (Now, tm)]"
      "asJob x = Inl e" "IsNotFound e" "r = Inr ()" "jobStep st st'" "nsPhase st' = phaseFailed"
    | (found) jb tm where "tr = [(GetJob Cache (Namespace (opMeta op)) (nsJobName st), RJob (Inr jb)), (Now, tm)]"
      "r = Inr ()" "jobStep st st'"
      "nsPhase st' = (case jobVerdict (jobConditions (jobStatus jb)) of
         Some verdict \<Rightarrow> if verdict then phaseCompleted else phaseFailed | None \<Rightarrow> phaseRunning)"
proof -
  from assms obtain x t where tr: "tr = (GetJob Cache (Namespace (opMeta op)) (nsJobName st), x) # t"
    and rest: "exec (case asJob x of
       Inl e \<Rightarrow>
         if \<not> IsNotFound e then Ret (st, Inl e)
         else bind now (\<lambda>t. Ret (st\<lparr>nsPhase := phaseFailed, nsMessage := ''Job not found'', nsLastUpdated := t\<rparr>,
                Inr ()))
     | Inr jb \<Rightarrow>
         bind now (\<lambda>t. Ret (jobOutcome (jobConditions (jobStatus jb)) st t, Inr ()))) t (st', r)"
    unfolding processJobStatus_def getJob_def exec_ask_bind by blast
  show thesis
  proof (cases "asJob x")
    case (Inl e)
    show thesis
    proof (cases "IsNotFound e")
      case False
      with Inl rest tr show thesis by (intro unread) auto
    next
      case True
      with Inl rest tr show thesis by (auto simp: now_def exec_ask_bind jobStep_def intro: gone)
    qed
  next
    case (Inr jb)
    with rest tr show thesis
      by (auto simp: now_def exec_ask_bind jobOutcome_step intro!: found [of jb])
  qed
qed

lemma jobStep_keeps: "jobStep st st' \<Longrightarrow> nsRebootStatus st' = nsRebootStatus st \<and> nsJobName st' = nsJobName st"
  by (simp add: jobStep_def)

lemma only_processJobStatus: "only (\<lambda>q. \<not> mutating q) (processJobStatus op st)"
  unfolding processJobStatus_def client_defs by (auto intro!: only_bind split: sum.splits)

lemma exec_processRebootStatus:
  assumes "exec (processRebootStatus op n st) tr (st', r)"
  shows "nsPhase st' = nsPhase st \<and> nsJobName st' = nsJobName st \<and>
    (nsRebootStatus st' = nsRebootStatus st \<or>
     nsRebootStatus st = [] \<and>
       nsRebootStatus st' = (if rebootRequested op then rebootStatusPending else rebootStatusNotRequested) \<or>
     nsPhase st = phaseFailed \<and> rebootRequested op \<and> nsRebootStatus st' = rebootStatusCancelled \<or>
     nsPhase st = phaseCompleted \<and> nsRebootStatus st = rebootStatusPending \<and>
       nsRebootStatus st' = rebootStatusCompleted \<and> rebootProven n (nsPreRebootBootID st') tr)"
proof -
  consider (init) "nsRebootStatus st = []"
    | (failed) "nsRebootStatus st \<noteq> []" "nsPhase st = phaseFailed" "rebootRequested op"
    | (check) "nsPhase st = phaseCompleted" "nsRebootStatus st = rebootStatusPending"
    | (idle) "nsRebootStatus st \<noteq> []" "\<not> (nsPhase st = phaseFailed \<and> rebootRequested op)"
        "\<not> (nsPhase st = phaseCompleted \<and> nsRebootStatus st = rebootStatusPending)" by blast
  then show ?thesis
  proof cases
    case init
    with assms show ?thesis by (auto simp: processRebootStatus_def now_def exec_ask_bind)
  next
    case failed
    with assms show ?thesis by (auto simp: processRebootStatus_def now_def exec_ask_bind exec_bind split: if_splits)
  next
    case check
    with assms obtain t1 s x t2 where tr: "tr = t1 @ t2" and c: "exec (isRebootCompleted op n st) t1 (s, x)"
      and rest: "exec (case x of Inl e \<Rightarrow> Ret (s, Inl e)
        | Inr completed \<Rightarrow>
            if completed
            then bind now (\<lambda>t. Ret (s\<lparr>nsRebootStatus := rebootStatusCompleted,
                   nsMessage := jobAndRebootCompletedMessage, nsLastUpdated := t\<rparr>, Inr ()))
            else Ret (s, Inr ())) t2 (st', r)"
      by (auto simp: processRebootStatus_def exec_bind [of "isRebootCompleted op n st"])
    have same: "nsPhase s = nsPhase st" "nsJobName s = nsJobName st" "nsRebootStatus s = nsRebootStatus st"
      using exec_isRebootCompleted [OF c] by (auto simp: same_progress_def)
    consider e where "x = Inl e" | "x = Inr False" | "x = Inr True" by (metis (full_types) sum.exhaust)
    then show ?thesis
    proof cases
      case 1
      with rest same show ?thesis by simp
    next
      case 2
      with rest same show ?thesis by simp
    next
      case 3
      with c have "rebootProven n (nsPreRebootBootID s) t1" by (auto intro: isRebootCompleted_proven)
      then have "rebootProven n (nsPreRebootBootID s) tr" by (rule rebootProven_mono) (simp add: tr)
      with 3 rest same check show ?thesis by (auto simp: now_def exec_ask_bind)
    qed
  next
    case idle
    with assms have "st' = st" by (auto simp: processRebootStatus_def)
    then show ?thesis by simp
  qed
qed

lemma only_cleanupRebootPod: "only sparesNode (cleanupRebootPodForNode op n)"
  unfolding cleanupRebootPodForNode_def listRebootPods_def deleteRebootPods_def client_defs
  by (auto intro!: only_attempt only_forEach only_bind split: sum.splits)

lemma only_processRebootStatus: "only sparesNode (processRebootStatus op n st)"
proof -
  have c: "only sparesNode (isRebootCompleted op n st)"
    using only_isRebootCompleted by (rule only_mono) (case_tac q; simp)
  show ?thesis
    unfolding processRebootStatus_def now_def
    by (auto intro!: only_bind only_cleanupRebootPod c split: sum.splits)
qed

text \<open>When a node's cordon may be lifted, and when a node counts as settled.\<close>

definition mayUncordon :: "node_op \<Rightarrow> node_status \<Rightarrow> bool" where
  "mayUncordon op st \<longleftrightarrow> cordonRequested op \<and>
     (nodeDone op st \<or>
      nsPhase st = phaseFailed \<and> getBool (opUncordonOnFailure (opSpec op)) UncordonOnFailureDefault)"

definition settled :: "node_op \<Rightarrow> node_status \<Rightarrow> bool" where
  "settled op st \<longleftrightarrow> nsPhase st = phaseCompleted \<and> nsJobName st = [] \<or> nodeDone op st"

text \<open>
  What is written to lift this NodeOp's own cordon, or to clean a node already schedulable: the node
  as it was read under its name, schedulable and without the cordon annotation.
\<close>

definition lifts :: "node_op \<Rightarrow> string \<Rightarrow> trace \<Rightarrow> node \<Rightarrow> bool" where
  "lifts op n tr nd \<longleftrightarrow> (\<exists>latest. (GetNode n, RNode (Inr latest)) \<in> set tr \<and>
     nd = releasedNode latest \<and>
     (if Unschedulable latest
      then map_of (Annotations (nodeMeta latest)) cordonedByAnnotation = Some (nodeOpOwnerRef op)
      else has_key cordonedByAnnotation (Annotations (nodeMeta latest))))"

lemma lifts_mono: "lifts op n t nd \<Longrightarrow> set t \<subseteq> set tr \<Longrightarrow> lifts op n tr nd"
  unfolding lifts_def by blast

lemma lifts_same: "same_op op op' \<Longrightarrow> lifts op' n tr nd = lifts op n tr nd"
  by (simp add: lifts_def same_op_def nodeOpOwnerRef_def)

lemma uncordonNode_lifts:
  assumes "exec (uncordonNode op n) tr r" and "(UpdateNode nd, x) \<in> set tr"
  shows "lifts op n tr nd"
  using uncordonNode_update [OF assms] by (simp add: lifts_def)

lemma uncordonWhenDone_lifts:
  assumes "exec (uncordonWhenDone op n st) tr r" and "(UpdateNode nd, x) \<in> set tr"
  shows "lifts op n tr nd \<and> mayUncordon op st"
  using assms by (auto simp: uncordonWhenDone_def mayUncordon_def nodeDone_def split: if_splits
      dest: uncordonNode_lifts)

lemma uncordonAfterFailure_lifts:
  assumes "exec (uncordonAfterFailure op n) tr r" and "(UpdateNode nd, x) \<in> set tr" and "nsPhase st = phaseFailed"
  shows "lifts op n tr nd \<and> mayUncordon op st"
  using assms by (auto simp: uncordonAfterFailure_def mayUncordon_def split: if_splits dest: uncordonNode_lifts)

lemma quiet_update: "\<not> mutating q \<Longrightarrow> sparesNode q"
  by (cases q) auto

text \<open>What one iteration does: to its own entry, to the two counters, and to the cluster.\<close>

definition visited :: "string \<Rightarrow> sync_state \<Rightarrow> trace \<Rightarrow> sync_state \<Rightarrow> unit res \<Rightarrow> bool" where
  "visited n s tr s' r \<longleftrightarrow> (case s of (op, f, c) \<Rightarrow> case s' of (op', f', c') \<Rightarrow>
     moved n op op' \<and> map fst (statuses op') = map fst (statuses op) \<and>
     (\<forall>jb x. (CreateJob jb, x) \<notin> set tr) \<and>
     (\<forall>nd x. (UpdateNode nd, x) \<in> set tr \<longrightarrow> lifts op n tr nd \<and>
        (\<exists>st. map_of (statuses op') n = Some st \<and> mayUncordon op st)) \<and>
     (r = Inr () \<longrightarrow> (\<forall>st. map_of (statuses op') n = Some st \<longrightarrow>
        f' = (f \<or> nsPhase st = phaseFailed) \<and> c' = (if settled op st then c + 1 else c))))"

text \<open>The outcome of the two processors for a node with a Job.\<close>

lemma processed_valid:
  assumes "exec (processJobStatus op st) t1 (st1, Inr ())" and "exec (processRebootStatus op n st1) t2 (st2, r)"
  shows "nsJobName st2 = nsJobName st \<and>
    (nsPhase st2 = phaseFailed \<or> nsPhase st2 = phaseCompleted \<or> nsPhase st2 = phaseRunning)"
proof -
  from assms(1) have "jobStep st st1" by (rule exec_processJobStatus) auto
  with exec_processRebootStatus [OF assms(2)] show ?thesis by (auto simp: jobStep_def)
qed

lemma exec_settleNode:
  assumes "exec (settleNode n st (op, f, c)) tr (s', r)"
  obtains (early) e where "exec (uncordonWhenDone (setStatus n st op) n st) tr (Inl e)" "r = Inl e"
      "s' = (setStatus n st op, f, c)"
    | (late) t1 t2 v where "exec (uncordonWhenDone (setStatus n st op) n st) t1 (Inr ())" "tr = t1 @ t2"
      "exec (if nsPhase st = phaseFailed then uncordonAfterFailure (setStatus n st op) n else Ret (Inr ())) t2 v"
      "fst s' = setStatus n st op" "v = Inr () \<longleftrightarrow> r = Inr ()"
      "r = Inr () \<Longrightarrow> s' = (setStatus n st op, f \<or> nsPhase st = phaseFailed, if nodeDone op st then c + 1 else c)"
proof -
  define op2 where "op2 = setStatus n st op"
  have dn: "nodeDone op2 st = nodeDone op st" by (simp add: op2_def nodeDone_def)
  from assms obtain t1 u t2 where tr: "tr = t1 @ t2" and w: "exec (uncordonWhenDone op2 n st) t1 u"
    and rest: "exec (case u of
          Inl e \<Rightarrow> Ret ((op2, f, c), Inl e)
        | Inr _ \<Rightarrow>
            bind (if nsPhase st = phaseFailed then uncordonAfterFailure op2 n else Ret (Inr ())) (\<lambda>v.
            case v of
              Inl e \<Rightarrow> Ret ((op2, f \<or> nsPhase st = phaseFailed, c), Inl e)
            | Inr _ \<Rightarrow> Ret ((op2, f \<or> nsPhase st = phaseFailed, if nodeDone op2 st then c + 1 else c), Inr ())))
          t2 (s', r)"
    unfolding settleNode_def prod.case Let_def op2_def [symmetric] exec_bind [of "uncordonWhenDone op2 n st"] by blast
  show thesis
  proof (cases u)
    case (Inl e)
    with rest w tr show thesis by (intro early [of e]) (auto simp: op2_def)
  next
    case (Inr u')
    with rest obtain t3 v t4 where t2: "t2 = t3 @ t4"
      and v: "exec (if nsPhase st = phaseFailed then uncordonAfterFailure op2 n else Ret (Inr ())) t3 v"
      and fin: "exec (case v of
              Inl e \<Rightarrow> Ret ((op2, f \<or> nsPhase st = phaseFailed, c), Inl e)
            | Inr _ \<Rightarrow> Ret ((op2, f \<or> nsPhase st = phaseFailed, if nodeDone op2 st then c + 1 else c), Inr ())) t4 (s', r)"
      unfolding Inr sum.case exec_bind by blast
    show thesis
      by (cases v; rule late [of t1 t3 v]; use w v tr t2 fin Inr dn in \<open>auto simp: op2_def [symmetric] split: if_splits\<close>)
  qed
qed

lemma settleNode_visited:
  assumes "exec (settleNode n st2 (op, f, c)) tr (s', r)" and "map_of (statuses op) n = Some st"
    and "nsJobName st2 \<noteq> []" and "validStatus st2"
  shows "visited n (op, f, c) tr s' r"
proof -
  define op2 where "op2 = setStatus n st2 op"
  have sameop: "same_op op op2" "map_of (statuses op2) n = Some st2" by (simp_all add: op2_def)
  have mv: "moved n op op2" "map fst (statuses op2) = map fst (statuses op)"
    using assms(4) put_old_length [OF assms(2)] by (auto simp: op2_def intro: moved_put)
  have flag: "mayUncordon op2 st2 = mayUncordon op st2"
    by (simp add: op2_def mayUncordon_def nodeDone_def)
  have dn: "settled op st2 = nodeDone op st2" using assms(3) by (simp add: settled_def)
  have lift: "lifts op n tr nd \<and> mayUncordon op st2"
    if "lifts op2 n t nd \<and> mayUncordon op2 st2" "set t \<subseteq> set tr" for t nd
    using that lifts_same [OF sameop(1)] flag lifts_mono by blast
  have wh: "(\<forall>nd x. (UpdateNode nd, x) \<in> set t \<longrightarrow> lifts op2 n t nd \<and> mayUncordon op2 st2) \<and>
      (\<forall>jb x. (CreateJob jb, x) \<notin> set t)" if "exec (uncordonWhenDone op2 n st2) t u" for t u
    using that uncordonWhenDone_lifts [OF that]
    by (auto simp: uncordonWhenDone_def split: if_splits elim!: exec_uncordonNode)
  have after: "(\<forall>nd x. (UpdateNode nd, x) \<in> set t \<longrightarrow> lifts op2 n t nd \<and> mayUncordon op2 st2) \<and>
      (\<forall>jb x. (CreateJob jb, x) \<notin> set t)"
    if "exec (if nsPhase st2 = phaseFailed then uncordonAfterFailure op2 n else Ret (Inr ())) t v" for t v
  proof (cases "nsPhase st2 = phaseFailed")
    case True
    with that have "exec (uncordonAfterFailure op2 n) t v" by simp
    then show ?thesis using uncordonAfterFailure_lifts [OF _ _ True, of op2 n t v]
      by (auto simp: uncordonAfterFailure_def split: if_splits elim!: exec_uncordonNode)
  next
    case False
    with that show ?thesis by simp
  qed
  from assms(1) show ?thesis
  proof (rule exec_settleNode)
    fix e
    assume u: "exec (uncordonWhenDone (setStatus n st2 op) n st2) tr (Inl e)" and "r = Inl e"
      "s' = (setStatus n st2 op, f, c)"
    then show ?thesis
      using mv sameop wh [of tr "Inl e"] lift [of tr] by (auto simp: visited_def op2_def [symmetric])
  next
    fix t1 t2 v
    assume u: "exec (uncordonWhenDone (setStatus n st2 op) n st2) t1 (Inr ())" and tr: "tr = t1 @ t2"
      and v: "exec (if nsPhase st2 = phaseFailed then uncordonAfterFailure (setStatus n st2 op) n else Ret (Inr ())) t2 v"
      and s': "fst s' = setStatus n st2 op"
        "r = Inr () \<Longrightarrow> s' = (setStatus n st2 op, f \<or> nsPhase st2 = phaseFailed, if nodeDone op st2 then c + 1 else c)"
    obtain f' c' where s'': "s' = (op2, f', c')" using s'(1) by (cases s') (auto simp: op2_def)
    have "lifts op n tr nd \<and> mayUncordon op st2" if "(UpdateNode nd, x) \<in> set tr" for nd x
      using that wh [OF u [folded op2_def]] after [OF v [folded op2_def]] lift [of t1] lift [of t2]
      by (auto simp: tr)
    moreover have "(CreateJob jb, x) \<notin> set tr" for jb x
      using wh [OF u [folded op2_def]] after [OF v [folded op2_def]] by (auto simp: tr)
    moreover have "f' = (f \<or> nsPhase st2 = phaseFailed) \<and> c' = (if settled op st2 then c + 1 else c)" if "r = Inr ()"
      using s'(2) [OF that] dn by (auto simp: s'')
    ultimately show ?thesis using mv sameop by (auto simp: visited_def s'')
  qed
qed

lemma visited_nothing:
  "(\<And>q x. (q, x) \<in> set t \<Longrightarrow> sparesNode q) \<Longrightarrow> visited n s t s (Inl e)"
  by (cases s) (fastforce simp: visited_def)

lemma visited_spared:
  assumes "visited n s t2 s' r" and "\<And>q x. (q, x) \<in> set t1 \<Longrightarrow> sparesNode q"
  shows "visited n s (t1 @ t2) s' r"
proof -
  have "(UpdateNode nd, x) \<notin> set t1" "(CreateJob jb, x) \<notin> set t1" for nd jb x
    using assms(2) by fastforce+
  moreover have "lifts op n t2 nd \<Longrightarrow> lifts op n (t1 @ t2) nd" for op nd by (rule lifts_mono) auto
  ultimately show ?thesis using assms(1) by (auto simp: visited_def)
qed

lemma syncJobNode_visited:
  assumes "exec (syncJobNode n st (op, f, c)) tr (s', r)" and "map_of (statuses op) n = Some st"
    and "nsJobName st \<noteq> []"
  shows "visited n (op, f, c) tr s' r"
proof -
  from assms(1) obtain t1 st1 r1 t2 where tr: "tr = t1 @ t2" and p1: "exec (processJobStatus op st) t1 (st1, r1)"
    and rest: "exec (case r1 of Inl e \<Rightarrow> Ret ((op, f, c), Inl e) | Inr _ \<Rightarrow>
     bind (processRebootStatus op n st1) (\<lambda>(st2, r2). case r2 of
       Inl e \<Rightarrow> Ret ((op, f, c), Inl e) | Inr _ \<Rightarrow> settleNode n st2 (op, f, c))) t2 (s', r)"
    by (auto simp: syncJobNode_def exec_bind [of "processJobStatus op st"])
  have q1: "sparesNode q" if "(q, x) \<in> set t1" for q x
    using only_exec [OF p1 only_processJobStatus that] by (rule quiet_update)
  show ?thesis
  proof (cases r1)
    case (Inl e)
    with rest q1 tr show ?thesis by (auto intro: visited_nothing)
  next
    case (Inr u1)
    with rest obtain t3 st2 r2 t4 where t2: "t2 = t3 @ t4" and p2: "exec (processRebootStatus op n st1) t3 (st2, r2)"
      and rest2: "exec (case r2 of Inl e \<Rightarrow> Ret ((op, f, c), Inl e) | Inr _ \<Rightarrow> settleNode n st2 (op, f, c)) t4 (s', r)"
      by (auto simp: exec_bind [of "processRebootStatus op n st1"])
    have q2: "sparesNode q" if "(q, x) \<in> set t3" for q x
      using only_exec [OF p2 only_processRebootStatus that] .
    have st2: "nsJobName st2 \<noteq> []" "validStatus st2"
      using processed_valid [of op st t1 st1 n t3 st2 r2] p1 p2 Inr assms(3) by (auto simp: validStatus_def)
    show ?thesis
    proof (cases r2)
      case (Inl e)
      with rest2 show ?thesis unfolding tr t2 using q1 q2 by (auto intro!: visited_nothing)
    next
      case ok: (Inr u2)
      with rest2 have "visited n (op, f, c) t4 s' r" by (intro settleNode_visited [OF _ assms(2) st2]) simp
      then show ?thesis unfolding tr t2 by (intro visited_spared) (auto intro: q1 q2)
    qed
  qed
qed

lemma syncNode_visited:
  assumes "exec (syncNode n (op, f, c)) tr (s', r)" and "validOp op"
  shows "visited n (op, f, c) tr s' r"
proof (cases "map_of (statuses op) n")
  case None
  with assms(1) show ?thesis by (auto simp: syncNode_def visited_def)
next
  case (Some st)
  with assms(2) have valid: "validStatus st" by (auto simp: validOp_def)
  show ?thesis
  proof (cases "nsPhase st = phasePreflight \<or> awaitingRebootPod st \<or> nsPhase st = phaseCompleted \<and> nsJobName st = []")
    case True
    with assms(1) Some show ?thesis
      by (auto simp: syncNode_def visited_def settled_def nodeDone_def awaitingRebootPod_def split: if_splits)
  next
    case False
    show ?thesis
    proof (cases "nsPhase st = phaseFailed \<and> nsJobName st = []")
      case True
      with assms(1) Some False obtain u where u: "exec (uncordonAfterFailure op n) tr u"
        and s': "s' = (op, True, c)" "r = u" by (auto simp: syncNode_def exec_bind)
      have "(CreateJob jb, x) \<notin> set tr" for jb x
        using u by (auto simp: uncordonAfterFailure_def split: if_splits elim!: exec_uncordonNode)
      with s' True Some uncordonAfterFailure_lifts [OF u _ conjunct1 [OF True]] show ?thesis
        by (auto simp: visited_def settled_def nodeDone_def)
    next
      case no: False
      with False valid have "nsJobName st \<noteq> []" by (auto simp: validStatus_def awaitingRebootPod_def)
      moreover have "exec (syncJobNode n st (op, f, c)) tr (s', r)"
        using assms(1) Some False no by (auto simp: syncNode_def)
      ultimately show ?thesis using Some by (intro syncJobNode_visited)
    qed
  qed
qed

lemma spec_same:
  assumes "same_op op op'"
  shows "mayUncordon op' st = mayUncordon op st" "settled op' st = settled op st" "nodeDone op' st = nodeDone op st"
  using assms by (auto simp: same_op_def mayUncordon_def settled_def nodeDone_def)

lemma filter_all_length: "length (filter P xs) = length xs \<longleftrightarrow> (\<forall>x \<in> set xs. P x)"
proof (induction xs)
  case (Cons x xs)
  have "length (filter P xs) \<noteq> Suc (length xs)" using length_filter_le [of P xs] by linarith
  with Cons show ?case by auto
qed simp

fun isUpdateNode :: "node_req \<Rightarrow> bool" where
  "isUpdateNode (UpdateNode _) = True"
| "isUpdateNode _ = False"

text \<open>The whole loop, over distinct keys.\<close>

definition synced :: "string list \<Rightarrow> sync_state \<Rightarrow> trace \<Rightarrow> sync_state \<Rightarrow> unit res \<Rightarrow> bool" where
  "synced ns s tr s' r \<longleftrightarrow> (case s of (op, f, c) \<Rightarrow> case s' of (op', f', c') \<Rightarrow>
     same_op op op' \<and> validOp op' \<and> map fst (statuses op') = map fst (statuses op) \<and>
     (\<forall>m. m \<notin> set ns \<longrightarrow> map_of (statuses op') m = map_of (statuses op) m) \<and>
     (\<forall>jb x. (CreateJob jb, x) \<notin> set tr) \<and>
     (\<forall>nd x. (UpdateNode nd, x) \<in> set tr \<longrightarrow> (\<exists>n \<in> set ns. lifts op n tr nd \<and>
        (\<exists>st. map_of (statuses op') n = Some st \<and> mayUncordon op st))) \<and>
     (r = Inr () \<longrightarrow> set ns \<subseteq> fst ` set (statuses op) \<longrightarrow>
        f' = (f \<or> (\<exists>n \<in> set ns. \<exists>st. map_of (statuses op') n = Some st \<and> nsPhase st = phaseFailed)) \<and>
        c' = c + length (filter (\<lambda>n. \<exists>st. map_of (statuses op') n = Some st \<and> settled op st) ns)))"

text \<open>The visit of one node before the visits of the others.\<close>

lemma synced_nodes:
  assumes "visited n (op, f, c) t1 (op1, f1, c1) (Inr ())" and "synced ns (op1, f1, c1) t2 (op', f', c') r"
    and "n \<notin> set ns" and "(UpdateNode nd, x) \<in> set (t1 @ t2)"
  shows "\<exists>k \<in> set (n # ns). lifts op k (t1 @ t2) nd \<and> (\<exists>st. map_of (statuses op') k = Some st \<and> mayUncordon op st)"
proof (cases "(UpdateNode nd, x) \<in> set t1")
  case True
  have "map_of (statuses op') n = map_of (statuses op1) n" using assms(2,3) by (simp add: synced_def)
  with True assms(1) have "lifts op n t1 nd" "\<exists>st. map_of (statuses op') n = Some st \<and> mayUncordon op st"
    by (auto simp: visited_def)
  then show ?thesis using lifts_mono [of op n t1 nd "t1 @ t2"] by auto
next
  case False
  have so: "same_op op op1" using assms(1) by (simp add: visited_def moved_def)
  from False assms(4) have "(UpdateNode nd, x) \<in> set t2" by simp
  with assms(2) obtain k st where "k \<in> set ns" "lifts op1 k t2 nd" "map_of (statuses op') k = Some st" "mayUncordon op1 st"
    unfolding synced_def prod.case by blast
  then show ?thesis using lifts_same [OF so] spec_same [OF so] lifts_mono [of op k t2 nd "t1 @ t2"] by auto
qed

lemma synced_counts:
  assumes "visited n (op, f, c) t1 (op1, f1, c1) (Inr ())" and "synced ns (op1, f1, c1) t2 (op', f', c') (Inr ())"
    and "n \<notin> set ns" and "set (n # ns) \<subseteq> fst ` set (statuses op)"
  shows "f' = (f \<or> (\<exists>k \<in> set (n # ns). \<exists>st. map_of (statuses op') k = Some st \<and> nsPhase st = phaseFailed)) \<and>
    c' = c + length (filter (\<lambda>k. \<exists>st. map_of (statuses op') k = Some st \<and> settled op st) (n # ns))"
proof -
  have so: "same_op op op1" and "map fst (statuses op1) = map fst (statuses op)"
    using assms(1) by (simp_all add: visited_def moved_def)
  then have keys: "fst ` set (statuses op1) = fst ` set (statuses op)" by (metis list.set_map)
  then obtain st where st: "map_of (statuses op1) n = Some st"
    using assms(4) by (metis has_key_def has_key_keys insert_subset list.simps(15) not_None_eq)
  with assms(1) have h1: "f1 = (f \<or> nsPhase st = phaseFailed)" "c1 = (if settled op st then c + 1 else c)"
    by (auto simp: visited_def)
  have own: "map_of (statuses op') n = map_of (statuses op1) n" using assms(2,3) by (simp add: synced_def)
  have "f' = (f1 \<or> (\<exists>k \<in> set ns. \<exists>st. map_of (statuses op') k = Some st \<and> nsPhase st = phaseFailed)) \<and>
      c' = c1 + length (filter (\<lambda>k. \<exists>st. map_of (statuses op') k = Some st \<and> settled op1 st) ns)"
    using assms(2,4) keys unfolding synced_def prod.case by simp
  then have h2: "f' = (f1 \<or> (\<exists>k \<in> set ns. \<exists>st. map_of (statuses op') k = Some st \<and> nsPhase st = phaseFailed))"
    "c' = c1 + length (filter (\<lambda>k. \<exists>st. map_of (statuses op') k = Some st \<and> settled op st) ns)"
    unfolding spec_same [OF so] by blast+
  show ?thesis using h1 h2 own st by simp
qed

lemma synced_Cons:
  assumes "visited n (op, f, c) t1 (op1, f1, c1) (Inr ())" and "synced ns (op1, f1, c1) t2 (op', f', c') r" and "n \<notin> set ns"
  shows "synced (n # ns) (op, f, c) (t1 @ t2) (op', f', c') r"
proof -
  have mv: "moved n op op1" "map fst (statuses op1) = map fst (statuses op)" using assms(1) by (simp_all add: visited_def)
  have so: "same_op op op1" using mv(1) by (simp add: moved_def)
  have frame: "map_of (statuses op') m = map_of (statuses op) m" if "m \<notin> set (n # ns)" for m
    using that assms(2) moved_others [OF mv(1), of m] by (simp add: synced_def)
  have later: "same_op op1 op'" "validOp op'" "map fst (statuses op') = map fst (statuses op1)"
    "\<And>jb x. (CreateJob jb, x) \<notin> set t2" using assms(2) by (simp_all add: synced_def)
  have quiet: "\<forall>jb x. (CreateJob jb, x) \<notin> set (t1 @ t2)" using assms(1) later(4) by (auto simp: visited_def)
  have nodes: "\<forall>nd x. (UpdateNode nd, x) \<in> set (t1 @ t2) \<longrightarrow> (\<exists>k \<in> set (n # ns). lifts op k (t1 @ t2) nd \<and>
      (\<exists>st. map_of (statuses op') k = Some st \<and> mayUncordon op st))"
    using synced_nodes [OF assms] by blast
  have counts: "r = Inr () \<longrightarrow> set (n # ns) \<subseteq> fst ` set (statuses op) \<longrightarrow>
      f' = (f \<or> (\<exists>k \<in> set (n # ns). \<exists>st. map_of (statuses op') k = Some st \<and> nsPhase st = phaseFailed)) \<and>
      c' = c + length (filter (\<lambda>k. \<exists>st. map_of (statuses op') k = Some st \<and> settled op st) (n # ns))"
    using synced_counts [OF assms(1) _ assms(3)] assms(2) by blast
  have keys: "map fst (statuses op') = map fst (statuses op)" using later(3) mv(2) by simp
  show ?thesis
    unfolding synced_def prod.case
    using frame by (intro conjI same_op_trans [OF so later(1)] later(2) keys quiet nodes counts) simp
qed

lemma sync_loop:
  assumes "exec (forEachS syncNode ns s) tr (s', r)" and "validOp (fst s)" and "distinct ns"
  shows "synced ns s tr s' r"
  using assms
proof (induction ns arbitrary: s tr)
  case Nil
  then show ?case by (auto simp: synced_def split: prod.splits)
next
  case (Cons n ns)
  obtain op f c where s: "s = (op, f, c)" by (cases s)
  obtain op' f' c' where s': "s' = (op', f', c')" by (cases s')
  from Cons.prems(1) consider (err) e where "exec (syncNode n (op, f, c)) tr (s', Inl e)" "r = Inl e"
    | (ok) t1 s1 t2 where "exec (syncNode n (op, f, c)) t1 (s1, Inr ())" "tr = t1 @ t2"
      "exec (forEachS syncNode ns s1) t2 (s', r)" unfolding s by (auto simp: exec_attemptS)
  then show ?case
  proof cases
    case err
    have v: "visited n (op, f, c) tr (op', f', c') (Inl e)"
      using syncNode_visited [of n op f c tr s' "Inl e"] err(1) Cons.prems(2) s s' by simp
    then have mv: "moved n op op'" by (simp add: visited_def)
    then have "validOp op'" "same_op op op'" using moved_valid Cons.prems(2) by (auto simp: s moved_def)
    with v err(2) moved_others [OF mv] show ?thesis by (auto simp: visited_def synced_def s s')
  next
    case ok
    obtain op1 f1 c1 where s1: "s1 = (op1, f1, c1)" by (cases s1)
    have v: "visited n (op, f, c) t1 (op1, f1, c1) (Inr ())"
      using syncNode_visited [of n op f c t1 s1] ok(1) Cons.prems(2) s s1 by simp
    then have "validOp op1" using moved_valid [of n op op1] Cons.prems(2) s by (simp add: visited_def)
    with Cons.IH [OF ok(3)] Cons.prems(3) have "synced ns (op1, f1, c1) t2 (op', f', c') r" by (simp add: s1 s')
    with v show ?thesis unfolding s s' ok(2) using Cons.prems(3) by (intro synced_Cons) simp_all
  qed
qed

text \<open>updateNodeOpStatus: the loop over all keys, then one status write.\<close>

lemma exec_updateNodeOpStatus:
  assumes "exec (updateNodeOpStatus op) tr (op', r)" and "validOp op"
  obtains (early) x ks t op1 f c e where "tr = (RangeKeys (map fst (statuses op)), x) # t" "op' = op1" "r = Inl e"
      "distinct ks" "set ks = fst ` set (statuses op)" "synced ks (op, False, 0) t (op1, f, c) (Inl e)"
    | (full) x ks t op1 f c tm y where "distinct ks" "set ks = fst ` set (statuses op)"
      "synced ks (op, False, 0) t (op1, f, c) (Inr ())"
      "tr = (RangeKeys (map fst (statuses op)), x) # t @
         [(Now, tm), (UpdateNodeOpStatus (setOverall (overallPhase f c op1) (asTime tm) op1), y)]"
      "same_op op1 op'" "opStatus op' = opStatus (setOverall (overallPhase f c op1) (asTime tm) op1)"
proof -
  from assms(1) obtain x t1 where tr: "tr = (RangeKeys (map fst (statuses op)), x) # t1"
    and rest: "exec (bind (forEachS syncNode (asKeys (map fst (statuses op)) x) (op, False, 0)) (\<lambda>((op1, anyFailed, completed), r). case r of
       Inl e \<Rightarrow> Ret (op1, Inl e)
     | Inr _ \<Rightarrow> bind now (\<lambda>t. statusUpdate (setOverall (overallPhase anyFailed completed op1) t op1)))) t1 (op', r)"
    unfolding updateNodeOpStatus_def rangeKeys_def exec_ask_bind by blast
  define ks where "ks = asKeys (map fst (statuses op)) x"
  have ks: "distinct ks" "set ks = fst ` set (statuses op)"
    using assms(2) asKeys_distinct by (auto simp: ks_def validOp_def wf_map_def)
  from rest obtain t2 op1 f c r1 t3 where t1: "t1 = t2 @ t3"
    and l: "exec (forEachS syncNode ks (op, False, 0)) t2 ((op1, f, c), r1)"
    and fin: "exec (case r1 of Inl e \<Rightarrow> Ret (op1, Inl e)
      | Inr _ \<Rightarrow> bind now (\<lambda>t. statusUpdate (setOverall (overallPhase f c op1) t op1))) t3 (op', r)"
    by (auto simp: exec_bind [of "forEachS _ _ _"] ks_def)
  have sy: "synced ks (op, False, 0) t2 (op1, f, c) r1" using sync_loop [OF l] assms(2) ks by simp
  show thesis
  proof (cases r1)
    case (Inl e)
    with fin sy tr t1 ks show thesis by (intro early [of x t2 op1 e ks f c]) auto
  next
    case (Inr u)
    with fin obtain tm t4 where t3: "t3 = (Now, tm) # t4"
      and up: "exec (statusUpdate (setOverall (overallPhase f c op1) (asTime tm) op1)) t4 (op', r)"
      by (auto simp: now_def exec_ask_bind)
    from up show thesis
      by (rule exec_statusUpdate) (use full [OF ks, of t2 op1 f c x tm] sy Inr tr t1 t3 in auto)
  qed
qed

lemma updateNodeOpStatus_writes:
  assumes "validOp op"
  shows "only writeOk (updateNodeOpStatus op)"
proof -
  have un: "only writeOk (uncordonNode op n)" for op n
    using only_uncordonNode by (rule only_mono) (auto simp: writeOk_def)
  have pj: "only writeOk (processJobStatus op st)" for op st
    using only_processJobStatus by (rule only_mono) (auto simp: writeOk_def)
  have pr: "only writeOk (processRebootStatus op n st)" for op n st
  proof -
    have "only writeOk (isRebootCompleted op n st)"
      using only_isRebootCompleted by (rule only_mono) (case_tac q; simp)
    moreover have "only writeOk (cleanupRebootPodForNode op n)"
      unfolding cleanupRebootPodForNode_def listRebootPods_def deleteRebootPods_def client_defs
      by (auto intro!: only_attempt only_forEach only_bind split: sum.splits)
    ultimately show ?thesis
      unfolding processRebootStatus_def now_def by (auto intro!: only_bind split: sum.splits)
  qed
  have se: "only writeOk (settleNode n st s)" for n st s
    unfolding settleNode_def uncordonWhenDone_def uncordonAfterFailure_def Let_def
    by (auto intro!: only_bind un split: prod.splits sum.splits)
  have sj: "only writeOk (syncJobNode n st s)" for n st s
    unfolding syncJobNode_def by (auto intro!: only_bind pj pr se split: prod.splits sum.splits)
  have one: "only writeOk (syncNode n s)" for n s
    unfolding syncNode_def uncordonAfterFailure_def
    by (auto intro!: only_bind un sj split: prod.splits option.splits)
  have fin: "only writeOk ((\<lambda>((op1, anyFailed, completed), r). case r of Inl e \<Rightarrow> Ret (op1, Inl e)
      | Inr _ \<Rightarrow> bind now (\<lambda>t. statusUpdate (setOverall (overallPhase anyFailed completed op1) t op1))) a)"
    if "exec (forEachS syncNode (asKeys (map fst (statuses op)) x) (op, False, 0)) tr a" for x tr a
  proof -
    obtain op1 f c r where a: "a = ((op1, f, c), r)" by (metis prod_cases3 surj_pair)
    have "distinct (asKeys (map fst (statuses op)) x)"
      using assms by (intro asKeys_distinct) (simp add: validOp_def wf_map_def)
    from sync_loop [OF that [unfolded a] _ this] assms have "validOp op1" by (simp add: synced_def)
    then have "validOp (setOverall p t op1)" for p t by (simp add: validOp_def)
    then show ?thesis by (auto simp: a now_def intro!: only_bind writes_statusUpdate split: sum.splits)
  qed
  have "only writeOk (forEachS syncNode ks s)" for ks s by (rule only_forEachS) (rule one)
  then have "only writeOk (bind (forEachS syncNode (asKeys (map fst (statuses op)) x) (op, False, 0))
      (\<lambda>((op1, anyFailed, completed), r). case r of Inl e \<Rightarrow> Ret (op1, Inl e)
      | Inr _ \<Rightarrow> bind now (\<lambda>t. statusUpdate (setOverall (overallPhase anyFailed completed op1) t op1))))" for x
    by (rule only_bind_exec) (rule fin)
  then show ?thesis
    unfolding updateNodeOpStatus_def rangeKeys_def ask_def bind.simps only.simps by simp
qed

text \<open>The reboot of a failed node is cancelled, and its reboot Pods are looked for.\<close>

lemma failed_step:
  assumes "exec (processRebootStatus op n st) tr (st', r)" and "nsRebootStatus st \<noteq> []"
    and "nsPhase st = phaseFailed \<and> rebootRequested op"
  shows "nsRebootStatus st' = rebootStatusCancelled \<and> r = Inr () \<and>
    (nsRebootStatus st \<noteq> rebootStatusCancelled \<longrightarrow>
       (\<exists>x. (ListPods Cache (Some (Namespace (opMeta op))) (rebootSelector op n), x) \<in> set tr))"
proof (cases "nsRebootStatus st = rebootStatusCancelled")
  case True
  with assms show ?thesis by (auto simp: processRebootStatus_def)
next
  case False
  with assms obtain tm t1 where tr: "tr = (Now, tm) # t1"
    and e: "exec (bind (cleanupRebootPodForNode op n) (\<lambda>_.
           Ret (st\<lparr>nsRebootStatus := rebootStatusCancelled, nsLastUpdated := asTime tm\<rparr>, Inr ()))) t1 (st', r)"
    by (auto simp: processRebootStatus_def now_def exec_ask_bind)
  from e obtain x where c: "exec (cleanupRebootPodForNode op n) t1 x"
    and st': "st' = st\<lparr>nsRebootStatus := rebootStatusCancelled, nsLastUpdated := asTime tm\<rparr>" "r = Inr ()"
    by (auto simp: exec_bind)
  have "\<exists>y. (ListPods Cache (Some (Namespace (opMeta op))) (rebootSelector op n), y) \<in> set t1"
    using c by (auto simp: cleanupRebootPodForNode_def listRebootPods_def listPods_def exec_attempt exec_ask)
  then show ?thesis by (auto simp: st' tr)
qed

text \<open>A pending reboot: it is completed exactly when the trace proves it.\<close>

lemma pending_step:
  assumes "exec (processRebootStatus op n st) tr (st', r)" and "nsRebootStatus st \<noteq> []"
    and "\<not> (nsPhase st = phaseFailed \<and> rebootRequested op)"
    and "nsPhase st = phaseCompleted" and "nsRebootStatus st = rebootStatusPending"
  shows "nsRebootStatus st' = (if rebootProven n (nsPreRebootBootID st') tr then rebootStatusCompleted else rebootStatusPending)"
proof -
  from assms obtain t1 s x t2 where tr: "tr = t1 @ t2" and c: "exec (isRebootCompleted op n st) t1 (s, x)"
    and rest: "exec (case x of Inl e \<Rightarrow> Ret (s, Inl e)
      | Inr completed \<Rightarrow>
          if completed
          then bind now (\<lambda>t. Ret (s\<lparr>nsRebootStatus := rebootStatusCompleted,
                 nsMessage := jobAndRebootCompletedMessage, nsLastUpdated := t\<rparr>, Inr ()))
          else Ret (s, Inr ())) t2 (st', r)"
    by (auto simp: processRebootStatus_def exec_bind [of "isRebootCompleted op n st"])
  have same: "nsRebootStatus s = rebootStatusPending"
    using exec_isRebootCompleted [OF c] assms(5) by (auto simp: same_progress_def)
  from rest have keep: "nsPreRebootBootID st' = nsPreRebootBootID s" "rebootProven n b tr = rebootProven n b t1"
      "nsRebootStatus st' = (if x = Inr True then rebootStatusCompleted else nsRebootStatus s)" for b
    by (cases x; auto simp: now_def exec_ask_bind tr rebootProven_def split: if_splits)+
  show ?thesis unfolding keep same isRebootCompleted_iff [OF c] by simp
qed

section \<open>Properties\<close>

text \<open>
  C6. The reboot status of a node as a state machine, every transition of it. It starts as pending
  or not-requested, as the spec says. Once the node has failed and a reboot is requested it is
  cancelled, whatever it was, after the node's reboot Pods were listed to be deleted, and stays
  cancelled. A pending reboot of a node whose Job completed becomes completed exactly when the node
  was read Ready under a boot ID other than the recorded one, and otherwise stays pending. In every
  other case nothing is asked or changed. The phase and the Job name are never touched.
\<close>

theorem reboot_status_machine:
  assumes "exec (processRebootStatus op n st) tr (st', r)"
  shows "nsPhase st' = nsPhase st \<and> nsJobName st' = nsJobName st \<and>
    (if nsRebootStatus st = [] then
       nsRebootStatus st' = (if rebootRequested op then rebootStatusPending else rebootStatusNotRequested)
     else if nsPhase st = phaseFailed \<and> rebootRequested op then
       nsRebootStatus st' = rebootStatusCancelled \<and> r = Inr () \<and>
       (nsRebootStatus st \<noteq> rebootStatusCancelled \<longrightarrow>
          (\<exists>x. (ListPods Cache (Some (Namespace (opMeta op))) (rebootSelector op n), x) \<in> set tr))
     else if nsPhase st = phaseCompleted \<and> nsRebootStatus st = rebootStatusPending then
       nsRebootStatus st' = (if rebootProven n (nsPreRebootBootID st') tr then rebootStatusCompleted else rebootStatusPending)
     else st' = st \<and> tr = [])"
proof -
  have p: "nsPhase st' = nsPhase st \<and> nsJobName st' = nsJobName st" using exec_processRebootStatus [OF assms] by blast
  consider (init) "nsRebootStatus st = []"
    | (failed) "nsRebootStatus st \<noteq> []" "nsPhase st = phaseFailed \<and> rebootRequested op"
    | (pending) "nsRebootStatus st \<noteq> []" "\<not> (nsPhase st = phaseFailed \<and> rebootRequested op)"
        "nsPhase st = phaseCompleted" "nsRebootStatus st = rebootStatusPending"
    | (idle) "nsRebootStatus st \<noteq> []" "\<not> (nsPhase st = phaseFailed \<and> rebootRequested op)"
        "\<not> (nsPhase st = phaseCompleted \<and> nsRebootStatus st = rebootStatusPending)" by blast
  then show ?thesis
  proof cases
    case init
    with assms have "nsRebootStatus st' = (if rebootRequested op then rebootStatusPending else rebootStatusNotRequested)"
      by (auto simp: processRebootStatus_def now_def exec_ask_bind)
    with init p show ?thesis by simp
  next
    case failed
    with failed_step [OF assms] p show ?thesis by simp
  next
    case pending
    with pending_step [OF assms] p show ?thesis by simp
  next
    case idle
    with assms have same: "st' = st" "tr = []" by (auto simp: processRebootStatus_def)
    show ?thesis
      unfolding if_not_P [OF idle(1)] if_not_P [OF idle(2)] if_not_P [OF idle(3)] using same p by blast
  qed
qed

lemma reboot_done_run:
  "\<exists>tr st'. exec (processRebootStatus sample_op ''n1'' ((jobCreated sample_op ''j'' (Time 1))\<lparr>nsPhase := phaseCompleted\<rparr>))
     tr (st', Inr ()) \<and> nsRebootStatus st' = rebootStatusCompleted"
proof -
  have st: "nsRebootStatus (jobCreated sample_op ''j'' (Time 1)) = rebootStatusPending"
    using reboot_requested_sample by (simp add: jobCreated_def)
  have "sample_boot_id \<noteq> ''b''" "sample_boot_id \<noteq> []" by (simp_all add: sample_boot_id_def)
  then have "\<exists>st'. run scripted (processRebootStatus sample_op ''n1''
       ((jobCreated sample_op ''j'' (Time 1))\<lparr>nsPhase := phaseCompleted\<rparr>))
       [RPods (Inr [reported_pod]), RTime (Time 9), RNode (Inr ready_node), RTime (Time 10)] =
       ((st', Inr ()), [(ListPods Cache (Some ''system'') [(JobNameLabel, ''j'')], RPods (Inr [reported_pod])),
          (Now, RTime (Time 9)), (GetNode ''n1'', RNode (Inr ready_node)), (Now, RTime (Time 10))], []) \<and>
       nsRebootStatus st' = rebootStatusCompleted"
    using reported_sample reboot_requested_sample
    by (simp add: processRebootStatus_def isRebootCompleted_def jobPodBootID_def nodeRebootedSince_def
        attempt_def client_defs ask_def jobCreated_def sample_op_def sample_meta_def ready_node_def
        sample_node_def isNodeReady_def)
  then obtain st' where "run scripted (processRebootStatus sample_op ''n1''
       ((jobCreated sample_op ''j'' (Time 1))\<lparr>nsPhase := phaseCompleted\<rparr>))
       [RPods (Inr [reported_pod]), RTime (Time 9), RNode (Inr ready_node), RTime (Time 10)] =
       ((st', Inr ()), [(ListPods Cache (Some ''system'') [(JobNameLabel, ''j'')], RPods (Inr [reported_pod])),
          (Now, RTime (Time 9)), (GetNode ''n1'', RNode (Inr ready_node)), (Now, RTime (Time 10))], [])"
    "nsRebootStatus st' = rebootStatusCompleted" by blast
  from run_exec [OF this(1)] this(2) show ?thesis by blast
qed

theorem reboot_status_machine_witness:
  "\<exists>tr b. rebootProven ''n1'' b tr"
proof -
  define st where "st = (jobCreated sample_op ''j'' (Time 1))\<lparr>nsPhase := phaseCompleted\<rparr>"
  from reboot_done_run obtain tr st' where run: "exec (processRebootStatus sample_op ''n1'' st) tr (st', Inr ())"
    and st': "nsRebootStatus st' = rebootStatusCompleted" unfolding st_def by blast
  have p: "nsRebootStatus st = rebootStatusPending" "nsPhase st = phaseCompleted"
    using reboot_requested_sample by (simp_all add: jobCreated_def st_def)
  then have c: "(nsRebootStatus st = []) = False" "(nsPhase st = phaseFailed \<and> rebootRequested sample_op) = False"
    "(nsPhase st = phaseCompleted \<and> nsRebootStatus st = rebootStatusPending) = True" by simp_all
  from reboot_status_machine [OF run, unfolded c if_False if_True] st'
  have "rebootProven ''n1'' (nsPreRebootBootID st') tr" by (auto split: if_splits)
  then show ?thesis by blast
qed

text \<open>
  C7. Updating the status writes a node only to lift this NodeOp's own cordon (or to clean a
  node that is schedulable already), only when cordoning was requested, and only for a node
  whose status in memory is then final: its Job completed and, with a reboot requested, the
  reboot confirmed; or it failed and the NodeOp asks to uncordon after a failure. No Job is created.
\<close>

theorem uncordon_only_when_final:
  assumes "exec (updateNodeOpStatus op) tr (op', r)" and "validOp op"
  shows "(\<forall>nd x. (UpdateNode nd, x) \<in> set tr \<longrightarrow> (\<exists>n st. map_of (statuses op') n = Some st \<and>
       mayUncordon op st \<and> lifts op n tr nd)) \<and> (\<forall>jb x. (CreateJob jb, x) \<notin> set tr)"
  using assms
proof (rule exec_updateNodeOpStatus)
  fix x ks t op1 f c e
  assume tr: "tr = (RangeKeys (map fst (statuses op)), x) # t" "op' = op1"
    and sy: "synced ks (op, False, 0) t (op1, f, c) (Inl e)"
  have "\<exists>n st. map_of (statuses op') n = Some st \<and> mayUncordon op st \<and> lifts op n tr nd"
    if "(UpdateNode nd, y) \<in> set tr" for nd y
  proof -
    have "(UpdateNode nd, y) \<in> set t" using that by (simp add: tr)
    with sy obtain n st where "lifts op n t nd" "map_of (statuses op1) n = Some st" "mayUncordon op st"
      unfolding synced_def prod.case by blast
    then show ?thesis using lifts_mono [of op n t nd tr] by (auto simp: tr)
  qed
  moreover have "(CreateJob jb, y) \<notin> set tr" for jb y using sy by (simp add: tr synced_def)
  ultimately show ?thesis by blast
next
  fix x ks t op1 f c tm y
  assume sy: "synced ks (op, False, 0) t (op1, f, c) (Inr ())"
    and tr: "tr = (RangeKeys (map fst (statuses op)), x) # t @
         [(Now, tm), (UpdateNodeOpStatus (setOverall (overallPhase f c op1) (asTime tm) op1), y)]"
    and st: "opStatus op' = opStatus (setOverall (overallPhase f c op1) (asTime tm) op1)"
  have eq: "statuses op' = statuses op1" using st by simp
  have "\<exists>n st. map_of (statuses op') n = Some st \<and> mayUncordon op st \<and> lifts op n tr nd"
    if "(UpdateNode nd, z) \<in> set tr" for nd z
  proof -
    have "(UpdateNode nd, z) \<in> set t" using that by (simp add: tr)
    with sy obtain n st where "lifts op n t nd" "map_of (statuses op1) n = Some st" "mayUncordon op st"
      unfolding synced_def prod.case by blast
    then show ?thesis using lifts_mono [of op n t nd tr] eq by (auto simp: tr)
  qed
  moreover have "(CreateJob jb, z) \<notin> set tr" for jb z using sy by (simp add: tr synced_def)
  ultimately show ?thesis by blast
qed

text \<open>
  C31. The overall phase that updateNodeOpStatus saves is the one its node statuses call for:
  Failed when some node failed; otherwise Completed when there are nodes and every one of them
  is settled (skipped by its preflight, or its Job completed and, with a reboot requested, the
  reboot confirmed); otherwise Running. No node enters or leaves the status map.
\<close>

theorem overall_phase_correct:
  assumes "exec (updateNodeOpStatus op) tr (op', Inr ())" and "validOp op"
  shows "map fst (statuses op') = map fst (statuses op) \<and>
    stPhase (opStatus op') =
      (if \<exists>n st. map_of (statuses op') n = Some st \<and> nsPhase st = phaseFailed then phaseFailed
       else if statuses op' \<noteq> [] \<and> (\<forall>n st. map_of (statuses op') n = Some st \<longrightarrow> settled op st) then phaseCompleted
       else phaseRunning)"
  using assms
proof (rule exec_updateNodeOpStatus)
  fix x ks t op1 f c tm y
  assume ks: "distinct ks" "set ks = fst ` set (statuses op)"
    and sy: "synced ks (op, False, 0) t (op1, f, c) (Inr ())"
    and st: "opStatus op' = opStatus (setOverall (overallPhase f c op1) (asTime tm) op1)"
  have eq: "statuses op' = statuses op1" "stPhase (opStatus op') = overallPhase f c op1" using st by simp_all
  have keys: "map fst (statuses op1) = map fst (statuses op)" using sy by (simp add: synced_def)
  have dom: "n \<in> set ks" if "map_of (statuses op1) n = Some st" for n st
    using that ks(2) keys by (metis image_eqI list.set_map map_of_SomeD fst_conv)
  have f: "f \<longleftrightarrow> (\<exists>n \<in> set ks. \<exists>st. map_of (statuses op1) n = Some st \<and> nsPhase st = phaseFailed)"
    and c: "c = length (filter (\<lambda>n. \<exists>st. map_of (statuses op1) n = Some st \<and> settled op st) ks)"
    using sy ks(2) by (simp_all add: synced_def)
  have len: "length ks = length (statuses op1)"
    using ks assms(2) keys by (metis distinct_card length_map list.set_map validOp_def wf_map_def)
  have all: "c = length ks \<longleftrightarrow> (\<forall>n \<in> set ks. \<exists>st. map_of (statuses op1) n = Some st \<and> settled op st)"
    unfolding c by (rule filter_all_length)
  have "(\<forall>n \<in> set ks. \<exists>st. map_of (statuses op1) n = Some st \<and> settled op st) \<longleftrightarrow>
      (\<forall>n st. map_of (statuses op1) n = Some st \<longrightarrow> settled op st)"
  proof -
    have "\<exists>st. map_of (statuses op1) n = Some st" if "n \<in> set ks" for n
      using that ks(2) keys by (metis has_key_def has_key_keys list.set_map not_None_eq)
    with dom show ?thesis by (metis option.inject)
  qed
  note settled_all = this
  have failed: "f \<longleftrightarrow> (\<exists>n st. map_of (statuses op1) n = Some st \<and> nsPhase st = phaseFailed)"
    using f dom by blast
  have "0 < length (statuses op1) \<and> c = length (statuses op1) \<longleftrightarrow>
      statuses op1 \<noteq> [] \<and> (\<forall>n st. map_of (statuses op1) n = Some st \<longrightarrow> settled op st)"
    using all settled_all by (simp add: len)
  with failed keys show ?thesis unfolding eq overallPhase_def by (simp only: simp_thms)
qed auto

text \<open>A node that was rebooted, in a NodeOp that cordoned it: the run that lifts the cordon.\<close>

definition finished_status :: node_status where
  "finished_status = (jobCreated sample_op ''j'' (Time 1))
     \<lparr>nsPhase := phaseCompleted, nsRebootStatus := rebootStatusCompleted, nsPreRebootBootID := ''b''\<rparr>"

definition finishing_op :: node_op where
  "finishing_op = setStatus ''n1'' finished_status sample_op"

definition complete_job :: job where
  "complete_job = sample_job\<lparr>jobStatus := \<lparr>jobConditions =
     [\<lparr>condType = JobComplete, condStatus = ConditionTrue, condReason = [], condMessage = []\<rparr>],
     jobSucceeded = 1, jobFailed = 0\<rparr>\<rparr>"

lemma finishing_op_valid: "validOp finishing_op"
  by (rule validOp_put [of sample_op finished_status])
    (simp_all add: finishing_op_def validOp_def sample_op_def validStatus_def finished_status_def)

lemma finishing_run:
  "\<exists>tr op'. run scripted (updateNodeOpStatus finishing_op)
       [RKeys [''n1''], RJob (Inr complete_job), RTime (Time 8), RNode (Inr cordoned_sample), RUnit (Inr ()),
        RTime (Time 9), RVersion (Inr ''3'')] = ((op', Inr ()), tr, []) \<and> isUpdateNode (fst (tr ! 4)) \<and> length tr = 7"
proof -
  have verdict: "jobVerdict (jobConditions (jobStatus complete_job)) = Some True"
    by (simp add: complete_job_def kconst)
  have st: "map_of (statuses finishing_op) ''n1'' = Some finished_status" "map fst (statuses finishing_op) = [''n1'']"
    by (simp_all add: finishing_op_def sample_op_def put_def)
  have fin: "nsPhase finished_status = phaseCompleted" "nsJobName finished_status = ''j''"
      "nsRebootStatus finished_status = rebootStatusCompleted"
    by (simp_all add: finished_status_def jobCreated_def)
  have flags: "rebootRequested finishing_op" "cordonRequested finishing_op"
    using reboot_requested_sample by (simp_all add: finishing_op_def sample_op_def sample_spec_def)
  have node: "Unschedulable cordoned_sample"
    "map_of (Annotations (nodeMeta cordoned_sample)) cordonedByAnnotation = Some (nodeOpOwnerRef finishing_op)"
    by (simp_all add: cordoned_sample_def finishing_op_def nodeOpOwnerRef_def)
  show ?thesis
    using flags
    by (simp add: updateNodeOpStatus_def syncNode_def syncJobNode_def processJobStatus_def processRebootStatus_def
        settleNode_def uncordonWhenDone_def uncordonNode_def nodeDone_def awaitingRebootPod_def jobOutcome_def
        attempt_def attemptS_def client_defs ask_def st fin verdict node asKeys_def Let_def nodeOpOwnerRef_def)
qed

lemma finishing_exec:
  obtains tr op' nd x where "exec (updateNodeOpStatus finishing_op) tr (op', Inr ())" "(UpdateNode nd, x) \<in> set tr"
proof -
  from finishing_run obtain tr op' where r: "run scripted (updateNodeOpStatus finishing_op)
       [RKeys [''n1''], RJob (Inr complete_job), RTime (Time 8), RNode (Inr cordoned_sample), RUnit (Inr ()),
        RTime (Time 9), RVersion (Inr ''3'')] = ((op', Inr ()), tr, [])"
    and u: "isUpdateNode (fst (tr ! 4))" "length tr = 7" by blast
  obtain nd x where "tr ! 4 = (UpdateNode nd, x)" using u(1) by (cases "tr ! 4"; cases "fst (tr ! 4)") auto
  moreover have "tr ! 4 \<in> set tr" using u(2) by simp
  ultimately show thesis using that run_exec [OF r] by metis
qed

theorem uncordon_only_when_final_witness:
  "\<exists>n st op'. map_of (statuses op') n = Some st \<and> mayUncordon finishing_op st"
proof (rule finishing_exec)
  fix tr op' nd x
  assume run: "exec (updateNodeOpStatus finishing_op) tr (op', Inr ())" and "(UpdateNode nd, x) \<in> set tr"
  then show ?thesis using uncordon_only_when_final [OF run finishing_op_valid] by blast
qed

theorem overall_phase_correct_witness:
  "\<exists>op'. map fst (statuses op') = [''n1''] \<and> stPhase (opStatus op') \<in> {phaseFailed, phaseCompleted, phaseRunning}"
proof (rule finishing_exec)
  fix tr op' nd x
  assume run: "exec (updateNodeOpStatus finishing_op) tr (op', Inr ())"
  have "map fst (statuses finishing_op) = [''n1'']" by (simp add: finishing_op_def sample_op_def put_def)
  with overall_phase_correct [OF run finishing_op_valid] show ?thesis by (intro exI [of _ op']) auto
qed

end
