(* ===== verification/NodeSchedule.thy ===== *)
theory NodeSchedule
  imports NodeStatusSync
begin

text \<open>
  Which nodes start when (nodeop_controller.go: isMasterNode, getClusterNodes, getTargetNodes,
  manageJobCreation, releaseWaitingNodes, unrecordedNodeJob, hasFailedJobs, countRunningJobs).
  \<open>metav1.LabelSelectorAsSelector\<close> belongs to k8s.io/apimachinery and is the parameter
  \<open>asSelector\<close>. Slots are counted in 32-bit integers, as the code does.
\<close>

section \<open>Target nodes\<close>

definition masterLabel :: string where [kconst]: "masterLabel = ''node-role.kubernetes.io/master''"
definition controlPlaneLabel :: string where [kconst]: "controlPlaneLabel = ''node-role.kubernetes.io/control-plane''"

definition isMasterNode :: "node \<Rightarrow> bool" where
  "isMasterNode n \<longleftrightarrow> has_key masterLabel (Labels (nodeMeta n)) \<or> has_key controlPlaneLabel (Labels (nodeMeta n))"

text \<open>The stable sort whose less function puts masters before the other nodes.\<close>

definition mastersFirst :: "node list \<Rightarrow> node list" where
  "mastersFirst ns = sort_key (\<lambda>n. if isMasterNode n then 0 else 1 :: nat) ns"

type_synonym selector_library = "label_selector \<Rightarrow> (strmap \<Rightarrow> bool) res"

definition getTargetNodes :: "selector_library \<Rightarrow> node_op \<Rightarrow> node list res nprog" where
  "getTargetNodes asSelector op =
     attempt listNodes (\<lambda>allNodes.
       case opNodeSelector (opSpec op) of
         None \<Rightarrow> Ret (Inr (mastersFirst allNodes))
       | Some s \<Rightarrow>
           (case asSelector s of
              Inl e \<Rightarrow> Ret (Inl e)
            | Inr matches \<Rightarrow> Ret (Inr (mastersFirst (filter (\<lambda>n. matches (Labels (nodeMeta n))) allNodes)))))"

section \<open>Releasing waiting nodes\<close>

fun firstOwnJob :: "reader \<Rightarrow> node_op \<Rightarrow> pod list \<Rightarrow> string res nprog" where
  "firstOwnJob rd op [] = Ret (Inr [])"
| "firstOwnJob rd op (p # ps) =
     (let jobName = rebootPodJobName p in
      if jobName = [] then firstOwnJob rd op ps
      else bind (getJob rd (Namespace (opMeta op)) jobName) (\<lambda>r. case r of
          Inl e \<Rightarrow> if IsNotFound e then firstOwnJob rd op ps else Ret (Inl e)
        | Inr jb \<Rightarrow> if IsControlledBy (jobMeta jb) (opMeta op) then Ret (Inr jobName)
                   else firstOwnJob rd op ps))"

definition unrecordedNodeJob :: "reader \<Rightarrow> node_op \<Rightarrow> string \<Rightarrow> string res nprog" where
  "unrecordedNodeJob rd op nodeName = attempt (listRebootPods rd op nodeName) (firstOwnJob rd op)"

text \<open>One iteration, with the NodeOp and the names released so far.\<close>

definition releaseNode ::
  "reader \<Rightarrow> string \<Rightarrow> node_op \<times> string list \<Rightarrow> ((node_op \<times> string list) \<times> unit res) nprog" where
  "releaseNode rd nodeName s = (case s of (op, released) \<Rightarrow>
     (case map_of (statuses op) nodeName of
        None \<Rightarrow> Ret (s, Inr ())
      | Some st \<Rightarrow>
          if \<not> awaitingRebootPod st then Ret (s, Inr ())
          else bind (unrecordedNodeJob rd op nodeName) (\<lambda>j. case j of
            Inl e \<Rightarrow> Ret (s, Inl e)
          | Inr jobName \<Rightarrow>
              if jobName \<noteq> [] then bind (recordNodeJob op nodeName jobName) (\<lambda>(op', r). Ret ((op', released), r))
              else bind (cleanupRebootPodForNode op nodeName) (\<lambda>c. case c of
                Inl e \<Rightarrow> Ret (s, Inl e)
              | Inr _ \<Rightarrow> Ret ((op, released @ [nodeName]), Inr ())))))"

definition dropAll :: "string list \<Rightarrow> node_op \<Rightarrow> node_op" where
  "dropAll names op = foldl (\<lambda>acc n. dropStatus n acc) op names"

definition releaseWaitingNodes :: "reader \<Rightarrow> node_op \<Rightarrow> (node_op \<times> unit res) nprog" where
  "releaseWaitingNodes rd op =
     bind (rangeKeys (map fst (statuses op))) (\<lambda>keys.
     bind (forEachS (releaseNode rd) keys (op, [])) (\<lambda>((op1, released), r). case r of
       Inl e \<Rightarrow> Ret (op1, Inl e)
     | Inr _ \<Rightarrow> if released = [] then Ret (op1, Inr ()) else statusUpdate (dropAll released op1)))"

section \<open>Starting work\<close>

definition hasFailedJobs :: "node_op \<Rightarrow> bool" where
  "hasFailedJobs op \<longleftrightarrow> list_ex (\<lambda>(n, st). nsPhase st = phaseFailed) (statuses op)"

definition countRunningJobs :: "node_op \<Rightarrow> 32 word" where
  "countRunningJobs op = fold (\<lambda>(n, st) count. if inFlight st then count + 1 else count) (statuses op) 0"

text \<open>The first pass over the target nodes, one node.\<close>

definition advanceNode :: "reader \<Rightarrow> node \<Rightarrow> node_op \<Rightarrow> (node_op \<times> unit res) nprog" where
  "advanceNode rd n op =
     (case map_of (statuses op) (Name (nodeMeta n)) of
        None \<Rightarrow> Ret (op, Inr ())
      | Some st \<Rightarrow>
          if nsPhase st = phasePreflight then advancePreflight rd op (Name (nodeMeta n))
          else if awaitingRebootPod st then startMainJob rd op (Name (nodeMeta n))
          else Ret (op, Inr ()))"

definition startNode :: "reader \<Rightarrow> node \<Rightarrow> node_op \<Rightarrow> (node_op \<times> unit res) nprog" where
  "startNode rd n op =
     (case opPreflight (opSpec op) of
        Some pf \<Rightarrow> startPreflight op pf (Name (nodeMeta n))
      | None \<Rightarrow> startMainJob rd op (Name (nodeMeta n)))"

definition maxConcurrency :: "node_op \<Rightarrow> node list \<Rightarrow> 32 word" where
  "maxConcurrency op targets =
     (if opConcurrency (opSpec op) = 0 then word_of_nat (length targets) else opConcurrency (opSpec op))"

definition freshNodes :: "node_op \<Rightarrow> node list \<Rightarrow> node list" where
  "freshNodes op targets = filter (\<lambda>n. \<not> has_key (Name (nodeMeta n)) (statuses op)) targets"

text \<open>The second pass: as many fresh nodes as there are free slots; an error does not stop the loop.\<close>

definition startFresh :: "reader \<Rightarrow> node list \<Rightarrow> node_op \<Rightarrow> (node_op \<times> unit res) nprog" where
  "startFresh rd targets op =
     (let availableSlots = sint (maxConcurrency op targets - countRunningJobs op);
          fresh = freshNodes op targets
      in if availableSlots \<le> 0 then Ret (op, Inr ())
         else if fresh = [] then Ret (op, Inr ())
         else bind (forAll (startNode rd) (take (nat availableSlots) fresh) op) (\<lambda>op'. Ret (op', Inr ())))"

definition manageJobCreation ::
  "selector_library \<Rightarrow> reader \<Rightarrow> node_op \<Rightarrow> (node_op \<times> unit res) nprog" where
  "manageJobCreation asSelector rd op =
     bind (getTargetNodes asSelector op) (\<lambda>found. case found of
       Inl e \<Rightarrow> Ret (op, Inl e)
     | Inr targets \<Rightarrow>
         if stopOnFailure op \<and> hasFailedJobs op then releaseWaitingNodes rd op
         else attemptS (forEachS (advanceNode rd) targets op) (\<lambda>op1 _.
           if stopOnFailure op1 \<and> hasFailedJobs op1 then releaseWaitingNodes rd op1
           else startFresh rd targets op1))"

section \<open>Lemmas\<close>

lemma mastersFirst_filter:
  "mastersFirst ns = filter isMasterNode ns @ filter (\<lambda>n. \<not> isMasterNode n) ns"
proof -
  have insort0: "insort_key f x (xs @ ys) = x # xs @ ys"
    if "f x = 0" for f :: "node \<Rightarrow> nat" and x xs ys
    using that by (cases "xs @ ys") auto
  have insort1: "insort_key (\<lambda>n. if isMasterNode n then 0 else 1 :: nat) x (filter isMasterNode ns @ ys) =
      filter isMasterNode ns @ insort_key (\<lambda>n. if isMasterNode n then 0 else 1 :: nat) x ys"
    if "\<not> isMasterNode x" for x ns ys
    using that by (induction ns) auto
  have insort2: "insort_key (\<lambda>n. if isMasterNode n then 0 else 1 :: nat) x (filter (\<lambda>n. \<not> isMasterNode n) ns) =
      x # filter (\<lambda>n. \<not> isMasterNode n) ns" if "\<not> isMasterNode x" for x ns
    using that by (cases "filter (\<lambda>n. \<not> isMasterNode n) ns") (auto simp: filter_eq_Cons_iff)
  show ?thesis
    unfolding mastersFirst_def
    by (induction ns) (simp_all add: insort0 insort1 insort2)
qed

lemma hasFailedJobs_iff: "validOp op \<Longrightarrow> hasFailedJobs op \<longleftrightarrow> (\<exists>n st. map_of (statuses op) n = Some st \<and> nsPhase st = phaseFailed)"
  unfolding hasFailedJobs_def list_ex_iff validOp_def by (force simp: wf_map_of)

lemma fold_count:
  "fold (\<lambda>(n, st) count. if P st then count + 1 else count) m (c :: 32 word) = c + word_of_nat (count_if P m)"
  by (induction m arbitrary: c) (auto simp: count_if_def)

lemma countRunningJobs_eq: "countRunningJobs op = word_of_nat (count_if inFlight (statuses op))"
  by (simp add: countRunningJobs_def fold_count)

text \<open>
  The slot arithmetic does not wrap as long as there are fewer than \<open>2 ^ 31\<close> nodes: the signed
  difference is the difference of the two counts.
\<close>

lemma sint_of_int_small: "- (2 ^ 31) \<le> k \<Longrightarrow> k < 2 ^ 31 \<Longrightarrow> sint (word_of_int k :: 32 word) = k"
  by (simp add: signed_of_int signed_take_bit_int_eq_self)

lemma sint_of_nat_small: "n < 2 ^ 31 \<Longrightarrow> sint (word_of_nat n :: 32 word) = int n"
  using sint_of_int_small [of "int n"] by simp

lemma sint_diff_small:
  assumes "0 \<le> sint a" and "0 \<le> sint b"
  shows "sint (a - b :: 32 word) = sint a - sint b"
proof -
  have "sint a < 2 ^ 31" "sint b < 2 ^ 31" using sint_lt [of a] sint_lt [of b] by simp_all
  with assms sint_of_int_small [of "sint a - sint b"] show ?thesis by simp
qed

text \<open>The limit the slots are counted against, as a number.\<close>

definition slotLimit :: "node_op \<Rightarrow> node list \<Rightarrow> int" where
  "slotLimit op targets =
     (if opConcurrency (opSpec op) = 0 then int (length targets) else sint (opConcurrency (opSpec op)))"

lemma slots_exact:
  assumes "count_if inFlight (statuses op) < 2 ^ 31" and "length targets < 2 ^ 31"
    and "0 \<le> sint (opConcurrency (opSpec op))"
  shows "sint (maxConcurrency op targets - countRunningJobs op) =
    slotLimit op targets - int (count_if inFlight (statuses op))"
proof -
  have "sint (maxConcurrency op targets) = slotLimit op targets"
    using assms(2) by (simp add: maxConcurrency_def slotLimit_def sint_of_nat_small)
  moreover have "sint (countRunningJobs op) = int (count_if inFlight (statuses op))"
    using assms(1) by (simp add: countRunningJobs_eq sint_of_nat_small)
  moreover have "0 \<le> slotLimit op targets" using assms(3) by (simp add: slotLimit_def)
  ultimately show ?thesis by (simp add: sint_diff_small)
qed

text \<open>The two passes as steps of the scheduler's interface.\<close>

lemma advanceNode_cases:
  assumes "exec (advanceNode rd x op) tr (op', r)"
  obtains (none) "tr = []" "op' = op" "r = Inr ()"
    | (preflight) st where "map_of (statuses op) (Name (nodeMeta x)) = Some st" "nsPhase st = phasePreflight"
      "exec (advancePreflight rd op (Name (nodeMeta x))) tr (op', r)"
    | (waiting) st where "map_of (statuses op) (Name (nodeMeta x)) = Some st" "awaitingRebootPod st"
      "exec (startMainJob rd op (Name (nodeMeta x))) tr (op', r)"
  using assms by (auto simp: advanceNode_def split: option.splits if_splits)

interpretation first_pass: slot_keeping_step "advanceNode rd" "Name \<circ> nodeMeta" for rd
proof unfold_locales
  fix x op tr op' r
  assume ex: "exec (advanceNode rd x op) tr (op', r)"
  show "moved ((Name \<circ> nodeMeta) x) op op'"
    using ex by (rule advanceNode_cases) (auto dest: main_step.moves preflight_step.moves)
  show "gated op tr"
    using ex by (rule advanceNode_cases) (auto dest: main_step.gate preflight_step.gate)
  show "statuses op' = statuses op \<or> (\<exists>st. map_of (statuses op) ((Name \<circ> nodeMeta) x) = Some st \<and> inFlight st)"
    using ex by (rule advanceNode_cases) (auto simp: inFlight_def awaitingRebootPod_def)
next
  fix x op
  assume "validOp op"
  then show "only writeOk (advanceNode rd x op)"
    by (auto simp: advanceNode_def split: option.splits intro: main_step.writes preflight_step.writes)
qed

interpretation second_pass: node_step "startNode rd" "Name \<circ> nodeMeta" for rd
proof unfold_locales
  fix x op tr op' r
  assume ex: "exec (startNode rd x op) tr (op', r)"
  show "moved ((Name \<circ> nodeMeta) x) op op'"
    using ex by (auto simp: startNode_def split: option.splits dest: main_step.moves start_step.moves)
  show "gated op tr"
    using ex by (auto simp: startNode_def split: option.splits dest: main_step.gate start_step.gate)
next
  fix x op
  assume "validOp op"
  then show "only writeOk (startNode rd x op)"
    by (auto simp: startNode_def split: option.splits intro: main_step.writes start_step.writes)
qed

text \<open>The evidence for and against an upgrade Job of a waiting node that was never recorded.\<close>

definition podsListed :: "reader \<Rightarrow> node_op \<Rightarrow> string \<Rightarrow> pod list \<Rightarrow> node_req \<times> node_resp" where
  "podsListed rd op n ps =
     (ListPods rd (Some (Namespace (opMeta op))) (rebootSelector op n), RPods (Inr ps))"

definition ownJobSeen :: "reader \<Rightarrow> node_op \<Rightarrow> string \<Rightarrow> string \<Rightarrow> trace \<Rightarrow> bool" where
  "ownJobSeen rd op n j tr \<longleftrightarrow> j \<noteq> [] \<and> (\<exists>ps p jb. podsListed rd op n ps \<in> set tr \<and> p \<in> set ps \<and>
     rebootPodJobName p = j \<and> (GetJob rd (Namespace (opMeta op)) j, RJob (Inr jb)) \<in> set tr \<and>
     IsControlledBy (jobMeta jb) (opMeta op))"

definition jobNotOurs :: "reader \<Rightarrow> node_op \<Rightarrow> string \<Rightarrow> trace \<Rightarrow> bool" where
  "jobNotOurs rd op j tr \<longleftrightarrow> (\<exists>x. (GetJob rd (Namespace (opMeta op)) j, x) \<in> set tr \<and>
     ((\<exists>e. asJob x = Inl e \<and> IsNotFound e) \<or>
      (\<exists>jb. x = RJob (Inr jb) \<and> \<not> IsControlledBy (jobMeta jb) (opMeta op))))"

definition noOwnJob :: "reader \<Rightarrow> node_op \<Rightarrow> string \<Rightarrow> trace \<Rightarrow> bool" where
  "noOwnJob rd op n tr \<longleftrightarrow> (\<exists>ps. podsListed rd op n ps \<in> set tr \<and>
     (\<forall>p \<in> set ps. rebootPodJobName p \<noteq> [] \<longrightarrow> jobNotOurs rd op (rebootPodJobName p) tr))"

lemma jobNotOurs_mono: "set t \<subseteq> set tr \<Longrightarrow> jobNotOurs rd op j t \<Longrightarrow> jobNotOurs rd op j tr"
  unfolding jobNotOurs_def by blast

lemma ownJobSeen_mono: "set t \<subseteq> set tr \<Longrightarrow> ownJobSeen rd op n j t \<Longrightarrow> ownJobSeen rd op n j tr"
  unfolding ownJobSeen_def by blast

lemma noOwnJob_mono: "set t \<subseteq> set tr \<Longrightarrow> noOwnJob rd op n t \<Longrightarrow> noOwnJob rd op n tr"
  unfolding noOwnJob_def by (blast dest: jobNotOurs_mono)

lemma evidence_same:
  assumes "same_op op op'"
  shows "ownJobSeen rd op' n j tr = ownJobSeen rd op n j tr" and "noOwnJob rd op' n tr = noOwnJob rd op n tr"
    and "jobCreated op' j t = jobCreated op j t"
proof -
  have ns: "Namespace (opMeta op') = Namespace (opMeta op)" and sel: "rebootSelector op' = rebootSelector op"
    and spec: "opSpec op' = opSpec op" and own: "\<And>m. IsControlledBy m (opMeta op') = IsControlledBy m (opMeta op)"
    using assms by (auto simp: same_op_def rebootSelector_def IsControlledBy_def fun_eq_iff split: option.splits)
  show "ownJobSeen rd op' n j tr = ownJobSeen rd op n j tr" "noOwnJob rd op' n tr = noOwnJob rd op n tr"
    "jobCreated op' j t = jobCreated op j t"
    by (simp_all only: ownJobSeen_def noOwnJob_def jobNotOurs_def podsListed_def jobCreated_def ns sel spec own)
qed

lemma firstOwnJob_result:
  assumes "exec (firstOwnJob rd op ps) tr (Inr j)"
  shows "if j = [] then \<forall>p \<in> set ps. rebootPodJobName p \<noteq> [] \<longrightarrow> jobNotOurs rd op (rebootPodJobName p) tr
    else \<exists>p \<in> set ps. \<exists>jb. rebootPodJobName p = j \<and>
      (GetJob rd (Namespace (opMeta op)) j, RJob (Inr jb)) \<in> set tr \<and> IsControlledBy (jobMeta jb) (opMeta op)"
  using assms
proof (induction ps arbitrary: tr)
  case Nil
  then show ?case by simp
next
  case (Cons p ps)
  show ?case
  proof (cases "rebootPodJobName p = []")
    case True
    with Cons show ?thesis by (auto simp: Let_def)
  next
    case False
    with Cons.prems obtain x t where tr: "tr = (GetJob rd (Namespace (opMeta op)) (rebootPodJobName p), x) # t"
      and rest: "exec (case asJob x of
          Inl e \<Rightarrow> if IsNotFound e then firstOwnJob rd op ps else Ret (Inl e)
        | Inr jb \<Rightarrow> if IsControlledBy (jobMeta jb) (opMeta op) then Ret (Inr (rebootPodJobName p))
                   else firstOwnJob rd op ps) t (Inr j)"
      by (auto simp: Let_def getJob_def exec_ask_bind)
    have sub: "set t \<subseteq> set tr" by (auto simp: tr)
    show ?thesis
    proof (cases "asJob x")
      case (Inl e)
      with rest have nf: "IsNotFound e" and ex: "exec (firstOwnJob rd op ps) t (Inr j)" by (auto split: if_splits)
      have "jobNotOurs rd op (rebootPodJobName p) tr" using Inl nf by (auto simp: jobNotOurs_def tr)
      with Cons.IH [OF ex] jobNotOurs_mono [OF sub] sub show ?thesis by (auto split: if_splits)
    next
      case (Inr jb)
      show ?thesis
      proof (cases "IsControlledBy (jobMeta jb) (opMeta op)")
        case True
        with Inr rest False show ?thesis by (auto simp: tr)
      next
        case not: False
        with Inr rest have ex: "exec (firstOwnJob rd op ps) t (Inr j)" by simp
        have "jobNotOurs rd op (rebootPodJobName p) tr" using Inr not by (auto simp: jobNotOurs_def tr)
        with Cons.IH [OF ex] jobNotOurs_mono [OF sub] sub show ?thesis by (auto split: if_splits)
      qed
    qed
  qed
qed

lemma unrecordedNodeJob_result:
  assumes "exec (unrecordedNodeJob rd op n) tr (Inr j)"
  shows "if j = [] then noOwnJob rd op n tr else ownJobSeen rd op n j tr"
proof -
  from assms obtain ps t where tr: "tr = podsListed rd op n ps # t" and f: "exec (firstOwnJob rd op ps) t (Inr j)"
    unfolding unrecordedNodeJob_def listRebootPods_def listPods_def exec_attempt exec_ask podsListed_def by auto
  have sub: "set t \<subseteq> set tr" by (auto simp: tr)
  show ?thesis
  proof (cases "j = []")
    case True
    with firstOwnJob_result [OF f] jobNotOurs_mono [OF sub] show ?thesis by (auto simp: noOwnJob_def tr)
  next
    case False
    with firstOwnJob_result [OF f] show ?thesis by (auto simp: ownJobSeen_def tr)
  qed
qed

lemma exec_releaseNode:
  assumes "exec (releaseNode rd n (op, rel)) tr ((op', rel'), r)"
  obtains (skip) "tr = []" "op' = op" "rel' = rel" "r = Inr ()"
      "\<And>st. map_of (statuses op) n = Some st \<Longrightarrow> \<not> awaitingRebootPod st"
    | (error) e where "op' = op" "rel' = rel" "r = Inl e"
    | (recorded) st j t1 t2 where "map_of (statuses op) n = Some st" "awaitingRebootPod st" "tr = t1 @ t2"
      "ownJobSeen rd op n j t1" "exec (recordNodeJob op n j) t2 (op', r)" "rel' = rel"
    | (released) st t1 t2 where "map_of (statuses op) n = Some st" "awaitingRebootPod st" "tr = t1 @ t2"
      "noOwnJob rd op n t1" "op' = op" "rel' = rel @ [n]" "r = Inr ()"
proof (cases "\<exists>st. map_of (statuses op) n = Some st \<and> awaitingRebootPod st")
  case False
  with assms show thesis by (intro skip) (auto simp: releaseNode_def split: option.splits)
next
  case True
  then obtain st where st: "map_of (statuses op) n = Some st" "awaitingRebootPod st" by blast
  with assms obtain t1 j t2 where tr: "tr = t1 @ t2" and u: "exec (unrecordedNodeJob rd op n) t1 j"
    and rest: "exec (case j of
            Inl e \<Rightarrow> Ret ((op, rel), Inl e)
          | Inr jobName \<Rightarrow>
              if jobName \<noteq> [] then bind (recordNodeJob op n jobName) (\<lambda>(op', r). Ret ((op', rel), r))
              else bind (cleanupRebootPodForNode op n) (\<lambda>c. case c of
                Inl e \<Rightarrow> Ret ((op, rel), Inl e)
              | Inr _ \<Rightarrow> Ret ((op, rel @ [n]), Inr ()))) t2 ((op', rel'), r)"
    by (auto simp: releaseNode_def exec_bind [of "unrecordedNodeJob rd op n"])
  show thesis
  proof (cases j)
    case (Inl e)
    with rest show thesis by (intro error [of e]) auto
  next
    case (Inr jobName)
    show thesis
    proof (cases "jobName = []")
      case False
      with rest Inr have "exec (recordNodeJob op n jobName) t2 (op', r)" "rel' = rel" by (auto simp: exec_bind)
      moreover have "ownJobSeen rd op n jobName t1"
        using unrecordedNodeJob_result [of rd op n t1 jobName] u Inr False by simp
      ultimately show thesis using st tr by (intro recorded [of st t1 t2 jobName]) auto
    next
      case True
      with rest Inr obtain c :: "unit res" and t3 :: trace where "exec (case c of Inl e \<Rightarrow> Ret ((op, rel), Inl e)
              | Inr _ \<Rightarrow> Ret ((op, rel @ [n]), Inr ())) t3 ((op', rel'), r)"
        by (auto simp: exec_bind)
      moreover have "noOwnJob rd op n t1"
        using unrecordedNodeJob_result [of rd op n t1 jobName] u Inr True by simp
      ultimately show thesis using st tr
        by (cases c) (auto intro: error released)
    qed
  qed
qed

text \<open>The release loop.\<close>

definition awaits :: "node_op \<Rightarrow> string \<Rightarrow> bool" where
  "awaits op n \<longleftrightarrow> (\<exists>st. map_of (statuses op) n = Some st \<and> awaitingRebootPod st)"

definition releasedLoop :: "reader \<Rightarrow> string list \<Rightarrow> node_op \<times> string list \<Rightarrow> trace \<Rightarrow> node_op \<times> string list \<Rightarrow> unit res \<Rightarrow> bool"
  where
  "releasedLoop rd ks s tr s' r \<longleftrightarrow> (case s of (op, rel) \<Rightarrow> case s' of (op', rel') \<Rightarrow>
     same_op op op' \<and> (validOp op \<longrightarrow> validOp op') \<and>
     (\<forall>m. map_of (statuses op') m = map_of (statuses op) m \<or>
        awaits op m \<and> (\<exists>j tm. map_of (statuses op') m = Some (jobCreated op j tm) \<and> ownJobSeen rd op m j tr)) \<and>
     set rel \<subseteq> set rel' \<and> (\<forall>m \<in> set rel' - set rel. m \<in> set ks \<and> awaits op m \<and> noOwnJob rd op m tr) \<and>
     (r = Inr () \<longrightarrow> (\<forall>m \<in> set ks. awaits op' m \<longrightarrow> m \<in> set rel')))"

lemma jobCreated_not_awaiting: "j \<noteq> [] \<Longrightarrow> \<not> awaitingRebootPod (jobCreated op j t)"
  by (simp add: awaitingRebootPod_def jobCreated_def)

lemma awaits_back:
  assumes "map_of (statuses op') m = map_of (statuses op) m \<or>
      awaits op m \<and> (\<exists>j tm. map_of (statuses op') m = Some (jobCreated op j tm) \<and> ownJobSeen rd op m j tr)"
    and "awaits op' m"
  shows "map_of (statuses op') m = map_of (statuses op) m \<and> awaits op m"
  using assms jobCreated_not_awaiting by (fastforce simp: awaits_def ownJobSeen_def)

lemma releaseNode_released:
  assumes "exec (releaseNode rd n s) tr (s', r)"
  shows "releasedLoop rd [n] s tr s' r"
proof -
  obtain op rel op' rel' where s: "s = (op, rel)" "s' = (op', rel')" by (cases s; cases s')
  from assms [unfolded s] show ?thesis
  proof (rule exec_releaseNode)
    fix st j t1 t2
    assume st: "map_of (statuses op) n = Some st" "awaitingRebootPod st" and tr: "tr = t1 @ t2"
      and j: "ownJobSeen rd op n j t1" and rc: "exec (recordNodeJob op n j) t2 (op', r)" and "rel' = rel"
    from rc obtain tm where st': "same_op op op'" "statuses op' = put n (jobCreated op j tm) (statuses op)"
      by (rule exec_recordNodeJob) blast
    have "ownJobSeen rd op n j tr" using j by (rule ownJobSeen_mono [rotated]) (simp add: tr)
    moreover have "\<not> awaits op' n" using st'(2) j by (simp add: awaits_def ownJobSeen_def jobCreated_not_awaiting)
    moreover have "validOp op \<longrightarrow> validOp op'" using recordNodeJob_moved [OF rc] moved_valid by blast
    ultimately show ?thesis using st st' \<open>rel' = rel\<close> by (auto simp: releasedLoop_def s awaits_def)
  next
    fix st t1 t2
    assume "map_of (statuses op) n = Some st" "awaitingRebootPod st" "tr = t1 @ t2" "noOwnJob rd op n t1"
      "op' = op" "rel' = rel @ [n]" "r = Inr ()"
    moreover from this have "noOwnJob rd op n tr" by (intro noOwnJob_mono [of t1 tr]) auto
    ultimately show ?thesis by (auto simp: releasedLoop_def s awaits_def)
  qed (auto simp: releasedLoop_def s awaits_def)
qed

lemma release_loop:
  "exec (forEachS (releaseNode rd) ks s) tr (s', r) \<Longrightarrow> releasedLoop rd ks s tr s' r"
proof (induction ks arbitrary: s tr)
  case Nil
  then show ?case by (auto simp: releasedLoop_def split: prod.splits)
next
  case (Cons n ks)
  from Cons.prems consider (err) e where "exec (releaseNode rd n s) tr (s', Inl e)" "r = Inl e"
    | (ok) t1 s1 t2 where "exec (releaseNode rd n s) t1 (s1, Inr ())" "tr = t1 @ t2"
      "exec (forEachS (releaseNode rd) ks s1) t2 (s', r)" by (auto simp: exec_attemptS)
  then show ?case
  proof cases
    case err
    with releaseNode_released [OF err(1)] show ?thesis by (auto simp: releasedLoop_def split: prod.splits)
  next
    case ok
    obtain op rel op1 rel1 op' rel' where s: "s = (op, rel)" "s1 = (op1, rel1)" "s' = (op', rel')"
      by (cases s; cases s1; cases s')
    note one = releaseNode_released [OF ok(1), unfolded s releasedLoop_def prod.case]
      and IH = Cons.IH [OF ok(3), unfolded s releasedLoop_def prod.case]
    have so: "same_op op op1" using one by blast
    note same = evidence_same [OF so]
    have sub: "set t1 \<subseteq> set tr" "set t2 \<subseteq> set tr" by (auto simp: ok(2))
    have prior: "awaits op m" if "awaits op1 m" for m using one awaits_back [OF _ that] by blast
    have map: "map_of (statuses op') m = map_of (statuses op) m \<or>
        awaits op m \<and> (\<exists>j tm. map_of (statuses op') m = Some (jobCreated op j tm) \<and> ownJobSeen rd op m j tr)" for m
    proof -
      from IH consider "map_of (statuses op') m = map_of (statuses op1) m"
        | j tm where "awaits op1 m" "map_of (statuses op') m = Some (jobCreated op1 j tm)" "ownJobSeen rd op1 m j t2"
        by blast
      then show ?thesis
      proof cases
        case 1
        with one ownJobSeen_mono [OF sub(1)] show ?thesis by metis
      next
        case 2
        with prior same ownJobSeen_mono [OF sub(2)] show ?thesis by metis
      qed
    qed
    have rel: "m \<in> set (n # ks) \<and> awaits op m \<and> noOwnJob rd op m tr" if "m \<in> set rel' - set rel" for m
    proof (cases "m \<in> set rel1")
      case True
      with that one noOwnJob_mono [OF sub(1)] show ?thesis by auto
    next
      case False
      with that IH prior same(2) noOwnJob_mono [OF sub(2)] show ?thesis by auto
    qed
    have all: "m \<in> set rel'" if "r = Inr ()" "m \<in> set (n # ks)" "awaits op' m" for m
    proof (cases "m \<in> set ks")
      case True
      with that IH show ?thesis by blast
    next
      case False
      with that have "m = n" by simp
      moreover from IH that have "awaits op1 m" using awaits_back [of op' m op1 rd t2] by blast
      ultimately show ?thesis using one IH by auto
    qed
    have "same_op op op'" using so IH same_op_trans by blast
    moreover have "validOp op \<longrightarrow> validOp op'" using one IH by blast
    moreover have "set rel \<subseteq> set rel'" using one IH by blast
    ultimately show ?thesis unfolding releasedLoop_def s prod.case using map rel all by blast
  qed
qed

lemma dropAll_fields [simp]:
  "same_op a (dropAll ns op) = same_op a op"
  "map_of (statuses (dropAll ns op)) m = (if m \<in> set ns then None else map_of (statuses op) m)"
  "wf_map (statuses op) \<Longrightarrow> wf_map (statuses (dropAll ns op))"
  unfolding dropAll_def by (induction ns arbitrary: op) (auto simp: delete_conv')

text \<open>The requests of a halted operation: no Pod, Job or permission is created, no node written.\<close>

fun windsDown :: "node_req \<Rightarrow> bool" where
  "windsDown (RangeKeys _) = True"
| "windsDown (ListPods _ _ _) = True"
| "windsDown (GetJob _ _ _) = True"
| "windsDown Now = True"
| "windsDown (UpdateNodeOpStatus _) = True"
| "windsDown (DeletePod _ _ _) = True"
| "windsDown _ = False"

lemma only_firstOwnJob: "only windsDown (firstOwnJob rd op ps)"
  by (induction ps) (auto simp: Let_def getJob_def intro!: only_bind split: sum.splits)

lemma only_releaseWaitingNodes: "only windsDown (releaseWaitingNodes rd op)"
proof -
  have u: "only windsDown (unrecordedNodeJob rd op n)" for op n
    unfolding unrecordedNodeJob_def listRebootPods_def client_defs by (auto intro!: only_attempt only_firstOwnJob)
  have rc: "only windsDown (recordNodeJob op n j)" for op n j
    using only_recordNodeJob by (rule only_mono) (case_tac q; simp)
  have c: "only windsDown (cleanupRebootPodForNode op n)" for op n
    unfolding cleanupRebootPodForNode_def listRebootPods_def deleteRebootPods_def client_defs
    by (auto intro!: only_attempt only_forEach only_bind split: sum.splits)
  have "only windsDown (releaseNode rd n s)" for n s
    unfolding releaseNode_def by (auto intro!: only_bind u rc c split: option.splits sum.splits prod.splits)
  then show ?thesis
    unfolding releaseWaitingNodes_def rangeKeys_def statusUpdate_def
    by (auto intro!: only_bind only_forEachS split: sum.splits prod.splits)
qed

lemma dropAll_valid: "validOp op \<Longrightarrow> validOp (dropAll ns op)"
  by (auto simp: validOp_def split: if_splits)

lemma releaseWaitingNodes_writes:
  assumes "validOp op"
  shows "only writeOk (releaseWaitingNodes rd op)"
proof -
  have u: "only writeOk (unrecordedNodeJob rd op n)" for op n
  proof -
    have "only writeOk (firstOwnJob rd op ps)" for ps
      by (induction ps) (auto simp: Let_def getJob_def intro!: only_bind split: sum.splits)
    then show ?thesis unfolding unrecordedNodeJob_def listRebootPods_def client_defs by (auto intro!: only_attempt)
  qed
  have c: "only writeOk (cleanupRebootPodForNode op n)" for op n
    unfolding cleanupRebootPodForNode_def listRebootPods_def deleteRebootPods_def client_defs
    by (auto intro!: only_attempt only_forEach only_bind split: sum.splits)
  have one: "only writeOk (releaseNode rd n s)" if "validOp (fst s)" for n s
    using that unfolding releaseNode_def
    by (auto intro!: only_bind u c recordNodeJob_writes split: option.splits sum.splits prod.splits)
  have keep: "validOp (fst s')" if "exec (releaseNode rd n s) tr (s', r)" "validOp (fst s)" for n s tr s' r
    using releaseNode_released [OF that(1)] that(2) by (auto simp: releasedLoop_def split: prod.splits)
  have loop: "only writeOk (forEachS (releaseNode rd) ks (op, []))" for ks
    by (rule only_forEachS_inv [where I = "validOp \<circ> fst"]) (use one keep assms in auto)
  have valid: "validOp (fst s')" if "exec (forEachS (releaseNode rd) ks (op, [])) tr (s', r)" for ks tr s' r
    using release_loop [OF that] assms by (auto simp: releasedLoop_def split: prod.splits)
  have "only writeOk (case a of ((op1, rel), r) \<Rightarrow> case r of Inl e \<Rightarrow> Ret (op1, Inl e)
      | Inr _ \<Rightarrow> if rel = [] then Ret (op1, Inr ()) else statusUpdate (dropAll rel op1))"
    if "exec (forEachS (releaseNode rd) ks (op, [])) tr a" for ks tr a
    using valid [of ks tr "fst a" "snd a"] that
    by (auto intro!: writes_statusUpdate dropAll_valid split: prod.splits sum.splits)
  then show ?thesis
    unfolding releaseWaitingNodes_def rangeKeys_def by (intro only_bind only_bind_exec [OF loop]) auto
qed

text \<open>What happened to one node of a halted operation.\<close>

definition haltedNode :: "reader \<Rightarrow> node_op \<Rightarrow> node_op \<Rightarrow> trace \<Rightarrow> string \<Rightarrow> bool" where
  "haltedNode rd op op' tr m \<longleftrightarrow>
     map_of (statuses op') m = map_of (statuses op) m \<or>
     awaits op m \<and> (map_of (statuses op') m = None \<and> noOwnJob rd op m tr \<or>
       (\<exists>j tm. map_of (statuses op') m = Some (jobCreated op j tm) \<and> ownJobSeen rd op m j tr))"

lemma exec_releaseWaitingNodes:
  assumes "exec (releaseWaitingNodes rd op) tr (op', r)"
  shows "same_op op op' \<and> (validOp op \<longrightarrow> validOp op') \<and> (\<forall>m. haltedNode rd op op' tr m) \<and>
    (r = Inr () \<longrightarrow> (\<forall>m. \<not> awaits op' m))"
proof -
  from assms obtain x t1 where tr: "tr = (RangeKeys (map fst (statuses op)), x) # t1"
    and rest: "exec (bind (forEachS (releaseNode rd) (asKeys (map fst (statuses op)) x) (op, [])) (\<lambda>((op1, released), r). case r of
       Inl e \<Rightarrow> Ret (op1, Inl e)
     | Inr _ \<Rightarrow> if released = [] then Ret (op1, Inr ()) else statusUpdate (dropAll released op1))) t1 (op', r)"
    unfolding releaseWaitingNodes_def rangeKeys_def exec_ask_bind by blast
  define ks where "ks = asKeys (map fst (statuses op)) x"
  from rest obtain t2 op1 rel r1 t3 where t1: "t1 = t2 @ t3"
    and l: "exec (forEachS (releaseNode rd) ks (op, [])) t2 ((op1, rel), r1)"
    and fin: "exec (case r1 of Inl e \<Rightarrow> Ret (op1, Inl e)
     | Inr _ \<Rightarrow> if rel = [] then Ret (op1, Inr ()) else statusUpdate (dropAll rel op1)) t3 (op', r)"
    by (auto simp: exec_bind [of "forEachS _ _ _"] ks_def)
  note loop = release_loop [OF l, unfolded releasedLoop_def prod.case]
  have sub: "set t2 \<subseteq> set tr" by (auto simp: tr t1)
  have keys: "m \<in> set ks" if "awaits op1 m" for m
  proof -
    from that loop have "awaits op m" using awaits_back by blast
    then show ?thesis by (auto simp: ks_def awaits_def has_key_keys [symmetric] has_key_def)
  qed
  have one: "map_of (statuses op1) m = map_of (statuses op) m \<or>
      awaits op m \<and> (\<exists>j tm. map_of (statuses op1) m = Some (jobCreated op j tm) \<and> ownJobSeen rd op m j tr)" for m
    using loop ownJobSeen_mono [OF sub] by metis
  have rel: "awaits op m \<and> noOwnJob rd op m tr" if "m \<in> set rel" for m
    using that loop noOwnJob_mono [OF sub] by auto
  show ?thesis
  proof (cases "\<exists>u. r1 = Inr u \<and> rel \<noteq> []")
    case True
    with fin have up: "exec (statusUpdate (dropAll rel op1)) t3 (op', r)" by auto
    from up have eq: "same_op (dropAll rel op1) op'" "opStatus op' = opStatus (dropAll rel op1)"
      by (auto elim: exec_statusUpdate)
    have st: "map_of (statuses op') m = (if m \<in> set rel then None else map_of (statuses op1) m)" for m
      using eq(2) by simp
    have "wf_map (statuses op1) \<Longrightarrow> wf_map (statuses op')" using eq(2) by simp
    then have "validOp op \<longrightarrow> validOp op'"
      using loop st by (auto simp: validOp_def split: if_splits)
    moreover have "same_op op (dropAll rel op1)" using loop by simp
    then have "same_op op op'" using eq(1) by (rule same_op_trans)
    moreover have "haltedNode rd op op' tr m" for m using one rel by (auto simp: haltedNode_def st)
    moreover have "\<not> awaits op' m" for m
    proof
      assume "awaits op' m"
      then have "awaits op1 m" "m \<notin> set rel" by (auto simp: awaits_def st split: if_splits)
      with loop keys True show False by auto
    qed
    ultimately show ?thesis by blast
  next
    case False
    with fin have "op' = op1" "r = Inr () \<Longrightarrow> r1 = Inr () \<and> rel = []" by (auto split: sum.splits)
    with loop one keys show ?thesis unfolding haltedNode_def by fastforce
  qed
qed

text \<open>The second pass, and the whole of manageJobCreation.\<close>

lemma exec_getTargetNodes:
  assumes "exec (getTargetNodes asSelector op) tr r"
  obtains (error) x e where "tr = [(ListNodes, x)]" "r = Inl e"
    | (targets) all sel where "tr = [(ListNodes, RNodes (Inr all))]" "r = Inr (mastersFirst (filter sel all))"
      "case opNodeSelector (opSpec op) of None \<Rightarrow> sel = (\<lambda>_. True)
       | Some s \<Rightarrow> \<exists>matches. asSelector s = Inr matches \<and> sel = (\<lambda>n. matches (Labels (nodeMeta n)))"
  using assms unfolding getTargetNodes_def listNodes_def exec_attempt exec_ask
proof (elim disjE exE conjE)
  fix e x
  assume "tr = [(ListNodes, x)]" "r = Inl e"
  then show thesis by (rule error)
next
  fix t1 all t2 x
  assume tr: "tr = t1 @ t2" "t1 = [(ListNodes, x)]" "asNodes x = Inr all"
    and rest: "exec (case opNodeSelector (opSpec op) of
         None \<Rightarrow> Ret (Inr (mastersFirst all))
       | Some s \<Rightarrow>
           (case asSelector s of
              Inl e \<Rightarrow> Ret (Inl e)
            | Inr matches \<Rightarrow> Ret (Inr (mastersFirst (filter (\<lambda>n. matches (Labels (nodeMeta n))) all))))) t2 r"
  show thesis
  proof (cases "opNodeSelector (opSpec op)")
    case None
    with tr rest show thesis by (intro targets [of all "\<lambda>_. True"]) auto
  next
    case (Some s)
    with tr rest show thesis
      by (cases "asSelector s") (auto intro: error targets)
  qed
qed

lemma exec_startFresh:
  assumes "exec (startFresh rd targets op) tr (op', r)"
  obtains (full) "tr = []" "op' = op" "r = Inr ()"
    | (start) k where "k = nat (sint (maxConcurrency op targets - countRunningJobs op))" "r = Inr ()"
      "exec (forAll (startNode rd) (take k (freshNodes op targets)) op) tr op'"
  using assms by (auto simp: startFresh_def Let_def exec_bind split: if_splits)

lemma exec_manageJobCreation:
  assumes "exec (manageJobCreation asSelector rd op) tr (op', r)"
  obtains (no_targets) x e where "tr = [(ListNodes, x)]" "op' = op" "r = Inl e"
    | (halted) e t where "tr = e # t" "fst e = ListNodes" "stopOnFailure op" "hasFailedJobs op"
      "exec (releaseWaitingNodes rd op) t (op', r)"
    | (first_error) e t targets err where "tr = e # t" "fst e = ListNodes" "r = Inl err"
      "exec (forEachS (advanceNode rd) targets op) t (op', Inl err)" "\<not> (stopOnFailure op \<and> hasFailedJobs op)"
    | (first_halted) e t1 op1 t2 targets where "tr = e # t1 @ t2" "fst e = ListNodes"
      "exec (forEachS (advanceNode rd) targets op) t1 (op1, Inr ())"
      "stopOnFailure op1" "hasFailedJobs op1" "exec (releaseWaitingNodes rd op1) t2 (op', r)"
      "\<not> (stopOnFailure op \<and> hasFailedJobs op)"
    | (both) all sel t1 op1 t2 where "tr = (ListNodes, RNodes (Inr all)) # t1 @ t2"
      "exec (forEachS (advanceNode rd) (mastersFirst (filter sel all)) op) t1 (op1, Inr ())"
      "exec (startFresh rd (mastersFirst (filter sel all)) op1) t2 (op', r)"
      "\<not> (stopOnFailure op \<and> hasFailedJobs op)"
proof -
  from assms obtain t1 x t2 where tr: "tr = t1 @ t2" and g: "exec (getTargetNodes asSelector op) t1 x"
    and rest: "exec (case x of
       Inl e \<Rightarrow> Ret (op, Inl e)
     | Inr targets \<Rightarrow>
         if stopOnFailure op \<and> hasFailedJobs op then releaseWaitingNodes rd op
         else attemptS (forEachS (advanceNode rd) targets op) (\<lambda>op1 _.
           if stopOnFailure op1 \<and> hasFailedJobs op1 then releaseWaitingNodes rd op1
           else startFresh rd targets op1)) t2 (op', r)"
    by (auto simp: manageJobCreation_def exec_bind)
  from g show thesis
  proof (rule exec_getTargetNodes)
    fix y e
    assume "t1 = [(ListNodes, y)]" "x = Inl e"
    with rest tr show thesis by (intro no_targets) auto
  next
    fix all sel
    assume t1: "t1 = [(ListNodes, RNodes (Inr all))]" and x: "x = Inr (mastersFirst (filter sel all))"
    show thesis
    proof (cases "stopOnFailure op \<and> hasFailedJobs op")
      case True
      with rest tr t1 x show thesis by (intro halted [of "(ListNodes, RNodes (Inr all))" t2]) auto
    next
      case False
      with rest x consider e where "exec (forEachS (advanceNode rd) (mastersFirst (filter sel all)) op) t2 (op', Inl e)" "r = Inl e"
        | t3 op1 t4 where "t2 = t3 @ t4" "exec (forEachS (advanceNode rd) (mastersFirst (filter sel all)) op) t3 (op1, Inr ())"
          "exec (if stopOnFailure op1 \<and> hasFailedJobs op1 then releaseWaitingNodes rd op1
             else startFresh rd (mastersFirst (filter sel all)) op1) t4 (op', r)"
        by (auto simp: exec_attemptS)
      then show thesis
      proof cases
        case 1
        with tr t1 False show thesis by (intro first_error [of "(ListNodes, RNodes (Inr all))" t2]) auto
      next
        case 2
        show thesis
        proof (cases "stopOnFailure op1 \<and> hasFailedJobs op1")
          case True
          with 2 tr t1 False show thesis
            by (intro first_halted [of "(ListNodes, RNodes (Inr all))" t3 t4]) auto
        next
          case ok: False
          with 2 tr t1 False show thesis by (intro both [of all t3 t4 sel]) auto
        qed
      qed
    qed
  qed
qed

text \<open>What manageJobCreation keeps, whatever happens.\<close>

lemma windsDown_quiet: "windsDown q \<Longrightarrow> \<not> isCreateJob q"
  by (cases q) auto

lemma release_gated: "exec (releaseWaitingNodes rd op) tr x \<Longrightarrow> gated op' tr"
  using only_exec [OF _ only_releaseWaitingNodes] windsDown_quiet by (blast intro: gated_quiet)

lemma list_gated: "fst e = ListNodes \<Longrightarrow> gated op t \<Longrightarrow> gated op (e # t)"
  by (rule gated_Cons) auto

lemma startFresh_frame:
  assumes "exec (startFresh rd targets op) tr (op', r)"
  shows "same_op op op' \<and> gated op tr \<and> (validOp op \<longrightarrow> validOp op')"
  using assms
  by (rule exec_startFresh) (auto dest: second_pass.loop_frame second_pass.loop_valid)

lemma manageJobCreation_frame:
  assumes "exec (manageJobCreation asSelector rd op) tr (op', r)"
  shows "same_op op op' \<and> gated op tr \<and> (validOp op \<longrightarrow> validOp op')"
  using assms
proof (rule exec_manageJobCreation)
  fix e t
  assume tr: "tr = e # t" "fst e = ListNodes" and rl: "exec (releaseWaitingNodes rd op) t (op', r)"
  have "gated op tr" unfolding tr(1) using tr(2) release_gated [OF rl] by (rule list_gated)
  then show ?thesis using exec_releaseWaitingNodes [OF rl] by blast
next
  fix e t targets err
  assume "tr = e # t" "fst e = ListNodes" "exec (forEachS (advanceNode rd) targets op) t (op', Inl err)"
  then show ?thesis using first_pass.stopping_loop_frame list_gated by blast
next
  fix e t1 op1 t2 targets
  assume tr: "tr = e # t1 @ t2" "fst e = ListNodes"
    and l: "exec (forEachS (advanceNode rd) targets op) t1 (op1, Inr ())"
    and rl: "exec (releaseWaitingNodes rd op1) t2 (op', r)"
  have "gated op tr"
    unfolding tr(1) using tr(2) first_pass.stopping_loop_frame [OF l] release_gated [OF rl]
    by (blast intro: list_gated gated_append)
  then show ?thesis
    using first_pass.stopping_loop_frame [OF l] exec_releaseWaitingNodes [OF rl] same_op_trans by blast
next
  fix all sel t1 op1 t2
  assume tr: "tr = (ListNodes, RNodes (Inr all)) # t1 @ t2"
    and l: "exec (forEachS (advanceNode rd) (mastersFirst (filter sel all)) op) t1 (op1, Inr ())"
    and f: "exec (startFresh rd (mastersFirst (filter sel all)) op1) t2 (op', r)"
  note fp = first_pass.stopping_loop_frame [OF l]
  have "gated op t2" using startFresh_frame [OF f] gated_same [of op op1] fp by simp
  then have "gated op tr" unfolding tr using fp by (intro list_gated gated_append) auto
  then show ?thesis using fp startFresh_frame [OF f] same_op_trans by blast
qed (auto intro!: gated_Cons)

lemma manageJobCreation_writes:
  assumes "validOp op"
  shows "only writeOk (manageJobCreation asSelector rd op)"
proof -
  have fresh: "only writeOk (startFresh rd targets op1)" if "validOp op1" for targets op1
    using that unfolding startFresh_def Let_def by (auto intro!: only_bind second_pass.loop_writes)
  have get: "only writeOk (getTargetNodes asSelector op)"
    unfolding getTargetNodes_def listNodes_def by (auto intro!: only_attempt split: option.splits sum.splits)
  have pass: "only writeOk (attemptS (forEachS (advanceNode rd) targets op) (\<lambda>op1 _.
      if stopOnFailure op1 \<and> hasFailedJobs op1 then releaseWaitingNodes rd op1 else startFresh rd targets op1))" for targets
    unfolding attemptS_def
    by (rule only_bind_exec [OF first_pass.stopping_loop_writes [OF assms]])
      (use assms first_pass.stopping_loop_frame in
        \<open>fastforce intro: releaseWaitingNodes_writes fresh split: prod.splits sum.splits\<close>)
  show ?thesis
    unfolding manageJobCreation_def
    by (auto intro!: only_bind get pass releaseWaitingNodes_writes assms split: sum.splits)
qed

lemma slotLimit_nodes:
  "slotLimit op (mastersFirst (filter sel all)) \<le> (if opConcurrency (opSpec op) = 0 then int (length all)
     else sint (opConcurrency (opSpec op)))"
  using length_filter_le [of sel all] by (simp add: slotLimit_def mastersFirst_def)

lemma startFresh_count:
  assumes "exec (startFresh rd targets op) tr (op', r)" and "validOp op"
    and "length (statuses op) < 2 ^ 31" and "length targets < 2 ^ 31" and "0 \<le> sint (opConcurrency (opSpec op))"
  shows "int (count_if inFlight (statuses op')) \<le>
    max (int (count_if inFlight (statuses op))) (slotLimit op targets)"
  using assms(1)
proof (rule exec_startFresh)
  fix k
  assume k: "k = nat (sint (maxConcurrency op targets - countRunningJobs op))"
    and l: "exec (forAll (startNode rd) (take k (freshNodes op targets)) op) tr op'"
  have "count_if inFlight (statuses op) < 2 ^ 31" using count_if_le assms(3) by (rule le_less_trans)
  from slots_exact [OF this assms(4,5)] k
  have k': "k = nat (slotLimit op targets - int (count_if inFlight (statuses op)))" by simp
  have "count_if inFlight (statuses op') \<le> count_if inFlight (statuses op) + length (take k (freshNodes op targets))"
    using second_pass.loop_count [OF l assms(2)] .
  also have "\<dots> \<le> count_if inFlight (statuses op) + k" by simp
  finally have "count_if inFlight (statuses op') \<le> count_if inFlight (statuses op) + k" .
  with k' show ?thesis by linarith
qed simp

lemma haltedNode_flight:
  assumes "\<forall>m. haltedNode rd op op' tr m" and "validOp op" and "validOp op'"
  shows "count_if inFlight (statuses op') \<le> count_if inFlight (statuses op)"
proof -
  have count: "count_if inFlight (statuses o1) = card {m. \<exists>st. map_of (statuses o1) m = Some st \<and> inFlight st}"
    if "validOp o1" for o1
  proof -
    have d: "distinct (map fst (filter (inFlight \<circ> snd) (statuses o1)))"
      using that by (simp add: validOp_def wf_map_def distinct_map_filter)
    have "count_if inFlight (statuses o1) = length (map fst (filter (inFlight \<circ> snd) (statuses o1)))"
      by (simp add: count_if_def)
    also have "\<dots> = card (set (map fst (filter (inFlight \<circ> snd) (statuses o1))))"
      using distinct_card [OF d] by simp
    also have "set (map fst (filter (inFlight \<circ> snd) (statuses o1))) =
        {m. \<exists>st. map_of (statuses o1) m = Some st \<and> inFlight st}"
    proof -
      have "(m, st) \<in> set (statuses o1) \<longleftrightarrow> map_of (statuses o1) m = Some st" for m st
        using that by (simp add: validOp_def wf_map_of)
      then show ?thesis by (force simp: image_iff)
    qed
    finally show ?thesis .
  qed
  have "{m. \<exists>st. map_of (statuses op') m = Some st \<and> inFlight st} \<subseteq>
      {m. \<exists>st. map_of (statuses op) m = Some st \<and> inFlight st}"
    using assms(1) by (auto simp: haltedNode_def awaits_def awaitingRebootPod_def inFlight_def) metis+
  moreover have "finite {m. \<exists>st. map_of (statuses op) m = Some st \<and> inFlight st}"
    by (rule finite_subset [OF _ finite_dom_map_of [of "statuses op"]]) auto
  ultimately show ?thesis using card_mono count assms(2,3) by fastforce
qed

lemma stopping_loop_length:
  assumes "exec (forEachS (advanceNode rd) xs op) tr (op', r)"
  shows "length (statuses op') = length (statuses op)"
  using assms
proof (induction xs arbitrary: op tr)
  case Nil
  then show ?case by simp
next
  case (Cons x xs)
  have one: "length (statuses op1) = length (statuses op)" if "exec (advanceNode rd x op) t (op1, r1)" for t op1 r1
    using first_pass.keeps_slot [OF that] first_pass.moves [OF that]
    by (auto simp: moved_def) (metis length_map put_old_length)
  from Cons show ?case by (auto simp: exec_attemptS dest!: one)
qed

section \<open>Properties\<close>

text \<open>
  The target nodes are exactly the cluster's nodes that the selector matches (all of them
  without a selector), masters and control-plane nodes first, and otherwise in the order the
  API server listed them.
\<close>

theorem getTargetNodes_masters_first:
  assumes "exec (getTargetNodes asSelector op) tr (Inr targets)"
  shows "\<exists>all sel. tr = [(ListNodes, RNodes (Inr all))] \<and>
    (case opNodeSelector (opSpec op) of None \<Rightarrow> sel = all
     | Some s \<Rightarrow> \<exists>matches. asSelector s = Inr matches \<and> sel = filter (\<lambda>n. matches (Labels (nodeMeta n))) all) \<and>
    targets = filter isMasterNode sel @ filter (\<lambda>n. \<not> isMasterNode n) sel"
  using assms
proof (rule exec_getTargetNodes)
  fix all sel
  assume "tr = [(ListNodes, RNodes (Inr all))]" "Inr targets = Inr (mastersFirst (filter sel all))"
    "case opNodeSelector (opSpec op) of None \<Rightarrow> sel = (\<lambda>_. True)
       | Some s \<Rightarrow> \<exists>matches. asSelector s = Inr matches \<and> sel = (\<lambda>n. matches (Labels (nodeMeta n)))"
  then show ?thesis
    by (intro exI [of _ all] exI [of _ "filter sel all"])
      (auto simp: mastersFirst_filter simp del: filter_filter split: option.splits)
qed simp

definition plain_selector :: selector_library where
  "plain_selector s = Inr (\<lambda>labels. MatchingLabels (MatchLabels s) labels)"

definition master_node :: node where
  "master_node = sample_node\<lparr>nodeMeta := empty_meta\<lparr>Name := ''cp'', Labels := [(controlPlaneLabel, [])]\<rparr>\<rparr>"

lemma target_run:
  "exec (getTargetNodes plain_selector sample_op) [(ListNodes, RNodes (Inr [sample_node, master_node]))]
     (Inr [master_node, sample_node])"
  by (simp add: exec_iff_scripted getTargetNodes_def attempt_def client_defs ask_def sample_op_def sample_spec_def
      mastersFirst_def isMasterNode_def master_node_def sample_node_def has_key_def empty_meta_def kconst)

theorem getTargetNodes_masters_first_witness:
  "\<exists>sel. [master_node, sample_node] = filter isMasterNode sel @ filter (\<lambda>n. \<not> isMasterNode n) sel"
  using getTargetNodes_masters_first [OF target_run] by blast

text \<open>Two nodes in the first pass: the preflight of the first failed, the second waits for a ready reboot Pod.\<close>

definition racing_op :: node_op where
  "racing_op = setStatus ''n1'' (awaitStatus [] (Time 0)) (setStatus ''n0'' (preflightStarted (Time 0)) sample_op)"

definition failed_check :: pod where
  "failed_check = skipping_pod\<lparr>podStatus := (podStatus skipping_pod)\<lparr>podPhase := PodFailed\<rparr>\<rparr>"

definition node_named :: "string \<Rightarrow> node" where
  "node_named n = sample_node\<lparr>nodeMeta := empty_meta\<lparr>Name := n\<rparr>\<rparr>"

definition racing_answers :: "node_resp list" where
  "racing_answers = [RNodes (Inr [node_named ''n0'', node_named ''n1'']), RPods (Inr [failed_check]), RTime (Time 1),
     RVersion (Inr ''2''), RUnit (Inr ()), RPods (Inr [ready_pod]), RJob (Inl (ApiError NotFound [])),
     RNode (Inr sample_node), RUnit (Inr ()), RString [], RUnit (Inr ()), RTime (Time 2), RVersion (Inr ''3''),
     RKeys [''n0'', ''n1'']]"

lemma racing_facts:
  "statuses racing_op = [(''n0'', preflightStarted (Time 0)), (''n1'', awaitStatus [] (Time 0))]"
  "opSpec racing_op = sample_spec" "opMeta racing_op = opMeta sample_op"
  by (simp_all add: racing_op_def sample_op_def put_def)

lemma node_named_facts:
  "Name (nodeMeta (node_named n)) = n" "isMasterNode (node_named n) = False"
  by (simp_all add: node_named_def isMasterNode_def has_key_def empty_meta_def)

lemma failed_check_facts:
  "podPhase (podStatus failed_check) = PodFailed" "Name (podMeta failed_check) = ''pf''"
  "Namespace (podMeta failed_check) = ''system''"
  by (simp_all add: failed_check_def skipping_pod_facts)

lemma preflightStarted_phase: "nsPhase (preflightStarted t) = phasePreflight"
  by (simp add: preflightStarted_def)

lemma awaitStatus_awaits: "awaitingRebootPod (awaitStatus m t)" "nsPhase (awaitStatus m t) = phasePending"
  by (simp_all add: awaitStatus_def awaitingRebootPod_def)

lemma preflightOutcome_phase:
  "nsPhase (preflightOutcome p m t) = p" "\<not> awaitingRebootPod (preflightOutcome phaseFailed m t)"
  by (simp_all add: preflightOutcome_def awaitingRebootPod_def)

lemma free_node: "Unschedulable sample_node = False"
  by (simp add: sample_node_def)

lemma racing_run:
  "\<exists>tr op'. run scripted (manageJobCreation plain_selector Live racing_op) racing_answers = ((op', Inr ()), tr, []) \<and>
     (\<exists>s. fst (tr ! 3) = UpdateNodeOpStatus s \<and> hasFailedJobs s) \<and> isCreateJob (fst (tr ! 10)) \<and> length tr = 14 \<and>
     hd tr = (ListNodes, RNodes (Inr [node_named ''n0'', node_named ''n1'']))"
proof -
  have PF: "PodFailed \<noteq> PodSucceeded" by (simp add: kconst)
  show ?thesis
    by (simp add: manageJobCreation_def getTargetNodes_def racing_answers_def attempt_def attemptS_def client_defs ask_def
        racing_facts sample_spec_def mastersFirst_def node_named_facts hasFailedJobs_def preflightStarted_phase
        advanceNode_def advancePreflight_def findPreflightPod_def failed_check_facts PF recordOutcome_def
        deletePreflightPod_def awaitStatus_awaits preflightOutcome_phase put_def startMainJob_def obtainRebootPod_def
        keepOneRebootPod_def listRebootPods_def ready_pod_facts deleteRebootPods_def createNodeJob_def prepareNode_def
        cordonNode_def free_node createRebootJobSpec_def getNodeOpImage_def bootIDReporterImage_def recordNodeJob_def
        releaseWaitingNodes_def releaseNode_def asKeys_def IsNotFound_def jobCreated_not_awaiting Let_def)
qed

lemma racing_valid: "validOp racing_op"
proof -
  have "validOp sample_op" by (simp add: validOp_def sample_op_def)
  then have "validOp (setStatus ''n0'' (preflightStarted (Time 0)) sample_op)"
    by (rule validOp_put) simp_all
  then show ?thesis unfolding racing_op_def by (rule validOp_put) simp_all
qed

lemma racing_exec:
  obtains tr op' s jb x where "exec (manageJobCreation plain_selector Live racing_op) tr (op', Inr ())"
    "tr = (ListNodes, RNodes (Inr [node_named ''n0'', node_named ''n1''])) # tl tr"
    "fst (tr ! 3) = UpdateNodeOpStatus s" "hasFailedJobs s"
    "tr = take 10 tr @ (CreateJob jb, x) # drop 11 tr" "length tr = 14"
proof -
  from racing_run obtain tr op' s where r: "run scripted (manageJobCreation plain_selector Live racing_op)
      racing_answers = ((op', Inr ()), tr, [])"
    and st: "fst (tr ! 3) = UpdateNodeOpStatus s" "hasFailedJobs s"
    and cj: "isCreateJob (fst (tr ! 10))" "length tr = 14"
    and hd: "hd tr = (ListNodes, RNodes (Inr [node_named ''n0'', node_named ''n1'']))" by blast
  obtain jb x where jb: "tr ! 10 = (CreateJob jb, x)" using cj(1) by (cases "tr ! 10"; cases "fst (tr ! 10)") auto
  have "tr = take 10 tr @ (CreateJob jb, x) # drop 11 tr" using id_take_nth_drop [of 10 tr] jb cj(2) by simp
  moreover have "tr = (ListNodes, RNodes (Inr [node_named ''n0'', node_named ''n1''])) # tl tr"
    using hd cj(2) by (cases tr) auto
  ultimately show thesis using that [OF run_exec [OF r]] st cj(2) by blast
qed

text \<open>
  However a pass of the scheduler runs, with a reboot requested every upgrade Job is
  created only after a ready reboot Pod of that Job's node, naming that Job, was seen.
\<close>

theorem scheduler_reboot_gate:
  assumes "exec (manageJobCreation asSelector rd op) (pre @ (CreateJob jb, x) # post) (op', r)"
    and "rebootRequested op"
  shows "\<exists>g \<in> set pre. rebootPodSeen (Namespace (opMeta op))
    (rebootSelector op (NodeName (templateSpec (jobSpec jb)))) (Name (jobMeta jb)) g"
proof -
  have "gated op (pre @ (CreateJob jb, x) # post)" using manageJobCreation_frame [OF assms(1)] by blast
  then show ?thesis using assms(2) by (auto simp: gated_def rebootGate_def dest!: guardedD)
qed

theorem scheduler_reboot_gate_witness:
  "\<exists>g n j. rebootPodSeen (Namespace (opMeta racing_op)) (rebootSelector racing_op n) j g"
proof (rule racing_exec)
  fix tr op' s jb x
  assume run: "exec (manageJobCreation plain_selector Live racing_op) tr (op', Inr ())"
    and eq: "tr = take 10 tr @ (CreateJob jb, x) # drop 11 tr"
  have "exec (manageJobCreation plain_selector Live racing_op) (take 10 tr @ (CreateJob jb, x) # drop 11 tr) (op', Inr ())"
    using run eq by simp
  moreover have "rebootRequested racing_op" by (simp add: racing_facts sample_spec_def)
  ultimately show ?thesis using scheduler_reboot_gate [of plain_selector Live racing_op "take 10 tr" jb x "drop 11 tr"]
    by blast
qed

text \<open>
  C20. StopOnFailure: when a node has failed, a pass of the scheduler creates nothing and
  writes no node. A node keeps its status, unless it was waiting for its reboot Pod: then it is
  dropped only after the live listing of its reboot Pods named no Job of this NodeOp, and is
  recorded with that Job otherwise. When the pass succeeds no node is left waiting.
\<close>

theorem stop_on_failure_halts:
  assumes "exec (manageJobCreation asSelector rd op) tr (op', r)"
    and "stopOnFailure op" and "hasFailedJobs op"
  shows "(\<forall>q x. (q, x) \<in> set tr \<longrightarrow> q = ListNodes \<or> windsDown q) \<and>
    (\<forall>m. haltedNode rd op op' tr m) \<and> (r = Inr () \<longrightarrow> (\<forall>m. \<not> awaits op' m))"
  using assms(1)
proof (rule exec_manageJobCreation)
  fix x e
  assume "tr = [(ListNodes, x)]" "op' = op" "r = Inl e"
  then show ?thesis by (simp add: haltedNode_def)
next
  fix e t
  assume tr: "tr = e # t" "fst e = ListNodes" and rl: "exec (releaseWaitingNodes rd op) t (op', r)"
  have "haltedNode rd op op' tr m" for m
  proof -
    have "haltedNode rd op op' t m" using exec_releaseWaitingNodes [OF rl] by blast
    then show ?thesis using noOwnJob_mono [of t tr] ownJobSeen_mono [of t tr] unfolding haltedNode_def tr(1)
      by (metis set_subset_Cons)
  qed
  moreover have "\<forall>q x. (q, x) \<in> set tr \<longrightarrow> q = ListNodes \<or> windsDown q"
    using only_exec [OF rl only_releaseWaitingNodes] tr by auto
  ultimately show ?thesis using exec_releaseWaitingNodes [OF rl] by blast
qed (use assms(2,3) in auto)

text \<open>A halted operation with one failed and one waiting node.\<close>

definition halted_op :: node_op where
  "halted_op = setStatus ''n0'' (preflightOutcome phaseFailed [] (Time 1)) racing_op"

lemma halted_facts:
  "statuses halted_op = [(''n0'', preflightOutcome phaseFailed [] (Time 1)), (''n1'', awaitStatus [] (Time 0))]"
  "opSpec halted_op = sample_spec" "opMeta halted_op = opMeta sample_op" "hasFailedJobs halted_op" "validOp halted_op"
  "stopOnFailure halted_op"
proof -
  show "validOp halted_op" unfolding halted_op_def by (rule validOp_put [OF racing_valid]) simp_all
qed (simp_all add: halted_op_def racing_facts put_def hasFailedJobs_def preflightOutcome_phase sample_spec_def)

lemma halted_run:
  obtains t op' where "exec (manageJobCreation plain_selector Live halted_op) ((ListNodes, RNodes (Inr [])) # t) (op', Inr ())"
    "map_of (statuses op') ''n1'' = None"
proof -
  have "\<exists>t op'. run scripted (manageJobCreation plain_selector Live halted_op)
      [RNodes (Inr []), RKeys [''n0'', ''n1''], RPods (Inr []), RPods (Inr []), RVersion (Inr ''3'')] =
      ((op', Inr ()), (ListNodes, RNodes (Inr [])) # t, []) \<and> map_of (statuses op') ''n1'' = None"
    using halted_facts(4,6)
    by (simp add: manageJobCreation_def getTargetNodes_def attempt_def attemptS_def client_defs ask_def halted_facts(1-3)
        sample_spec_def mastersFirst_def releaseWaitingNodes_def releaseNode_def asKeys_def awaitStatus_awaits
        preflightOutcome_phase unrecordedNodeJob_def listRebootPods_def cleanupRebootPodForNode_def deleteRebootPods_def
        dropAll_def)
  then obtain t op' where r: "run scripted (manageJobCreation plain_selector Live halted_op)
      [RNodes (Inr []), RKeys [''n0'', ''n1''], RPods (Inr []), RPods (Inr []), RVersion (Inr ''3'')] =
      ((op', Inr ()), (ListNodes, RNodes (Inr [])) # t, [])" and "map_of (statuses op') ''n1'' = None" by blast
  with that [OF run_exec [OF r]] show thesis by blast
qed

theorem stop_on_failure_halts_witness:
  "\<exists>tr op'. haltedNode Live halted_op op' tr ''n1'' \<and> map_of (statuses op') ''n1'' = None"
proof (rule halted_run)
  fix t op'
  assume run: "exec (manageJobCreation plain_selector Live halted_op) ((ListNodes, RNodes (Inr [])) # t) (op', Inr ())"
    and none: "map_of (statuses op') ''n1'' = None"
  with stop_on_failure_halts [OF run halted_facts(6,4)] show ?thesis by blast
qed

text \<open>
  C19. Concurrency: after a pass of the scheduler, the number of nodes that take up a slot
  (in preflight, pending, running, or rebooting) is at most the configured limit, or all listed
  nodes when it is 0, or what it was before the pass if that was more already. The 32-bit slot
  arithmetic does not wrap for fewer than 2^31 nodes.
\<close>

theorem concurrency_respected:
  assumes "exec (manageJobCreation asSelector rd op) ((ListNodes, RNodes (Inr all)) # t) (op', r)"
    and "validOp op" and "0 \<le> sint (opConcurrency (opSpec op))"
    and "length (statuses op) < 2 ^ 31" and "length all < 2 ^ 31"
  shows "int (count_if inFlight (statuses op')) \<le> max (int (count_if inFlight (statuses op)))
    (if opConcurrency (opSpec op) = 0 then int (length all) else sint (opConcurrency (opSpec op)))"
  using assms(1)
proof (rule exec_manageJobCreation)
  fix e t'
  assume rl: "exec (releaseWaitingNodes rd op) t' (op', r)"
  then have "count_if inFlight (statuses op') \<le> count_if inFlight (statuses op)"
    using haltedNode_flight exec_releaseWaitingNodes assms(2) by blast
  then show ?thesis by simp
next
  fix e t' targets err
  assume "exec (forEachS (advanceNode rd) targets op) t' (op', Inl err)"
  from first_pass.stopping_loop_count [OF this assms(2)] show ?thesis by simp
next
  fix e t1 op1 t2 targets
  assume l: "exec (forEachS (advanceNode rd) targets op) t1 (op1, Inr ())"
    and rl: "exec (releaseWaitingNodes rd op1) t2 (op', r)"
  have v: "validOp op1" using first_pass.stopping_loop_frame [OF l] assms(2) by blast
  have "count_if inFlight (statuses op') \<le> count_if inFlight (statuses op1)"
    using haltedNode_flight exec_releaseWaitingNodes [OF rl] v by blast
  with first_pass.stopping_loop_count [OF l assms(2)] show ?thesis by simp
next
  fix all' sel t1 op1 t2
  assume eq: "(ListNodes, RNodes (Inr all)) # t = (ListNodes, RNodes (Inr all')) # t1 @ t2"
    and l: "exec (forEachS (advanceNode rd) (mastersFirst (filter sel all')) op) t1 (op1, Inr ())"
    and f: "exec (startFresh rd (mastersFirst (filter sel all')) op1) t2 (op', r)"
  note fp = first_pass.stopping_loop_frame [OF l]
  have spec: "opConcurrency (opSpec op1) = opConcurrency (opSpec op)" using fp by (simp add: same_op_def)
  have "length (mastersFirst (filter sel all)) \<le> length all" by (simp add: mastersFirst_def)
  with startFresh_count [OF f] fp assms stopping_loop_length [OF l] eq
  have "int (count_if inFlight (statuses op')) \<le>
      max (int (count_if inFlight (statuses op1))) (slotLimit op1 (mastersFirst (filter sel all)))"
    by (simp add: spec)
  with slotLimit_nodes [of op1 sel all] first_pass.stopping_loop_count [OF l assms(2)] show ?thesis
    by (auto simp: spec)
qed auto

theorem concurrency_respected_witness:
  "\<exists>op'. count_if inFlight (statuses op') \<le> 1"
proof (rule halted_run)
  fix t op'
  assume run: "exec (manageJobCreation plain_selector Live halted_op) ((ListNodes, RNodes (Inr [])) # t) (op', Inr ())"
  have "opConcurrency (opSpec halted_op) = 1" by (simp add: halted_facts sample_spec_def)
  moreover have "count_if inFlight (statuses halted_op) = 1" "length (statuses halted_op) = 2"
    by (simp_all add: halted_facts count_if_def inFlight_def preflightOutcome_phase awaitStatus_awaits)
  ultimately show ?thesis using concurrency_respected [OF run halted_facts(5)] by (intro exI [of _ op']) simp
qed

text \<open>
  StopOnFailure is tested before and after the first pass, not between its nodes: there is
  a run in which the pass saves the failure of one node's preflight and then creates the upgrade
  Job of the next node, although StopOnFailure is set and no node had failed before.
\<close>

theorem stop_not_tested_within_pass:
  "\<exists>tr op' s. exec (manageJobCreation plain_selector Live racing_op) tr (op', Inr ()) \<and>
     stopOnFailure racing_op \<and> \<not> hasFailedJobs racing_op \<and>
     fst (tr ! 3) = UpdateNodeOpStatus s \<and> hasFailedJobs s \<and> isCreateJob (fst (tr ! 10))"
proof (rule racing_exec)
  fix tr op' s jb x
  assume run: "exec (manageJobCreation plain_selector Live racing_op) tr (op', Inr ())"
    and s: "fst (tr ! 3) = UpdateNodeOpStatus s" "hasFailedJobs s"
    and eq: "tr = take 10 tr @ (CreateJob jb, x) # drop 11 tr" and len: "length tr = 14"
  have "tr ! 10 = (CreateJob jb, x)" using len by (subst eq) (simp add: nth_append)
  moreover have "stopOnFailure racing_op" "\<not> hasFailedJobs racing_op"
    by (simp_all add: racing_facts sample_spec_def hasFailedJobs_def preflightStarted_phase awaitStatus_awaits)
  ultimately show ?thesis using run s by (intro exI [of _ tr] exI [of _ op'] exI [of _ s]) simp
qed

end
