(* ===== verification/NodeOpCtl.thy ===== *)
theory NodeOpCtl
  imports NodeSchedule
begin

text \<open>
  The NodeOp controller's entry points (nodeop_controller.go: getNodeOp, handleDeletion, Reconcile,
  findNodeOpsForJob, findNodeOpsForPreflightPod, findNodeOpsForRebootPod and the watch predicates
  of SetupWithManager), and what holds of every history of its reconciles.
\<close>

section \<open>Operations\<close>

definition clusterRoleBindingFinalizer :: string where [kconst]:
  "clusterRoleBindingFinalizer = ''nodeop-reboot.kairos.io/clusterrolebinding''"

definition getNodeOp :: "string \<Rightarrow> string \<Rightarrow> node_op option res nprog" where
  "getNodeOp ns n =
     bind (getNodeOpObj ns n) (\<lambda>r. case r of
       Inl e \<Rightarrow> if IsNotFound e then Ret (Inr None) else Ret (Inl e)
     | Inr op \<Rightarrow> Ret (Inr (Some op)))"

definition RemoveFinalizer :: "string \<Rightarrow> node_op \<Rightarrow> node_op" where
  "RemoveFinalizer f op = op\<lparr>opMeta := (opMeta op)\<lparr>Finalizers := filter (\<lambda>x. x \<noteq> f) (Finalizers (opMeta op))\<rparr>\<rparr>"

definition handleDeletion :: "node_op \<Rightarrow> bool res nprog" where
  "handleDeletion op =
     (if DeletionTimestamp (opMeta op) = None then Ret (Inr False)
      else if clusterRoleBindingFinalizer \<in> set (Finalizers (opMeta op)) then
        bind (deleteClusterRoleBinding (''nodeop-reboot-'' @ Name (opMeta op))) (\<lambda>r.
        case r of
          Inl e \<Rightarrow> if \<not> IsNotFound e then Ret (Inl e)
                  else attempt (updateNodeOp (RemoveFinalizer clusterRoleBindingFinalizer op)) (\<lambda>_. Ret (Inr True))
        | Inr _ \<Rightarrow> attempt (updateNodeOp (RemoveFinalizer clusterRoleBindingFinalizer op)) (\<lambda>_. Ret (Inr True)))
      else Ret (Inr True))"

text \<open>The result is the requeue delay in seconds, 0 for none.\<close>

definition Reconcile :: "selector_library \<Rightarrow> reader \<Rightarrow> string \<Rightarrow> string \<Rightarrow> nat res nprog" where
  "Reconcile asSelector rd ns n =
     attempt (getNodeOp ns n) (\<lambda>found. case found of
       None \<Rightarrow> Ret (Inr 0)
     | Some op \<Rightarrow>
         attempt (handleDeletion op) (\<lambda>deleted.
           if deleted then Ret (Inr 0)
           else bind (updateNodeOpStatus op) (\<lambda>(op1, r). case r of Inl e \<Rightarrow> Ret (Inl e) | Inr _ \<Rightarrow>
                bind (manageJobCreation asSelector rd op1) (\<lambda>(op2, r2). case r2 of
                  Inl e \<Rightarrow> Ret (Inl e)
                | Inr _ \<Rightarrow> Ret (Inr 300)))))"

record request =
  reqName :: string
  reqNamespace :: string

definition findNodeOpsForJob :: "job \<Rightarrow> request list" where
  "findNodeOpsForJob jb =
     (case find (\<lambda>r. orKind r = kindNodeOp) (OwnerReferences (jobMeta jb)) of
        Some r \<Rightarrow> [\<lparr>reqName = orName r, reqNamespace = Namespace (jobMeta jb)\<rparr>]
      | None \<Rightarrow> [])"

definition findNodeOpsForPreflightPod :: "pod \<Rightarrow> request list" where
  "findNodeOpsForPreflightPod p =
     (case map_of (Labels (podMeta p)) labelKeyNodeOp of
        None \<Rightarrow> []
      | Some n \<Rightarrow> [\<lparr>reqName = n, reqNamespace = Namespace (podMeta p)\<rparr>])"

definition findNodeOpsForRebootPod :: "pod \<Rightarrow> request list" where
  "findNodeOpsForRebootPod p =
     (case map_of (Labels (podMeta p)) labelKeyNodeOp of
        Some n \<Rightarrow> [\<lparr>reqName = n, reqNamespace = Namespace (podMeta p)\<rparr>]
      | None \<Rightarrow> [])"

text \<open>The predicates of the two Pod watches.\<close>

definition watchesRebootPod :: "pod \<Rightarrow> bool" where
  "watchesRebootPod p \<longleftrightarrow> has_key labelKeyReboot (Labels (podMeta p))"

definition watchesPreflightPod :: "pod \<Rightarrow> bool" where
  "watchesPreflightPod p \<longleftrightarrow> has_key labelKeyPreflight (Labels (podMeta p))"

section \<open>Lemmas\<close>

lemma exec_getNodeOp:
  assumes "exec (getNodeOp ns n) tr r"
  obtains x where "tr = [(GetNodeOp ns n, x)]"
    "\<And>op. r = Inr (Some op) \<longleftrightarrow> x = RNodeOp (Inr op)"
proof -
  from assms obtain x t where tr: "tr = (GetNodeOp ns n, x) # t"
    and rest: "exec (case asNodeOp x of
       Inl e \<Rightarrow> if IsNotFound e then Ret (Inr None) else Ret (Inl e)
     | Inr op \<Rightarrow> Ret (Inr (Some op))) t r"
    unfolding getNodeOp_def getNodeOpObj_def exec_ask_bind by blast
  show thesis
    by (rule that [of x]; insert tr rest; cases "asNodeOp x") (auto split: if_splits)
qed

lemma exec_handleDeletion:
  assumes "exec (handleDeletion op) tr r"
  obtains (alive) "DeletionTimestamp (opMeta op) = None" "tr = []" "r = Inr False"
    | (plain) "DeletionTimestamp (opMeta op) \<noteq> None" "clusterRoleBindingFinalizer \<notin> set (Finalizers (opMeta op))"
      "tr = []" "r = Inr True"
    | (kept) x e where "DeletionTimestamp (opMeta op) \<noteq> None" "r = Inl e"
      "tr = [(DeleteClusterRoleBinding (''nodeop-reboot-'' @ Name (opMeta op)), x)]"
      "asUnit x = Inl e" "\<not> IsNotFound e"
    | (removed) x y where "DeletionTimestamp (opMeta op) \<noteq> None"
      "tr = [(DeleteClusterRoleBinding (''nodeop-reboot-'' @ Name (opMeta op)), x),
         (UpdateNodeOp (RemoveFinalizer clusterRoleBindingFinalizer op), y)]"
      "x = RUnit (Inr ()) \<or> (\<exists>e. asUnit x = Inl e \<and> IsNotFound e)"
      "r \<noteq> Inr False" "r = Inr True \<longleftrightarrow> y = RUnit (Inr ())"
proof -
  consider "DeletionTimestamp (opMeta op) = None"
    | "DeletionTimestamp (opMeta op) \<noteq> None" "clusterRoleBindingFinalizer \<notin> set (Finalizers (opMeta op))"
    | "DeletionTimestamp (opMeta op) \<noteq> None" "clusterRoleBindingFinalizer \<in> set (Finalizers (opMeta op))" by blast
  then show thesis
  proof cases
    case 1
    with assms show thesis by (intro alive) (auto simp: handleDeletion_def)
  next
    case 2
    with assms show thesis by (intro plain) (auto simp: handleDeletion_def)
  next
    case 3
    define rm where "rm = attempt (updateNodeOp (RemoveFinalizer clusterRoleBindingFinalizer op)) (\<lambda>_. Ret (Inr True))"
    have rm: "\<exists>y. t = [(UpdateNodeOp (RemoveFinalizer clusterRoleBindingFinalizer op), y)] \<and> r \<noteq> Inr False \<and>
        (r = Inr True \<longleftrightarrow> y = RUnit (Inr ()))" if ex: "exec rm t r" for t
    proof -
      from ex obtain y t' where t: "t = (UpdateNodeOp (RemoveFinalizer clusterRoleBindingFinalizer op), y) # t'"
        and rest: "exec (case asUnit y of Inl e \<Rightarrow> Ret (Inl e) | Inr _ \<Rightarrow> Ret (Inr True)) t' r"
        unfolding rm_def attempt_def updateNodeOp_def exec_ask_bind by blast
      show ?thesis by (rule exI [of _ y]; insert t rest; cases "asUnit y") auto
    qed
    have "handleDeletion op = bind (ask (DeleteClusterRoleBinding (''nodeop-reboot-'' @ Name (opMeta op))) asUnit)
        (\<lambda>x. case x of Inl e \<Rightarrow> if \<not> IsNotFound e then Ret (Inl e) else rm | Inr _ \<Rightarrow> rm)"
      using 3 unfolding handleDeletion_def deleteClusterRoleBinding_def rm_def by (simp only: if_True if_False)
    with assms obtain x t where tr: "tr = (DeleteClusterRoleBinding (''nodeop-reboot-'' @ Name (opMeta op)), x) # t"
      and rest: "exec (case asUnit x of Inl e \<Rightarrow> if \<not> IsNotFound e then Ret (Inl e) else rm | Inr _ \<Rightarrow> rm) t r"
      by (simp only: exec_ask_bind) blast
    show thesis
    proof (cases "asUnit x")
      case (Inl e)
      show thesis
      proof (cases "IsNotFound e")
        case False
        with Inl rest tr 3 show thesis by (intro kept [of e x]) auto
      next
        case True
        with Inl rest rm obtain y where "t = [(UpdateNodeOp (RemoveFinalizer clusterRoleBindingFinalizer op), y)]"
          "r \<noteq> Inr False" "r = Inr True \<longleftrightarrow> y = RUnit (Inr ())" by auto
        with tr 3 True Inl show thesis by (intro removed [of x y]) auto
      qed
    next
      case (Inr u)
      with rest rm obtain y where "t = [(UpdateNodeOp (RemoveFinalizer clusterRoleBindingFinalizer op), y)]"
        "r \<noteq> Inr False" "r = Inr True \<longleftrightarrow> y = RUnit (Inr ())" by auto
      with tr 3 Inr show thesis by (intro removed [of x y]) auto
    qed
  qed
qed

lemma exec_Reconcile:
  assumes "exec (Reconcile asSelector rd ns n) tr r"
  obtains (unread) x where "tr = [(GetNodeOp ns n, x)]" "\<And>op. x \<noteq> RNodeOp (Inr op)"
    | (deletion) op t d where "tr = (GetNodeOp ns n, RNodeOp (Inr op)) # t" "exec (handleDeletion op) t d"
      "d \<noteq> Inr False" "r = (case d of Inl e \<Rightarrow> Inl e | Inr _ \<Rightarrow> Inr 0)"
    | (live) op t1 op1 t2 op2 r1 r2 where "DeletionTimestamp (opMeta op) = None"
      "tr = (GetNodeOp ns n, RNodeOp (Inr op)) # t1 @ t2" "exec (updateNodeOpStatus op) t1 (op1, r1)"
      "(\<exists>e. r1 = Inl e) \<and> t2 = [] \<or> r1 = Inr () \<and> exec (manageJobCreation asSelector rd op1) t2 (op2, r2)"
proof -
  define go where "go = (\<lambda>op. bind (updateNodeOpStatus op) (\<lambda>(op1, r). case r of Inl e \<Rightarrow> Ret (Inl e) | Inr _ \<Rightarrow>
                bind (manageJobCreation asSelector rd op1) (\<lambda>(op2, r2). case r2 of
                  Inl e \<Rightarrow> Ret (Inl e)
                | Inr _ \<Rightarrow> Ret (Inr (300 :: nat)))))"
  from assms consider e where "exec (getNodeOp ns n) tr (Inl e)"
    | t1 f t2 where "tr = t1 @ t2" "exec (getNodeOp ns n) t1 (Inr f)"
      "exec (case f of None \<Rightarrow> Ret (Inr 0) | Some op \<Rightarrow> attempt (handleDeletion op) (\<lambda>deleted.
           if deleted then Ret (Inr 0) else go op)) t2 r"
    unfolding Reconcile_def go_def exec_attempt [of "getNodeOp ns n"] by blast
  then show thesis
  proof cases
    case 1
    from 1 show thesis by (rule exec_getNodeOp) (rule unread, assumption, simp)
  next
    case 2
    from 2(2) obtain x where t1: "t1 = [(GetNodeOp ns n, x)]"
      and x: "\<And>op. Inr f = (Inr (Some op) :: node_op option res) \<longleftrightarrow> x = RNodeOp (Inr op)"
      by (rule exec_getNodeOp) (rule that)
    show thesis
    proof (cases f)
      case None
      with 2 t1 x show thesis by (intro unread [of x]) auto
    next
      case (Some op)
      with x have xop: "x = RNodeOp (Inr op)" by blast
      from 2(3) Some consider e where "exec (handleDeletion op) t2 (Inl e)" "r = Inl e"
        | t3 t4 where "t2 = t3 @ t4" "exec (handleDeletion op) t3 (Inr True)" "t4 = []" "r = Inr 0"
        | t3 t4 where "t2 = t3 @ t4" "exec (handleDeletion op) t3 (Inr False)" "exec (go op) t4 r"
        by (auto simp: exec_attempt split: if_splits)
      then show thesis
      proof cases
        case e: 1
        with 2 t1 xop show thesis by (intro deletion [of op t2 "Inl e"]) auto
      next
        case d: 2
        with 2 t1 xop show thesis by (intro deletion [of op t2 "Inr True"]) auto
      next
        case l: 3
        have alive: "DeletionTimestamp (opMeta op) = None \<and> t3 = []" using l(2) by (rule exec_handleDeletion) auto
        from l(3) obtain t5 op1 r1 t6 where t4: "t4 = t5 @ t6" and up: "exec (updateNodeOpStatus op) t5 (op1, r1)"
          and m: "exec (case r1 of Inl e \<Rightarrow> Ret (Inl e) | Inr _ \<Rightarrow>
                bind (manageJobCreation asSelector rd op1) (\<lambda>(op2, r2). case r2 of
                  Inl e \<Rightarrow> Ret (Inl e) | Inr _ \<Rightarrow> Ret (Inr (300 :: nat)))) t6 r"
          by (auto simp: go_def exec_bind [of "updateNodeOpStatus op"])
        show thesis
        proof (cases r1)
          case (Inl e)
          with m up t4 l alive 2 t1 xop show thesis by (intro live [of op t5 t6 op1 r1]) auto
        next
          case (Inr u)
          with m obtain t7 op2 r2 t8 where "t6 = t7 @ t8" "exec (manageJobCreation asSelector rd op1) t7 (op2, r2)"
            "exec (case r2 of Inl e \<Rightarrow> Ret (Inl e) | Inr _ \<Rightarrow> Ret (Inr (300 :: nat))) t8 r"
            by (auto simp: exec_bind)
          moreover from this(3) have "t8 = []" by (cases r2) auto
          ultimately show thesis using Inr up t4 l alive 2 t1 xop
            by (intro live [of op t5 t6 op1 r1 op2 r2]) auto
        qed
      qed
    qed
  qed
qed

text \<open>A reconcile of a valid NodeOp keeps to the valid ones: what it writes and what it goes on with.\<close>

lemma updateNodeOpStatus_frame:
  assumes "exec (updateNodeOpStatus op) tr (op', r)" and "validOp op"
  shows "same_op op op' \<and> validOp op' \<and> (\<forall>jb x. (CreateJob jb, x) \<notin> set tr)"
  using assms
proof (rule exec_updateNodeOpStatus)
  fix ks t op1 f c e x
  assume "tr = (RangeKeys (map fst (statuses op)), x) # t" "op' = op1" "synced ks (op, False, 0) t (op1, f, c) (Inl e)"
  then show ?thesis by (simp add: synced_def)
next
  fix x ks t op1 f c tm y
  assume sy: "synced ks (op, False, 0) t (op1, f, c) (Inr ())"
    and tr: "tr = (RangeKeys (map fst (statuses op)), x) # t @
         [(Now, tm), (UpdateNodeOpStatus (setOverall (overallPhase f c op1) (asTime tm) op1), y)]"
    and op: "same_op op1 op'" "opStatus op' = opStatus (setOverall (overallPhase f c op1) (asTime tm) op1)"
  have a: "same_op op op1" "validOp op1" "\<forall>jb x. (CreateJob jb, x) \<notin> set t" using sy by (simp_all add: synced_def)
  then have "same_op op op'" using op(1) same_op_trans by blast
  moreover have "statuses op' = statuses op1" using op(2) by simp
  then have "validOp op'" using a(2) by (simp add: validOp_def)
  ultimately show ?thesis using a(3) by (simp add: tr)
qed

lemma Reconcile_writes:
  assumes "exec (Reconcile asSelector rd ns n) ((GetNodeOp ns n, RNodeOp (Inr op)) # t) r" and "validOp op"
    and "(UpdateNodeOpStatus s, y) \<in> set t"
  shows "validOp s"
  using assms(1)
proof (rule exec_Reconcile)
  fix x
  assume "(GetNodeOp ns n, RNodeOp (Inr op)) # t = [(GetNodeOp ns n, x)]"
  then show ?thesis using assms(3) by simp
next
  fix op' t' d
  assume "(GetNodeOp ns n, RNodeOp (Inr op)) # t = (GetNodeOp ns n, RNodeOp (Inr op')) # t'" "exec (handleDeletion op') t' d"
  then show ?thesis using assms(3) by (auto elim!: exec_handleDeletion)
next
  fix op' t1 op1 t2 op2 r1 r2
  assume eq: "(GetNodeOp ns n, RNodeOp (Inr op)) # t = (GetNodeOp ns n, RNodeOp (Inr op')) # t1 @ t2"
    and up: "exec (updateNodeOpStatus op') t1 (op1, r1)"
    and m: "(\<exists>e. r1 = Inl e) \<and> t2 = [] \<or> r1 = Inr () \<and> exec (manageJobCreation asSelector rd op1) t2 (op2, r2)"
  have op: "op' = op" "t = t1 @ t2" using eq by simp_all
  have v1: "validOp op1" using updateNodeOpStatus_frame [OF up] assms(2) op by blast
  show ?thesis
  proof (cases "(UpdateNodeOpStatus s, y) \<in> set t1")
    case True
    then show ?thesis using only_exec [OF up updateNodeOpStatus_writes True] assms(2) op by simp
  next
    case False
    then have "(UpdateNodeOpStatus s, y) \<in> set t2" using assms(3) op by simp
    moreover from this m have "exec (manageJobCreation asSelector rd op1) t2 (op2, r2)" by auto
    ultimately have "writeOk (UpdateNodeOpStatus s)"
      by (intro only_exec [OF _ manageJobCreation_writes [OF v1, of asSelector rd], of t2 "(op2, r2)" _ y])
    then show ?thesis by simp
  qed
qed

text \<open>With a reboot requested, every upgrade Job of a reconcile is gated by its ready reboot Pod.\<close>

lemma Reconcile_gated:
  assumes "exec (Reconcile asSelector rd ns n) ((GetNodeOp ns n, RNodeOp (Inr op)) # t) r" and "validOp op"
  shows "gated op t"
  using assms(1)
proof (rule exec_Reconcile)
  fix x
  assume "(GetNodeOp ns n, RNodeOp (Inr op)) # t = [(GetNodeOp ns n, x)]"
  then show ?thesis by simp
next
  fix op' t' d
  assume "(GetNodeOp ns n, RNodeOp (Inr op)) # t = (GetNodeOp ns n, RNodeOp (Inr op')) # t'" "exec (handleDeletion op') t' d"
  then show ?thesis by (intro gated_quiet) (auto elim!: exec_handleDeletion)
next
  fix op' t1 op1 t2 op2 r1 r2
  assume eq: "(GetNodeOp ns n, RNodeOp (Inr op)) # t = (GetNodeOp ns n, RNodeOp (Inr op')) # t1 @ t2"
    and up: "exec (updateNodeOpStatus op') t1 (op1, r1)"
    and m: "(\<exists>e. r1 = Inl e) \<and> t2 = [] \<or> r1 = Inr () \<and> exec (manageJobCreation asSelector rd op1) t2 (op2, r2)"
  have [simp]: "op' = op" "t = t1 @ t2" using eq by simp_all
  have fr: "same_op op op1" "\<And>jb x. (CreateJob jb, x) \<notin> set t1" using updateNodeOpStatus_frame [OF up] assms(2) by auto
  have "gated op t1" using fr(2) by (intro gated_quiet) (case_tac q; auto)
  moreover have "gated op1 t2" using m manageJobCreation_frame by auto
  then have "gated op t2" using gated_same [OF fr(1)] by simp
  ultimately show ?thesis by (simp add: gated_append)
qed

section \<open>Histories of a NodeOp\<close>

text \<open>
  The NodeOps the API server can hold: created with an empty status (the status is a
  subresource, which a create ignores), edited by users without touching the status, or written
  by a reconcile that read one of them, however stale its copy.
\<close>

inductive reachable :: "selector_library \<Rightarrow> reader \<Rightarrow> node_op \<Rightarrow> bool" for asSelector rd where
  created: "statuses op = [] \<Longrightarrow> reachable asSelector rd op"
| edited: "reachable asSelector rd op \<Longrightarrow> opStatus op' = opStatus op \<Longrightarrow> reachable asSelector rd op'"
| written: "reachable asSelector rd op \<Longrightarrow>
    exec (Reconcile asSelector rd ns n) ((GetNodeOp ns n, RNodeOp (Inr op)) # t) r \<Longrightarrow>
    (UpdateNodeOpStatus s, y) \<in> set t \<Longrightarrow> reachable asSelector rd s"

lemma reachable_validOp: "reachable asSelector rd op \<Longrightarrow> validOp op"
proof (induction rule: reachable.induct)
  case (created op)
  then show ?case by (simp add: validOp_def wf_map_def)
next
  case (edited op op')
  then show ?case by (simp add: validOp_def)
next
  case (written op ns n t r s y)
  then show ?case by (blast intro: Reconcile_writes)
qed

section \<open>Properties\<close>

text \<open>
  C35. A NodeOp being deleted is only cleaned up: its reconcile creates and records nothing, it
  gives up the finalizer only after the ClusterRoleBinding was deleted or found gone, and if the
  finalizer was there, it reports success only when that update was accepted.
\<close>

theorem deleting_only_cleans_up:
  assumes "exec (Reconcile asSelector rd ns n) ((GetNodeOp ns n, RNodeOp (Inr op)) # t) r"
    and "DeletionTimestamp (opMeta op) \<noteq> None"
  defines "del \<equiv> DeleteClusterRoleBinding (''nodeop-reboot-'' @ Name (opMeta op))"
    and "upd \<equiv> UpdateNodeOp (RemoveFinalizer clusterRoleBindingFinalizer op)"
  shows "fst ` set t \<subseteq> {del, upd} \<and>
    guarded (\<lambda>g _. fst g = del \<and> (snd g = RUnit (Inr ()) \<or> (\<exists>e. asUnit (snd g) = Inl e \<and> IsNotFound e)))
      (\<lambda>e. fst e = upd) t \<and>
    (case r of Inl e \<Rightarrow> t \<noteq> []
     | Inr d \<Rightarrow> d = 0 \<and> (clusterRoleBindingFinalizer \<in> set (Finalizers (opMeta op)) \<longrightarrow> (upd, RUnit (Inr ())) \<in> set t))"
  using assms(1)
proof (rule exec_Reconcile)
  fix x
  assume "(GetNodeOp ns n, RNodeOp (Inr op)) # t = [(GetNodeOp ns n, x)]" "\<And>op. x \<noteq> RNodeOp (Inr op)"
  then show ?thesis by auto
next
  fix op' t' d
  assume eq: "(GetNodeOp ns n, RNodeOp (Inr op)) # t = (GetNodeOp ns n, RNodeOp (Inr op')) # t'"
    and hd: "exec (handleDeletion op') t' d" and r: "r = (case d of Inl e \<Rightarrow> Inl e | Inr _ \<Rightarrow> Inr 0)"
  have [simp]: "op' = op" "t' = t" using eq by simp_all
  from hd show ?thesis
  proof (rule exec_handleDeletion)
    fix x y
    assume "t' = [(DeleteClusterRoleBinding (''nodeop-reboot-'' @ Name (opMeta op')), x),
         (UpdateNodeOp (RemoveFinalizer clusterRoleBindingFinalizer op'), y)]"
      and x: "x = RUnit (Inr ()) \<or> (\<exists>e. asUnit x = Inl e \<and> IsNotFound e)"
      and d: "d \<noteq> Inr False" "d = Inr True \<longleftrightarrow> y = RUnit (Inr ())"
    then have t: "t = [(del, x)] @ (upd, y) # []" by (simp add: del_def upd_def)
    have "guarded (\<lambda>g _. fst g = del \<and> (snd g = RUnit (Inr ()) \<or> (\<exists>e. asUnit (snd g) = Inl e \<and> IsNotFound e)))
      (\<lambda>e. fst e = upd) t"
      unfolding t by (rule guarded_single) (use x in \<open>auto simp: del_def upd_def\<close>)
    moreover have "d = Inr True \<or> (\<exists>e. d = Inl e)" using d(1) by (cases d) auto
    ultimately show ?thesis using d(2) r by (auto simp: t)
  qed (use assms(2) r in \<open>auto simp: del_def upd_def intro!: guarded_none\<close>)
next
  fix op' t1 t2
  assume "(GetNodeOp ns n, RNodeOp (Inr op)) # t = (GetNodeOp ns n, RNodeOp (Inr op')) # t1 @ t2"
    "DeletionTimestamp (opMeta op') = None"
  then show ?thesis using assms(2) by simp
qed

definition deleting_op :: node_op where
  "deleting_op = sample_op\<lparr>opMeta := (opMeta sample_op)
     \<lparr>DeletionTimestamp := Some (Time 3), Finalizers := [clusterRoleBindingFinalizer]\<rparr>\<rparr>"

theorem deleting_only_cleans_up_witness:
  "fst ` set [(DeleteClusterRoleBinding ''nodeop-reboot-up'', RUnit (Inr ())),
      (UpdateNodeOp (RemoveFinalizer clusterRoleBindingFinalizer deleting_op), RUnit (Inr ()))]
    \<subseteq> {DeleteClusterRoleBinding ''nodeop-reboot-up'', UpdateNodeOp (RemoveFinalizer clusterRoleBindingFinalizer deleting_op)}"
proof -
  have "exec (Reconcile plain_selector Live ''default'' ''up'') ((GetNodeOp ''default'' ''up'', RNodeOp (Inr deleting_op)) #
      [(DeleteClusterRoleBinding ''nodeop-reboot-up'', RUnit (Inr ())),
      (UpdateNodeOp (RemoveFinalizer clusterRoleBindingFinalizer deleting_op), RUnit (Inr ()))]) (Inr 0)"
    by (simp add: exec_iff_scripted Reconcile_def getNodeOp_def handleDeletion_def client_defs ask_def attempt_def
        deleting_op_def sample_op_def sample_meta_def)
  from deleting_only_cleans_up [OF this] show ?thesis
    by (simp add: deleting_op_def sample_op_def sample_meta_def)
qed

text \<open>
  The watches find their NodeOp: for the upgrade Job, the reboot Pod and the preflight Pod
  the controller creates, the watch predicate lets the event through and the only request is for
  the NodeOp that owns the object.
\<close>

theorem watches_find_owner:
  "findNodeOpsForJob (upgradeJob op n j spec) = [\<lparr>reqName = Name (opMeta op), reqNamespace = Namespace (opMeta op)\<rparr>] \<and>
   findNodeOpsForRebootPod (rebootPodOf op n j img) = [\<lparr>reqName = Name (opMeta op), reqNamespace = Namespace (opMeta op)\<rparr>] \<and>
   findNodeOpsForPreflightPod (ownedPreflightPod op pf n img) =
     [\<lparr>reqName = Name (opMeta op), reqNamespace = Namespace (opMeta op)\<rparr>] \<and>
   watchesRebootPod (rebootPodOf op n j img) \<and> watchesPreflightPod (ownedPreflightPod op pf n img) \<and>
   \<not> watchesPreflightPod (rebootPodOf op n j img) \<and> \<not> watchesRebootPod (ownedPreflightPod op pf n img)"
  by (simp add: findNodeOpsForJob_def findNodeOpsForRebootPod_def findNodeOpsForPreflightPod_def
      watchesRebootPod_def watchesPreflightPod_def has_key_def empty_meta_def upgradeJob_def rebootPodOf_def ownedPreflightPod_def
      preflightPodOf_def SetControllerReference_def kconst)

text \<open>
  C5. The status of every NodeOp the API server can hold, after any history of edits and
  reconciles, records each node once, in one of five phases, and no node is Running without a Job
  name. Four of the phases are those the API's comment lists; Preflight, of a node whose preflight
  Pod runs, is not in that list.
\<close>

theorem reachable_status_valid:
  assumes "reachable asSelector rd op"
  shows "distinct (map fst (statuses op)) \<and>
    (\<forall>n st. (n, st) \<in> set (statuses op) \<longrightarrow>
       nsPhase st \<in> {phasePreflight, phasePending, phaseRunning, phaseCompleted, phaseFailed} \<and>
       (nsPhase st = phaseRunning \<longrightarrow> nsJobName st \<noteq> []))"
proof -
  have v: "validOp op" using assms by (rule reachable_validOp)
  then have d: "distinct (map fst (statuses op))" by (simp add: validOp_def wf_map_def)
  moreover have "validStatus st" if "(n, st) \<in> set (statuses op)" for n st
    using v that d by (auto simp: validOp_def)
  ultimately show ?thesis by (auto simp: validStatus_def)
qed

text \<open>A reconcile that starts a preflight check on one node, for the witness.\<close>

definition checked_op :: node_op where
  "checked_op = sample_op\<lparr>opSpec := sample_spec\<lparr>opPreflight := Some
     \<lparr>pfCommand = [''check''], pfImage = [], pfActiveDeadlineSeconds = None\<rparr>\<rparr>\<rparr>"

definition checked_answers :: "node_resp list" where
  "checked_answers = [RNodeOp (Inr checked_op), RKeys [], RTime (Time 1), RVersion (Inr ''2''),
     RNodes (Inr [node_named ''n1'']), RPods (Inr [skipping_pod]), RTime (Time 2), RVersion (Inr ''3'')]"

lemma checked_run:
  "\<exists>tr. run scripted (Reconcile plain_selector Live ''system'' ''up'') checked_answers = (Inr 300, tr, []) \<and>
     hd tr = (GetNodeOp ''system'' ''up'', RNodeOp (Inr checked_op)) \<and> length tr = 8 \<and>
     (\<exists>s. fst (tr ! 7) = UpdateNodeOpStatus s \<and> statuses s = [(''n1'', preflightStarted (Time 2))])"
  by (simp add: Reconcile_def getNodeOp_def handleDeletion_def client_defs ask_def attempt_def attemptS_def
      checked_answers_def checked_op_def sample_op_def sample_meta_def sample_spec_def updateNodeOpStatus_def
      setOverall_def overallPhase_def asKeys_def manageJobCreation_def getTargetNodes_def mastersFirst_def
      node_named_facts hasFailedJobs_def advanceNode_def startFresh_def startNode_def startPreflight_def
      findPreflightPod_def maxConcurrency_def countRunningJobs_def freshNodes_def has_key_def put_def empty_meta_def Let_def)

theorem reachable_status_valid_witness:
  "\<exists>s st. reachable plain_selector Live s \<and> statuses s = [(''n1'', st)] \<and>
     nsPhase st \<in> {phasePreflight, phasePending, phaseRunning, phaseCompleted, phaseFailed}"
proof -
  from checked_run obtain tr s where r: "run scripted (Reconcile plain_selector Live ''system'' ''up'') checked_answers = (Inr 300, tr, [])"
    and hd: "hd tr = (GetNodeOp ''system'' ''up'', RNodeOp (Inr checked_op))" and len: "length tr = 8"
    and s: "fst (tr ! 7) = UpdateNodeOpStatus s" "statuses s = [(''n1'', preflightStarted (Time 2))]" by blast
  obtain t where tr: "tr = (GetNodeOp ''system'' ''up'', RNodeOp (Inr checked_op)) # t" using hd len by (cases tr) auto
  have "(UpdateNodeOpStatus s, snd (tr ! 7)) \<in> set t"
    using len s(1) nth_mem [of 6 t] by (cases "t ! 6") (auto simp: tr)
  moreover have "reachable plain_selector Live checked_op"
    by (rule reachable.created) (simp add: checked_op_def sample_op_def)
  moreover have "exec (Reconcile plain_selector Live ''system'' ''up'') ((GetNodeOp ''system'' ''up'', RNodeOp (Inr checked_op)) # t) (Inr 300)"
    using run_exec [OF r] by (simp add: tr)
  ultimately have re: "reachable plain_selector Live s" by (blast intro: reachable.written)
  with s(2) reachable_status_valid [OF re] show ?thesis by auto
qed

text \<open>
  C1. In every history of a NodeOp that reboots its nodes, a reconcile creates an upgrade Job
  only after it saw, in the same pass, a ready reboot Pod of that Job's node that names that Job:
  no node is upgraded without the Pod that will reboot it.
\<close>

theorem reconcile_reboot_gate:
  assumes "reachable asSelector rd op" and "rebootRequested op"
    and "exec (Reconcile asSelector rd ns n) ((GetNodeOp ns n, RNodeOp (Inr op)) # pre @ (CreateJob jb, x) # post) r"
  shows "\<exists>g \<in> set pre. rebootPodSeen (Namespace (opMeta op))
    (rebootSelector op (NodeName (templateSpec (jobSpec jb)))) (Name (jobMeta jb)) g"
proof -
  have "gated op (pre @ (CreateJob jb, x) # post)" using Reconcile_gated [OF assms(3)] assms(1) reachable_validOp by blast
  then show ?thesis using assms(2) by (auto simp: gated_def rebootGate_def dest!: guardedD)
qed

text \<open>A reconcile that finds a ready reboot Pod and creates the upgrade Job, for the witness.\<close>

definition upgrading_answers :: "node_resp list" where
  "upgrading_answers = [RNodeOp (Inr sample_op), RKeys [], RTime (Time 1), RVersion (Inr ''2''),
     RNodes (Inr [node_named ''n1'']), RPods (Inr [ready_pod]), RJob (Inl (ApiError NotFound [])),
     RNode (Inr sample_node), RUnit (Inr ()), RString [], RUnit (Inr ()), RTime (Time 2), RVersion (Inr ''3'')]"

lemma sample_op_facts:
  "opSpec sample_op = sample_spec" "statuses sample_op = []" "DeletionTimestamp (opMeta sample_op) = None"
  by (simp_all add: sample_op_def sample_meta_def empty_meta_def)

lemma upgrading_run:
  "\<exists>tr jb. run scripted (Reconcile plain_selector Live ''system'' ''up'') upgrading_answers = (Inr 300, tr, []) \<and>
     hd tr = (GetNodeOp ''system'' ''up'', RNodeOp (Inr sample_op)) \<and> length tr = 13 \<and> fst (tr ! 10) = CreateJob jb"
  by (simp add: Reconcile_def getNodeOp_def handleDeletion_def client_defs ask_def attempt_def attemptS_def
      upgrading_answers_def sample_op_facts sample_spec_def updateNodeOpStatus_def
      setOverall_def overallPhase_def asKeys_def manageJobCreation_def getTargetNodes_def mastersFirst_def
      node_named_facts hasFailedJobs_def advanceNode_def startFresh_def startNode_def startMainJob_def obtainRebootPod_def
      keepOneRebootPod_def listRebootPods_def ready_pod_facts deleteRebootPods_def createNodeJob_def prepareNode_def
      cordonNode_def free_node createRebootJobSpec_def getNodeOpImage_def bootIDReporterImage_def recordNodeJob_def
      IsNotFound_def maxConcurrency_def countRunningJobs_def freshNodes_def has_key_def put_def Let_def)

theorem reconcile_reboot_gate_witness:
  "\<exists>g (jb :: job). rebootPodSeen ''system'' (rebootSelector sample_op (NodeName (templateSpec (jobSpec jb)))) (Name (jobMeta jb)) g"
proof -
  from upgrading_run obtain tr jb where r: "run scripted (Reconcile plain_selector Live ''system'' ''up'') upgrading_answers = (Inr 300, tr, [])"
    and hd: "hd tr = (GetNodeOp ''system'' ''up'', RNodeOp (Inr sample_op))" and len: "length tr = 13"
    and jb: "fst (tr ! 10) = CreateJob jb" by blast
  obtain t where tr: "tr = (GetNodeOp ''system'' ''up'', RNodeOp (Inr sample_op)) # t" using hd len by (cases tr) auto
  have "t ! 9 = (CreateJob jb, snd (t ! 9))" using jb by (simp add: tr prod_eq_iff)
  then have t: "t = take 9 t @ (CreateJob jb, snd (t ! 9)) # drop 10 t"
    using id_take_nth_drop [of 9 t] len by (simp add: tr)
  have "exec (Reconcile plain_selector Live ''system'' ''up'')
      ((GetNodeOp ''system'' ''up'', RNodeOp (Inr sample_op)) # take 9 t @ (CreateJob jb, snd (t ! 9)) # drop 10 t) (Inr 300)"
    using run_exec [OF r] t by (simp add: tr)
  moreover have "reachable plain_selector Live sample_op" by (rule reachable.created) (simp add: sample_op_facts)
  moreover have "rebootRequested sample_op" by (simp add: sample_op_facts sample_spec_def)
  ultimately obtain g where "rebootPodSeen (Namespace (opMeta sample_op))
      (rebootSelector sample_op (NodeName (templateSpec (jobSpec jb)))) (Name (jobMeta jb)) g"
    using reconcile_reboot_gate [of plain_selector Live sample_op "''system''" "''up''" "take 9 t" jb "snd (t ! 9)" "drop 10 t" "Inr 300"]
    by blast
  moreover have "Namespace (opMeta sample_op) = ''system''" by (simp add: sample_op_def sample_meta_def)
  ultimately have "rebootPodSeen ''system'' (rebootSelector sample_op (NodeName (templateSpec (jobSpec jb)))) (Name (jobMeta jb)) g"
    by (simp only:)
  then show ?thesis by blast
qed

end
