(* ===== verification/NodeOpProgress.thy ===== *)
theory NodeOpProgress
  imports NodeOpCtl Progress
begin

text \<open>
  Upgrades start and get done. In a cluster that accepts what it is asked for, a node whose reboot
  Pod is ready gets its upgrade Job; in one whose upgrade Jobs are Complete and whose nodes have
  rebooted, a reconcile settles every node, lifts its cordons and saves the phase Completed.
\<close>

section \<open>A cluster that is done\<close>

text \<open>
  Every upgrade Job is Complete, the Pods and the nodes are those of \<open>pods\<close> (by label selector) and
  \<open>nd\<close>, and writes succeed.
\<close>

fun finishedCluster :: "(strmap \<Rightarrow> pod list) \<Rightarrow> (string \<Rightarrow> node) \<Rightarrow> node_req \<Rightarrow> node_resp \<Rightarrow> bool" where
  "finishedCluster pods nd (GetJob rd namespace j) u \<longleftrightarrow>
     (\<exists>jb. u = RJob (Inr jb) \<and> jobVerdict (jobConditions (jobStatus jb)) = Some True)"
| "finishedCluster pods nd (ListPods rd namespace sel) u \<longleftrightarrow> u = RPods (Inr (pods sel))"
| "finishedCluster pods nd (GetNode n) u \<longleftrightarrow> u = RNode (Inr (nd n))"
| "finishedCluster pods nd (UpdateNode w) u \<longleftrightarrow> u = RUnit (Inr ())"
| "finishedCluster pods nd (UpdateNodeOpStatus w) u \<longleftrightarrow> (\<exists>v. u = RVersion (Inr v))"
| "finishedCluster pods nd _ u \<longleftrightarrow> True"

lemma some_complete_job: "\<exists>jb :: job. jobVerdict (jobConditions (jobStatus jb)) = Some True"
  by (rule exI [of _ "sample_job\<lparr>jobStatus := empty_job_status\<lparr>jobConditions :=
    [\<lparr>condType = JobComplete, condStatus = ConditionTrue, condReason = [], condMessage = []\<rparr>]\<rparr>\<rparr>"])
    (simp add: JobFailed_def JobFailureTarget_def JobComplete_def)

interpretation finished: reliable "finishedCluster pods nd" for pods nd
proof
  show "\<exists>u. finishedCluster pods nd q u" for q
    using some_complete_job by (cases q) auto
qed

text \<open>A node that has come back from the reboot its upgrade asked for.\<close>

definition hasRebooted :: "(strmap \<Rightarrow> pod list) \<Rightarrow> (string \<Rightarrow> node) \<Rightarrow> string \<Rightarrow> node_status \<Rightarrow> bool" where
  "hasRebooted pods nd n st \<longleftrightarrow> isNodeReady (nd n) \<and> BootID (nd n) \<noteq> [] \<and>
     (if nsPreRebootBootID st = []
      then Valid (FromJobPods (pods [(JobNameLabel, nsJobName st)])) \<and> BootID (nd n) \<noteq> FromJobPods (pods [(JobNameLabel, nsJobName st)])
      else BootID (nd n) \<noteq> nsPreRebootBootID st)"

definition finishing :: "(strmap \<Rightarrow> pod list) \<Rightarrow> (string \<Rightarrow> node) \<Rightarrow> node_op \<Rightarrow> string \<Rightarrow> node_status \<Rightarrow> bool" where
  "finishing pods nd op n st \<longleftrightarrow> nsJobName st \<noteq> [] \<and> nsPhase st \<in> {phasePending, phaseRunning, phaseCompleted} \<and>
     (if rebootRequested op
      then nsRebootStatus st = rebootStatusCompleted \<or> nsRebootStatus st = rebootStatusPending \<and> hasRebooted pods nd n st
      else nsRebootStatus st = rebootStatusNotRequested)"

text \<open>The cordon of this NodeOp on a node was lifted.\<close>

definition cordonLifted :: "node_op \<Rightarrow> node \<Rightarrow> trace \<Rightarrow> bool" where
  "cordonLifted op nd t \<longleftrightarrow>
     (cordonRequested op \<longrightarrow> Unschedulable nd \<longrightarrow> map_of (Annotations (nodeMeta nd)) cordonedByAnnotation = Some (nodeOpOwnerRef op) \<longrightarrow>
      (UpdateNode (setAnnotations (AList.delete cordonedByAnnotation (Annotations (nodeMeta nd))) (nd\<lparr>Unschedulable := False\<rparr>)),
       RUnit (Inr ())) \<in> set t)"

lemma cordonLifted_mono: "cordonLifted op nd s \<Longrightarrow> set s \<subseteq> set t \<Longrightarrow> cordonLifted op nd t"
  unfolding cordonLifted_def by blast

lemma cordonLifted_same: "same_op op op' \<Longrightarrow> cordonLifted op' nd t = cordonLifted op nd t"
  by (simp add: cordonLifted_def same_op_def nodeOpOwnerRef_def)

section \<open>One node\<close>

lemma always_ask: "(\<And>u. ok q u \<Longrightarrow> Q [(q, u)] (dec u)) \<Longrightarrow> always ok (ask q dec) Q"
  by (simp add: ask_def always_Call)

lemma always_ask_bind: "(\<And>u. ok q u \<Longrightarrow> always ok (f (dec u)) (\<lambda>t. Q ((q, u) # t))) \<Longrightarrow> always ok (bind (ask q dec) f) Q"
  by (simp add: ask_def always_Call)

lemma always_uncordon: "always (finishedCluster pods nd) (uncordonNode op n) (\<lambda>t r. r = Inr () \<and> (cordonRequested op \<longrightarrow> cordonLifted op (nd n) t))"
  unfolding uncordonNode_def getNode_def updateNode_def attempt_def Let_def
  by (rule always_ask_bind) (auto simp: cordonLifted_def intro!: always_ask split: option.splits)

lemma always_processJob:
  "always (finishedCluster pods nd) (processJobStatus op st) (\<lambda>t x. snd x = Inr () \<and> nsPhase (fst x) = phaseCompleted \<and> jobStep st (fst x))"
  unfolding processJobStatus_def getJob_def now_def
  by (rule always_ask_bind) (auto simp: jobOutcome_step intro!: always_ask_bind)

lemma always_rebootedSince:
  assumes "b \<noteq> []" and "isNodeReady (nd n)" and "BootID (nd n) \<noteq> []" and "BootID (nd n) \<noteq> b"
  shows "always (finishedCluster pods nd) (nodeRebootedSince n b) (\<lambda>t r. r = Inr True)"
  using assms unfolding nodeRebootedSince_def getNode_def by (auto intro!: always_ask_bind)

lemma always_rebootCompleted:
  assumes "hasRebooted pods nd n st" and job: "nsJobName st \<noteq> []"
  shows "always (finishedCluster pods nd) (isRebootCompleted op n st) (\<lambda>t x. snd x = Inr True \<and> nsPhase (fst x) = nsPhase st)"
proof (cases "nsPreRebootBootID st = []")
  case False
  with assms show ?thesis
    unfolding isRebootCompleted_def
    by (auto simp: hasRebooted_def intro!: always_bind [OF always_rebootedSince])
next
  case True
  let ?b = "FromJobPods (pods [(JobNameLabel, nsJobName st)])"
  from assms True have b: "Valid ?b" "?b \<noteq> []" "isNodeReady (nd n)" "BootID (nd n) \<noteq> []" "BootID (nd n) \<noteq> ?b"
    by (auto simp: hasRebooted_def)
  from job have "always (finishedCluster pods nd) (jobPodBootID (Namespace (opMeta op)) (nsJobName st)) (\<lambda>t r. r = Inr ?b)"
    unfolding jobPodBootID_def listPods_def attempt_def by (auto intro!: always_ask_bind)
  moreover have "always (finishedCluster pods nd) (bind now (\<lambda>t. let st' = st\<lparr>nsPreRebootBootID := ?b, nsLastUpdated := t\<rparr>
      in bind (nodeRebootedSince n ?b) (\<lambda>b. Ret (st', b)))) (\<lambda>t x. snd x = Inr True \<and> nsPhase (fst x) = nsPhase st)"
    unfolding now_def Let_def
    by (rule always_ask_bind) (rule always_bind [OF always_rebootedSince [of ?b nd n, OF b(2-5)]], simp)
  ultimately show ?thesis
    unfolding isRebootCompleted_def using True b(1) by (simp only: simp_thms if_True) (erule always_bind, simp)
qed

lemma always_reboot:
  assumes "finishing pods nd op n st" and "nsPhase st = phaseCompleted"
  shows "always (finishedCluster pods nd) (processRebootStatus op n st) (\<lambda>t x. snd x = Inr () \<and> nodeDone op (fst x))"
proof (cases "rebootRequested op \<and> nsRebootStatus st = rebootStatusPending")
  case True
  with assms(1) have "hasRebooted pods nd n st" "nsJobName st \<noteq> []" by (auto simp: finishing_def kconst)
  from always_rebootCompleted [OF this, of op] True assms(2) show ?thesis
    unfolding processRebootStatus_def now_def
    by (auto simp: kconst nodeDone_def intro!: always_bind always_ask_bind)
next
  case False
  with assms show ?thesis
    by (auto simp: processRebootStatus_def finishing_def nodeDone_def kconst)
qed

lemma always_settle:
  assumes "nodeDone op st"
  shows "always (finishedCluster pods nd) (settleNode n st (op, f, c))
    (\<lambda>t x. snd x = Inr () \<and> fst x = (setStatus n st op, f, Suc c) \<and> cordonLifted op (nd n) t)"
proof -
  let ?ok = "finishedCluster pods nd"
  from assms have ph: "nsPhase st = phaseCompleted" "nsPhase st \<noteq> phaseFailed" by (auto simp: nodeDone_def kconst)
  have same: "cordonLifted (setStatus n st op) (nd n) t = cordonLifted op (nd n) t" for t
    by (rule cordonLifted_same) simp
  have "always ?ok (uncordonWhenDone (setStatus n st op) n st) (\<lambda>t r. r = Inr () \<and> cordonLifted op (nd n) t)"
  proof (cases "cordonRequested op")
    case True
    then have "uncordonWhenDone (setStatus n st op) n st = uncordonNode (setStatus n st op) n"
      using assms by (simp add: uncordonWhenDone_def nodeDone_def)
    then show ?thesis
      by (simp only:) (rule always_mono [OF always_uncordon], simp add: same True)
  next
    case False
    then show ?thesis by (simp add: uncordonWhenDone_def cordonLifted_def)
  qed
  then show ?thesis
    unfolding settleNode_def Let_def prod.case by (rule always_bind) (simp add: ph(2) assms [unfolded nodeDone_def] nodeDone_def)
qed

text \<open>One iteration of the status loop.\<close>

lemma jobStep_finishing: "jobStep st st' \<Longrightarrow> nsPhase st' = phaseCompleted \<Longrightarrow> finishing pods nd op n st \<Longrightarrow> finishing pods nd op n st'"
  by (auto simp: jobStep_def finishing_def hasRebooted_def)

lemma always_sync:
  assumes "map_of (statuses op) n = Some st" and "finishing pods nd op n st"
  shows "always (finishedCluster pods nd) (syncNode n (op, f, c))
    (\<lambda>t x. snd x = Inr () \<and> (\<exists>st'. fst x = (setStatus n st' op, f, Suc c) \<and> nodeDone op st') \<and> cordonLifted op (nd n) t)"
proof -
  let ?ok = "finishedCluster pods nd"
  let ?Q = "\<lambda>t x. snd x = Inr () \<and> (\<exists>st'. fst x = (setStatus n st' op, f, Suc c) \<and> nodeDone op st') \<and> cordonLifted op (nd n) t"
  have to_job: "syncNode n (op, f, c) = syncJobNode n st (op, f, c)"
    using assms by (auto simp: syncNode_def finishing_def awaitingRebootPod_def kconst)
  have settle: "always ?ok (settleNode n st2 (op, f, c)) (\<lambda>t2. ?Q (t @ t2))" if "nodeDone op st2" for st2 t
    by (rule always_mono [OF always_settle [OF that]]) (use that in \<open>auto elim: cordonLifted_mono\<close>)
  have reboot: "always ?ok (bind (processRebootStatus op n st1) (\<lambda>(st2, r2). case r2 of
         Inl e \<Rightarrow> Ret ((op, f, c), Inl e) | Inr _ \<Rightarrow> settleNode n st2 (op, f, c))) (\<lambda>t2. ?Q (t @ t2))"
    if "jobStep st st1" "nsPhase st1 = phaseCompleted" for st1 t
    by (rule always_bind [OF always_reboot [OF jobStep_finishing [OF that assms(2)] that(2)]])
      (use settle [of _ "t @ t2" for t2] in \<open>auto simp: case_prod_beta\<close>)
  show ?thesis
    unfolding to_job syncJobNode_def prod.case
    by (rule always_bind [OF always_processJob]) (use reboot in \<open>auto simp: case_prod_beta\<close>)
qed

section \<open>All nodes\<close>

text \<open>The status loop after the nodes \<open>D\<close>: they are done, the others are as they were.\<close>

definition loopDone :: "(string \<Rightarrow> node) \<Rightarrow> node_op \<Rightarrow> string set \<Rightarrow> trace \<Rightarrow> sync_state \<Rightarrow> bool" where
  "loopDone nd op D t s \<longleftrightarrow> (case s of (op1, f, c) \<Rightarrow>
     same_op op op1 \<and> map fst (statuses op1) = map fst (statuses op) \<and> \<not> f \<and> finite D \<and> c = card D \<and>
     (\<forall>n \<in> D. (\<exists>st. map_of (statuses op1) n = Some st \<and> nodeDone op st) \<and> cordonLifted op (nd n) t) \<and>
     (\<forall>n. n \<notin> D \<longrightarrow> map_of (statuses op1) n = map_of (statuses op) n))"

lemma same_op_done: "same_op op op1 \<Longrightarrow> nodeDone op1 = nodeDone op" "same_op op op1 \<Longrightarrow> finishing pods nd op1 = finishing pods nd op"
  by (auto simp: same_op_def nodeDone_def finishing_def fun_eq_iff)

lemma loopDone_step:
  assumes "loopDone nd op D t s" and "n \<notin> D" and "map_of (statuses op) n = Some st" and "finishing pods nd op n st"
  shows "always (finishedCluster pods nd) (syncNode n s)
    (\<lambda>t' y. snd y = Inr () \<and> loopDone nd op (insert n D) (t @ t') (fst y))"
proof -
  obtain op1 f c where s: "s = (op1, f, c)" by (cases s)
  from assms(1) have inv: "same_op op op1" "map fst (statuses op1) = map fst (statuses op)" "\<not> f" "finite D" "c = card D"
    "\<forall>n \<in> D. (\<exists>st. map_of (statuses op1) n = Some st \<and> nodeDone op st) \<and> cordonLifted op (nd n) t"
    "\<forall>n. n \<notin> D \<longrightarrow> map_of (statuses op1) n = map_of (statuses op) n"
    by (simp_all add: loopDone_def s)
  have st1: "map_of (statuses op1) n = Some st" "finishing pods nd op1 n st"
    using inv assms(2-4) same_op_done(2) [OF inv(1)] by simp_all
  show ?thesis
    unfolding s
  proof (rule always_mono [OF always_sync [OF st1]])
    fix t' :: trace and y :: "sync_state \<times> unit res"
    assume y: "snd y = Inr () \<and> (\<exists>st'. fst y = (setStatus n st' op1, f, Suc c) \<and> nodeDone op1 st') \<and> cordonLifted op1 (nd n) t'"
    then obtain st' where fy: "fst y = (setStatus n st' op1, f, Suc c)" and st': "nodeDone op st'"
      using same_op_done(1) [OF inv(1)] by auto
    have "cordonLifted op (nd n) (t @ t')"
      using y cordonLifted_same [OF inv(1)] cordonLifted_mono [of op "nd n" t' "t @ t'"] by simp
    moreover have "cordonLifted op (nd m) (t @ t')" if "m \<in> D" for m
      using inv(6) that cordonLifted_mono [of op "nd m" t "t @ t'"] by simp
    ultimately have "loopDone nd op (insert n D) (t @ t') (fst y)"
      unfolding fy loopDone_def using inv assms(2) st' put_old_length [OF st1(1)] by (auto simp: card_insert_if)
    then show "snd y = Inr () \<and> loopDone nd op (insert n D) (t @ t') (fst y)" using y by blast
  qed
qed

text \<open>What the saved status says.\<close>

definition savedCompleted :: "(string \<Rightarrow> node) \<Rightarrow> node_op \<Rightarrow> trace \<Rightarrow> bool" where
  "savedCompleted nd op t \<longleftrightarrow>
     (\<exists>w v. (UpdateNodeOpStatus w, RVersion (Inr v)) \<in> set t \<and> same_op op w \<and> stPhase (opStatus w) = phaseCompleted \<and>
        map fst (statuses w) = map fst (statuses op) \<and> (\<forall>n st. map_of (statuses w) n = Some st \<longrightarrow> nodeDone op st)) \<and>
     (\<forall>n \<in> fst ` set (statuses op). cordonLifted op (nd n) t)"

lemma savedCompleted_mono:
  assumes "savedCompleted nd op s" and "set s \<subseteq> set t"
  shows "savedCompleted nd op t"
  unfolding savedCompleted_def
proof (rule conjI, goal_cases)
  case 1
  from assms(1) show ?case
    unfolding savedCompleted_def by (elim conjE exE) (intro exI conjI, erule subsetD [OF assms(2)], assumption+)
next
  case 2
  from assms(1) have "\<forall>n \<in> fst ` set (statuses op). cordonLifted op (nd n) s"
    unfolding savedCompleted_def by (rule conjunct2)
  then show ?case using cordonLifted_mono [OF _ assms(2)] by simp
qed

lemma always_updateStatus:
  assumes "wf_map (statuses op)" and "statuses op \<noteq> []"
    and "\<And>n st. map_of (statuses op) n = Some st \<Longrightarrow> finishing pods nd op n st"
  shows "always (finishedCluster pods nd) (updateNodeOpStatus op) (\<lambda>t x. snd x = Inr () \<and> savedCompleted nd op t)"
proof -
  let ?ok = "finishedCluster pods nd" and ?names = "map fst (statuses op)"
  have save: "always ?ok (bind now (\<lambda>tm. statusUpdate (setOverall (overallPhase f c op1) tm op1)))
      (\<lambda>t2 x. snd x = Inr () \<and> savedCompleted nd op ((q, u) # t @ t2))"
    if inv: "loopDone nd op (set ?names) t (op1, f, c)" for t op1 f c q u
  proof -
    from inv have keys: "map fst (statuses op1) = map fst (statuses op)" by (simp add: loopDone_def)
    then have "length (statuses op1) = length (statuses op)" by (metis length_map)
    moreover have "card (set ?names) = length (statuses op)"
      using assms(1) distinct_card [of ?names] by (simp add: wf_map_def)
    ultimately have ph: "overallPhase f c op1 = phaseCompleted"
      using inv assms(2) by (auto simp: overallPhase_def loopDone_def)
    have fin: "nodeDone op st" if "map_of (statuses op1) n = Some st" for n st
    proof -
      have "n \<in> fst ` set (statuses op1)" using that by (force dest: map_of_SomeD)
      then have "n \<in> set ?names" by (simp flip: keys)
      then have "\<exists>st. map_of (statuses op1) n = Some st \<and> nodeDone op st" using inv unfolding loopDone_def by blast
      then show ?thesis using that by simp
    qed
    have lifted: "cordonLifted op (nd n) ((q, u) # t @ t2)" if "n \<in> fst ` set (statuses op)" for n t2
      using inv that cordonLifted_mono [of op "nd n" t "(q, u) # t @ t2"] by (auto simp: loopDone_def)
    have "savedCompleted nd op ((q, u) # t @ (Now, tm) # [(UpdateNodeOpStatus (setOverall phaseCompleted (asTime tm) op1), RVersion (Inr v))])"
      for tm v
      unfolding savedCompleted_def
      using inv fin lifted [of _ "(Now, tm) # [(UpdateNodeOpStatus (setOverall phaseCompleted (asTime tm) op1), RVersion (Inr v))]"]
      by (intro conjI exI [of _ "setOverall phaseCompleted (asTime tm) op1"] exI [of _ v]) (auto simp: loopDone_def)
    then show ?thesis
      unfolding now_def statusUpdate_def ph by (auto intro!: always_ask_bind always_ask)
  qed
  have loop: "always ?ok (forEachS syncNode ks (op, False, 0)) (\<lambda>t y. snd y = Inr () \<and> loopDone nd op (set ?names) t (fst y))"
    if ks: "distinct ks" "set ks = set ?names" for ks
  proof -
    have "always ?ok (forEachS syncNode ks (op, False, 0)) (\<lambda>t y. snd y = Inr () \<and> loopDone nd op ({} \<union> set ks) ([] @ t) (fst y))"
    proof (rule always_forEachS [OF _ ks(1)])
      fix n s t D
      assume "n \<in> set ks" "n \<notin> D" "loopDone nd op D t s"
      moreover from this(1) ks(2) obtain st where "map_of (statuses op) n = Some st"
        by (metis list.set_map map_of_eq_None_iff not_None_eq)
      ultimately show "always ?ok (syncNode n s) (\<lambda>t' y. snd y = Inr () \<and> loopDone nd op (insert n D) (t @ t') (fst y))"
        using assms(3) loopDone_step by blast
    qed (auto simp: loopDone_def)
    then show ?thesis by (simp add: ks(2))
  qed
  have dk: "distinct (asKeys ?names u)" for u using assms(1) by (intro asKeys_distinct) (simp add: wf_map_def)
  show ?thesis
    unfolding updateNodeOpStatus_def rangeKeys_def
  proof (rule always_ask_bind)
    fix u
    show "always ?ok (bind (forEachS syncNode (asKeys ?names u) (op, False, 0)) (\<lambda>((op1, anyFailed, completed), r). case r of
       Inl e \<Rightarrow> Ret (op1, Inl e)
     | Inr _ \<Rightarrow> bind now (\<lambda>t. statusUpdate (setOverall (overallPhase anyFailed completed op1) t op1))))
       (\<lambda>t x. snd x = Inr () \<and> savedCompleted nd op ((RangeKeys ?names, u) # t))"
      by (rule always_bind [OF loop [OF dk asKeys_set]]) (auto simp: case_prod_beta save)
  qed
qed

section \<open>An upgrade starts\<close>

text \<open>
  A cluster that accepts everything and has no upgrade Job yet: the Pods listed by a selector are
  those of \<open>pods\<close>, in the order of \<open>pods\<close>.
\<close>

fun acceptingCluster :: "(strmap \<Rightarrow> pod list) \<Rightarrow> node_req \<Rightarrow> node_resp \<Rightarrow> bool" where
  "acceptingCluster pods (ListPods rd namespace sel) u \<longleftrightarrow> u = RPods (Inr (pods sel))"
| "acceptingCluster pods (GetJob rd namespace j) u \<longleftrightarrow> u = RJob (Inl (ApiError NotFound ''job''))"
| "acceptingCluster pods (GetNode n) u \<longleftrightarrow> (\<exists>nd. u = RNode (Inr nd))"
| "acceptingCluster pods (UpdateNode nd) u \<longleftrightarrow> u = RUnit (Inr ())"
| "acceptingCluster pods (DeletePod ns n g) u \<longleftrightarrow> u = RUnit (Inr ())"
| "acceptingCluster pods (CreateJob jb) u \<longleftrightarrow> u = RUnit (Inr ())"
| "acceptingCluster pods (UpdateNodeOpStatus w) u \<longleftrightarrow> (\<exists>v. u = RVersion (Inr v))"
| "acceptingCluster pods _ u \<longleftrightarrow> True"

interpretation accepting: reliable "acceptingCluster pods" for pods
proof
  show "\<exists>u. acceptingCluster pods q u" for q by (cases q) auto
qed

lemma always_deletePods: "always (acceptingCluster pods) (deleteRebootPods ps) (\<lambda>t r. r = Inr ())"
  unfolding deleteRebootPods_loop deleteOne_def deletePod_def
  by (rule always_forEach) (auto intro!: always_ask_bind)

lemma always_keepOne:
  assumes "sort_key podKey (livePods (pods (rebootSelector op n))) = p # others"
  shows "always (acceptingCluster pods) (keepOneRebootPod rd op n) (\<lambda>t r. r = Inr (Some p))"
proof -
  note oldest = assms [unfolded podKey_def [abs_def]]
  show ?thesis
    unfolding keepOneRebootPod_def listRebootPods_def listPods_def
  proof (rule always_attempt [where P = "\<lambda>t ps. ps = pods (rebootSelector op n)"])
    show "always (acceptingCluster pods) (ask (ListPods rd (Some (Namespace (opMeta op))) (rebootSelector op n)) asPods)
        (\<lambda>t x. \<exists>y. x = Inr y \<and> y = pods (rebootSelector op n))"
      by (rule always_ask) simp
    fix t ps
    assume ps: "ps = pods (rebootSelector op n)"
    show "always (acceptingCluster pods) (attempt (deleteRebootPods (finishedPods ps)) (\<lambda>_.
       case sort_key (\<lambda>p. (CreationTimestamp (podMeta p), Name (podMeta p))) (livePods ps) of
         [] \<Rightarrow> Ret (Inr None)
       | oldest # others \<Rightarrow> attempt (deleteRebootPods others) (\<lambda>_. Ret (Inr (Some oldest))))) (\<lambda>t2 r. r = Inr (Some p))"
      unfolding ps oldest list.case
      by (intro always_attempt [where P = "\<lambda>t y. True"] always_mono [OF always_deletePods]) auto
  qed
qed

lemma always_drain: "always (acceptingCluster pods) (drainNode n opts) (\<lambda>t r. r = Inr ())"
  unfolding drainNode_def getenv_def listPods_def deletePod_def
  by (intro always_ask_bind always_attempt [where P = "\<lambda>t y. True"] always_ask always_forEach) (auto intro!: always_ask)

lemma always_prepare: "always (acceptingCluster pods) (prepareNode op n) (\<lambda>t r. r = Inr ())"
proof -
  have cordon: "always (acceptingCluster pods) (cordonNode op n) (\<lambda>t r. \<exists>y. r = Inr y \<and> True)"
    unfolding cordonNode_def getNode_def updateNode_def
    by (rule always_attempt [where P = "\<lambda>t y. True"]) (auto intro!: always_ask)
  show ?thesis
    unfolding prepareNode_def
    by (auto intro!: always_attempt [OF cordon] always_bind [OF always_drain] split: option.splits)
qed

lemma always_jobSpec:
  "always (acceptingCluster pods) (if rebootRequested op then createRebootJobSpec op n b else createStandardJobSpec op n b)
     (\<lambda>t spec. NodeName (templateSpec spec) = n)"
  unfolding createRebootJobSpec_def createStandardJobSpec_def
  by (auto intro!: always_bind [where P = "\<lambda>t y. True"] simp: jobSpecOf_def)

text \<open>The upgrade Job of a node is created, under its name, and recorded.\<close>

definition jobStarted :: "node_op \<Rightarrow> string \<Rightarrow> string \<Rightarrow> trace \<Rightarrow> node_op \<Rightarrow> bool" where
  "jobStarted op n jobName t op' \<longleftrightarrow>
     (\<exists>jb. (CreateJob jb, RUnit (Inr ())) \<in> set t \<and> Name (jobMeta jb) = jobName \<and> NodeName (templateSpec (jobSpec jb)) = n) \<and>
     (\<exists>tm. map_of (statuses op') n = Some (jobCreated op jobName tm))"

lemma jobStarted_append: "jobStarted op n j t op' \<Longrightarrow> jobStarted op n j (s @ t) op'"
  unfolding jobStarted_def by auto

lemma always_record: "always (acceptingCluster pods) (recordNodeJob op n j)
    (\<lambda>t x. snd x = Inr () \<and> (\<exists>tm. map_of (statuses (fst x)) n = Some (jobCreated op j tm)))"
  unfolding recordNodeJob_def now_def statusUpdate_def
proof (intro always_ask_bind always_ask, goal_cases)
  case (1 u ua)
  then obtain v where "ua = RVersion (Inr v)" by auto
  then show ?case by (simp add: exI [of _ "asTime u"])
qed

lemma always_createJob:
  "always (acceptingCluster pods) (createNodeJob rd op n j) (\<lambda>t x. snd x = Inr () \<and> jobStarted op n j t (fst x))"
proof -
  let ?ok = "acceptingCluster pods"
  have create: "always ?ok (bind (createJob (upgradeJob op n j spec)) (\<lambda>c. case c of
         Inr _ \<Rightarrow> recordNodeJob op n j
       | Inl createErr \<Rightarrow> bind (adoptExistingJob op j createErr) (\<lambda>a. case a of
           Inl e \<Rightarrow> Ret (op, Inl e) | Inr _ \<Rightarrow> recordNodeJob op n j)))
       (\<lambda>t2 x. snd x = Inr () \<and> jobStarted op n j (t @ t2) (fst x))"
    if "NodeName (templateSpec spec) = n" for spec t
    unfolding createJob_def
    by (rule always_ask_bind)
      (auto intro!: always_mono [OF always_record] exI [of _ "upgradeJob op n j spec"] simp: jobStarted_def upgradeJob_def
        SetControllerReference_def that)
  have prepared: "always ?ok (bind (prepareNode op n) (\<lambda>p. case p of Inl e \<Rightarrow> Ret (op, Inl e) | Inr _ \<Rightarrow>
         bind (if rebootRequested op then createRebootJobSpec op n (jobBackoffLimit op)
               else createStandardJobSpec op n (jobBackoffLimit op)) (\<lambda>spec.
         bind (createJob (upgradeJob op n j spec)) (\<lambda>c. case c of
           Inr _ \<Rightarrow> recordNodeJob op n j
         | Inl createErr \<Rightarrow> bind (adoptExistingJob op j createErr) (\<lambda>a. case a of
             Inl e \<Rightarrow> Ret (op, Inl e) | Inr _ \<Rightarrow> recordNodeJob op n j)))))
       (\<lambda>t2 x. snd x = Inr () \<and> jobStarted op n j (t @ t2) (fst x))" for t
    by (rule always_bind [OF always_prepare], simp only: sum.case, rule always_bind [OF always_jobSpec])
      (use create [of _ "t @ t1 @ t2" for t1 t2] in simp)
  show ?thesis
    unfolding createNodeJob_def getJob_def
    by (rule always_ask_bind) (use prepared [of "[e]" for e] in \<open>simp add: IsNotFound_def\<close>)
qed

text \<open>
  C9. An upgrade starts once its reboot Pod is ready: when the oldest live reboot Pod of a node is ready
  and names a Job, the next step for the node creates that Job, pinned to the node, and records it,
  whatever has to be cordoned, evicted and deleted on the way.
\<close>

theorem upgrade_starts:
  assumes "rebootRequested op" and "sort_key podKey (livePods (pods (rebootSelector op n))) = p # others"
    and "rebootPodReady p" and "rebootPodJobName p = jobName" and "jobName \<noteq> []"
  shows "(\<exists>tr op' r. exec (startMainJob rd op n) tr (op', r) \<and> faultless (acceptingCluster pods) tr) \<and>
    (\<forall>tr op' r. exec (startMainJob rd op n) tr (op', r) \<longrightarrow> faultless (acceptingCluster pods) tr \<longrightarrow>
      r = Inr () \<and> jobStarted op n jobName tr op')"
proof -
  have "always (acceptingCluster pods) (obtainRebootPod rd op n) (\<lambda>t r. r = Inr p)"
    unfolding obtainRebootPod_def attempt_def by (rule always_bind [OF always_keepOne [of pods, OF assms(2)]]) simp
  moreover have "always (acceptingCluster pods) (createNodeJob rd op n jobName)
      (\<lambda>t2 x. snd x = Inr () \<and> jobStarted op n jobName (t @ t2) (fst x))" for t
    by (rule always_mono [OF always_createJob]) (simp add: jobStarted_append)
  ultimately have "always (acceptingCluster pods) (startMainJob rd op n) (\<lambda>t x. snd x = Inr () \<and> jobStarted op n jobName t (fst x))"
    unfolding startMainJob_def using assms(1,3-5) by (simp only: simp_thms if_False) (erule always_bind, simp add: Let_def)
  then show ?thesis
    using accepting.faultless_exec [of "startMainJob rd op n" pods]
    unfolding always_def split_paired_Ex split_paired_All fst_conv snd_conv by blast
qed

theorem upgrade_starts_witness:
  "\<exists>tr op' jb. exec (startMainJob Live sample_op ''n1'') tr (op', Inr ()) \<and> (CreateJob jb, RUnit (Inr ())) \<in> set tr \<and>
     Name (jobMeta jb) = ''up-n1-abcde''"
proof -
  have req: "rebootRequested sample_op" by (simp add: sample_op_def sample_spec_def getBool_def)
  have one: "sort_key podKey (livePods ((\<lambda>_. [ready_pod]) (rebootSelector sample_op ''n1''))) = ready_pod # []"
    by (simp add: ready_pod_facts)
  have "''up-n1-abcde'' \<noteq> []" by simp
  note all = upgrade_starts [OF req one ready_pod_facts(1,2) this, of Live]
  then obtain tr op' r where "exec (startMainJob Live sample_op ''n1'') tr (op', r)" "faultless (acceptingCluster (\<lambda>_. [ready_pod])) tr"
    by blast
  with conjunct2 [OF all, rule_format, OF this] show ?thesis unfolding jobStarted_def by blast
qed

section \<open>A reconcile\<close>

text \<open>What is left of a reconcile once the NodeOp was read, if it is not being deleted.\<close>

definition afterGet :: "selector_library \<Rightarrow> reader \<Rightarrow> node_op \<Rightarrow> nat res nprog" where
  "afterGet asSelector rd op =
     bind (updateNodeOpStatus op) (\<lambda>(op1, r). case r of Inl e \<Rightarrow> Ret (Inl e) | Inr _ \<Rightarrow>
     bind (manageJobCreation asSelector rd op1) (\<lambda>(op2, r2). case r2 of
       Inl e \<Rightarrow> Ret (Inl e) | Inr _ \<Rightarrow> Ret (Inr 300)))"

lemma exec_afterGet:
  assumes "DeletionTimestamp (opMeta op) = None"
  shows "exec (Reconcile asSelector rd ns nm) ((GetNodeOp ns nm, RNodeOp (Inr op)) # t) r \<longleftrightarrow> exec (afterGet asSelector rd op) t r"
  using assms
  by (simp add: Reconcile_def getNodeOp_def getNodeOpObj_def handleDeletion_def afterGet_def attempt_def bind_assoc exec_ask_bind)

lemma always_afterGet:
  assumes "wf_map (statuses op)" and "statuses op \<noteq> []"
    and "\<And>n st. map_of (statuses op) n = Some st \<Longrightarrow> finishing pods nd op n st"
  shows "always (finishedCluster pods nd) (afterGet asSelector rd op) (\<lambda>t x. savedCompleted nd op t)"
proof -
  have keep: "always (finishedCluster pods nd) m (\<lambda>t2 y. savedCompleted nd op (t @ t2))" if "savedCompleted nd op t"
    for m :: "nat res nprog" and t
    using savedCompleted_mono [OF that] by (simp add: always_def)
  show ?thesis
    unfolding afterGet_def by (rule always_bind [OF always_updateStatus [OF assms]]) (auto intro: keep)
qed

text \<open>
  C8. Upgrades get done: once the upgrade Jobs of a NodeOp are Complete and, if it reboots its nodes,
  every node waiting for its reboot is Ready on another boot than the one its Job reported, one
  reconcile saves the status in which the NodeOp and all its nodes are completed, and lifts the
  cordon of every node this NodeOp has cordoned.
\<close>

theorem upgrade_completes:
  assumes "DeletionTimestamp (opMeta op) = None" and "wf_map (statuses op)" and "statuses op \<noteq> []"
    and "\<forall>n st. map_of (statuses op) n = Some st \<longrightarrow> finishing pods nd op n st"
  shows "(\<exists>tr r. exec (Reconcile asSelector rd ns nm) ((GetNodeOp ns nm, RNodeOp (Inr op)) # tr) r \<and>
      faultless (finishedCluster pods nd) tr) \<and>
    (\<forall>tr r. exec (Reconcile asSelector rd ns nm) ((GetNodeOp ns nm, RNodeOp (Inr op)) # tr) r \<longrightarrow>
      faultless (finishedCluster pods nd) tr \<longrightarrow>
      (\<exists>w v. (UpdateNodeOpStatus w, RVersion (Inr v)) \<in> set tr \<and> same_op op w \<and> stPhase (opStatus w) = phaseCompleted \<and>
         map fst (statuses w) = map fst (statuses op) \<and> (\<forall>n st. map_of (statuses w) n = Some st \<longrightarrow> nodeDone op st)) \<and>
      (\<forall>n \<in> fst ` set (statuses op). cordonLifted op (nd n) tr))"
  unfolding exec_afterGet [OF assms(1)] savedCompleted_def [symmetric]
  using finished.faultless_exec [of "afterGet asSelector rd op" pods nd] alwaysD [OF always_afterGet [OF assms(2,3) assms(4) [rule_format]]]
  by blast

text \<open>A NodeOp whose one node has come back, still cordoned.\<close>

definition upgrading_op :: node_op where
  "upgrading_op = setStatus ''n1'' (jobCreated sample_op ''j'' (Time 1)) sample_op"

definition back_node :: node where
  "back_node = setAnnotations [(cordonedByAnnotation, nodeOpOwnerRef upgrading_op)] (ready_node\<lparr>Unschedulable := True\<rparr>)"

lemma upgrading_statuses: "statuses upgrading_op = [(''n1'', jobCreated sample_op ''j'' (Time 1))]"
  by (simp add: upgrading_op_def sample_op_def put_def)

lemma upgrading_finishing:
  assumes "map_of (statuses upgrading_op) n = Some st"
  shows "finishing (\<lambda>_. [reported_pod]) (\<lambda>_. back_node) upgrading_op n st"
proof -
  have st: "st = jobCreated sample_op ''j'' (Time 1)" using assms by (simp add: upgrading_statuses split: if_splits)
  have "isNodeReady back_node" "BootID back_node = ''b''" "''b'' \<noteq> sample_boot_id"
    by (simp_all add: back_node_def ready_node_def sample_node_def setAnnotations_def isNodeReady_def sample_boot_id_def)
  then show ?thesis
    using reported_sample
    by (simp add: st finishing_def hasRebooted_def jobCreated_def upgrading_op_def sample_op_def sample_spec_def
        getBool_def kconst del: FromJobPods.simps)
qed

theorem upgrade_completes_witness:
  "\<exists>tr r w v nd. exec (Reconcile (\<lambda>_. Inr (\<lambda>_. True)) Live ''system'' ''up'') ((GetNodeOp ''system'' ''up'', RNodeOp (Inr upgrading_op)) # tr) r \<and>
     (UpdateNodeOpStatus w, RVersion (Inr v)) \<in> set tr \<and> stPhase (opStatus w) = phaseCompleted \<and>
     (UpdateNode nd, RUnit (Inr ())) \<in> set tr \<and> \<not> Unschedulable nd"
proof -
  have op: "DeletionTimestamp (opMeta upgrading_op) = None" "wf_map (statuses upgrading_op)" "statuses upgrading_op \<noteq> []"
    by (simp_all add: upgrading_op_def sample_op_def sample_meta_def empty_meta_def put_def wf_map_def)
  let ?rec = "Reconcile (\<lambda>_. Inr (\<lambda>_. True)) Live ''system'' ''up''"
  let ?ok = "finishedCluster (\<lambda>_. [reported_pod]) (\<lambda>_. back_node)"
  have "\<forall>n st. map_of (statuses upgrading_op) n = Some st \<longrightarrow> finishing (\<lambda>_. [reported_pod]) (\<lambda>_. back_node) upgrading_op n st"
    using upgrading_finishing by blast
  note all = upgrade_completes [OF op this, of "\<lambda>_. Inr (\<lambda>_. True)" Live "''system''" "''up''"]
  from conjunct1 [OF all] obtain tr r where ex: "exec ?rec ((GetNodeOp ''system'' ''up'', RNodeOp (Inr upgrading_op)) # tr) r"
    and ok: "faultless ?ok tr" by blast
  from conjunct2 [OF all, rule_format, OF ex ok] obtain w v where
    saved: "(UpdateNodeOpStatus w, RVersion (Inr v)) \<in> set tr" "stPhase (opStatus w) = phaseCompleted"
    and lifted: "\<forall>n \<in> fst ` set (statuses upgrading_op). cordonLifted upgrading_op back_node tr" by blast
  have "cordonRequested upgrading_op" "Unschedulable back_node"
    "map_of (Annotations (nodeMeta back_node)) cordonedByAnnotation = Some (nodeOpOwnerRef upgrading_op)"
    by (simp_all add: upgrading_op_def sample_op_def sample_spec_def getBool_def back_node_def)
  with lifted have "(UpdateNode (setAnnotations (AList.delete cordonedByAnnotation (Annotations (nodeMeta back_node)))
      (back_node\<lparr>Unschedulable := False\<rparr>)), RUnit (Inr ())) \<in> set tr"
    by (simp add: cordonLifted_def upgrading_statuses)
  with ex saved show ?thesis by (intro exI conjI) (assumption+, simp)
qed

end
