(* ===== verification/RebootWatcher.thy ===== *)
theory RebootWatcher
  imports NodeOpCtl
begin

text \<open>
  The program of the reboot Pod (internal/rebootwatcher/rebootwatcher.go) and its start in
  cmd/main.go. It has its own surroundings: the Kubernetes API, the host's boot ID, the reboot
  command and the waits, which end by the timer or by the cancellation of the context. \<open>Run\<close>
  polls without a bound, so the loop takes fuel, one unit per attempt; \<open>None\<close> is still waiting.
\<close>

section \<open>Surroundings\<close>

datatype watch_req =
    WatchGetJob string string
  | WatchListPods string string
  | CallReadBootID
  | CallReboot
  | WaitFor int
  | WatchGetenv string

datatype watch_resp =
    WJob "job res"
  | WPods "pod list res"
  | WString string
  | WUnit "unit res"

type_synonym 'a wprog = "(watch_req, watch_resp, 'a) prog"

definition asWJob :: "watch_resp \<Rightarrow> job res" where
  "asWJob r = (case r of WJob x \<Rightarrow> x | _ \<Rightarrow> Inl decodeError)"
definition asWPods :: "watch_resp \<Rightarrow> pod list res" where
  "asWPods r = (case r of WPods x \<Rightarrow> x | _ \<Rightarrow> Inl decodeError)"
definition asWString :: "watch_resp \<Rightarrow> string" where
  "asWString r = (case r of WString s \<Rightarrow> s | _ \<Rightarrow> [])"
definition asWUnit :: "watch_resp \<Rightarrow> unit res" where
  "asWUnit r = (case r of WUnit x \<Rightarrow> x | _ \<Rightarrow> Inl decodeError)"

lemma wdecoded [simp]:
  "asWJob r = Inr j \<longleftrightarrow> r = WJob (Inr j)" "asWPods r = Inr ps \<longleftrightarrow> r = WPods (Inr ps)"
  "asWUnit r = Inr u \<longleftrightarrow> r = WUnit (Inr u)"
  "asWJob (WJob jr) = jr" "asWPods (WPods pr) = pr" "asWUnit (WUnit ur) = ur" "asWString (WString s) = s"
  by (auto simp: asWJob_def asWPods_def asWUnit_def asWString_def split: watch_resp.splits)

definition wask :: "watch_req \<Rightarrow> (watch_resp \<Rightarrow> 'a) \<Rightarrow> 'a wprog" where
  "wask q dec = Call q (\<lambda>r. Ret (dec r))"

lemma exec_wask: "exec (wask q dec) tr a \<longleftrightarrow> (\<exists>r. tr = [(q, r)] \<and> dec r = a)"
  by (auto simp: wask_def exec_Call_iff)

lemma exec_wask_bind:
  "exec (bind (wask q dec) f) tr b \<longleftrightarrow> (\<exists>r t. tr = (q, r) # t \<and> exec (f (dec r)) t b)"
  by (auto simp: wask_def exec_Call_iff)

section \<open>The program\<close>

definition jobNameLabel :: string where
  "jobNameLabel = ''batch.kubernetes.io/job-name''"

text \<open>Durations are nanoseconds.\<close>

definition second :: int where "second = 1000000000"

definition defaultPollInterval :: int where "defaultPollInterval = 10 * second"
definition defaultRebootTimeout :: int where "defaultRebootTimeout = 5 * 60 * second"

text \<open>The settings; the three function and client fields are either set or nil.\<close>

record deps =
  depKube :: bool
  depNamespace :: string
  depJobName :: string
  depPollInterval :: int
  depRebootTimeout :: int
  depReboot :: bool
  depReadBootID :: bool

definition jobComplete :: "job \<Rightarrow> bool" where
  "jobComplete j =
     list_ex (\<lambda>c. condType c = JobComplete \<and> condStatus c = ConditionTrue) (jobConditions (jobStatus j))"

definition check :: "deps \<Rightarrow> (string \<times> string) option wprog" where
  "check d =
     bind (wask (WatchGetJob (depNamespace d) (depJobName d)) asWJob) (\<lambda>j. case j of
       Inl e \<Rightarrow> Ret None
     | Inr job \<Rightarrow>
         if \<not> jobComplete job then Ret None
         else bind (wask (WatchListPods (depNamespace d) (jobNameLabel @ ''='' @ depJobName d)) asWPods) (\<lambda>p. case p of
           Inl e \<Rightarrow> Ret None
         | Inr pods \<Rightarrow>
             (let baseline = FromJobPods pods in
              if baseline = [] then Ret None
              else bind (wask CallReadBootID asWString) (\<lambda>current.
                if \<not> Valid current then Ret None else Ret (Some (baseline, current))))))"

definition act :: "deps \<Rightarrow> string \<Rightarrow> string \<Rightarrow> unit res wprog" where
  "act d baseline current =
     (if baseline \<noteq> current then Ret (Inr ())
      else bind (wask CallReboot asWUnit) (\<lambda>r. case r of
        Inl e \<Rightarrow> Ret (Inl (Wrapf ''reboot'' e))
      | Inr _ \<Rightarrow> bind (wask (WaitFor (depRebootTimeout d)) asWUnit) (\<lambda>w. case w of
          Inl e \<Rightarrow> Ret (Inl e)
        | Inr _ \<Rightarrow> Ret (Inl (Errorf ''host did not go down after reboot was requested'')))))"

fun poll :: "nat \<Rightarrow> deps \<Rightarrow> unit res option wprog" where
  "poll 0 d = Ret None"
| "poll (Suc fuel) d =
     bind (check d) (\<lambda>c. case c of
       Some (baseline, current) \<Rightarrow> bind (act d baseline current) (\<lambda>r. Ret (Some r))
     | None \<Rightarrow> bind (wask (WaitFor (depPollInterval d)) asWUnit) (\<lambda>w. case w of
         Inl e \<Rightarrow> Ret (Some (Inl e))
       | Inr _ \<Rightarrow> poll fuel d))"

definition with_defaults :: "deps \<Rightarrow> deps" where
  "with_defaults d = d\<lparr>
     depPollInterval := if depPollInterval d \<le> 0 then defaultPollInterval else depPollInterval d,
     depRebootTimeout := if depRebootTimeout d \<le> 0 then defaultRebootTimeout else depRebootTimeout d\<rparr>"

definition Run :: "nat \<Rightarrow> deps \<Rightarrow> unit res option wprog" where
  "Run fuel d =
     (if \<not> depKube d then Ret (Some (Inl (Errorf ''rebootwatcher: Deps.Kube is required'')))
      else if depNamespace d = [] then Ret (Some (Inl (Errorf ''rebootwatcher: Deps.Namespace is required'')))
      else if depJobName d = [] then Ret (Some (Inl (Errorf ''rebootwatcher: Deps.JobName is required'')))
      else if \<not> depReboot d then Ret (Some (Inl (Errorf ''rebootwatcher: Deps.Reboot is required'')))
      else if \<not> depReadBootID d then Ret (Some (Inl (Errorf ''rebootwatcher: Deps.ReadBootID is required'')))
      else poll fuel (with_defaults d))"

text \<open>runRebootWatcher of cmd/main.go, with the exit status of the process.\<close>

definition runRebootWatcher :: "nat \<Rightarrow> nat option wprog" where
  "runRebootWatcher fuel =
     bind (wask (WatchGetenv JobNameEnv) asWString) (\<lambda>jobName.
     bind (wask (WatchGetenv NamespaceEnv) asWString) (\<lambda>namespace.
       if jobName = [] \<or> namespace = [] then Ret (Some 1)
       else bind (Run fuel \<lparr>depKube = True, depNamespace = namespace, depJobName = jobName,
              depPollInterval = 10 * second, depRebootTimeout = 5 * 60 * second,
              depReboot = True, depReadBootID = True\<rparr>) (\<lambda>r. Ret (case r of
            None \<Rightarrow> None
          | Some (Inl e) \<Rightarrow> Some 1
          | Some (Inr _) \<Rightarrow> Some 0))))"

section \<open>Lemmas\<close>

text \<open>What one attempt can ask, and what a successful one has seen.\<close>

fun attempts :: "watch_req \<Rightarrow> bool" where
  "attempts CallReboot = False"
| "attempts (WaitFor i) = False"
| "attempts q = True"

fun isWait :: "watch_req \<Rightarrow> bool" where
  "isWait (WaitFor i) = True"
| "isWait q = False"

definition upgradeDone :: "deps \<Rightarrow> (watch_req \<times> watch_resp) list \<Rightarrow> string \<Rightarrow> string \<Rightarrow> bool" where
  "upgradeDone d tr baseline current \<longleftrightarrow>
     (\<exists>job pods. (WatchGetJob (depNamespace d) (depJobName d), WJob (Inr job)) \<in> set tr \<and> jobComplete job \<and>
       (WatchListPods (depNamespace d) (jobNameLabel @ ''='' @ depJobName d), WPods (Inr pods)) \<in> set tr \<and>
       baseline = FromJobPods pods \<and> (\<exists>p \<in> set pods. reports p baseline) \<and> Valid baseline \<and>
       (CallReadBootID, WString current) \<in> set tr \<and> Valid current)"

lemma upgradeDone_mono: "upgradeDone d tr b c \<Longrightarrow> set tr \<subseteq> set tr' \<Longrightarrow> upgradeDone d tr' b c"
  unfolding upgradeDone_def by blast

lemma upgradeDone_defaults [simp]: "upgradeDone (with_defaults d) = upgradeDone d"
  by (simp add: upgradeDone_def with_defaults_def fun_eq_iff)

lemma valid_answer: "Valid (asWString x) \<Longrightarrow> x = WString (asWString x)"
  by (cases x) (auto simp: asWString_def)

lemma only_wask [simp]: "only A (wask q dec) = A q"
  by (simp add: wask_def)

lemma only_check: "only attempts (check d)"
  unfolding check_def Let_def by (auto intro!: only_bind split: sum.splits)

lemma check_attempts: "exec (check d) tr c \<Longrightarrow> (q, x) \<in> set tr \<Longrightarrow> attempts q"
  by (rule only_exec [OF _ only_check])

lemma check_done:
  assumes "exec (check d) tr (Some (b, c))"
  shows "upgradeDone d tr b c"
proof -
  from assms obtain x t where tr: "tr = (WatchGetJob (depNamespace d) (depJobName d), x) # t"
    and t: "exec (case asWJob x of Inl e \<Rightarrow> Ret None | Inr job \<Rightarrow>
         if \<not> jobComplete job then Ret None
         else bind (wask (WatchListPods (depNamespace d) (jobNameLabel @ ''='' @ depJobName d)) asWPods) (\<lambda>p. case p of
           Inl e \<Rightarrow> Ret None
         | Inr pods \<Rightarrow>
             (let baseline = FromJobPods pods in
              if baseline = [] then Ret None
              else bind (wask CallReadBootID asWString) (\<lambda>current.
                if \<not> Valid current then Ret None else Ret (Some (baseline, current)))))) t (Some (b, c))"
    unfolding check_def exec_wask_bind by blast
  from t obtain job where x: "x = WJob (Inr job)" "jobComplete job" by (auto split: sum.splits if_splits)
  with t obtain y t2 where y: "t = (WatchListPods (depNamespace d) (jobNameLabel @ ''='' @ depJobName d), y) # t2"
    and t2: "exec (case asWPods y of Inl e \<Rightarrow> Ret None | Inr pods \<Rightarrow>
             (let baseline = FromJobPods pods in
              if baseline = [] then Ret None
              else bind (wask CallReadBootID asWString) (\<lambda>current.
                if \<not> Valid current then Ret None else Ret (Some (baseline, current))))) t2 (Some (b, c))"
    by (auto simp: exec_wask_bind)
  from t2 obtain pods where p: "y = WPods (Inr pods)" "FromJobPods pods \<noteq> []"
    by (auto simp: Let_def split: sum.splits if_splits)
  with t2 have "exec (bind (wask CallReadBootID asWString) (\<lambda>current.
      if \<not> Valid current then Ret None else Ret (Some (FromJobPods pods, current)))) t2 (Some (b, c))"
    by (simp add: Let_def)
  then obtain z t3 where "t2 = (CallReadBootID, z) # t3"
    and z0: "exec (if \<not> Valid (asWString z) then Ret None else Ret (Some (FromJobPods pods, asWString z))) t3 (Some (b, c))"
    unfolding exec_wask_bind by blast
  moreover have "Valid (asWString z)" using z0 by (cases "Valid (asWString z)") auto
  ultimately have z: "t2 = [(CallReadBootID, z)]" "Valid (asWString z)" "b = FromJobPods pods" "c = asWString z"
    by auto
  have "Valid b" "\<exists>p \<in> set pods. reports p b" using bootid.reported p(2) z(3) by auto
  moreover have "z = WString c" using valid_answer z by simp
  ultimately show ?thesis unfolding upgradeDone_def using x p z by (auto simp: tr y)
qed

lemma exec_act:
  assumes "exec (act d b c) tr r"
  obtains (rebooted) "b \<noteq> c" "tr = []" "r = Inr ()"
    | (failed) x e where "b = c" "tr = [(CallReboot, x)]" "r = Inl e"
    | (requested) x e where "b = c" "tr = [(CallReboot, WUnit (Inr ())), (WaitFor (depRebootTimeout d), x)]" "r = Inl e"
proof (cases "b = c")
  case False
  with assms show thesis by (intro rebooted) (auto simp: act_def)
next
  case True
  with assms obtain x t where tr: "tr = (CallReboot, x) # t"
    and t: "exec (case asWUnit x of Inl e \<Rightarrow> Ret (Inl (Wrapf ''reboot'' e))
      | Inr _ \<Rightarrow> bind (wask (WaitFor (depRebootTimeout d)) asWUnit) (\<lambda>w. case w of
          Inl e \<Rightarrow> Ret (Inl e)
        | Inr _ \<Rightarrow> Ret (Inl (Errorf ''host did not go down after reboot was requested'')))) t r"
    by (auto simp: act_def exec_wask_bind)
  show thesis
  proof (cases "asWUnit x")
    case (Inl e)
    with t tr True show thesis by (intro failed) auto
  next
    case (Inr u)
    with t obtain w t2 where t2: "t = (WaitFor (depRebootTimeout d), w) # t2"
      and w: "exec (case asWUnit w of Inl e \<Rightarrow> Ret (Inl e)
        | Inr _ \<Rightarrow> Ret (Inl (Errorf ''host did not go down after reboot was requested''))) t2 r"
      by (auto simp: exec_wask_bind)
    from w obtain e where "t2 = []" "r = Inl e" by (cases "asWUnit w") auto
    with t2 Inr tr True show thesis by (intro requested) auto
  qed
qed

text \<open>The whole loop: attempts and waits, then the one attempt that was ready, or the end of the fuel or of the context.\<close>

lemma exec_poll:
  assumes "exec (poll fuel d) tr r"
  obtains (unfinished) "r = None" "\<And>q x. (q, x) \<in> set tr \<Longrightarrow> q \<noteq> CallReboot"
      "length (filter (\<lambda>e. isWait (fst e)) tr) = fuel"
    | (cancelled) e where "r = Some (Inl e)" "\<And>q x. (q, x) \<in> set tr \<Longrightarrow> q \<noteq> CallReboot"
    | (decided) t1 t2 b c r' where "tr = t1 @ t2" "\<And>q x. (q, x) \<in> set t1 \<Longrightarrow> q \<noteq> CallReboot"
      "upgradeDone d t1 b c" "exec (act d b c) t2 r'" "r = Some r'"
proof -
  have "(r = None \<and> (\<forall>q x. (q, x) \<in> set tr \<longrightarrow> q \<noteq> CallReboot) \<and> length (filter (\<lambda>e. isWait (fst e)) tr) = fuel) \<or>
     (\<exists>e. r = Some (Inl e) \<and> (\<forall>q x. (q, x) \<in> set tr \<longrightarrow> q \<noteq> CallReboot)) \<or>
     (\<exists>t1 t2 b c r'. tr = t1 @ t2 \<and> (\<forall>q x. (q, x) \<in> set t1 \<longrightarrow> q \<noteq> CallReboot) \<and>
        upgradeDone d t1 b c \<and> exec (act d b c) t2 r' \<and> r = Some r')"
    using assms
  proof (induction fuel arbitrary: tr)
    case 0
    then show ?case by simp
  next
    case (Suc fuel)
    from Suc.prems obtain t1 c t2 where tr: "tr = t1 @ t2" and c: "exec (check d) t1 c"
      and t2: "exec (case c of
       Some (baseline, current) \<Rightarrow> bind (act d baseline current) (\<lambda>r. Ret (Some r))
     | None \<Rightarrow> bind (wask (WaitFor (depPollInterval d)) asWUnit) (\<lambda>w. case w of
         Inl e \<Rightarrow> Ret (Some (Inl e))
       | Inr _ \<Rightarrow> poll fuel d)) t2 r" by (auto simp: exec_bind)
    have quiet: "q \<noteq> CallReboot \<and> \<not> isWait q" if "(q, x) \<in> set t1" for q x
      using check_attempts [OF c that] by (cases q) auto
    show ?case
    proof (cases c)
      case (Some bc)
      obtain b cur where bc: "bc = (b, cur)" by (cases bc)
      with Some c have "upgradeDone d t1 b cur" by (simp add: check_done)
      moreover from t2 Some bc obtain r' where "exec (act d b cur) t2 r'" "r = Some r'" by (auto simp: exec_bind)
      ultimately show ?thesis using quiet tr by blast
    next
      case None
      with t2 obtain w t3 where t3: "t2 = (WaitFor (depPollInterval d), w) # t3"
        and w: "exec (case asWUnit w of Inl e \<Rightarrow> Ret (Some (Inl e)) | Inr _ \<Rightarrow> poll fuel d) t3 r"
        by (auto simp: exec_wask_bind)
      have none: "filter (\<lambda>e. isWait (fst e)) t1 = []" using quiet by (auto simp: filter_empty_conv)
      show ?thesis
      proof (cases "asWUnit w")
        case (Inl e)
        with w have "t3 = []" "r = Some (Inl e)" by auto
        then show ?thesis using quiet by (auto simp: tr t3)
      next
        case (Inr u)
        with w have "exec (poll fuel d) t3 r" by simp
        from Suc.IH [OF this] show ?thesis
        proof (elim disjE conjE exE)
          assume "r = None" "\<forall>q x. (q, x) \<in> set t3 \<longrightarrow> q \<noteq> CallReboot" "length (filter (\<lambda>e. isWait (fst e)) t3) = fuel"
          then show ?thesis using quiet none by (auto simp: tr t3)
        next
          fix e
          assume "r = Some (Inl e)" "\<forall>q x. (q, x) \<in> set t3 \<longrightarrow> q \<noteq> CallReboot"
          then show ?thesis using quiet by (auto simp: tr t3)
        next
          fix t4 t5 b cur r'
          assume h: "t3 = t4 @ t5" "\<forall>q x. (q, x) \<in> set t4 \<longrightarrow> q \<noteq> CallReboot" "upgradeDone d t4 b cur"
            "exec (act d b cur) t5 r'" "r = Some r'"
          have "tr = (t1 @ (WaitFor (depPollInterval d), w) # t4) @ t5" by (simp add: tr t3 h(1))
          moreover have "upgradeDone d (t1 @ (WaitFor (depPollInterval d), w) # t4) b cur"
            by (rule upgradeDone_mono [OF h(3)]) auto
          moreover have "q \<noteq> CallReboot" if "(q, x) \<in> set (t1 @ (WaitFor (depPollInterval d), w) # t4)" for q x
            using that quiet h(2) by auto
          ultimately show ?thesis using h(4,5) by blast
        qed
      qed
    qed
  qed
  then show thesis using that by blast
qed

lemma poll_more_fuel: "exec (poll fuel d) tr (Some r) \<Longrightarrow> exec (poll (fuel + k) d) tr (Some r)"
proof (induction fuel arbitrary: tr)
  case 0
  then show ?case by simp
next
  case (Suc fuel)
  from Suc.prems obtain t1 c t2 where tr: "tr = t1 @ t2" and c: "exec (check d) t1 c"
    and t2: "exec (case c of
       Some (baseline, current) \<Rightarrow> bind (act d baseline current) (\<lambda>r. Ret (Some r))
     | None \<Rightarrow> bind (wask (WaitFor (depPollInterval d)) asWUnit) (\<lambda>w. case w of
         Inl e \<Rightarrow> Ret (Some (Inl e))
       | Inr _ \<Rightarrow> poll fuel d)) t2 (Some r)" by (auto simp: exec_bind)
  have "exec (case c of
       Some (baseline, current) \<Rightarrow> bind (act d baseline current) (\<lambda>r. Ret (Some r))
     | None \<Rightarrow> bind (wask (WaitFor (depPollInterval d)) asWUnit) (\<lambda>w. case w of
         Inl e \<Rightarrow> Ret (Some (Inl e))
       | Inr _ \<Rightarrow> poll (fuel + k) d)) t2 (Some r)"
  proof (cases c)
    case None
    with t2 obtain w t3 where t3: "t2 = (WaitFor (depPollInterval d), w) # t3"
      and w: "exec (case asWUnit w of Inl e \<Rightarrow> Ret (Some (Inl e)) | Inr _ \<Rightarrow> poll fuel d) t3 (Some r)"
      by (auto simp: exec_wask_bind)
    have "exec (case asWUnit w of Inl e \<Rightarrow> Ret (Some (Inl e)) | Inr _ \<Rightarrow> poll (fuel + k) d) t3 (Some r)"
      using w Suc.IH [of t3] by (cases "asWUnit w") auto
    then show ?thesis using None t3 by (auto simp: exec_wask_bind)
  next
    case (Some bc)
    with t2 show ?thesis by simp
  qed
  then show ?case using tr c by (auto simp: exec_bind)
qed

definition depsOk :: "deps \<Rightarrow> bool" where
  "depsOk d \<longleftrightarrow> depKube d \<and> depNamespace d \<noteq> [] \<and> depJobName d \<noteq> [] \<and> depReboot d \<and> depReadBootID d"

lemma Run_cases: "Run fuel d = poll fuel (with_defaults d) \<and> depsOk d \<or> (\<exists>e. Run fuel d = Ret (Some (Inl e))) \<and> \<not> depsOk d"
  by (auto simp: Run_def depsOk_def)

text \<open>A trace with a reboot request: what was seen before it, and that there is only the one.\<close>

lemma reboot_request:
  assumes "exec (Run fuel d) (pre @ (CallReboot, x) # post) r"
  shows "(\<exists>b. upgradeDone d pre b b) \<and> CallReboot \<notin> fst ` set pre \<and> CallReboot \<notin> fst ` set post \<and>
    (\<exists>e. r = Some (Inl e))"
proof -
  have p: "exec (poll fuel (with_defaults d)) (pre @ (CallReboot, x) # post) r"
    using assms Run_cases [of fuel d] by auto
  then show ?thesis
  proof (rule exec_poll)
    fix t1 t2 b c r'
    assume eq: "pre @ (CallReboot, x) # post = t1 @ t2"
      and quiet: "\<And>q y. (q, y) \<in> set t1 \<Longrightarrow> q \<noteq> CallReboot"
      and seen: "upgradeDone (with_defaults d) t1 b c" and a: "exec (act (with_defaults d) b c) t2 r'" and r: "r = Some r'"
    from eq obtain us where us: "pre = t1 @ us" "t2 = us @ (CallReboot, x) # post"
      using quiet [of CallReboot x] unfolding append_eq_append_conv2 by (auto simp: Cons_eq_append_conv)
    have "us = [] \<and> b = c \<and> CallReboot \<notin> fst ` set post \<and> (\<exists>e. r' = Inl e)"
      using a by (rule exec_act) (use us(2) in \<open>auto simp: Cons_eq_append_conv append_eq_Cons_conv\<close>)
    moreover have "CallReboot \<notin> fst ` set t1" using quiet by (metis imageE prod.collapse)
    ultimately show ?thesis using seen us(1) r by auto
  qed (use in_set_conv_decomp in fastforce)+
qed

section \<open>Properties\<close>

text \<open>
  C3. The reboot Pod reboots its node only after it read the upgrade Job as Complete and a
  succeeded Pod of that Job reported the very boot ID the node still runs; it does so at most
  once, and once it has asked for the reboot it never exits successfully.
\<close>

theorem watcher_reboots_on_proof:
  assumes "exec (Run fuel d) (pre @ (CallReboot, x) # post) r"
  shows "(\<exists>b. upgradeDone d pre b b) \<and> CallReboot \<notin> fst ` set pre \<and> CallReboot \<notin> fst ` set post \<and>
    (\<exists>e. r = Some (Inl e))"
  using assms by (rule reboot_request)

text \<open>A reboot Pod that finds the upgrade finished and the node on the same boot, for the witness.\<close>

definition sample_deps :: deps where
  "sample_deps = \<lparr>depKube = True, depNamespace = ''system'', depJobName = ''up-n1-abcde'', depPollInterval = 0,
     depRebootTimeout = 0, depReboot = True, depReadBootID = True\<rparr>"

definition finished_job :: job where
  "finished_job = sample_job\<lparr>jobStatus := \<lparr>jobConditions = [\<lparr>condType = JobComplete, condStatus = ConditionTrue, condReason = [], condMessage = []\<rparr>],
     jobSucceeded = 1, jobFailed = 0\<rparr>\<rparr>"

lemma finished_job_complete: "jobComplete finished_job"
  by (simp add: finished_job_def jobComplete_def)

lemmas watcher_eval = Run_def with_defaults_def check_def act_def wask_def sample_deps_def finished_job_complete
  reported_sample defaultPollInterval_def defaultRebootTimeout_def second_def Let_def

lemma sample_boot_id_nonempty: "sample_boot_id \<noteq> []"
  by (simp add: sample_boot_id_def)

theorem watcher_reboots_on_proof_witness:
  "upgradeDone sample_deps [(WatchGetJob ''system'' ''up-n1-abcde'', WJob (Inr finished_job)),
      (WatchListPods ''system'' ''batch.kubernetes.io/job-name=up-n1-abcde'', WPods (Inr [reported_pod])),
      (CallReadBootID, WString sample_boot_id)] sample_boot_id sample_boot_id"
proof -
  define pre where "pre = [(WatchGetJob ''system'' ''up-n1-abcde'', WJob (Inr finished_job)),
      (WatchListPods ''system'' ''batch.kubernetes.io/job-name=up-n1-abcde'', WPods (Inr [reported_pod])),
      (CallReadBootID, WString sample_boot_id)]"
  have "exec (Run 1 sample_deps) (pre @ (CallReboot, WUnit (Inl (Errorf ''exit 1''))) # [])
      (Some (Inl (Wrapf ''reboot'' (Errorf ''exit 1''))))"
    by (simp add: exec_iff_scripted pre_def watcher_eval sample_boot_id_nonempty jobNameLabel_def del: FromJobPods.simps)
  from watcher_reboots_on_proof [OF this] obtain b where b: "upgradeDone sample_deps pre b b" by blast
  then have "(CallReadBootID, WString b) \<in> set pre" unfolding upgradeDone_def by blast
  then have "b = sample_boot_id" by (simp add: pre_def)
  with b show ?thesis by (simp add: pre_def)
qed

text \<open>
  C23. When the reboot Pod exits successfully the node has rebooted since its upgrade: it did not
  ask for a reboot itself, the Job's reported boot ID differs from the node's current one, and
  the NodeOp controller, once the node is Ready on that boot, comes to the same verdict from the
  same reported boot ID.
\<close>

theorem watcher_success_agrees:
  assumes "exec (Run fuel d) tr (Some (Inr ()))"
  shows "CallReboot \<notin> fst ` set tr \<and> (\<exists>b c. upgradeDone d tr b c \<and> b \<noteq> c \<and>
    (\<forall>n nd. BootID nd = c \<longrightarrow> isNodeReady nd \<longrightarrow>
       exec (nodeRebootedSince n b) [(GetNode n, RNode (Inr nd))] (Inr True)))"
proof -
  have "exec (poll fuel (with_defaults d)) tr (Some (Inr ()))" using assms Run_cases [of fuel d] by auto
  then show ?thesis
  proof (rule exec_poll)
    fix t1 t2 b c r'
    assume tr: "tr = t1 @ t2" and quiet: "\<And>q x. (q, x) \<in> set t1 \<Longrightarrow> q \<noteq> CallReboot"
      and seen: "upgradeDone (with_defaults d) t1 b c" and a: "exec (act (with_defaults d) b c) t2 r'"
      and r: "Some (Inr ()) = Some r'"
    from a have t2: "t2 = []" "b \<noteq> c" using r by (auto elim: exec_act)
    have "b \<noteq> []" "c \<noteq> []" using seen by (auto simp: upgradeDone_def)
    then have "exec (nodeRebootedSince n b) [(GetNode n, RNode (Inr nd))] (Inr True)"
      if "BootID nd = c" "isNodeReady nd" for n nd
      using that t2(2) by (auto simp: exec_iff_scripted nodeRebootedSince_def client_defs ask_def)
    moreover have "CallReboot \<notin> fst ` set tr" using quiet t2 unfolding tr by (metis append_Nil2 imageE prod.collapse)
    ultimately show ?thesis using seen t2 tr by auto
  qed simp_all
qed

theorem watcher_success_agrees_witness:
  "exec (nodeRebootedSince ''n1'' sample_boot_id)
     [(GetNode ''n1'', RNode (Inr (ready_node\<lparr>BootID := ''1a1b2c3d-0000-1111-2222-333344445555''\<rparr>)))] (Inr True)"
proof -
  define c where "c = ''1a1b2c3d-0000-1111-2222-333344445555''"
  define tr where "tr = [(WatchGetJob ''system'' ''up-n1-abcde'', WJob (Inr finished_job)),
      (WatchListPods ''system'' ''batch.kubernetes.io/job-name=up-n1-abcde'', WPods (Inr [reported_pod])),
      (CallReadBootID, WString c)]"
  have "Valid c" unfolding c_def by code_simp
  moreover have "sample_boot_id \<noteq> c" by (simp add: c_def sample_boot_id_def)
  ultimately have "exec (Run 1 sample_deps) tr (Some (Inr ()))"
    by (simp add: exec_iff_scripted tr_def watcher_eval sample_boot_id_nonempty jobNameLabel_def del: FromJobPods.simps)
  from watcher_success_agrees [OF this] obtain b c' where bc: "upgradeDone sample_deps tr b c'"
    and ex: "\<And>n nd. BootID nd = c' \<Longrightarrow> isNodeReady nd \<Longrightarrow> exec (nodeRebootedSince n b) [(GetNode n, RNode (Inr nd))] (Inr True)"
    by blast
  from bc have c': "c' = c" by (auto simp: upgradeDone_def tr_def)
  from bc have "reports reported_pod b" by (auto simp: upgradeDone_def tr_def)
  moreover have "TrimSpace sample_boot_id = sample_boot_id" by code_simp
  ultimately have "b = sample_boot_id"
    by (simp add: reports_def reported_pod_def empty_pod_status_def)
  then show ?thesis using ex [of "ready_node\<lparr>BootID := c\<rparr>" "''n1''"] c'
    by (simp add: c_def ready_node_def isNodeReady_def)
qed

text \<open>
  C36. The polling loop: the program is still waiting after some attempts only if each of them
  was followed by a wait, and once it has returned, allowing more attempts changes nothing. The
  number of attempts is thus only a bound on how long it is observed.
\<close>

theorem watcher_fuel:
  assumes "exec (Run fuel d) tr r"
  shows "case r of None \<Rightarrow> length (filter (\<lambda>e. isWait (fst e)) tr) = fuel
    | Some r' \<Rightarrow> \<forall>k. exec (Run (fuel + k) d) tr (Some r')"
proof (cases r)
  case None
  with assms have "exec (poll fuel (with_defaults d)) tr None" using Run_cases [of fuel d] by auto
  then show ?thesis unfolding None by (rule exec_poll) simp_all
next
  case (Some r')
  with assms show ?thesis
    by (auto simp: Run_def poll_more_fuel split: if_splits)
qed

theorem watcher_fuel_witness:
  "exec (Run (1 + 5) sample_deps) [(WatchGetJob ''system'' ''up-n1-abcde'', WJob (Inl (ApiError NotFound []))),
     (WaitFor (10 * second), WUnit (Inl (Errorf ''cancelled'')))] (Some (Inl (Errorf ''cancelled'')))"
proof -
  have "exec (Run 1 sample_deps) [(WatchGetJob ''system'' ''up-n1-abcde'', WJob (Inl (ApiError NotFound []))),
     (WaitFor (10 * second), WUnit (Inl (Errorf ''cancelled'')))] (Some (Inl (Errorf ''cancelled'')))"
    by (simp add: exec_iff_scripted watcher_eval)
  from watcher_fuel [OF this] show ?thesis unfolding option.case by blast
qed

end
