(* ===== verification/RebootProtocol.thy ===== *)
theory RebootProtocol
  imports RebootWatcher
begin

text \<open>
  Many runs of the reboot watcher on one node. The container of a reboot Pod is restarted whenever it
  fails, the NodeOp controller may create the Pod again, and every reboot of the node kills what
  runs on it; all these processes share the node and the upgrade Job. A \<open>history\<close> interleaves
  their requests with reboots of the node, for whatever reason, and with changes of the Job.
\<close>

section \<open>The world around the watchers\<close>

text \<open>
  The boot IDs of the node, the current one first, and the Job and its Pods as the API server has them.
  \<open>Asked i q x\<close> is request \<open>q\<close> of process \<open>i\<close>, answered by \<open>x\<close>.
\<close>

record world =
  boots :: "string list"
  upgradeJobNow :: "job option"
  upgradePods :: "pod list"

datatype event = Asked nat watch_req watch_resp | Booted string | JobChanged

text \<open>
  What is assumed of the answers: a Job or a list of Pods is the current one, and a boot ID that is read
  is the node's. Errors, an unreadable boot ID and any outcome of the reboot command are possible.
\<close>

fun answers :: "world \<Rightarrow> watch_req \<Rightarrow> watch_resp \<Rightarrow> bool" where
  "answers w (WatchGetJob ns n) x = (\<forall>j. x = WJob (Inr j) \<longrightarrow> upgradeJobNow w = Some j)"
| "answers w (WatchListPods ns sel) x = (\<forall>ps. x = WPods (Inr ps) \<longrightarrow> ps = upgradePods w)"
| "answers w CallReadBootID x = (x = WString (hd (boots w)) \<or> asWString x = [])"
| "answers w q x = True"

text \<open>
  A boot gets an ID the node never had. What a succeeded Pod of the Job reported stays, and is the ID
  of a boot the node had by then.
\<close>

inductive step :: "world \<Rightarrow> event \<Rightarrow> world \<Rightarrow> bool" where
  ask: "answers w q x \<Longrightarrow> step w (Asked i q x) w"
| boot: "b \<notin> set (boots w) \<Longrightarrow> step w (Booted b) (w\<lparr>boots := b # boots w\<rparr>)"
| change: "FromJobPods (upgradePods w) \<noteq> [] \<Longrightarrow> FromJobPods ps = FromJobPods (upgradePods w) \<Longrightarrow>
    step w JobChanged (w\<lparr>upgradeJobNow := j, upgradePods := ps\<rparr>)"
| report: "FromJobPods (upgradePods w) = [] \<Longrightarrow> FromJobPods ps = [] \<or> FromJobPods ps \<in> set (boots w) \<Longrightarrow>
    step w JobChanged (w\<lparr>upgradeJobNow := j, upgradePods := ps\<rparr>)"

inductive history :: "world \<Rightarrow> event list \<Rightarrow> world \<Rightarrow> bool" where
  start: "history w [] w"
| next_step: "step w e w1 \<Longrightarrow> history w1 es w2 \<Longrightarrow> history w (e # es) w2"

inductive_cases step_askE: "step w (Asked i q x) w'"
inductive_cases step_bootE: "step w (Booted b) w'"
inductive_cases history_NilE: "history w [] w'"
inductive_cases history_ConsE: "history w (e # es) w'"

text \<open>
  The requests of one process. It is a run of the watcher, maybe cut short, and it lives in between two
  boots: a segment of the history without a boot holds all its requests.
\<close>

fun requestsOf :: "nat \<Rightarrow> event list \<Rightarrow> (watch_req \<times> watch_resp) list" where
  "requestsOf i [] = []"
| "requestsOf i (Asked k q x # es) = (if k = i then (q, x) # requestsOf i es else requestsOf i es)"
| "requestsOf i (_ # es) = requestsOf i es"

definition noBoot :: "event list \<Rightarrow> bool" where
  "noBoot es \<longleftrightarrow> (\<forall>b. Booted b \<notin> set es)"

definition watcherProcess :: "deps \<Rightarrow> event list \<Rightarrow> nat \<Rightarrow> bool" where
  "watcherProcess d es i \<longleftrightarrow>
     (\<exists>fuel rest r. exec (Run fuel d) (requestsOf i es @ rest) r) \<and>
     (\<exists>pre life post. es = pre @ life @ post \<and> requestsOf i pre = [] \<and> requestsOf i post = [] \<and> noBoot life)"

section \<open>Histories\<close>

lemma requestsOf_append [simp]: "requestsOf i (xs @ ys) = requestsOf i xs @ requestsOf i ys"
  by (induction i xs rule: requestsOf.induct) auto

lemma requestsOf_event: "(q, x) \<in> set (requestsOf i es) \<longleftrightarrow> Asked i q x \<in> set es"
  by (induction i es rule: requestsOf.induct) auto

lemma noBoot_simps [simp]:
  "noBoot []" "noBoot (Asked i q x # es) \<longleftrightarrow> noBoot es" "\<not> noBoot (Booted b # es)" "noBoot (JobChanged # es) \<longleftrightarrow> noBoot es"
  "noBoot (xs @ ys) \<longleftrightarrow> noBoot xs \<and> noBoot ys"
  by (auto simp: noBoot_def)

lemma history_append: "history w (xs @ ys) w2 \<longleftrightarrow> (\<exists>w1. history w xs w1 \<and> history w1 ys w2)"
proof (induction xs arbitrary: w)
  case Nil
  then show ?case by (auto intro: start elim: history_NilE)
next
  case (Cons e xs)
  show ?case
  proof
    assume "history w ((e # xs) @ ys) w2"
    then obtain wm where "step w e wm" "history wm (xs @ ys) w2" by (auto elim: history_ConsE)
    with Cons.IH show "\<exists>w1. history w (e # xs) w1 \<and> history w1 ys w2" by (blast intro: next_step)
  next
    assume "\<exists>w1. history w (e # xs) w1 \<and> history w1 ys w2"
    then obtain w1 wm where "step w e wm" "history wm xs w1" "history w1 ys w2" by (auto elim: history_ConsE)
    with Cons.IH show "history w ((e # xs) @ ys) w2" by (auto intro: next_step)
  qed
qed

text \<open>Boots only add IDs, all different, and a history without a boot keeps the current one.\<close>

lemma history_boots: "history w es w2 \<Longrightarrow> \<exists>news. boots w2 = news @ boots w \<and> (news = [] \<longleftrightarrow> noBoot es)"
  by (induction rule: history.induct) (auto elim!: step.cases)

lemma history_distinct: "history w es w2 \<Longrightarrow> distinct (boots w) \<Longrightarrow> distinct (boots w2)"
  by (induction rule: history.induct) (auto elim!: step.cases)

text \<open>The report of the Job does not change once it is there.\<close>

lemma history_report:
  "history w es w2 \<Longrightarrow> FromJobPods (upgradePods w) \<noteq> [] \<Longrightarrow> FromJobPods (upgradePods w2) = FromJobPods (upgradePods w)"
  by (induction rule: history.induct) (auto elim!: step.cases)

section \<open>What a watcher has seen when it asks for a reboot\<close>

text \<open>Two requests of one process have no boot between them.\<close>

lemma skip_left: "xs @ ys = us @ z # vs \<Longrightarrow> z \<notin> set xs \<Longrightarrow> \<exists>u. ys = u @ z # vs"
  by (auto simp: append_eq_append_conv2 append_eq_Cons_conv)

lemma skip_right: "xs @ ys = us @ z # vs \<Longrightarrow> z \<notin> set ys \<Longrightarrow> \<exists>v. xs = us @ z # v"
  by (auto simp: append_eq_append_conv2 Cons_eq_append_conv append_eq_Cons_conv)

lemma in_between:
  assumes "pre @ life @ post = a @ x # b @ y # c" "x \<notin> set pre" "y \<notin> set post"
  shows "\<exists>u v. life = u @ x # b @ y # v"
proof -
  from skip_left [OF assms(1,2)] obtain u where "life @ post = (u @ x # b) @ y # c" by auto
  from skip_right [OF this assms(3)] show ?thesis by auto
qed

lemma one_life:
  assumes "watcherProcess d (a @ Asked i q x # b @ Asked i q' x' # c) i"
  shows "noBoot b"
proof -
  from assms obtain pre life post where h: "pre @ life @ post = a @ Asked i q x # b @ Asked i q' x' # c"
      "requestsOf i pre = []" "requestsOf i post = []" "noBoot life"
    unfolding watcherProcess_def by metis
  have "Asked i q x \<notin> set pre" "Asked i q' x' \<notin> set post"
    using h(2,3) requestsOf_event [of q x i pre] requestsOf_event [of q' x' i post] by auto
  from in_between [OF h(1) this] h(4) show ?thesis by auto
qed

text \<open>
  When a process asks for a reboot, the Job's report is the ID of the boot the node is in.
\<close>

lemma request_same_boot:
  assumes p: "watcherProcess d (t1 @ Asked i CallReboot x # t2) i" and h: "history w0 t1 w1" and ne: "boots w0 \<noteq> []"
  shows "FromJobPods (upgradePods w1) = hd (boots w1) \<and> FromJobPods (upgradePods w1) \<noteq> []"
proof -
  from p obtain fuel rest r where
    "exec (Run fuel d) (requestsOf i t1 @ (CallReboot, x) # requestsOf i t2 @ rest) r"
    unfolding watcherProcess_def by auto
  from reboot_request [OF this] obtain b ps ns sel where
    b: "b = FromJobPods ps" "Valid b" and l: "Asked i (WatchListPods ns sel) (WPods (Inr ps)) \<in> set t1"
    and r: "Asked i CallReadBootID (WString b) \<in> set t1"
    unfolding upgradeDone_def requestsOf_event by blast
  have bn: "b \<noteq> []" using b(2) by auto
  from l obtain a c where t1: "t1 = a @ Asked i (WatchListPods ns sel) (WPods (Inr ps)) # c" by (meson split_list)
  from h obtain u where "history u c w1" "FromJobPods (upgradePods u) = b"
    unfolding t1 history_append by (auto elim!: history_ConsE step_askE simp: b(1))
  with history_report bn have rep: "FromJobPods (upgradePods w1) = b" by metis
  from r obtain a' c' where t1': "t1 = a' @ Asked i CallReadBootID (WString b) # c'" by (meson split_list)
  have "noBoot c'" using p one_life [of d a' i _ _ c' CallReboot x t2] by (simp add: t1')
  moreover from h obtain v where v: "history w0 a' v" "history v c' w1" "b = hd (boots v)"
    unfolding t1' history_append using bn by (auto elim!: history_ConsE step_askE)
  ultimately have "boots w1 = boots v" using history_boots [OF v(2)] by auto
  then show ?thesis using rep v(3) bn by simp
qed

section \<open>Property\<close>

text \<open>A container whose reboot command fails, and the one started in its place, for the witness.\<close>

definition sample_world :: world where
  "sample_world = \<lparr>boots = [sample_boot_id], upgradeJobNow = Some finished_job, upgradePods = [reported_pod]\<rparr>"

definition sample_reads :: "(watch_req \<times> watch_resp) list" where
  "sample_reads = [(WatchGetJob ''system'' ''up-n1-abcde'', WJob (Inr finished_job)),
     (WatchListPods ''system'' ''batch.kubernetes.io/job-name=up-n1-abcde'', WPods (Inr [reported_pod])),
     (CallReadBootID, WString sample_boot_id)]"

definition asked :: "nat \<Rightarrow> (watch_req \<times> watch_resp) list \<Rightarrow> event list" where
  "asked i tr = map (\<lambda>(q, x). Asked i q x) tr"

lemma requestsOf_asked: "requestsOf i (asked k tr) = (if k = i then tr else [])"
  by (induction tr) (auto simp: asked_def)

lemma noBoot_asked: "noBoot (asked i tr)"
  by (auto simp: asked_def noBoot_def)

lemma sample_reads_answers: "(q, x) \<in> set sample_reads \<Longrightarrow> answers sample_world q x"
  by (auto simp: sample_reads_def sample_world_def)

lemma history_asked: "(\<And>q x. (q, x) \<in> set tr \<Longrightarrow> answers w q x) \<Longrightarrow> history w (asked i tr) w"
  by (induction tr) (auto simp: asked_def intro!: start next_step ask)

lemma sample_reads_history: "history sample_world (asked i sample_reads) sample_world"
  by (intro history_asked sample_reads_answers)

lemma sample_reads_run:
  "exec (Run 1 sample_deps) (sample_reads @ [(CallReboot, WUnit (Inl e))]) (Some (Inl (Wrapf ''reboot'' e)))"
  "exec (Run 1 sample_deps) (sample_reads @ [(CallReboot, WUnit (Inr ())), (WaitFor defaultRebootTimeout, WUnit (Inl e))]) (Some (Inl e))"
  by (simp_all add: exec_iff_scripted sample_reads_def watcher_eval sample_boot_id_nonempty jobNameLabel_def
    del: FromJobPods.simps)

text \<open>
  C4. However the reboot Pods of an upgrade Job are restarted and created again, and whatever else
  reboots the node, all the reboots they ask for are asked in one boot of the node: once the node has
  come up on another boot, no process of theirs asks for a reboot again.
\<close>

theorem no_reboot_loop:
  assumes "history w0 (t1 @ Asked i CallReboot x # t2 @ Asked k CallReboot y # t3) w"
    and "boots w0 \<noteq> []" "distinct (boots w0)"
    and "\<And>n. watcherProcess d (t1 @ Asked i CallReboot x # t2 @ Asked k CallReboot y # t3) n"
  shows "noBoot t2"
proof -
  from assms(1) obtain w1 w2 where w1: "history w0 t1 w1" and w2: "history w1 t2 w2"
    unfolding history_append by (auto elim!: history_ConsE step_askE simp: history_append)
  have w02: "history w0 (t1 @ Asked i CallReboot x # t2) w2"
    using assms(1) w1 w2
    by (auto simp: history_append intro!: exI [of _ w1] next_step elim!: history_ConsE step_askE intro: ask)
  have one: "FromJobPods (upgradePods w1) = hd (boots w1)" "FromJobPods (upgradePods w1) \<noteq> []"
    using request_same_boot [OF assms(4) w1 assms(2)] by auto
  have "watcherProcess d ((t1 @ Asked i CallReboot x # t2) @ Asked k CallReboot y # t3) k"
    using assms(4) by simp
  from request_same_boot [OF this w02 assms(2)] have two: "FromJobPods (upgradePods w2) = hd (boots w2)" by auto
  obtain news0 where n0: "boots w1 = news0 @ boots w0" using history_boots [OF w1] by auto
  obtain news where n: "boots w2 = news @ boots w1" "news = [] \<longleftrightarrow> noBoot t2" using history_boots [OF w2] by auto
  have "hd (boots w2) = hd (boots w1)" using one two history_report [OF w2] by simp
  moreover have "distinct (boots w2)" using history_distinct [OF w2] history_distinct [OF w1 assms(3)] by simp
  moreover have "boots w1 \<noteq> []" using n0 assms(2) by simp
  ultimately have "news = []" using n(1) by (cases news; cases "boots w1") auto
  with n(2) show ?thesis by simp
qed

theorem no_reboot_loop_witness:
  "noBoot (asked 2 sample_reads) \<and>
   (\<exists>w. history sample_world (asked 1 sample_reads @ Asked 1 CallReboot (WUnit (Inl (Errorf ''exit 1''))) #
      asked 2 sample_reads @ Asked 2 CallReboot (WUnit (Inr ())) # [Booted ''b2'']) w)"
proof -
  define es where "es = asked 1 sample_reads @ Asked 1 CallReboot (WUnit (Inl (Errorf ''exit 1''))) #
      asked 2 sample_reads @ Asked 2 CallReboot (WUnit (Inr ())) # [Booted ''b2'']"
  have h: "history sample_world es (sample_world\<lparr>boots := [''b2'', sample_boot_id]\<rparr>)"
  proof -
    have "step sample_world (Booted ''b2'') (sample_world\<lparr>boots := ''b2'' # boots sample_world\<rparr>)"
      by (rule boot) (simp add: sample_world_def sample_boot_id_def)
    then have "history sample_world [Booted ''b2''] (sample_world\<lparr>boots := [''b2'', sample_boot_id]\<rparr>)"
      by (auto simp: sample_world_def intro!: next_step start)
    then show ?thesis
      unfolding es_def history_append
      by (auto intro!: exI [of _ sample_world] next_step [OF ask] sample_reads_history simp: history_append)
  qed
  have p: "watcherProcess sample_deps es n" for n
  proof -
    have life: "es = [] @ (asked 1 sample_reads @ Asked 1 CallReboot (WUnit (Inl (Errorf ''exit 1''))) #
      asked 2 sample_reads @ [Asked 2 CallReboot (WUnit (Inr ()))]) @ [Booted ''b2'']"
      by (simp add: es_def)
    have "\<exists>fuel rest r. exec (Run fuel sample_deps) (requestsOf n es @ rest) r"
    proof -
      consider "n = 1" | "n = 2" | "n \<noteq> 1" "n \<noteq> 2" by blast
      then show ?thesis
      proof cases
        case 1
        then show ?thesis using sample_reads_run(1) [of "Errorf ''exit 1''"]
          by (intro exI [of _ 1] exI [of _ "[]"]) (auto simp: es_def requestsOf_asked)
      next
        case 2
        then show ?thesis using sample_reads_run(2) [of "Errorf ''killed''"]
          by (intro exI [of _ 1] exI [of _ "[(WaitFor defaultRebootTimeout, WUnit (Inl (Errorf ''killed'')))]"])
            (auto simp: es_def requestsOf_asked)
      next
        case 3
        then show ?thesis
          by (intro exI [of _ 0] exI [of _ "[]"]) (auto simp: es_def requestsOf_asked Run_def sample_deps_def)
      qed
    qed
    moreover have "\<exists>pre life post. es = pre @ life @ post \<and> requestsOf n pre = [] \<and> requestsOf n post = [] \<and> noBoot life"
      by (rule exI, rule exI, rule exI, rule conjI, rule life) (simp add: noBoot_asked)
    ultimately show ?thesis unfolding watcherProcess_def by blast
  qed
  have "noBoot (asked 2 sample_reads)"
    by (rule no_reboot_loop [OF h [unfolded es_def] _ _ p [unfolded es_def]]) (simp_all add: sample_world_def)
  then show ?thesis using h unfolding es_def by blast
qed

end
