(* ===== verification/NodeOpUpgrade.thy ===== *)
theory NodeOpUpgrade
  imports NodeOpCtl
begin

text \<open>
  The NodeOpUpgrade controller (nodeopupgrade_controller.go): the NodeOp it creates, with the
  shell scripts it generates, the status it copies back, and what holds of the NodeOp
  controller running such a NodeOp.
\<close>

section \<open>Constants\<close>

definition kindNodeOpUpgrade :: string where [kconst]: "kindNodeOpUpgrade = ''NodeOpUpgrade''"
definition phaseInitializing :: string where [kconst]: "phaseInitializing = ''Initializing''"
definition labelKeyNodeOpUpgrade :: string where [kconst]: "labelKeyNodeOpUpgrade = ''nodeopupgrade.kairos.io/name''"
definition emptyImageMessage :: string where [kconst]:
  "emptyImageMessage = ''spec.image is empty, set it to the image to upgrade to; no node was touched''"

abbreviation upgradeForced :: "node_op_upgrade \<Rightarrow> bool" where
  "upgradeForced u \<equiv> getBool (upForce (upSpec u)) UpgradeForceDefault"
abbreviation upgradesRecovery :: "node_op_upgrade \<Rightarrow> bool" where
  "upgradesRecovery u \<equiv> getBool (upUpgradeRecovery (upSpec u)) UpgradeRecoveryDefault"
abbreviation upgradesActive :: "node_op_upgrade \<Rightarrow> bool" where
  "upgradesActive u \<equiv> getBool (upUpgradeActive (upSpec u)) UpgradeActiveDefault"

section \<open>The scripts\<close>

definition versionDetectionSnippet :: string where
  \<open>versionDetectionSnippet = text_lines
    ['': "${TARGET_KAIROS_RELEASE:=/etc/kairos-release}"'',
     '': "${TARGET_OS_RELEASE:=/etc/os-release}"'',
     '': "${HOST_KAIROS_RELEASE:='' @ defaultHostMountPath @ ''/etc/kairos-release}"'',
     '': "${HOST_OS_RELEASE:='' @ defaultHostMountPath @ ''/etc/os-release}"'',
     [],
     ''get_version() {'',
     ''    local file_path="$1"'',
     ''    if [ ! -f "$file_path" ]; then'',
     ''        echo ""'',
     ''        return 0'',
     ''    fi'',
     ''    # shellcheck disable=SC1090'',
     ''    . "$file_path"'',
     ''    if [ -z "${KAIROS_VERSION}" ]; then'',
     ''        echo ""'',
     ''        return 0'',
     ''    fi'',
     ''    echo "${KAIROS_VERSION}-${KAIROS_SOFTWARE_VERSION_PREFIX}${KAIROS_SOFTWARE_VERSION}"'',
     ''}'',
     [],
     ''TARGET=$(get_version "${TARGET_KAIROS_RELEASE}")'',
     ''if [ -z "${TARGET}" ]; then'',
     ''    TARGET=$(get_version "${TARGET_OS_RELEASE}")'',
     ''fi'',
     [],
     ''CURRENT=$(get_version "${HOST_KAIROS_RELEASE}")'',
     ''if [ -z "${CURRENT}" ]; then'',
     ''    CURRENT=$(get_version "${HOST_OS_RELEASE}")'',
     ''fi'',
     [],
     ''echo "Host: ${CURRENT:-unknown}, Target: ${TARGET:-unknown}"'']\<close>

definition sameVersionTest :: string where
  \<open>sameVersionTest = ''if [ -n "${CURRENT}" ] && [ -n "${TARGET}" ] && [ "${CURRENT}" = "${TARGET}" ]; then''\<close>

definition upgradePreflightScript :: string where
  \<open>upgradePreflightScript =
     text_lines [''set -e'', '': "${TERMINATION_LOG:=/dev/termination-log}"'', []] @
     versionDetectionSnippet @
     text_lines [[], sameVersionTest, ''    echo "node is already at ${TARGET}" > "${TERMINATION_LOG}"'', ''fi'', ''exit 0'']\<close>

definition buildUpgradePreflight :: "node_op_upgrade \<Rightarrow> preflight_spec option" where
  "buildUpgradePreflight u =
     (if upgradeForced u \<or> upgradesRecovery u then None
      else Some \<lparr>pfCommand = [''/bin/sh'', ''-c'', upgradePreflightScript], pfImage = [],
                 pfActiveDeadlineSeconds = Some 120\<rparr>)"

text \<open>A single quote inside single quotes: close, escaped quote, reopen.\<close>

definition quote_escape :: string where "quote_escape = [CHR 0x27, CHR 0x5C, CHR 0x27, CHR 0x27]"

definition buildExcludePathFlags :: "string list \<Rightarrow> string" where
  "buildExcludePathFlags userPaths =
     (let all = upgradeAlwaysExcludePaths @ userPaths in
      concat (map (\<lambda>p. '' --exclude-path '' @ [quote_char] @ ReplaceAllChar p quote_char quote_escape @ [quote_char]) all))"

definition upgradeAgent :: "node_op_upgrade \<Rightarrow> string" where
  "upgradeAgent u =
     ''kairos-agent'' @ (if getBool (upDebug (upSpec u)) UpgradeDebugDefault then '' --debug'' else [])"

definition upgradeLine :: "node_op_upgrade \<Rightarrow> bool \<Rightarrow> string" where
  "upgradeLine u recovery =
     upgradeAgent u @ '' upgrade'' @ (if recovery then '' --recovery'' else []) @ '' --source dir:/'' @
     buildExcludePathFlags (upExcludePaths (upSpec u))"

definition upgradeSteps :: "node_op_upgrade \<Rightarrow> string" where
  "upgradeSteps u =
     (if upgradesRecovery u \<and> upgradesActive u then
        text_lines [''# Upgrade recovery partition'', upgradeLine u True, [],
                    ''# Upgrade active partition'', upgradeLine u False, ''exit 0'']
      else if upgradesRecovery u then
        text_lines [''# Upgrade recovery partition only'', upgradeLine u True, ''exit 0'']
      else if upgradesActive u then
        text_lines [''# Upgrade active partition'', upgradeLine u False, ''exit 0'']
      else
        text_lines [''# Upgrade active partition (default)'', upgradeLine u False, ''exit 0''])"

definition upToDateCheck :: string where
  \<open>upToDateCheck = versionDetectionSnippet @ text_lines
    [[], sameVersionTest, ''  echo Up to date'', ''  echo "Current version: ${CURRENT}"'',
     ''  echo "Update version: ${TARGET}"'', ''  exit 0'', ''fi'', []]\<close>

definition upgradeScript :: "node_op_upgrade \<Rightarrow> string" where
  "upgradeScript u =
     text_lines [''set -x -e'', []] @
     (if \<not> upgradeForced u \<and> \<not> upgradesRecovery u then upToDateCheck else []) @
     text_lines [''mount --rbind '' @ defaultHostMountPath @ ''/dev /dev'',
                 ''mount --rbind '' @ defaultHostMountPath @ ''/run /run'', []] @
     upgradeSteps u"

definition generateUpgradeCommand :: "node_op_upgrade \<Rightarrow> string list" where
  "generateUpgradeCommand u = [''/bin/sh'', ''-c'', upgradeScript u]"

section \<open>The NodeOp of an upgrade\<close>

definition upgradeNodeOp :: "node_op_upgrade \<Rightarrow> node_op" where
  "upgradeNodeOp u =
     \<lparr>opMeta = SetControllerReference kindNodeOpUpgrade (upMeta u)
        (empty_meta\<lparr>Name := Name (upMeta u), Namespace := Namespace (upMeta u),
           Labels := [(''app.kubernetes.io/managed-by'', ''nodeopupgrade-controller''),
                      (labelKeyNodeOpUpgrade, Name (upMeta u))]\<rparr>),
      opSpec = \<lparr>opNodeSelector = upNodeSelector (upSpec u), opCommand = generateUpgradeCommand u,
        opHostMountPath = defaultHostMountPath, opImage = upImage (upSpec u),
        opImagePullSecrets = upImagePullSecrets (upSpec u), opCordon = asBool True,
        opUncordonOnFailure = upUncordonOnFailure (upSpec u),
        opDrainOptions = Some \<lparr>drEnabled = asBool True, drForce = None, drGracePeriodSeconds = None,
          drIgnoreDaemonSets = None, drDeleteEmptyDirData = None, drTimeoutSeconds = None\<rparr>,
        opRebootOnSuccess = Some (upgradesActive u), opBackoffLimit = None,
        opConcurrency = upConcurrency (upSpec u), opStopOnFailure = upStopOnFailure (upSpec u),
        opPreflight = buildUpgradePreflight u, opResources = upResources (upSpec u),
        opPreflightResources = upPreflightResources (upSpec u), opRebootResources = upRebootResources (upSpec u)\<rparr>,
      opStatus = \<lparr>stPhase = [], NodeStatuses = [], stLastUpdated = Time 0\<rparr>\<rparr>"

text \<open>createNodeOp of this controller.\<close>

definition createUpgradeNodeOp :: "node_op_upgrade \<Rightarrow> unit res nprog" where
  "createUpgradeNodeOp u = createNodeOpObj (upgradeNodeOp u)"

section \<open>Its status\<close>

definition upgradeMessage :: "string \<Rightarrow> string" where
  "upgradeMessage phase =
     (if phase = phaseRunning then ''Upgrade operation is running''
      else if phase = phaseCompleted then ''Upgrade operation completed successfully''
      else if phase = phaseFailed then ''Upgrade operation failed''
      else ''Upgrade operation is pending'')"

text \<open>The loop over the NodeOp's node statuses, with \<open>statusChanged\<close>.\<close>

definition copyNodeStatus ::
  "(string \<times> node_status) list \<times> bool \<Rightarrow> string \<times> node_status \<Rightarrow> (string \<times> node_status) list \<times> bool" where
  "copyNodeStatus s e = (case s of (m, changed) \<Rightarrow> case e of (n, st) \<Rightarrow>
     if map_of m n \<noteq> Some st then (put n st m, True) else (m, changed))"

definition mirrorStatus :: "node_op \<Rightarrow> node_op_upgrade_status \<Rightarrow> node_op_upgrade_status \<times> bool" where
  "mirrorStatus op us =
     (let c1 = usPhase us \<noteq> stPhase (opStatus op);
          us1 = us\<lparr>usPhase := stPhase (opStatus op)\<rparr>;
          (m, c2) = foldl copyNodeStatus (usNodeStatuses us1, c1) (statuses op);
          newMessage = upgradeMessage (stPhase (opStatus op));
          us2 = us1\<lparr>usNodeStatuses := m\<rparr>
      in if usMessage us2 \<noteq> newMessage then (us2\<lparr>usMessage := newMessage\<rparr>, True) else (us2, c2))"

definition updateStatusFromNodeOp :: "node_op_upgrade \<Rightarrow> node_op \<Rightarrow> unit res nprog" where
  "updateStatusFromNodeOp u op =
     (let (us, statusChanged) = mirrorStatus op (upStatus u) in
      if statusChanged
      then bind now (\<lambda>t. updateUpgradeStatus (u\<lparr>upStatus := us\<lparr>usLastUpdated := t\<rparr>\<rparr>))
      else Ret (Inr ()))"

definition markEmptyImage :: "node_op_upgrade \<Rightarrow> unit res nprog" where
  "markEmptyImage u =
     (if usPhase (upStatus u) = phaseFailed \<and> usMessage (upStatus u) = emptyImageMessage then Ret (Inr ())
      else bind now (\<lambda>t. updateUpgradeStatus (u\<lparr>upStatus := (upStatus u)
        \<lparr>usPhase := phaseFailed, usMessage := emptyImageMessage, usLastUpdated := t\<rparr>\<rparr>)))"

text \<open>Reconcile of this controller; the result is the requeue delay in seconds, 0 for none.\<close>

definition upgradeReconcile :: "string \<Rightarrow> string \<Rightarrow> nat res nprog" where
  "upgradeReconcile ns n =
     bind (getUpgrade ns n) (\<lambda>got. case got of
       Inl e \<Rightarrow> if IsNotFound e then Ret (Inr 0) else Ret (Inl e)
     | Inr u \<Rightarrow> bind (getNodeOpObj (Namespace (upMeta u)) (Name (upMeta u))) (\<lambda>found. case found of
         Inl e \<Rightarrow>
           if \<not> IsNotFound e then Ret (Inl e)
           else if upImage (upSpec u) = [] then attempt (markEmptyImage u) (\<lambda>_. Ret (Inr 0))
           else attempt (createUpgradeNodeOp u) (\<lambda>_.
             bind now (\<lambda>t.
             attempt (updateUpgradeStatus (u\<lparr>upStatus := (upStatus u)\<lparr>usPhase := phaseInitializing,
                 usNodeOpName := Name (upMeta u), usMessage := ''NodeOp created'', usLastUpdated := t\<rparr>\<rparr>)) (\<lambda>_.
             Ret (Inr 10))))
       | Inr op \<Rightarrow> attempt (updateStatusFromNodeOp u op) (\<lambda>_. Ret (Inr 30))))"

definition findNodeOpUpgradesForNodeOp :: "node_op \<Rightarrow> request list" where
  "findNodeOpUpgradesForNodeOp op =
     (case map_of (Labels (opMeta op)) labelKeyNodeOpUpgrade of
        Some n \<Rightarrow> [\<lparr>reqName = n, reqNamespace = Namespace (opMeta op)\<rparr>]
      | None \<Rightarrow> [])"

section \<open>What the version check decides\<close>

text \<open>
  The shell fragments' own logic, over the variables a release file sets when it is sourced
  (\<open>None\<close> for no such file) and the environment of the container. Each \<open>get_version\<close> runs in a
  subshell, so it sees the environment and that one file.
\<close>

definition get_version :: "(string \<Rightarrow> strmap option) \<Rightarrow> strmap \<Rightarrow> string \<Rightarrow> string" where
  "get_version files env path =
     (case files path of
        None \<Rightarrow> []
      | Some vars \<Rightarrow>
          (let val = get_or_empty (vars @ env) in
           if val ''KAIROS_VERSION'' = [] then []
           else val ''KAIROS_VERSION'' @ ''-'' @ val ''KAIROS_SOFTWARE_VERSION_PREFIX'' @ val ''KAIROS_SOFTWARE_VERSION''))"

definition env_default :: "strmap \<Rightarrow> string \<Rightarrow> string \<Rightarrow> string" where
  "env_default env v d = (if get_or_empty env v = [] then d else get_or_empty env v)"

definition detectVersions :: "(string \<Rightarrow> strmap option) \<Rightarrow> strmap \<Rightarrow> string \<times> string" where
  "detectVersions files env =
     (let target1 = get_version files env (env_default env ''TARGET_KAIROS_RELEASE'' ''/etc/kairos-release'');
          target = (if target1 = []
            then get_version files env (env_default env ''TARGET_OS_RELEASE'' ''/etc/os-release'') else target1);
          current1 = get_version files env (env_default env ''HOST_KAIROS_RELEASE'' (defaultHostMountPath @ ''/etc/kairos-release''));
          current = (if current1 = []
            then get_version files env (env_default env ''HOST_OS_RELEASE'' (defaultHostMountPath @ ''/etc/os-release'')) else current1)
      in (target, current))"

definition preflightSkipMessage :: "(string \<Rightarrow> strmap option) \<Rightarrow> strmap \<Rightarrow> string" where
  "preflightSkipMessage files env = (case detectVersions files env of (target, current) \<Rightarrow>
     if current \<noteq> [] \<and> target \<noteq> [] \<and> current = target then ''node is already at '' @ target @ newline else [])"

definition upgradeUpToDate :: "(string \<Rightarrow> strmap option) \<Rightarrow> strmap \<Rightarrow> bool" where
  "upgradeUpToDate files env = (case detectVersions files env of (target, current) \<Rightarrow>
     current \<noteq> [] \<and> target \<noteq> [] \<and> current = target)"

section \<open>How a shell reads a command line\<close>

text \<open>
  Word splitting and quote removal of a simple command, as POSIX describes them, for lines made
  of blanks, single-quoted parts, backslash escapes and plain characters; any other character
  (an operator, an expansion, a double quote) makes the reading undefined. This is the
  specification the flags are measured against.
\<close>

datatype lex_state = Blank | InWord string | InQuote string | Escaped string

definition plain_char :: "char \<Rightarrow> bool" where
  "plain_char c \<longleftrightarrow> c \<in> set ''abcdefghijklmnopqrstuvwxyzABCDEFGHIJKLMNOPQRSTUVWXYZ0123456789-_./:=,+@%''"

fun sh_words :: "lex_state \<Rightarrow> string \<Rightarrow> string list option" where
  "sh_words Blank [] = Some []"
| "sh_words (InWord w) [] = Some [w]"
| "sh_words (InQuote w) [] = None"
| "sh_words (Escaped w) [] = None"
| "sh_words Blank (c # s) =
     (if c = CHR 0x20 then sh_words Blank s
      else if c = CHR 0x27 then sh_words (InQuote []) s
      else if c = CHR 0x5C then sh_words (Escaped []) s
      else if plain_char c then sh_words (InWord [c]) s else None)"
| "sh_words (InWord w) (c # s) =
     (if c = CHR 0x20 then map_option (Cons w) (sh_words Blank s)
      else if c = CHR 0x27 then sh_words (InQuote w) s
      else if c = CHR 0x5C then sh_words (Escaped w) s
      else if plain_char c then sh_words (InWord (w @ [c])) s else None)"
| "sh_words (InQuote w) (c # s) =
     (if c = CHR 0x27 then sh_words (InWord w) s else sh_words (InQuote (w @ [c])) s)"
| "sh_words (Escaped w) (c # s) = (if c = CHR 0x0A then None else sh_words (InWord (w @ [c])) s)"

definition shell_argv :: "string \<Rightarrow> string list option" where
  "shell_argv line = sh_words Blank line"

lemma plain_char_special: "plain_char c \<Longrightarrow> c \<noteq> CHR 0x20 \<and> c \<noteq> CHR 0x27 \<and> c \<noteq> CHR 0x5C"
  by (auto simp: plain_char_def)

lemma sh_plain_word: "list_all plain_char p \<Longrightarrow> sh_words (InWord w) (p @ s) = sh_words (InWord (w @ p)) s"
  by (induction p arbitrary: w) (auto dest: plain_char_special)

lemma sh_plain_first:
  assumes "list_all plain_char p" and "p \<noteq> []"
  shows "sh_words Blank (p @ s) = sh_words (InWord p) s"
  using assms by (cases p) (auto simp: sh_plain_word dest: plain_char_special)

lemma sh_escaped_quote: "sh_words (InQuote w) (quote_escape @ s) = sh_words (InQuote (w @ [quote_char])) s"
  by (simp add: quote_escape_def quote_char_def)

lemma ReplaceAllChar_Cons:
  "ReplaceAllChar (c # p) old new = (if c = old then new else [c]) @ ReplaceAllChar p old new"
  by (simp add: ReplaceAllChar_def)

text \<open>A quoted path reads back as itself, whatever its bytes are.\<close>

lemma sh_quoted_body:
  "sh_words (InQuote w) (ReplaceAllChar p quote_char quote_escape @ quote_char # s) = sh_words (InWord (w @ p)) s"
proof (induction p arbitrary: w)
  case Nil
  then show ?case by (simp add: ReplaceAllChar_def quote_char_def)
next
  case (Cons c p)
  show ?case
  proof (cases "c = quote_char")
    case True
    then show ?thesis using Cons [of "w @ [c]"] by (simp add: ReplaceAllChar_Cons sh_escaped_quote)
  next
    case False
    then show ?thesis using Cons [of "w @ [c]"] by (simp add: ReplaceAllChar_Cons quote_char_def)
  qed
qed

definition exclude_flag :: "string \<Rightarrow> string" where
  "exclude_flag p = '' --exclude-path '' @ [quote_char] @ ReplaceAllChar p quote_char quote_escape @ [quote_char]"

lemma sh_exclude_flag:
  "sh_words (InWord w) (exclude_flag p @ s) = map_option (\<lambda>ws. w # ''--exclude-path'' # ws) (sh_words (InWord p) s)"
proof -
  have "sh_words (InWord w) (exclude_flag p @ s) =
      map_option (Cons w) (sh_words Blank (''--exclude-path'' @ CHR 0x20 # quote_char # ReplaceAllChar p quote_char quote_escape @ quote_char # s))"
    by (simp add: exclude_flag_def)
  also have "sh_words Blank (''--exclude-path'' @ CHR 0x20 # quote_char # ReplaceAllChar p quote_char quote_escape @ quote_char # s) =
      sh_words (InWord ''--exclude-path'') (CHR 0x20 # quote_char # ReplaceAllChar p quote_char quote_escape @ quote_char # s)"
    by (rule sh_plain_first) (simp_all add: plain_char_def)
  also have "\<dots> = map_option (Cons ''--exclude-path'') (sh_words (InQuote []) (ReplaceAllChar p quote_char quote_escape @ quote_char # s))"
    by (simp add: quote_char_def)
  also have "\<dots> = map_option (Cons ''--exclude-path'') (sh_words (InWord p) s)"
    by (simp add: sh_quoted_body)
  finally show ?thesis by (simp add: option.map_comp comp_def)
qed

lemma sh_exclude_flags:
  "sh_words (InWord w) (concat (map exclude_flag ps)) = Some (w # concat (map (\<lambda>p. [''--exclude-path'', p]) ps))"
  by (induction ps arbitrary: w) (simp_all add: sh_exclude_flag)

lemma sh_next_word:
  assumes "list_all plain_char p" and "p \<noteq> []"
  shows "sh_words (InWord w) (CHR 0x20 # p @ s) = map_option (Cons w) (sh_words (InWord p) s)"
  using sh_plain_first [OF assms] by simp

lemma buildExcludePathFlags_flags:
  "buildExcludePathFlags ps = concat (map exclude_flag (upgradeAlwaysExcludePaths @ ps))"
  by (simp add: buildExcludePathFlags_def Let_def exclude_flag_def [abs_def])

lemma sh_plain_words:
  assumes "list_all (\<lambda>p. p \<noteq> [] \<and> list_all plain_char p) ws"
  shows "sh_words (InWord w) (concat (map (Cons (CHR 0x20)) ws) @ concat (map exclude_flag ps)) =
    Some (w # ws @ concat (map (\<lambda>p. [''--exclude-path'', p]) ps))"
  using assms
proof (induction ws arbitrary: w)
  case Nil
  then show ?case by (simp add: sh_exclude_flags)
next
  case (Cons v ws)
  then have "sh_words (InWord w) (CHR 0x20 # v @ concat (map (Cons (CHR 0x20)) ws) @ concat (map exclude_flag ps)) =
      map_option (Cons w) (sh_words (InWord v) (concat (map (Cons (CHR 0x20)) ws) @ concat (map exclude_flag ps)))"
    by (intro sh_next_word) simp_all
  with Cons show ?case by simp
qed

section \<open>Executions\<close>

lemma exec_markEmptyImage:
  assumes "exec (markEmptyImage u) tr r"
  shows "(tr = [] \<longleftrightarrow> usPhase (upStatus u) = phaseFailed \<and> usMessage (upStatus u) = emptyImageMessage) \<and>
    (\<forall>q x. (q, x) \<in> set tr \<longrightarrow> q = Now \<or> (\<exists>t. q = UpdateNodeOpUpgradeStatus (u\<lparr>upStatus := (upStatus u)
      \<lparr>usPhase := phaseFailed, usMessage := emptyImageMessage, usLastUpdated := t\<rparr>\<rparr>)))"
proof (cases "usPhase (upStatus u) = phaseFailed \<and> usMessage (upStatus u) = emptyImageMessage")
  case True
  with assms show ?thesis by (simp add: markEmptyImage_def)
next
  case False
  with assms show ?thesis
    unfolding markEmptyImage_def now_def updateUpgradeStatus_def by (auto simp: exec_ask_bind exec_ask)
qed

text \<open>The status written after the NodeOp was created, and the one that says the image is missing.\<close>

definition createdStatus :: "node_op_upgrade \<Rightarrow> time \<Rightarrow> node_op_upgrade_status" where
  "createdStatus u t = (upStatus u)\<lparr>usPhase := phaseInitializing, usNodeOpName := Name (upMeta u),
     usMessage := ''NodeOp created'', usLastUpdated := t\<rparr>"

definition saysNoImage :: "node_op_upgrade_status \<Rightarrow> bool" where
  "saysNoImage us \<longleftrightarrow> usPhase us = phaseFailed \<and> usMessage us = emptyImageMessage"

lemma exec_upgradeReconcile:
  assumes "exec (upgradeReconcile ns n) tr r"
  obtains (no_upgrade) x where "tr = [(GetNodeOpUpgrade ns n, x)]"
    | (no_answer) u y e where "r = Inl e" "\<not> IsNotFound e"
      "tr = [(GetNodeOpUpgrade ns n, RUpgrade (Inr u)), (GetNodeOp (Namespace (upMeta u)) (Name (upMeta u)), y)]"
    | (no_image) u y e t where "asNodeOp y = Inl e" "IsNotFound e" "upImage (upSpec u) = []"
      "exec (attempt (markEmptyImage u) (\<lambda>_. Ret (Inr 0))) t r"
      "tr = (GetNodeOpUpgrade ns n, RUpgrade (Inr u)) # (GetNodeOp (Namespace (upMeta u)) (Name (upMeta u)), y) # t"
    | (creates) u y e z t where "asNodeOp y = Inl e" "IsNotFound e" "upImage (upSpec u) \<noteq> []"
      "tr = (GetNodeOpUpgrade ns n, RUpgrade (Inr u)) # (GetNodeOp (Namespace (upMeta u)) (Name (upMeta u)), y) #
         (CreateNodeOp (upgradeNodeOp u), z) # t"
      "z \<noteq> RUnit (Inr ()) \<Longrightarrow> t = []"
      "\<And>q x. (q, x) \<in> set t \<Longrightarrow> q = Now \<or> (\<exists>tm. q = UpdateNodeOpUpgradeStatus (u\<lparr>upStatus := createdStatus u tm\<rparr>))"
    | (mirrors) u op t where
      "tr = (GetNodeOpUpgrade ns n, RUpgrade (Inr u)) #
         (GetNodeOp (Namespace (upMeta u)) (Name (upMeta u)), RNodeOp (Inr op)) # t"
      "exec (attempt (updateStatusFromNodeOp u op) (\<lambda>_. Ret (Inr 30))) t r"
proof -
  define made where "made = (\<lambda>u. bind now (\<lambda>t.
      attempt (updateUpgradeStatus (u\<lparr>upStatus := createdStatus u t\<rparr>)) (\<lambda>_. Ret (Inr (10 :: nat)))))"
  define go where "go = (\<lambda>u found. case found of
         Inl e \<Rightarrow>
           if \<not> IsNotFound e then Ret (Inl e)
           else if upImage (upSpec u) = [] then attempt (markEmptyImage u) (\<lambda>_. Ret (Inr 0))
           else attempt (createUpgradeNodeOp u) (\<lambda>_. made u)
       | Inr op \<Rightarrow> attempt (updateStatusFromNodeOp u op) (\<lambda>_. Ret (Inr 30)))"
  from assms obtain x t where tr: "tr = (GetNodeOpUpgrade ns n, x) # t"
    and rest: "exec (case asUpgrade x of
        Inl e \<Rightarrow> if IsNotFound e then Ret (Inr 0) else Ret (Inl e)
      | Inr u \<Rightarrow> bind (ask (GetNodeOp (Namespace (upMeta u)) (Name (upMeta u))) asNodeOp) (go u)) t r"
    unfolding upgradeReconcile_def getUpgrade_def getNodeOpObj_def exec_ask_bind go_def made_def createdStatus_def by blast
  show thesis
  proof (cases "asUpgrade x")
    case (Inl e)
    with rest tr show thesis by (intro no_upgrade [of x]) (auto split: if_splits)
  next
    case (Inr u)
    then have x: "x = RUpgrade (Inr u)" by simp
    from rest Inr have "exec (bind (ask (GetNodeOp (Namespace (upMeta u)) (Name (upMeta u))) asNodeOp) (go u)) t r" by simp
    then obtain y t2 where t: "t = (GetNodeOp (Namespace (upMeta u)) (Name (upMeta u)), y) # t2"
      and y: "exec (go u (asNodeOp y)) t2 r" unfolding exec_ask_bind by blast
    show thesis
    proof (cases "asNodeOp y")
      case (Inr op)
      then have "exec (attempt (updateStatusFromNodeOp u op) (\<lambda>_. Ret (Inr 30))) t2 r" using y by (simp add: go_def)
      then show thesis using Inr by (intro mirrors [of u op t2]) (simp_all add: tr t x)
    next
      case (Inl e)
      consider "\<not> IsNotFound e" | "IsNotFound e" "upImage (upSpec u) = []" | "IsNotFound e" "upImage (upSpec u) \<noteq> []" by blast
      then show thesis
      proof cases
        case 1
        with y Inl show thesis by (intro no_answer [of e u y]) (simp_all add: go_def tr t x)
      next
        case 2
        with y Inl show thesis by (intro no_image [of y e u t2]) (simp_all add: go_def tr t x)
      next
        case 3
        with y Inl have "exec (attempt (ask (CreateNodeOp (upgradeNodeOp u)) asUnit) (\<lambda>_. made u)) t2 r"
          by (simp add: go_def createUpgradeNodeOp_def createNodeOpObj_def)
        then obtain z t3 where t2: "t2 = (CreateNodeOp (upgradeNodeOp u), z) # t3"
          and z: "exec (case asUnit z of Inl e \<Rightarrow> Ret (Inl e) | Inr _ \<Rightarrow> made u) t3 r"
          unfolding attempt_def exec_ask_bind by blast
        have late: "q = Now \<or> (\<exists>tm. q = UpdateNodeOpUpgradeStatus (u\<lparr>upStatus := createdStatus u tm\<rparr>))"
          if "exec (made u) t3 r" "(q, x) \<in> set t3" for q x
        proof -
          have "only (\<lambda>q. q = Now \<or> (\<exists>tm. q = UpdateNodeOpUpgradeStatus (u\<lparr>upStatus := createdStatus u tm\<rparr>))) (made u)"
            unfolding made_def now_def updateUpgradeStatus_def by (intro only_bind only_attempt) auto
          then show ?thesis using only_exec that by fast
        qed
        have "z \<noteq> RUnit (Inr ()) \<Longrightarrow> t3 = []" using z by (cases "asUnit z") auto
        moreover have "q = Now \<or> (\<exists>tm. q = UpdateNodeOpUpgradeStatus (u\<lparr>upStatus := createdStatus u tm\<rparr>))"
          if "(q, x) \<in> set t3" for q x
          using z late that by (cases "asUnit z") auto
        ultimately show thesis using Inl 3 by (intro creates [of y e u z t3]) (auto simp: tr t x t2)
      qed
    qed
  qed
qed

text \<open>The abstract view: what an up-to-date NodeOpUpgrade status is.\<close>

definition upToDate :: "node_op \<Rightarrow> node_op_upgrade_status \<Rightarrow> bool" where
  "upToDate op us \<longleftrightarrow> usPhase us = stPhase (opStatus op) \<and>
     usMessage us = upgradeMessage (stPhase (opStatus op)) \<and>
     map_of (statuses op) \<subseteq>\<^sub>m map_of (usNodeStatuses us)"

lemma copyNodeStatus_step:
  "copyNodeStatus (m, c) (n, st) = (if map_of m n \<noteq> Some st then (put n st m, True) else (m, c))"
  by (simp add: copyNodeStatus_def)

lemma copyNodeStatus_fold:
  "distinct (map fst es) \<Longrightarrow> foldl copyNodeStatus (m, c) es = (m', c') \<Longrightarrow>
   map_of m' = map_of m ++ map_of es \<and> c' = (c \<or> \<not> map_of es \<subseteq>\<^sub>m map_of m)"
proof (induction es arbitrary: m c)
  case Nil
  then show ?case by simp
next
  case (Cons e es)
  obtain n st where e: "e = (n, st)" by (cases e)
  have fresh: "map_of es n = None" using Cons.prems(1) by (simp add: e map_of_eq_None_iff)
  show ?case
  proof (cases "map_of m n = Some st")
    case True
    then have "foldl copyNodeStatus (m, c) es = (m', c')" using Cons.prems(2) by (simp add: e copyNodeStatus_step)
    with Cons have IH: "map_of m' = map_of m ++ map_of es" "c' = (c \<or> \<not> map_of es \<subseteq>\<^sub>m map_of m)" by auto
    have "map_of m ++ map_of (e # es) = map_of m ++ map_of es"
      using True fresh by (auto simp: e fun_eq_iff map_add_def split: option.splits)
    moreover have "map_of (e # es) \<subseteq>\<^sub>m map_of m \<longleftrightarrow> map_of es \<subseteq>\<^sub>m map_of m"
      using True fresh by (auto simp: e map_le_def dom_def) (metis option.distinct(1))
    ultimately show ?thesis using IH by metis
  next
    case False
    then have "foldl copyNodeStatus (put n st m, True) es = (m', c')"
      using Cons.prems(2) by (simp add: e copyNodeStatus_step)
    with Cons have IH: "map_of m' = map_of (put n st m) ++ map_of es" "c'" by auto
    have "map_of (put n st m) ++ map_of es = map_of m ++ map_of (e # es)"
      using fresh by (auto simp: e fun_eq_iff map_add_def split: option.splits)
    moreover have "\<not> map_of (e # es) \<subseteq>\<^sub>m map_of m" using False by (auto simp: e map_le_def dom_def)
    ultimately show ?thesis using IH by metis
  qed
qed

lemma mirrorStatus_spec:
  assumes "wf_map (statuses op)" and "mirrorStatus op us = (us', changed)"
  shows "upToDate op us' \<and> changed = (\<not> upToDate op us) \<and>
    map_of (usNodeStatuses us') = map_of (usNodeStatuses us) ++ map_of (statuses op) \<and>
    usNodeOpName us' = usNodeOpName us"
proof -
  obtain m c where f: "foldl copyNodeStatus (usNodeStatuses us, usPhase us \<noteq> stPhase (opStatus op)) (statuses op) = (m, c)"
    by (meson surj_pair)
  have m: "map_of m = map_of (usNodeStatuses us) ++ map_of (statuses op)"
    "c = (usPhase us \<noteq> stPhase (opStatus op) \<or> \<not> map_of (statuses op) \<subseteq>\<^sub>m map_of (usNodeStatuses us))"
    using copyNodeStatus_fold [OF _ f] assms(1) by (simp_all add: wf_map_def)
  show ?thesis using assms(2) m
    by (auto simp: mirrorStatus_def f upToDate_def Let_def split: if_splits)
qed

section \<open>Properties\<close>

text \<open>What updateStatusFromNodeOp writes: this upgrade, with another status.\<close>

lemma mirrorStatus_message: "mirrorStatus op us = (us', c) \<Longrightarrow> usMessage us' = upgradeMessage (stPhase (opStatus op))"
  by (auto simp: mirrorStatus_def Let_def split: prod.splits if_splits)

lemma exec_updateStatusFromNodeOp:
  assumes "exec (updateStatusFromNodeOp u op) tr r" and "(q, x) \<in> set tr"
  shows "q = Now \<or> (\<exists>us. q = UpdateNodeOpUpgradeStatus (u\<lparr>upStatus := us\<rparr>) \<and>
    usMessage us = upgradeMessage (stPhase (opStatus op)))"
proof -
  obtain us c where m: "mirrorStatus op (upStatus u) = (us, c)" by (meson surj_pair)
  show ?thesis
  proof (cases c)
    case False
    with assms m show ?thesis by (simp add: updateStatusFromNodeOp_def)
  next
    case True
    with assms(1) m obtain tm y where
      "tr = [(Now, tm), (UpdateNodeOpUpgradeStatus (u\<lparr>upStatus := us\<lparr>usLastUpdated := asTime tm\<rparr>\<rparr>), y)]"
      unfolding updateStatusFromNodeOp_def now_def updateUpgradeStatus_def by (auto simp: exec_ask_bind exec_ask)
    with assms(2) mirrorStatus_message [OF m] show ?thesis by auto
  qed
qed

lemma upgrade_messages: "upgradeMessage p \<noteq> ''NodeOp created''" "emptyImageMessage \<noteq> ''NodeOp created''"
  by (simp_all add: upgradeMessage_def emptyImageMessage_def)

text \<open>The trace of one reconcile of the upgrade \<open>u\<close>, as far as it writes.\<close>

definition upgradeWrites :: "node_op_upgrade \<Rightarrow> trace \<Rightarrow> bool" where
  "upgradeWrites u tr \<longleftrightarrow>
     guarded (\<lambda>g _. fst g = GetNodeOp (Namespace (upMeta u)) (Name (upMeta u)) \<and>
       (\<exists>e. asNodeOp (snd g) = Inl e \<and> IsNotFound e)) (\<lambda>e. \<exists>op. fst e = CreateNodeOp op) tr \<and>
     (\<forall>op x. (CreateNodeOp op, x) \<in> set tr \<longrightarrow> op = upgradeNodeOp u \<and> upImage (upSpec u) \<noteq> []) \<and>
     (\<forall>q x. (q, x) \<in> set tr \<longrightarrow> mutating q \<longrightarrow>
        q = CreateNodeOp (upgradeNodeOp u) \<or> (\<exists>us. q = UpdateNodeOpUpgradeStatus (u\<lparr>upStatus := us\<rparr>))) \<and>
     guarded (\<lambda>g _. g = (CreateNodeOp (upgradeNodeOp u), RUnit (Inr ())))
       (\<lambda>e. \<exists>us. fst e = UpdateNodeOpUpgradeStatus (u\<lparr>upStatus := us\<rparr>) \<and> usMessage us = ''NodeOp created'') tr \<and>
     (upImage (upSpec u) = [] \<longrightarrow>
        (\<nexists>op. (GetNodeOp (Namespace (upMeta u)) (Name (upMeta u)), RNodeOp (Inr op)) \<in> set tr) \<longrightarrow>
        (\<forall>q x. (q, x) \<in> set tr \<longrightarrow> mutating q \<longrightarrow>
           \<not> saysNoImage (upStatus u) \<and> (\<exists>us. q = UpdateNodeOpUpgradeStatus (u\<lparr>upStatus := us\<rparr>) \<and> saysNoImage us)))"

lemma upgradeWrites_status_only:
  assumes "\<And>q x. (q, x) \<in> set tr \<Longrightarrow> mutating q \<Longrightarrow>
      \<exists>us. q = UpdateNodeOpUpgradeStatus (u\<lparr>upStatus := us\<rparr>) \<and> usMessage us \<noteq> ''NodeOp created''"
    and "upImage (upSpec u) = [] \<Longrightarrow>
      \<nexists>op. (GetNodeOp (Namespace (upMeta u)) (Name (upMeta u)), RNodeOp (Inr op)) \<in> set tr \<Longrightarrow>
      \<forall>q x. (q, x) \<in> set tr \<longrightarrow> mutating q \<longrightarrow>
        \<not> saysNoImage (upStatus u) \<and> (\<exists>us. q = UpdateNodeOpUpgradeStatus (u\<lparr>upStatus := us\<rparr>) \<and> saysNoImage us)"
  shows "upgradeWrites u tr"
proof -
  have no: "(CreateNodeOp op, x) \<notin> set tr" for op x using assms(1) [of "CreateNodeOp op" x] by auto
  have same: "us = us'" if "u\<lparr>upStatus := us\<rparr> = u\<lparr>upStatus := us'\<rparr>" for us us'
    using arg_cong [OF that, of upStatus] by simp
  have made: "\<not> (\<exists>us. fst e = UpdateNodeOpUpgradeStatus (u\<lparr>upStatus := us\<rparr>) \<and> usMessage us = ''NodeOp created'')" if "e \<in> set tr" for e
  proof
    assume "\<exists>us. fst e = UpdateNodeOpUpgradeStatus (u\<lparr>upStatus := us\<rparr>) \<and> usMessage us = ''NodeOp created''"
    then obtain us where us: "fst e = UpdateNodeOpUpgradeStatus (u\<lparr>upStatus := us\<rparr>)" "usMessage us = ''NodeOp created''" by blast
    have "(UpdateNodeOpUpgradeStatus (u\<lparr>upStatus := us\<rparr>), snd e) \<in> set tr" using that us(1) by (metis prod.collapse)
    from assms(1) [OF this] obtain us' where "u\<lparr>upStatus := us\<rparr> = u\<lparr>upStatus := us'\<rparr>" "usMessage us' \<noteq> ''NodeOp created''" by auto
    with us(2) same show False by blast
  qed
  have none: "\<not> (\<exists>op. fst e = CreateNodeOp op)" if "e \<in> set tr" for e using that no by (metis prod.collapse)
  have own: "\<forall>q x. (q, x) \<in> set tr \<longrightarrow> mutating q \<longrightarrow>
      q = CreateNodeOp (upgradeNodeOp u) \<or> (\<exists>us. q = UpdateNodeOpUpgradeStatus (u\<lparr>upStatus := us\<rparr>))"
    using assms(1) by blast
  show ?thesis
    unfolding upgradeWrites_def
    by (intro conjI guarded_none [OF none] guarded_none [OF made] own impI) (use no assms(2) in simp_all)
qed

lemma upgradeReconcile_writes:
  assumes "exec (upgradeReconcile ns n) tr r" and "(GetNodeOpUpgrade ns n, RUpgrade (Inr u)) \<in> set tr"
  shows "upgradeWrites u tr"
  using assms(1)
proof (cases rule: exec_upgradeReconcile)
  case (no_upgrade x)
  then show ?thesis by (intro upgradeWrites_status_only) auto
next
  case (no_answer u' y e)
  then show ?thesis by (intro upgradeWrites_status_only) auto
next
  case (no_image u' y e t)
  have t: "\<exists>r'. exec (markEmptyImage u') t r'" using no_image(4) by (auto simp: exec_attempt)
  have w: "q = Now \<or> (\<not> saysNoImage (upStatus u') \<and> (\<exists>us. q = UpdateNodeOpUpgradeStatus (u'\<lparr>upStatus := us\<rparr>) \<and> saysNoImage us))"
    if "(q, x) \<in> set t" for q x
  proof (cases "saysNoImage (upStatus u')")
    case True
    with t that show ?thesis by (auto simp: markEmptyImage_def saysNoImage_def)
  next
    case False
    from t obtain r' where "exec (markEmptyImage u') t r'" ..
    from exec_markEmptyImage [OF this] that consider "q = Now"
      | tm where "q = UpdateNodeOpUpgradeStatus (u'\<lparr>upStatus := (upStatus u')
      \<lparr>usPhase := phaseFailed, usMessage := emptyImageMessage, usLastUpdated := tm\<rparr>\<rparr>)" by blast
    then show ?thesis
    proof cases
      case (2 tm)
      have "saysNoImage ((upStatus u')\<lparr>usPhase := phaseFailed, usMessage := emptyImageMessage, usLastUpdated := tm\<rparr>)"
        by (simp add: saysNoImage_def)
      with 2 False show ?thesis by blast
    qed simp
  qed
  have "(GetNodeOpUpgrade ns n, x) \<notin> set t" for x using w by blast
  with assms(2) no_image(5) have u: "u' = u" by auto
  have "saysNoImage us \<Longrightarrow> usMessage us \<noteq> ''NodeOp created''" for us using upgrade_messages(2) by (simp add: saysNoImage_def)
  with w no_image(5) u show ?thesis by (intro upgradeWrites_status_only) fastforce+
next
  case (creates u' y e z t)
  have "(GetNodeOpUpgrade ns n, x) \<notin> set t" for x using creates(6) by blast
  with assms(2) creates(4) have u: "u' = u" by auto
  define pre where "pre = [(GetNodeOpUpgrade ns n, RUpgrade (Inr u)), (GetNodeOp (Namespace (upMeta u)) (Name (upMeta u)), y)]"
  have tr: "tr = pre @ (CreateNodeOp (upgradeNodeOp u), z) # t" by (simp add: creates(4) u pre_def)
  have late: "\<not> (\<exists>op. fst ev = CreateNodeOp op)" if "ev \<in> set t" for ev using creates(6) [of "fst ev" "snd ev"] that by auto
  have "guarded (\<lambda>g _. fst g = GetNodeOp (Namespace (upMeta u)) (Name (upMeta u)) \<and>
      (\<exists>e. asNodeOp (snd g) = Inl e \<and> IsNotFound e)) (\<lambda>e. \<exists>op. fst e = CreateNodeOp op) tr"
    unfolding tr by (rule guarded_single) (use creates(1,2) late in \<open>auto simp: pre_def\<close>)
  moreover have "op = upgradeNodeOp u" if "(CreateNodeOp op, x) \<in> set tr" for op x
    using that late [of "(CreateNodeOp op, x)"] by (auto simp: tr pre_def)
  moreover have "q = CreateNodeOp (upgradeNodeOp u) \<or> (\<exists>us. q = UpdateNodeOpUpgradeStatus (u\<lparr>upStatus := us\<rparr>))"
    if "(q, x) \<in> set tr" "mutating q" for q x
    using that creates(6) [of q x] by (auto simp: tr pre_def u)
  moreover have "guarded (\<lambda>g _. g = (CreateNodeOp (upgradeNodeOp u), RUnit (Inr ())))
      (\<lambda>e. \<exists>us. fst e = UpdateNodeOpUpgradeStatus (u\<lparr>upStatus := us\<rparr>) \<and> usMessage us = ''NodeOp created'') tr"
  proof (cases "z = RUnit (Inr ())")
    case True
    have "guarded (\<lambda>g _. g = (CreateNodeOp (upgradeNodeOp u), RUnit (Inr ())))
      (\<lambda>e. \<exists>us. fst e = UpdateNodeOpUpgradeStatus (u\<lparr>upStatus := us\<rparr>) \<and> usMessage us = ''NodeOp created'')
      ((pre @ [(CreateNodeOp (upgradeNodeOp u), z)]) @ t)"
      by (rule guarded_append) (auto intro!: guarded_none simp: pre_def True)
    then show ?thesis by (simp add: tr)
  next
    case False
    then show ?thesis using creates(5) by (intro guarded_none) (auto simp: tr pre_def)
  qed
  moreover have "upImage (upSpec u) \<noteq> []" using creates(3) u by simp
  ultimately show ?thesis unfolding upgradeWrites_def by blast
next
  case (mirrors u' op t)
  have "\<exists>r'. exec (updateStatusFromNodeOp u' op) t r'" using mirrors(2) by (auto simp: exec_attempt)
  then have w: "q = Now \<or> (\<exists>us. q = UpdateNodeOpUpgradeStatus (u'\<lparr>upStatus := us\<rparr>) \<and> usMessage us \<noteq> ''NodeOp created'')"
    if "(q, x) \<in> set t" for q x
    using exec_updateStatusFromNodeOp that upgrade_messages(1) by metis
  have "(GetNodeOpUpgrade ns n, x) \<notin> set t" for x using w by blast
  with assms(2) mirrors(1) have u: "u' = u" by auto
  with mirrors(1) w show ?thesis by (intro upgradeWrites_status_only) fastforce+
qed

text \<open>
  C32. What a reconcile writes for an upgrade. A NodeOp is created only after the API server answered
  that there is none of that name, only with an image set, and it is the one the specification of the
  upgrade calls for. Nothing else is written but the status of this very upgrade, its metadata and
  specification as read. That the NodeOp was created is written only after it was. With no image and
  no NodeOp, a status that says that the image is missing is written, and only when it does not say so yet.
\<close>

theorem upgrade_creates_one_nodeop:
  assumes "exec (upgradeReconcile ns n) tr r" and "(GetNodeOpUpgrade ns n, RUpgrade (Inr u)) \<in> set tr"
  shows "guarded (\<lambda>g _. fst g = GetNodeOp (Namespace (upMeta u)) (Name (upMeta u)) \<and>
       (\<exists>e. asNodeOp (snd g) = Inl e \<and> IsNotFound e)) (\<lambda>e. \<exists>op. fst e = CreateNodeOp op) tr \<and>
     (\<forall>op x. (CreateNodeOp op, x) \<in> set tr \<longrightarrow> op = upgradeNodeOp u \<and> upImage (upSpec u) \<noteq> []) \<and>
     (\<forall>q x. (q, x) \<in> set tr \<longrightarrow> mutating q \<longrightarrow>
        q = CreateNodeOp (upgradeNodeOp u) \<or> (\<exists>us. q = UpdateNodeOpUpgradeStatus (u\<lparr>upStatus := us\<rparr>))) \<and>
     guarded (\<lambda>g _. g = (CreateNodeOp (upgradeNodeOp u), RUnit (Inr ())))
       (\<lambda>e. \<exists>us. fst e = UpdateNodeOpUpgradeStatus (u\<lparr>upStatus := us\<rparr>) \<and> usMessage us = ''NodeOp created'') tr \<and>
     (upImage (upSpec u) = [] \<longrightarrow>
        (\<nexists>op. (GetNodeOp (Namespace (upMeta u)) (Name (upMeta u)), RNodeOp (Inr op)) \<in> set tr) \<longrightarrow>
        (\<forall>q x. (q, x) \<in> set tr \<longrightarrow> mutating q \<longrightarrow>
           \<not> saysNoImage (upStatus u) \<and> (\<exists>us. q = UpdateNodeOpUpgradeStatus (u\<lparr>upStatus := us\<rparr>) \<and> saysNoImage us)))"
  using upgradeReconcile_writes [OF assms] unfolding upgradeWrites_def .

definition sample_upgrade :: node_op_upgrade where
  "sample_upgrade = \<lparr>upMeta = sample_meta ''up'',
     upSpec = \<lparr>upNodeSelector = None, upImage = ''img'', upImagePullSecrets = [], upConcurrency = 1,
       upStopOnFailure = None, upUpgradeRecovery = None, upUpgradeActive = None, upForce = None, upDebug = None,
       upUncordonOnFailure = None, upExcludePaths = [], upResources = None, upPreflightResources = None,
       upRebootResources = None\<rparr>,
     upStatus = \<lparr>usPhase = [], usNodeOpName = [], usNodeStatuses = [], usMessage = [], usLastUpdated = Time 0\<rparr>\<rparr>"

lemma sample_upgrade_facts:
  "Name (upMeta sample_upgrade) = ''up''" "Namespace (upMeta sample_upgrade) = ''system''"
  "upImage (upSpec sample_upgrade) = ''img''"
  by (simp_all add: sample_upgrade_def sample_meta_def)

theorem upgrade_creates_one_nodeop_witness:
  "guarded (\<lambda>g _. fst g = GetNodeOp ''system'' ''up'' \<and> (\<exists>e. asNodeOp (snd g) = Inl e \<and> IsNotFound e))
     (\<lambda>e. \<exists>op. fst e = CreateNodeOp op)
     [(GetNodeOpUpgrade ''system'' ''up'', RUpgrade (Inr sample_upgrade)),
      (GetNodeOp ''system'' ''up'', RNodeOp (Inl (ApiError NotFound []))),
      (CreateNodeOp (upgradeNodeOp sample_upgrade), RUnit (Inl (ApiError Conflict [])))]"
proof -
  have "exec (upgradeReconcile ''system'' ''up'')
     [(GetNodeOpUpgrade ''system'' ''up'', RUpgrade (Inr sample_upgrade)),
      (GetNodeOp ''system'' ''up'', RNodeOp (Inl (ApiError NotFound []))),
      (CreateNodeOp (upgradeNodeOp sample_upgrade), RUnit (Inl (ApiError Conflict [])))] (Inl (ApiError Conflict []))"
    by (simp add: exec_iff_scripted upgradeReconcile_def client_defs ask_def attempt_def sample_upgrade_facts
        createUpgradeNodeOp_def IsNotFound_def)
  from upgrade_creates_one_nodeop [OF this, of sample_upgrade] show ?thesis
    by (simp add: sample_upgrade_facts)
qed

text \<open>
  The NodeOp of an upgrade: it always cordons and drains, reboots exactly when the active
  partition is asked for, checks versions in a preflight exactly when neither forced nor
  upgrading the recovery partition, belongs to the upgrade, and its events find the upgrade.
\<close>

theorem upgradeNodeOp_contract:
  "cordonRequested (upgradeNodeOp u) \<and>
   (\<exists>d. opDrainOptions (opSpec (upgradeNodeOp u)) = Some d \<and> getBool (drEnabled d) DrainEnabledDefault) \<and>
   rebootRequested (upgradeNodeOp u) = upgradesActive u \<and>
   (opPreflight (opSpec (upgradeNodeOp u)) = None) = (upgradeForced u \<or> upgradesRecovery u) \<and>
   IsControlledBy (opMeta (upgradeNodeOp u)) (upMeta u) \<and>
   findNodeOpUpgradesForNodeOp (upgradeNodeOp u) =
     [\<lparr>reqName = Name (upMeta u), reqNamespace = Namespace (upMeta u)\<rparr>]"
  by (simp add: upgradeNodeOp_def buildUpgradePreflight_def controlled_by_owner empty_meta_def
      findNodeOpUpgradesForNodeOp_def SetControllerReference_def IsControlledBy_def GetControllerOf_def kconst)

text \<open>
  C33. The agent's command line reads back word for word: whatever bytes the excluded paths
  hold, a POSIX shell passes the agent each of them, unchanged and as one argument, after the
  paths the operator always excludes.
\<close>

theorem exclude_paths_roundtrip:
  "shell_argv (upgradeLine u recovery) = Some (''kairos-agent'' #
     (if getBool (upDebug (upSpec u)) UpgradeDebugDefault then [''--debug''] else []) @ ''upgrade'' #
     (if recovery then [''--recovery''] else []) @ ''--source'' # ''dir:/'' #
     concat (map (\<lambda>p. [''--exclude-path'', p]) (upgradeAlwaysExcludePaths @ upExcludePaths (upSpec u))))"
proof -
  define ws where "ws = (if getBool (upDebug (upSpec u)) UpgradeDebugDefault then [''--debug''] else []) @ [''upgrade''] @
    (if recovery then [''--recovery''] else []) @ [''--source'', ''dir:/'']"
  define ps where "ps = upgradeAlwaysExcludePaths @ upExcludePaths (upSpec u)"
  have "upgradeLine u recovery = ''kairos-agent'' @ concat (map (Cons (CHR 0x20)) ws) @ concat (map exclude_flag ps)"
    by (simp add: upgradeLine_def upgradeAgent_def buildExcludePathFlags_flags ws_def ps_def)
  then have "shell_argv (upgradeLine u recovery) =
      sh_words (InWord ''kairos-agent'') (concat (map (Cons (CHR 0x20)) ws) @ concat (map exclude_flag ps))"
    unfolding shell_argv_def by (simp only:) (rule sh_plain_first, simp_all add: plain_char_def)
  also have "\<dots> = Some (''kairos-agent'' # ws @ concat (map (\<lambda>p. [''--exclude-path'', p]) ps))"
    by (rule sh_plain_words) (simp add: ws_def plain_char_def)
  finally show ?thesis by (simp add: ws_def ps_def)
qed

text \<open>
  C34. How the upgrade's status follows the NodeOp's. A pass writes nothing exactly when the status is up
  to date: it has the NodeOp's phase, the message for it, and the status of every node the NodeOp
  reports. What it writes is this upgrade with an up-to-date status, so the write does not trigger
  another one: the node statuses it had, overridden by the NodeOp's. A node the NodeOp no longer reports
  thus keeps its entry; while there is none the node statuses are exactly the NodeOp's.
\<close>

theorem upgrade_status_follows:
  assumes "exec (updateStatusFromNodeOp u op) tr r" and "wf_map (statuses op)"
  shows "(tr = []) = upToDate op (upStatus u) \<and>
    (\<forall>u' x. (UpdateNodeOpUpgradeStatus u', x) \<in> set tr \<longrightarrow> upToDate op (upStatus u') \<and>
       u' = u\<lparr>upStatus := upStatus u'\<rparr> \<and> usNodeOpName (upStatus u') = usNodeOpName (upStatus u) \<and>
       map_of (usNodeStatuses (upStatus u')) = map_of (usNodeStatuses (upStatus u)) ++ map_of (statuses op) \<and>
       (fst ` set (usNodeStatuses (upStatus u)) \<subseteq> fst ` set (statuses op) \<longrightarrow>
          map_of (usNodeStatuses (upStatus u')) = map_of (statuses op)))"
proof -
  obtain us changed where m: "mirrorStatus op (upStatus u) = (us, changed)" by (meson surj_pair)
  note spec = mirrorStatus_spec [OF assms(2) m]
  have later: "upToDate op (us\<lparr>usLastUpdated := t\<rparr>)" for t using spec by (simp add: upToDate_def)
  have covered: "map_of xs ++ map_of ys = map_of ys" if "fst ` set xs \<subseteq> fst ` set ys" for xs ys :: "(string \<times> node_status) list"
  proof
    fix k
    show "(map_of xs ++ map_of ys) k = map_of ys k"
    proof (cases "map_of ys k")
      case None
      with that have "map_of xs k = None" unfolding map_of_eq_None_iff by blast
      with None show ?thesis by (simp add: map_add_def)
    qed (simp add: map_add_def)
  qed
  show ?thesis
  proof (cases changed)
    case False
    with assms(1) m have "tr = []" by (simp add: updateStatusFromNodeOp_def)
    with False spec show ?thesis by simp
  next
    case True
    with assms(1) m obtain tm x where tr: "tr = [(Now, tm), (UpdateNodeOpUpgradeStatus (u\<lparr>upStatus := us\<lparr>usLastUpdated := asTime tm\<rparr>\<rparr>), x)]"
      unfolding updateStatusFromNodeOp_def now_def updateUpgradeStatus_def by (auto simp: exec_ask_bind exec_ask)
    show ?thesis using True spec later covered by (auto simp: tr)
  qed
qed

theorem upgrade_status_follows_witness:
  "upToDate (sample_op\<lparr>opStatus := \<lparr>stPhase = phaseRunning, NodeStatuses = [(''n1'', preflightStarted (Time 1))], stLastUpdated = Time 1\<rparr>\<rparr>)
     \<lparr>usPhase = phaseRunning, usNodeOpName = [], usNodeStatuses = [(''n1'', preflightStarted (Time 1))],
      usMessage = ''Upgrade operation is running'', usLastUpdated = Time 2\<rparr>"
proof -
  define op where "op = sample_op\<lparr>opStatus := \<lparr>stPhase = phaseRunning, NodeStatuses = [(''n1'', preflightStarted (Time 1))], stLastUpdated = Time 1\<rparr>\<rparr>"
  define us where "us = \<lparr>usPhase = phaseRunning, usNodeOpName = [], usNodeStatuses = [(''n1'', preflightStarted (Time 1))],
      usMessage = ''Upgrade operation is running'', usLastUpdated = Time 2\<rparr>"
  have "exec (updateStatusFromNodeOp sample_upgrade op)
      [(Now, RTime (Time 2)), (UpdateNodeOpUpgradeStatus (sample_upgrade\<lparr>upStatus := us\<rparr>), RUnit (Inr ()))] (Inr ())"
    by (simp add: exec_iff_scripted updateStatusFromNodeOp_def mirrorStatus_def copyNodeStatus_step client_defs ask_def
        op_def us_def sample_upgrade_def upgradeMessage_def put_def Let_def)
  moreover have "wf_map (statuses op)" by (simp add: op_def wf_map_def)
  ultimately have "upToDate op (upStatus (sample_upgrade\<lparr>upStatus := us\<rparr>))"
    using upgrade_status_follows by fastforce
  then show ?thesis by (simp add: op_def us_def)
qed

end
