(* ===== verification/Labeler.thy ===== *)
theory Labeler
  imports NodeCordon GoStrings
begin

text \<open>
  The node-labeler program (cmd/node-labeler/labeler.go and main.go): what it reads on the host,
  the labels and annotations it derives, and the merge patch it sends. Strings are bytes, so
  where the code goes by runes the model decodes UTF-8 as Go does.
\<close>

section \<open>Surroundings\<close>

datatype file_result = NoFile | FileError | Contents string

datatype label_req =
    ReadFile string
  | LabelerGetNode string
  | PatchNode string "(string \<times> string option) list" "(string \<times> string option) list"
  | LabelerGetenv string
  | NextTick

datatype label_resp =
    FileResp file_result
  | NodeResp "node res"
  | DoneResp "unit res"
  | EnvResp string

type_synonym 'a lprog = "(label_req, label_resp, 'a) prog"

definition asFile :: "label_resp \<Rightarrow> file_result" where
  "asFile r = (case r of FileResp f \<Rightarrow> f | _ \<Rightarrow> FileError)"
definition asNodeResp :: "label_resp \<Rightarrow> node res" where
  "asNodeResp r = (case r of NodeResp n \<Rightarrow> n | _ \<Rightarrow> Inl decodeError)"
definition asDone :: "label_resp \<Rightarrow> unit res" where
  "asDone r = (case r of DoneResp u \<Rightarrow> u | _ \<Rightarrow> Inl decodeError)"
definition asEnv :: "label_resp \<Rightarrow> string" where
  "asEnv r = (case r of EnvResp s \<Rightarrow> s | _ \<Rightarrow> [])"

lemma ldecoded [simp]:
  "asFile (FileResp f) = f" "asNodeResp (NodeResp n) = n" "asDone (DoneResp u) = u" "asEnv (EnvResp s) = s"
  "asNodeResp r = Inr nd \<longleftrightarrow> r = NodeResp (Inr nd)" "asDone r = Inr () \<longleftrightarrow> r = DoneResp (Inr ())"
  by (auto simp: asFile_def asNodeResp_def asDone_def asEnv_def split: label_resp.splits)

definition lask :: "label_req \<Rightarrow> (label_resp \<Rightarrow> 'a) \<Rightarrow> 'a lprog" where
  "lask q dec = Call q (\<lambda>r. Ret (dec r))"

lemma exec_lask_bind:
  "exec (bind (lask q dec) f) tr b \<longleftrightarrow> (\<exists>r t. tr = (q, r) # t \<and> exec (f (dec r)) t b)"
  by (auto simp: lask_def exec_Call_iff)

lemma exec_lask: "exec (lask q dec) tr a \<longleftrightarrow> (\<exists>r. tr = [(q, r)] \<and> dec r = a)"
  by (auto simp: lask_def exec_Call_iff)

lemma only_lask [simp]: "only A (lask q dec) = A q"
  by (simp add: lask_def)

section \<open>Runes\<close>

text \<open>
  The number of bytes \<open>utf8.DecodeRune\<close> consumes at the start of a non-empty string; an ill-formed
  sequence counts as one rune of one byte.
\<close>

definition cont :: "nat \<Rightarrow> bool" where "cont b \<longleftrightarrow> 128 \<le> b \<and> b \<le> 191"

definition rune_len :: "string \<Rightarrow> nat" where
  "rune_len s = (case map of_char (take 4 s) of
      b0 # b1 # rest \<Rightarrow>
        if 194 \<le> b0 \<and> b0 \<le> 223 \<and> cont b1 then 2
        else (case rest of
            b2 # rest2 \<Rightarrow>
              if cont b2 \<and> (b0 = 224 \<and> 160 \<le> b1 \<and> b1 \<le> 191 \<or> b0 = 237 \<and> 128 \<le> b1 \<and> b1 \<le> 159 \<or>
                  225 \<le> b0 \<and> b0 \<le> 239 \<and> b0 \<noteq> 237 \<and> cont b1) then 3
              else (case rest2 of
                  b3 # _ \<Rightarrow>
                    if cont b2 \<and> cont b3 \<and> (b0 = 240 \<and> 144 \<le> b1 \<and> b1 \<le> 191 \<or>
                        241 \<le> b0 \<and> b0 \<le> 243 \<and> cont b1 \<or> b0 = 244 \<and> 128 \<le> b1 \<and> b1 \<le> 143) then 4 else 1
                | [] \<Rightarrow> 1)
          | [] \<Rightarrow> 1)
    | _ \<Rightarrow> 1)"

section \<open>Parsing\<close>

text \<open>bufio.ScanLines: split at newlines, without the empty piece at the end, one carriage return dropped.\<close>

fun splitLines :: "string \<Rightarrow> string \<Rightarrow> string list" where
  "splitLines cur [] = (if cur = [] then [] else [cur])"
| "splitLines cur (c # s) = (if c = CHR 0x0A then cur # splitLines [] s else splitLines (cur @ [c]) s)"

definition dropCR :: "string \<Rightarrow> string" where
  "dropCR l = (if l \<noteq> [] \<and> last l = CHR 0x0D then butlast l else l)"

text \<open>A line that does not fit the scanner's buffer of 64 KiB stops the scan with an error.\<close>

definition maxLine :: nat where "maxLine = 65536"

fun Cut :: "string \<Rightarrow> char \<Rightarrow> (string \<times> string) option" where
  "Cut [] sep = None"
| "Cut (c # s) sep = (if c = sep then Some ([], s) else map_option (\<lambda>(a, b). (c # a, b)) (Cut s sep))"

definition parseEnvLine :: "strmap \<Rightarrow> string \<Rightarrow> strmap" where
  "parseEnvLine m text =
     (let line = TrimSpace text in
      if line = [] \<or> HasPrefix line ''#'' then m
      else case Cut line (CHR ''='') of
        None \<Rightarrow> m
      | Some (k, v) \<Rightarrow> put k (Trim v [CHR 0x22, CHR 0x27]) m)"

definition parseEnvFile :: "file_result \<Rightarrow> strmap option res" where
  "parseEnvFile f = (case f of
      NoFile \<Rightarrow> Inr None
    | FileError \<Rightarrow> Inl (Errorf ''read error'')
    | Contents s \<Rightarrow>
        (let ls = splitLines [] s in
         if list_ex (\<lambda>l. maxLine \<le> length l) ls then Inl (Errorf ''bufio.Scanner: token too long'')
         else Inr (Some (foldl parseEnvLine [] (map dropCR ls)))))"

section \<open>Labels and annotations\<close>

definition labelKairosManaged :: string where "labelKairosManaged = ''kairos.io/managed''"
definition bootStateLabel :: string where "bootStateLabel = ''kairos.io/boot-state''"

definition labelFields :: strmap where
  "labelFields =
     [(''ID'', ''kairos.io/id''), (''FAMILY'', ''kairos.io/family''), (''FLAVOR'', ''kairos.io/flavor''),
      (''FLAVOR_RELEASE'', ''kairos.io/flavor-release''), (''VARIANT'', ''kairos.io/variant''),
      (''RELEASE'', ''kairos.io/release''), (''MODEL'', ''kairos.io/model''), (''ARCH'', ''kairos.io/arch''),
      (''TRUSTED_BOOT'', ''kairos.io/trusted-boot''), (''FIPS'', ''kairos.io/fips''),
      (''SOFTWARE_VERSION_PREFIX'', ''kairos.io/software-version-prefix''),
      (''SOFTWARE_VERSION'', ''kairos.io/software-version'')]"

definition annotationFields :: strmap where
  "annotationFields =
     [(''NAME'', ''kairos.io/name''), (''ID_LIKE'', ''kairos.io/id-like''),
      (''INIT_VERSION'', ''kairos.io/init-version''), (''VERSION'', ''kairos.io/version''),
      (''BUG_REPORT_URL'', ''kairos.io/bug-report-url''), (''HOME_URL'', ''kairos.io/home-url'')]"

definition label_chars :: string where
  "label_chars = ''abcdefghijklmnopqrstuvwxyzABCDEFGHIJKLMNOPQRSTUVWXYZ0123456789-_.''"

text \<open>\<open>invalidLabelChars.ReplaceAllString(s, "-")\<close>, rune by rune.\<close>

function replaceInvalid :: "string \<Rightarrow> string" where
  "replaceInvalid [] = []"
| "replaceInvalid (c # s) =
     (if c \<in> set label_chars then c # replaceInvalid s
      else CHR ''-'' # replaceInvalid (drop (rune_len (c # s) - 1) s))"
  by pat_completeness auto
termination
  by (relation "measure length") auto

definition sanitizeLabelValue :: "string \<Rightarrow> string" where
  "sanitizeLabelValue s =
     (let t = Trim (replaceInvalid s) ''-_.'' in
      if length t > 63 then Trim (take 63 t) ''-_.'' else t)"

definition detectBootState :: "file_result \<Rightarrow> string" where
  "detectBootState f = (case f of
      Contents cmdline \<Rightarrow>
        if Contains cmdline ''COS_ACTIVE'' then ''active''
        else if Contains cmdline ''COS_PASSIVE'' then ''passive''
        else if Contains cmdline ''COS_RECOVERY'' \<or> Contains cmdline ''COS_SYSTEM'' \<or>
                Contains cmdline ''recovery-mode'' then ''recovery''
        else if Contains cmdline ''live:LABEL'' \<or> Contains cmdline ''live:CDLABEL'' \<or>
                Contains cmdline ''netboot'' then ''livecd''
        else ''unknown''
    | _ \<Rightarrow> [])"

text \<open>
  \<open>strings.ToLower\<close>, as far as a search for an ASCII word can tell: ASCII capitals, and the two
  other code points whose lower case is ASCII, U+212A (Kelvin sign) and U+0130. Every other rune
  becomes a non-ASCII one and is left as it is.
\<close>

fun ToLower :: "string \<Rightarrow> string" where
  "ToLower [] = []"
| "ToLower (c # s) =
     (if 65 \<le> (of_char c :: nat) \<and> (of_char c :: nat) \<le> 90 then char_of ((of_char c :: nat) + 32) # ToLower s
      else if HasPrefix (c # s) [CHR 0xE2, CHR 0x84, CHR 0xAA] then CHR ''k'' # ToLower (drop 2 s)
      else if HasPrefix (c # s) [CHR 0xC4, CHR 0xB0] then CHR ''i'' # ToLower (drop 1 s)
      else c # ToLower s)"

definition isKairosOSRelease :: "string \<Rightarrow> bool lprog" where
  "isKairosOSRelease etcPath =
     bind (lask (ReadFile (etcPath @ ''/os-release'')) asFile) (\<lambda>f.
       Ret (case parseEnvFile f of
           Inl e \<Rightarrow> False
         | Inr None \<Rightarrow> False
         | Inr (Some osRelease) \<Rightarrow> Contains (ToLower (get_or_empty osRelease ''ID'')) ''kairos''))"

text \<open>One field of the release file, under the name it gets on the node.\<close>

definition addField :: "strmap \<Rightarrow> (string \<Rightarrow> string) \<Rightarrow> strmap \<Rightarrow> string \<times> string \<Rightarrow> strmap" where
  "addField release conv m f = (case f of (key, nm) \<Rightarrow>
     let v = get_or_empty release (''KAIROS_'' @ key) in
     if v \<noteq> [] then put nm (conv v) m else m)"

definition withBootState :: "string \<Rightarrow> strmap \<Rightarrow> strmap lprog" where
  "withBootState cmdlinePath labels =
     bind (lask (ReadFile cmdlinePath) asFile) (\<lambda>f.
       let bootState = detectBootState f in
       Ret (if bootState \<noteq> [] then put bootStateLabel bootState labels else labels))"

text \<open>Empty maps for the nil maps of the code, which it never tells apart.\<close>

definition collectMetadata :: "string \<Rightarrow> string \<Rightarrow> (strmap \<times> strmap) lprog" where
  "collectMetadata etcPath cmdlinePath =
     bind (lask (ReadFile (etcPath @ ''/kairos-release'')) asFile) (\<lambda>f. case parseEnvFile f of
       Inl e \<Rightarrow> Ret ([], [])
     | Inr None \<Rightarrow>
         bind (isKairosOSRelease etcPath) (\<lambda>kairos.
           if \<not> kairos then Ret ([], [])
           else bind (withBootState cmdlinePath [(labelKairosManaged, ''true'')]) (\<lambda>labels. Ret (labels, [])))
     | Inr (Some release) \<Rightarrow>
         (let labels = foldl (addField release sanitizeLabelValue) [(labelKairosManaged, ''true'')] labelFields;
              annotations = foldl (addField release (\<lambda>v. v)) [] annotationFields
          in bind (withBootState cmdlinePath labels) (\<lambda>labels'. Ret (labels', annotations))))"

section \<open>The patch\<close>

definition toNullablePatch :: "strmap \<Rightarrow> strmap \<Rightarrow> (string \<times> string option) list" where
  "toNullablePatch newValues existing =
     map (\<lambda>(k, v). (k, Some v)) newValues @
     map (\<lambda>(k, v). (k, None)) (filter (\<lambda>(k, v). HasPrefix k ''kairos.io/'' \<and> \<not> has_key k newValues) existing)"

definition patchNode :: "string \<Rightarrow> strmap \<Rightarrow> strmap \<Rightarrow> unit res lprog" where
  "patchNode nodeName labels annotations =
     bind (lask (LabelerGetNode nodeName) asNodeResp) (\<lambda>got. case got of
       Inl e \<Rightarrow> Ret (Inl (Wrapf (''getting node '' @ nodeName) e))
     | Inr nd \<Rightarrow>
         (let patchLabels = toNullablePatch labels (Labels (nodeMeta nd));
              patchAnnotations = toNullablePatch annotations (Annotations (nodeMeta nd))
          in if patchLabels = [] \<and> patchAnnotations = [] then Ret (Inr ())
             else bind (lask (PatchNode nodeName patchLabels patchAnnotations) asDone) (\<lambda>p. case p of
               Inl e \<Rightarrow> Ret (Inl (Wrapf (''patching node '' @ nodeName) e))
             | Inr _ \<Rightarrow> Ret (Inr ()))))"

definition syncLabels :: "string \<Rightarrow> string \<Rightarrow> string \<Rightarrow> unit res lprog" where
  "syncLabels nodeName etcPath cmdlinePath =
     bind (collectMetadata etcPath cmdlinePath) (\<lambda>(labels, annotations).
       if labels = [] then Ret (Inr ())
       else patchNode nodeName labels annotations)"

section \<open>The program\<close>

definition hostEtcPath :: "string lprog" where
  "hostEtcPath = bind (lask (LabelerGetenv ''HOST_ETC_PATH'') asEnv) (\<lambda>p.
     Ret (if p \<noteq> [] then p else ''/host/etc''))"

text \<open>
  The loop mode never gives up on an error; a tick answered with an error is the end of the
  context. The result is the exit status, \<open>None\<close> while it still runs.
\<close>

fun labelEvery :: "nat \<Rightarrow> string \<Rightarrow> nat option lprog" where
  "labelEvery 0 nodeName = Ret None"
| "labelEvery (Suc fuel) nodeName =
     bind hostEtcPath (\<lambda>etc.
     bind (syncLabels nodeName etc ''/proc/cmdline'') (\<lambda>_.
     bind (lask NextTick asDone) (\<lambda>t. case t of
       Inl e \<Rightarrow> Ret (Some 0)
     | Inr _ \<Rightarrow> labelEvery fuel nodeName)))"

definition labelerMain :: "nat \<Rightarrow> int \<Rightarrow> nat option lprog" where
  "labelerMain fuel every =
     bind (lask (LabelerGetenv ''NODE_NAME'') asEnv) (\<lambda>nodeName.
       if nodeName = [] then Ret (Some 1)
       else if every > 0 then labelEvery fuel nodeName
       else bind hostEtcPath (\<lambda>etc.
         bind (syncLabels nodeName etc ''/proc/cmdline'') (\<lambda>r.
           Ret (Some (case r of Inl e \<Rightarrow> 1 | Inr _ \<Rightarrow> 0)))))"

section \<open>Label values\<close>

text \<open>What Kubernetes accepts as a label value: at most 63 characters, alphanumeric at both ends.\<close>

definition valid_label_value :: "string \<Rightarrow> bool" where
  "valid_label_value s \<longleftrightarrow> length s \<le> 63 \<and> set s \<subseteq> set label_chars \<and>
     (s = [] \<or> hd s \<notin> set ''-_.'' \<and> last s \<notin> set ''-_.'')"

lemma replaceInvalid_set: "set (replaceInvalid s) \<subseteq> set label_chars"
  by (induction s rule: replaceInvalid.induct) (auto simp: label_chars_def)

lemma replaceInvalid_id: "set s \<subseteq> set label_chars \<Longrightarrow> replaceInvalid s = s"
  by (induction s rule: replaceInvalid.induct) auto

lemma sanitize_valid: "valid_label_value (sanitizeLabelValue s)"
proof -
  define t where "t = Trim (replaceInvalid s) ''-_.''"
  have t: "set t \<subseteq> set label_chars" unfolding t_def using Trim_set replaceInvalid_set by blast
  have ends: "x = [] \<or> hd x \<notin> set ''-_.'' \<and> last x \<notin> set ''-_.''" if "x = Trim y ''-_.''" for x y
    using Trim_ends [of y "''-_.''"] that by auto
  show ?thesis
  proof (cases "length t > 63")
    case False
    then show ?thesis using t ends [OF t_def] by (simp add: sanitizeLabelValue_def valid_label_value_def Let_def flip: t_def)
  next
    case True
    have "set (Trim (take 63 t) ''-_.'') \<subseteq> set label_chars"
      using Trim_set [of "take 63 t" "''-_.''"] set_take_subset [of 63 t] t by blast
    moreover have "length (Trim (take 63 t) ''-_.'') \<le> 63"
      using Trim_length [of "take 63 t" "''-_.''"] by simp
    ultimately show ?thesis using True ends [of "Trim (take 63 t) ''-_.''" "take 63 t"]
      by (simp add: sanitizeLabelValue_def valid_label_value_def Let_def flip: t_def)
  qed
qed

lemma sanitize_id: "valid_label_value s \<Longrightarrow> sanitizeLabelValue s = s"
  by (cases "s = []") (auto simp: sanitizeLabelValue_def valid_label_value_def replaceInvalid_id Trim_id Let_def)

section \<open>What the program derives and sends\<close>

definition kairosKey :: "string \<Rightarrow> bool" where
  "kairosKey k \<longleftrightarrow> HasPrefix k ''kairos.io/''"

definition kairosLabels :: "strmap \<Rightarrow> bool" where
  "kairosLabels m \<longleftrightarrow> (\<forall>k v. map_of m k = Some v \<longrightarrow> kairosKey k \<and> valid_label_value v) \<and>
     map_of m labelKairosManaged = Some ''true''"

lemma kairos_keys:
  "kairosKey labelKairosManaged" "kairosKey bootStateLabel" "bootStateLabel \<noteq> labelKairosManaged"
  "list_all (\<lambda>(key, nm). kairosKey nm \<and> nm \<noteq> labelKairosManaged) labelFields"
  "list_all (\<lambda>(key, nm). kairosKey nm) annotationFields" "\<not> kairosKey cordonedByAnnotation"
  by (simp_all add: kairosKey_def labelKairosManaged_def bootStateLabel_def labelFields_def annotationFields_def
      cordonedByAnnotation_def)

lemma kairosLabels_put:
  "kairosLabels m \<Longrightarrow> kairosKey nm \<Longrightarrow> nm \<noteq> labelKairosManaged \<Longrightarrow> valid_label_value v \<Longrightarrow> kairosLabels (put nm v m)"
  by (auto simp: kairosLabels_def)

lemma addField_eq:
  "addField release conv m f = (let v = get_or_empty release (''KAIROS_'' @ fst f) in
     if v \<noteq> [] then put (snd f) (conv v) m else m)"
  by (simp add: addField_def split_beta)

lemma addField_cases:
  obtains "addField release conv m f = m" | v where "addField release conv m f = put (snd f) (conv v) m"
proof (cases "get_or_empty release (''KAIROS_'' @ fst f) = []")
  case True
  then show thesis by (intro that(1)) (simp add: addField_eq)
next
  case False
  then show thesis by (intro that(2)) (simp add: addField_eq Let_def)
qed

lemma addField_labels:
  "list_all (\<lambda>(key, nm). kairosKey nm \<and> nm \<noteq> labelKairosManaged) fs \<Longrightarrow> kairosLabels m \<Longrightarrow>
     kairosLabels (foldl (addField release sanitizeLabelValue) m fs)"
proof (induction fs arbitrary: m)
  case Nil
  then show ?case by simp
next
  case (Cons f fs)
  have "kairosLabels (addField release sanitizeLabelValue m f)"
    using Cons.prems by (cases rule: addField_cases [of release sanitizeLabelValue m f])
      (auto intro: kairosLabels_put sanitize_valid split: prod.splits)
  then show ?case using Cons by simp
qed

lemma addField_annotations:
  "list_all (\<lambda>(key, nm). kairosKey nm) fs \<Longrightarrow> \<forall>k \<in> dom (map_of m). kairosKey k \<Longrightarrow>
     \<forall>k \<in> dom (map_of (foldl (addField release conv) m fs)). kairosKey k"
proof (induction fs arbitrary: m)
  case Nil
  then show ?case by simp
next
  case (Cons f fs)
  have "\<forall>k \<in> dom (map_of (addField release conv m f)). kairosKey k"
    using Cons.prems by (cases rule: addField_cases [of release conv m f]) (auto split: prod.splits)
  moreover have "list_all (\<lambda>(key, nm). kairosKey nm) fs" using Cons.prems by simp
  ultimately have "\<forall>k \<in> dom (map_of (foldl (addField release conv) (addField release conv m f) fs)). kairosKey k"
    by (rule Cons.IH [rotated])
  then show ?case by (simp only: foldl.simps)
qed

lemma boot_states:
  "detectBootState f \<in> {[], ''active'', ''passive'', ''recovery'', ''livecd'', ''unknown''}"
  by (simp add: detectBootState_def split: file_result.splits)

lemma boot_state_valid: "valid_label_value (detectBootState f)"
proof -
  have "\<forall>s \<in> {[], ''active'', ''passive'', ''recovery'', ''livecd'', ''unknown''}. valid_label_value s"
    by code_simp
  then show ?thesis using boot_states by blast
qed

lemma managed_only: "kairosLabels [(labelKairosManaged, ''true'')]"
  by (simp add: kairosLabels_def kairos_keys valid_label_value_def label_chars_def)

lemma exec_withBootState:
  assumes "exec (withBootState cmdlinePath labels) tr m" and "kairosLabels labels"
  shows "kairosLabels m"
  using assms boot_state_valid kairos_keys
  by (auto simp: withBootState_def exec_lask_bind Let_def intro!: kairosLabels_put split: if_splits)

lemma only_collect: "only (\<lambda>q. \<exists>p. q = ReadFile p) (collectMetadata etc cmd)"
  unfolding collectMetadata_def isKairosOSRelease_def withBootState_def Let_def
  by (auto intro!: only_bind split: sum.splits option.splits)

lemma exec_collectMetadata:
  assumes "exec (collectMetadata etc cmd) tr (labels, annotations)"
  shows "labels = [] \<and> annotations = [] \<or>
    kairosLabels labels \<and> (\<forall>k \<in> dom (map_of annotations). kairosKey k)"
proof -
  from assms obtain x t where x: "exec (case parseEnvFile (asFile x) of
       Inl e \<Rightarrow> Ret ([], [])
     | Inr None \<Rightarrow>
         bind (isKairosOSRelease etc) (\<lambda>kairos.
           if \<not> kairos then Ret ([], [])
           else bind (withBootState cmd [(labelKairosManaged, ''true'')]) (\<lambda>labels. Ret (labels, [])))
     | Inr (Some release) \<Rightarrow>
         (let labels = foldl (addField release sanitizeLabelValue) [(labelKairosManaged, ''true'')] labelFields;
              annotations = foldl (addField release (\<lambda>v. v)) [] annotationFields
          in bind (withBootState cmd labels) (\<lambda>labels'. Ret (labels', annotations)))) t (labels, annotations)"
    unfolding collectMetadata_def exec_lask_bind by blast
  show ?thesis
  proof (cases "parseEnvFile (asFile x)")
    case (Inl e)
    with x show ?thesis by simp
  next
    case (Inr f)
    show ?thesis
    proof (cases f)
      case None
      with x Inr show ?thesis
        by (auto simp: exec_bind dest!: exec_withBootState [OF _ managed_only] split: if_splits)
    next
      case (Some release)
      with x Inr show ?thesis
        using addField_labels [OF kairos_keys(4) managed_only] addField_annotations [OF kairos_keys(5), of "[]" release "\<lambda>v. v"]
        by (auto simp: exec_bind Let_def dest!: exec_withBootState)
    qed
  qed
qed

text \<open>
  What the labels and annotations should be, key by key: the field of the release file that goes by
  that name, when it has a value; the managed label; and the boot state, when it is known.
\<close>

definition derivedField :: "strmap \<Rightarrow> (string \<Rightarrow> string) \<Rightarrow> strmap \<Rightarrow> string \<Rightarrow> string option" where
  "derivedField fs conv release k = (case find (\<lambda>f. snd f = k) fs of
      None \<Rightarrow> None
    | Some f \<Rightarrow> (let v = get_or_empty release (''KAIROS_'' @ fst f) in if v = [] then None else Some (conv v)))"

definition derivedLabels :: "strmap option \<Rightarrow> file_result \<Rightarrow> string \<Rightarrow> string option" where
  "derivedLabels rel cmdline k =
     (if k = bootStateLabel then (if detectBootState cmdline = [] then None else Some (detectBootState cmdline))
      else if k = labelKairosManaged then Some ''true''
      else case rel of None \<Rightarrow> None | Some release \<Rightarrow> derivedField labelFields sanitizeLabelValue release k)"

definition derivedAnnotations :: "strmap option \<Rightarrow> string \<Rightarrow> string option" where
  "derivedAnnotations rel k = (case rel of None \<Rightarrow> None | Some release \<Rightarrow> derivedField annotationFields (\<lambda>v. v) release k)"

text \<open>A Kairos host: it has the release file, or its os-release file has an ID that says so.\<close>

definition kairosHost :: "string \<Rightarrow> (label_req \<times> label_resp) list \<Rightarrow> strmap option \<Rightarrow> bool" where
  "kairosHost etc tr rel \<longleftrightarrow>
     (\<exists>x. (ReadFile (etc @ ''/kairos-release''), x) \<in> set tr \<and> parseEnvFile (asFile x) = Inr rel) \<and>
     (rel = None \<longrightarrow> (\<exists>y os. (ReadFile (etc @ ''/os-release''), y) \<in> set tr \<and> parseEnvFile (asFile y) = Inr (Some os) \<and>
        Contains (ToLower (get_or_empty os ''ID'')) ''kairos''))"

lemma find_none: "nm \<notin> snd ` set fs \<Longrightarrow> derivedField fs conv release nm = None"
proof -
  assume "nm \<notin> snd ` set fs"
  then have "find (\<lambda>f. snd f = nm) fs = None" unfolding find_None_iff by force
  then show ?thesis by (simp add: derivedField_def)
qed

lemma addField_map:
  "distinct (map snd fs) \<Longrightarrow> map_of (foldl (addField release conv) m fs) k =
     (case derivedField fs conv release k of None \<Rightarrow> map_of m k | Some v \<Rightarrow> Some v)"
proof (induction fs arbitrary: m)
  case Nil
  then show ?case by (simp add: derivedField_def)
next
  case (Cons f fs)
  have ih: "map_of (foldl (addField release conv) (addField release conv m f) fs) k =
      (case derivedField fs conv release k of None \<Rightarrow> map_of (addField release conv m f) k | Some v \<Rightarrow> Some v)"
    using Cons by simp
  show ?case
  proof (cases "snd f = k")
    case True
    with Cons.prems have "derivedField fs conv release k = None" by (intro find_none) auto
    moreover have "map_of (addField release conv m f) k = (case derivedField (f # fs) conv release k of
        None \<Rightarrow> map_of m k | Some v \<Rightarrow> Some v)"
      using True by (simp add: addField_eq derivedField_def Let_def)
    ultimately show ?thesis using ih by (simp del: addField_eq)
  next
    case False
    then have "map_of (addField release conv m f) k = map_of m k" by (simp add: addField_eq Let_def)
    moreover have "derivedField (f # fs) conv release k = derivedField fs conv release k" using False by (simp add: derivedField_def)
    ultimately show ?thesis using ih by (cases "derivedField fs conv release k") simp_all
  qed
qed

lemma field_names: "distinct (map snd labelFields)" "distinct (map snd annotationFields)"
  "labelKairosManaged \<notin> snd ` set labelFields" "bootStateLabel \<noteq> labelKairosManaged"
  "bootStateLabel \<notin> snd ` set labelFields"
  by (simp_all add: labelFields_def annotationFields_def labelKairosManaged_def bootStateLabel_def)

lemma withBootState_map:
  assumes "exec (withBootState cmd labels) tr m"
  shows "\<exists>c. (ReadFile cmd, c) \<in> set tr \<and> map_of m = (\<lambda>k. if k = bootStateLabel \<and> detectBootState (asFile c) \<noteq> []
    then Some (detectBootState (asFile c)) else map_of labels k)"
proof -
  from assms obtain r where "tr = [(ReadFile cmd, r)]"
    and m: "m = (if detectBootState (asFile r) \<noteq> [] then put bootStateLabel (detectBootState (asFile r)) labels else labels)"
    by (auto simp: withBootState_def exec_lask_bind Let_def)
  then show ?thesis unfolding m by (intro exI [of _ r]) (auto simp: fun_eq_iff)
qed

lemma collectMetadata_derives:
  assumes "exec (collectMetadata etc cmd) tr (labels, annotations)" and "labels \<noteq> []"
  shows "\<exists>rel c. kairosHost etc tr rel \<and> (ReadFile cmd, c) \<in> set tr \<and>
    map_of labels = derivedLabels rel (asFile c) \<and> map_of annotations = derivedAnnotations rel"
proof -
  from assms(1) obtain x t where tr: "tr = (ReadFile (etc @ ''/kairos-release''), x) # t"
    and x: "exec (case parseEnvFile (asFile x) of
       Inl e \<Rightarrow> Ret ([], [])
     | Inr None \<Rightarrow>
         bind (isKairosOSRelease etc) (\<lambda>kairos.
           if \<not> kairos then Ret ([], [])
           else bind (withBootState cmd [(labelKairosManaged, ''true'')]) (\<lambda>labels. Ret (labels, [])))
     | Inr (Some release) \<Rightarrow>
         (let labels = foldl (addField release sanitizeLabelValue) [(labelKairosManaged, ''true'')] labelFields;
              annotations = foldl (addField release (\<lambda>v. v)) [] annotationFields
          in bind (withBootState cmd labels) (\<lambda>labels'. Ret (labels', annotations)))) t (labels, annotations)"
    unfolding collectMetadata_def exec_lask_bind by blast
  consider e where "parseEnvFile (asFile x) = Inl e" | (os) "parseEnvFile (asFile x) = Inr None"
    | (rel) release where "parseEnvFile (asFile x) = Inr (Some release)"
    by (metis sum.exhaust option.exhaust)
  then show ?thesis
  proof cases
    case 1
    with x assms(2) show ?thesis by simp
  next
    case os
    with x have "exec (bind (isKairosOSRelease etc) (\<lambda>kairos.
           if \<not> kairos then Ret ([], [])
           else bind (withBootState cmd [(labelKairosManaged, ''true'')]) (\<lambda>labels. Ret (labels, [])))) t (labels, annotations)" by simp
    then obtain t1 kairos t2 where t: "t = t1 @ t2" and k: "exec (isKairosOSRelease etc) t1 kairos"
      and b: "exec (if \<not> kairos then Ret ([], [])
           else bind (withBootState cmd [(labelKairosManaged, ''true'')]) (\<lambda>labels. Ret (labels, []))) t2 (labels, annotations)"
      unfolding exec_bind by blast
    have yes: kairos using b assms(2) by (cases kairos) auto
    with b have b2: "exec (withBootState cmd [(labelKairosManaged, ''true'')]) t2 labels" and a: "annotations = []"
      by (auto simp: exec_bind)
    from withBootState_map [OF b2] obtain c where c: "(ReadFile cmd, c) \<in> set t2" "map_of labels =
      (\<lambda>k. if k = bootStateLabel \<and> detectBootState (asFile c) \<noteq> [] then Some (detectBootState (asFile c))
         else map_of [(labelKairosManaged, ''true'')] k)" by blast
    from k yes obtain y where "(ReadFile (etc @ ''/os-release''), y) \<in> set t1" and v: "case parseEnvFile (asFile y) of
           Inl e \<Rightarrow> False
         | Inr None \<Rightarrow> False
         | Inr (Some osRelease) \<Rightarrow> Contains (ToLower (get_or_empty osRelease ''ID'')) ''kairos''"
      unfolding isKairosOSRelease_def exec_lask_bind by auto
    then obtain osr where y: "(ReadFile (etc @ ''/os-release''), y) \<in> set t1" "parseEnvFile (asFile y) = Inr (Some osr)"
      "Contains (ToLower (get_or_empty osr ''ID'')) ''kairos''"
      by (cases "parseEnvFile (asFile y)"; cases "projr (parseEnvFile (asFile y))") auto
    have "kairosHost etc tr None" using os y unfolding kairosHost_def tr t by auto
    moreover have "map_of labels = derivedLabels None (asFile c)"
      unfolding c(2) using field_names(4) by (auto simp: derivedLabels_def fun_eq_iff)
    moreover have "map_of annotations = derivedAnnotations None" by (simp add: a derivedAnnotations_def fun_eq_iff)
    ultimately show ?thesis using c(1) by (auto simp: tr t)
  next
    case (rel release)
    let ?l = "foldl (addField release sanitizeLabelValue) [(labelKairosManaged, ''true'')] labelFields"
    from x rel have b: "exec (withBootState cmd ?l) t labels"
      and a: "annotations = foldl (addField release (\<lambda>v. v)) [] annotationFields"
      by (auto simp: exec_bind Let_def)
    from withBootState_map [OF b] obtain c where c: "(ReadFile cmd, c) \<in> set t" "map_of labels =
      (\<lambda>k. if k = bootStateLabel \<and> detectBootState (asFile c) \<noteq> [] then Some (detectBootState (asFile c)) else map_of ?l k)"
      by blast
    have "kairosHost etc tr (Some release)" using rel by (auto simp: kairosHost_def tr)
    moreover have "map_of ?l bootStateLabel = None"
      using field_names(4) by (simp add: addField_map [OF field_names(1)] find_none [OF field_names(5)])
    then have "map_of labels = derivedLabels (Some release) (asFile c)"
      unfolding c(2) using find_none [OF field_names(3)] addField_map [OF field_names(1)]
      by (auto simp: derivedLabels_def fun_eq_iff split: option.splits)
    moreover have "map_of annotations = derivedAnnotations (Some release)"
      by (simp add: a addField_map [OF field_names(2)] derivedAnnotations_def fun_eq_iff split: option.splits)
    ultimately show ?thesis using c(1) by (auto simp: tr)
  qed
qed

text \<open>The server's side of a JSON merge patch on one map (RFC 7386): \<open>None\<close> deletes.\<close>

definition merge_patch :: "(string \<times> string option) list \<Rightarrow> strmap \<Rightarrow> string \<Rightarrow> string option" where
  "merge_patch p m k = (case map_of p k of None \<Rightarrow> map_of m k | Some v \<Rightarrow> v)"

lemma merge_nullable:
  assumes "\<forall>k \<in> dom (map_of new). kairosKey k"
  shows "merge_patch (toNullablePatch new old) old k = (if kairosKey k then map_of new k else map_of old k)"
proof -
  have set: "map_of (map (\<lambda>(k, v). (k, Some v)) xs) k = map_option Some (map_of xs k)" for xs :: strmap
    by (induction xs) auto
  have gone: "map_of (map (\<lambda>(k, v). (k, None)) (filter P xs)) k =
      (if \<exists>v. (k, v) \<in> set xs \<and> P (k, v) then Some None else None)" for xs :: strmap and P
    by (induction xs) auto
  show ?thesis
  proof (cases "map_of new k")
    case (Some v)
    then show ?thesis using assms by (auto simp: merge_patch_def toNullablePatch_def map_add_def set gone)
  next
    case None
    have "map_of old k = None" if "\<not> (\<exists>v. (k, v) \<in> set old)"
      using that by (metis map_of_SomeD not_Some_eq)
    then show ?thesis using None
      by (auto simp: merge_patch_def toNullablePatch_def map_add_def set gone has_key_def kairosKey_def)
  qed
qed

section \<open>Properties\<close>

text \<open>
  Every label value derived from a release file is one Kubernetes accepts, whatever bytes
  the file holds, and a valid value is kept as it is.
\<close>

theorem sanitizeLabelValue_valid:
  "valid_label_value (sanitizeLabelValue s) \<and> sanitizeLabelValue (sanitizeLabelValue s) = sanitizeLabelValue s"
  using sanitize_valid sanitize_id by blast

text \<open>The patch that patchNode sends, and the read of the node it is computed from.\<close>

lemma patchNode_patch:
  assumes "exec (patchNode n labels annotations) tr r" and "(PatchNode m pl pa, x) \<in> set tr"
  obtains nd where "(LabelerGetNode n, NodeResp (Inr nd)) \<in> set tr" "m = n"
    "pl = toNullablePatch labels (Labels (nodeMeta nd))" "pa = toNullablePatch annotations (Annotations (nodeMeta nd))"
proof -
  from assms(1) obtain y t where tr: "tr = (LabelerGetNode n, y) # t"
    and y: "exec (case asNodeResp y of Inl e \<Rightarrow> Ret (Inl (Wrapf (''getting node '' @ n) e))
     | Inr nd \<Rightarrow>
         (let patchLabels = toNullablePatch labels (Labels (nodeMeta nd));
              patchAnnotations = toNullablePatch annotations (Annotations (nodeMeta nd))
          in if patchLabels = [] \<and> patchAnnotations = [] then Ret (Inr ())
             else bind (lask (PatchNode n patchLabels patchAnnotations) asDone) (\<lambda>p. case p of
               Inl e \<Rightarrow> Ret (Inl (Wrapf (''patching node '' @ n) e))
             | Inr _ \<Rightarrow> Ret (Inr ())))) t r"
    by (auto simp: patchNode_def exec_lask_bind)
  from assms(2) have sent: "(PatchNode m pl pa, x) \<in> set t" by (simp add: tr)
  with y obtain nd where nd: "y = NodeResp (Inr nd)" by (cases "asNodeResp y") auto
  define pl0 pa0 where "pl0 = toNullablePatch labels (Labels (nodeMeta nd))"
    and "pa0 = toNullablePatch annotations (Annotations (nodeMeta nd))"
  from y have e: "exec (if pl0 = [] \<and> pa0 = [] then Ret (Inr ())
             else bind (lask (PatchNode n pl0 pa0) asDone) (\<lambda>p. case p of
               Inl e \<Rightarrow> Ret (Inl (Wrapf (''patching node '' @ n) e))
             | Inr _ \<Rightarrow> Ret (Inr ()))) t r" by (simp only: nd ldecoded sum.case Let_def pl0_def pa0_def)
  with sent have ne: "(pl0 = [] \<and> pa0 = []) = False" by (cases "pl0 = [] \<and> pa0 = []") auto
  from e obtain z t' where t: "t = (PatchNode n pl0 pa0, z) # t'"
    and "exec (case asDone z of Inl e \<Rightarrow> Ret (Inl (Wrapf (''patching node '' @ n) e)) | Inr _ \<Rightarrow> Ret (Inr ())) t' r"
    unfolding ne if_False exec_lask_bind by blast
  then have "t' = []" by (cases "asDone z") auto
  with sent t have "m = n" "pl = pl0" "pa = pa0" by auto
  with that [of nd] show thesis by (simp add: tr nd pl0_def pa0_def)
qed

text \<open>
  C39. A patch is sent only for a Kairos host. It leaves the node with exactly the labels and
  annotations under kairos.io/ that the release file and the kernel command line call for: per field
  its value (for a label made valid), the managed label, the boot state if known, and none else, so a
  stale one is removed. It touches no other key, in particular not the annotation that records which
  NodeOp cordoned the node.
\<close>

theorem labeler_patch_exact:
  assumes "exec (syncLabels n etc cmd) tr r" and "(PatchNode m pl pa, x) \<in> set tr"
  shows "m = n \<and> (\<exists>nd rel c. (LabelerGetNode n, NodeResp (Inr nd)) \<in> set tr \<and>
    kairosHost etc tr rel \<and> (ReadFile cmd, c) \<in> set tr \<and>
    (\<forall>k v. derivedLabels rel (asFile c) k = Some v \<longrightarrow> valid_label_value v) \<and>
    (\<forall>k. merge_patch pl (Labels (nodeMeta nd)) k =
       (if kairosKey k then derivedLabels rel (asFile c) k else map_of (Labels (nodeMeta nd)) k)) \<and>
    (\<forall>k. merge_patch pa (Annotations (nodeMeta nd)) k =
       (if kairosKey k then derivedAnnotations rel k else map_of (Annotations (nodeMeta nd)) k)) \<and>
    merge_patch pa (Annotations (nodeMeta nd)) cordonedByAnnotation = map_of (Annotations (nodeMeta nd)) cordonedByAnnotation)"
proof -
  from assms(1) obtain t1 labels annotations t2 where tr: "tr = t1 @ t2"
    and c: "exec (collectMetadata etc cmd) t1 (labels, annotations)"
    and p: "exec (if labels = [] then Ret (Inr ()) else patchNode n labels annotations) t2 r"
    unfolding syncLabels_def by (auto simp: exec_bind [of "collectMetadata etc cmd"])
  have "(PatchNode m pl pa, x) \<notin> set t1" using only_exec [OF c only_collect] by blast
  with assms(2) have sent: "(PatchNode m pl pa, x) \<in> set t2" by (simp add: tr)
  with p have ne: "labels \<noteq> []" by (auto split: if_splits)
  with p have "exec (patchNode n labels annotations) t2 r" by simp
  then obtain nd where nd: "(LabelerGetNode n, NodeResp (Inr nd)) \<in> set t2" and patch: "m = n"
    "pl = toNullablePatch labels (Labels (nodeMeta nd))" "pa = toNullablePatch annotations (Annotations (nodeMeta nd))"
    using sent by (rule patchNode_patch)
  have kl: "kairosLabels labels" "\<forall>k \<in> dom (map_of annotations). kairosKey k"
    using exec_collectMetadata [OF c] ne by auto
  then have "\<forall>k \<in> dom (map_of labels). kairosKey k" by (auto simp: kairosLabels_def)
  then have "\<forall>k. merge_patch pl (Labels (nodeMeta nd)) k = (if kairosKey k then map_of labels k else map_of (Labels (nodeMeta nd)) k)"
    and "\<forall>k. merge_patch pa (Annotations (nodeMeta nd)) k =
       (if kairosKey k then map_of annotations k else map_of (Annotations (nodeMeta nd)) k)"
    using kl(2) by (simp_all add: patch merge_nullable)
  moreover from this have "merge_patch pa (Annotations (nodeMeta nd)) cordonedByAnnotation = map_of (Annotations (nodeMeta nd)) cordonedByAnnotation"
    using kairos_keys(6) by simp
  moreover have "(LabelerGetNode n, NodeResp (Inr nd)) \<in> set tr" using nd by (simp add: tr)
  moreover from collectMetadata_derives [OF c ne] obtain rel f where "kairosHost etc t1 rel" and f: "(ReadFile cmd, f) \<in> set t1"
    "map_of labels = derivedLabels rel (asFile f)" "map_of annotations = derivedAnnotations rel" by blast
  moreover from this(1) have "kairosHost etc tr rel" unfolding kairosHost_def tr set_append by blast
  moreover have "\<forall>k v. derivedLabels rel (asFile f) k = Some v \<longrightarrow> valid_label_value v"
    using kl(1) by (simp add: kairosLabels_def flip: f(2))
  moreover have "(ReadFile cmd, f) \<in> set tr" using f(1) by (simp add: tr)
  ultimately show ?thesis using patch(1) by metis
qed

definition labelled_node :: node where
  "labelled_node = sample_node\<lparr>nodeMeta := empty_meta\<lparr>Name := ''n1'',
     Labels := [(''kairos.io/old'', ''x''), (''team'', ''a'')],
     Annotations := [(cordonedByAnnotation, ''system/up@u-1'')]\<rparr>\<rparr>"

lemma sample_os_release:
  "parseEnvFile (Contents ''ID=kairos'') = Inr (Some [(''ID'', ''kairos'')])"
  "Contains (ToLower ''kairos'') ''kairos''"
proof -
  have "TrimSpace ''ID=kairos'' = ''ID=kairos''" by (rule TrimSpace_id) (auto simp: space_runes_def HasPrefix_iff)
  then have "parseEnvLine [] ''ID=kairos'' = [(''ID'', ''kairos'')]"
    by (simp add: parseEnvLine_def Trim_def TrimLeft_def TrimRight_def put_def)
  then show "parseEnvFile (Contents ''ID=kairos'') = Inr (Some [(''ID'', ''kairos'')])"
    by (simp add: parseEnvFile_def maxLine_def dropCR_def)
  show "Contains (ToLower ''kairos'') ''kairos''" by simp
qed

lemma labelled_patch:
  "toNullablePatch [(labelKairosManaged, ''true'')] (Labels (nodeMeta labelled_node)) =
     [(labelKairosManaged, Some ''true''), (''kairos.io/old'', None)]"
  "toNullablePatch [] (Annotations (nodeMeta labelled_node)) = []"
  by (simp_all add: toNullablePatch_def labelled_node_def labelKairosManaged_def cordonedByAnnotation_def has_key_def)

theorem labeler_patch_exact_witness:
  "\<forall>k. merge_patch [(labelKairosManaged, Some ''true''), (''kairos.io/old'', None)] (Labels (nodeMeta labelled_node)) k =
     (if kairosKey k then derivedLabels None NoFile k else map_of (Labels (nodeMeta labelled_node)) k)"
proof -
  define tr where "tr = [(ReadFile ''/host/etc/kairos-release'', FileResp NoFile),
    (ReadFile ''/host/etc/os-release'', FileResp (Contents ''ID=kairos'')), (ReadFile ''/proc/cmdline'', FileResp NoFile),
    (LabelerGetNode ''n1'', NodeResp (Inr labelled_node)),
    (PatchNode ''n1'' [(labelKairosManaged, Some ''true''), (''kairos.io/old'', None)] [], DoneResp (Inr ()))]"
  have "parseEnvFile NoFile = Inr None" "detectBootState NoFile = []" by (simp_all add: parseEnvFile_def detectBootState_def)
  then have "exec (syncLabels ''n1'' ''/host/etc'' ''/proc/cmdline'') tr (Inr ())"
    by (simp add: exec_iff_scripted tr_def syncLabels_def collectMetadata_def isKairosOSRelease_def withBootState_def
        patchNode_def lask_def sample_os_release get_or_empty_def labelled_patch Let_def)
  moreover have "(PatchNode ''n1'' [(labelKairosManaged, Some ''true''), (''kairos.io/old'', None)] [], DoneResp (Inr ())) \<in> set tr"
    by (simp add: tr_def)
  ultimately obtain nd rel c where nd: "(LabelerGetNode ''n1'', NodeResp (Inr nd)) \<in> set tr"
    and h: "kairosHost ''/host/etc'' tr rel" "(ReadFile ''/proc/cmdline'', c) \<in> set tr"
    and k: "\<forall>k. merge_patch [(labelKairosManaged, Some ''true''), (''kairos.io/old'', None)] (Labels (nodeMeta nd)) k =
      (if kairosKey k then derivedLabels rel (asFile c) k else map_of (Labels (nodeMeta nd)) k)"
    using labeler_patch_exact by blast
  have "nd = labelled_node" "asFile c = NoFile" using nd h(2) by (simp_all add: tr_def)
  moreover have "rel = None" using h(1) by (auto simp: kairosHost_def tr_def parseEnvFile_def)
  ultimately show ?thesis using k by simp
qed

end
