(* ===== verification/NodeLabelerCtl.thy ===== *)
theory NodeLabelerCtl
  imports Labeler Names
begin

text \<open>
  The two controllers that run the node labeler (internal/controller/nodelabeler_controller.go,
  nodelabeler_daemonset_controller.go) and the start-up tasks they register (startup.go): a
  one-shot Job per node, and a DaemonSet on the nodes the Job has labelled.
\<close>

section \<open>Surroundings\<close>

text \<open>The fields of a DaemonSet the code writes.\<close>

record daemon_set_spec =
  dsMatchLabels :: strmap
  dsTemplateLabels :: strmap
  dsPodSpec :: pod_spec

record daemon_set =
  dsMeta :: object_meta
  dsSpec :: daemon_set_spec

datatype setup_req =
    SetupGetNode string
  | SetupListJobs string strmap
  | SetupCreateJob job
  | SetupCreateServiceAccount object_meta
  | SetupCreateClusterRole role
  | SetupCreateClusterRoleBinding role_binding
  | CreateDaemonSet daemon_set
  | GetDaemonSetCached string string
  | GetDaemonSetLive string string
  | PatchDaemonSet daemon_set daemon_set
  | SetupGetenv string
  | WaitRetry nat

datatype setup_resp =
    SUnit "unit res"
  | SNode "node res"
  | SJobs "job list res"
  | SDaemonSet "daemon_set res"
  | SString string

type_synonym 'a sprog = "(setup_req, setup_resp, 'a) prog"

definition setUnit :: "setup_resp \<Rightarrow> unit res" where
  "setUnit r = (case r of SUnit u \<Rightarrow> u | _ \<Rightarrow> Inl decodeError)"
definition setNode :: "setup_resp \<Rightarrow> node res" where
  "setNode r = (case r of SNode n \<Rightarrow> n | _ \<Rightarrow> Inl decodeError)"
definition setJobs :: "setup_resp \<Rightarrow> job list res" where
  "setJobs r = (case r of SJobs n \<Rightarrow> n | _ \<Rightarrow> Inl decodeError)"
definition setDaemonSet :: "setup_resp \<Rightarrow> daemon_set res" where
  "setDaemonSet r = (case r of SDaemonSet n \<Rightarrow> n | _ \<Rightarrow> Inl decodeError)"
definition setString :: "setup_resp \<Rightarrow> string" where
  "setString r = (case r of SString s \<Rightarrow> s | _ \<Rightarrow> [])"

lemma set_decoded [simp]:
  "setUnit (SUnit u) = u" "setNode (SNode n) = n" "setJobs (SJobs js) = js"
  "setDaemonSet (SDaemonSet d) = d" "setString (SString s) = s"
  "setUnit r = Inr v \<longleftrightarrow> r = SUnit (Inr v)" "setNode r = Inr nd \<longleftrightarrow> r = SNode (Inr nd)"
  "setJobs r = Inr xs \<longleftrightarrow> r = SJobs (Inr xs)" "setDaemonSet r = Inr ds \<longleftrightarrow> r = SDaemonSet (Inr ds)"
  by (auto simp: setUnit_def setNode_def setJobs_def setDaemonSet_def setString_def split: setup_resp.splits)

definition sask :: "setup_req \<Rightarrow> (setup_resp \<Rightarrow> 'a) \<Rightarrow> 'a sprog" where
  "sask q dec = Call q (\<lambda>r. Ret (dec r))"

lemma exec_sask_bind:
  "exec (bind (sask q dec) f) tr b \<longleftrightarrow> (\<exists>r t. tr = (q, r) # t \<and> exec (f (dec r)) t b)"
  by (auto simp: sask_def exec_Call_iff)

lemma exec_sask: "exec (sask q dec) tr a \<longleftrightarrow> (\<exists>r. tr = [(q, r)] \<and> dec r = a)"
  by (auto simp: sask_def exec_Call_iff)

lemma only_sask [simp]: "only A (sask q dec) = A q"
  by (simp add: sask_def)

section \<open>Constants\<close>

definition nodeLabelerServiceAccount :: string where "nodeLabelerServiceAccount = ''kairos-node-labeler''"
definition labelKeyApp :: string where "labelKeyApp = ''app''"
definition labelKeyJobNode :: string where "labelKeyJobNode = ''node''"
definition labelValueNodeLabelerApp :: string where "labelValueNodeLabelerApp = ''kairos-node-labeler''"
definition envNodeName :: string where "envNodeName = ''NODE_NAME''"
definition fieldPathNodeName :: string where "fieldPathNodeName = ''spec.nodeName''"
definition hostEtcVolumeName :: string where "hostEtcVolumeName = ''host-etc''"
definition hostEtcMountPath :: string where "hostEtcMountPath = ''/host/etc''"
definition labelKeyKairosManaged :: string where "labelKeyKairosManaged = ''kairos.io/managed''"
definition kairosNodeLabelerDaemonSetName :: string where
  "kairosNodeLabelerDaemonSetName = ''kairos-node-labeler''"
definition defaultSyncIntervalSeconds :: int where "defaultSyncIntervalSeconds = 60"

section \<open>The Job controller\<close>

definition getOperatorNamespace :: "string sprog" where
  "getOperatorNamespace = bind (sask (SetupGetenv ''CONTROLLER_POD_NAMESPACE'') setString) (\<lambda>namespace.
     Ret (if namespace = [] then ''system'' else namespace))"

definition labelerJobLabels :: "string \<Rightarrow> strmap" where
  "labelerJobLabels nodeName = [(labelKeyJobNode, nodeName), (labelKeyApp, labelValueNodeLabelerApp)]"

definition jobExists :: "string \<Rightarrow> string \<Rightarrow> bool res sprog" where
  "jobExists namespace nodeName =
     attempt (sask (SetupListJobs namespace (labelerJobLabels nodeName)) setJobs)
       (\<lambda>jobs. Ret (Inr (0 < length jobs)))"

definition nodeLabelerImage :: "string sprog" where
  "nodeLabelerImage = bind (sask (SetupGetenv ''NODE_LABELER_IMAGE'') setString) (\<lambda>img.
     Ret (if img = [] then ''quay.io/kairos/operator-node-labeler:v0.0.1'' else img))"

text \<open>What the containers of the Job and of the DaemonSet have in common.\<close>

definition nodeNameEnv :: env_var where
  "nodeNameEnv = \<lparr>envName = envNodeName, envValue = [], envFieldRef = Some fieldPathNodeName\<rparr>"

definition labelerContainer :: "string \<Rightarrow> container" where
  "labelerContainer img = empty_container\<lparr>
     cName := ''node-labeler'', cImage := img, cImagePullPolicy := ''IfNotPresent'',
     cSecurityContext := Some (no_security\<lparr>scRunAsNonRoot := Some True, scRunAsUser := Some 1000\<rparr>),
     cEnv := [nodeNameEnv],
     cVolumeMounts := [(volumeMount hostEtcVolumeName hostEtcMountPath)\<lparr>vmReadOnly := True\<rparr>]\<rparr>"

definition hostEtcVolume :: volume where
  "hostEtcVolume = \<lparr>volName = hostEtcVolumeName, volSource = HostPath ''/etc''\<rparr>"

definition labelerJobOf :: "string \<Rightarrow> node \<Rightarrow> string \<Rightarrow> job" where
  "labelerJobOf img nd namespace =
     (let nodeName = Name (nodeMeta nd);
          fullName = ''kairos-node-labeler-'' @ nodeName;
          jobName = the (TruncateNameWithHash fullName KubernetesNameLengthLimit)
      in \<lparr>jobMeta = empty_meta\<lparr>Name := jobName, Namespace := namespace,
            Labels := [(labelKeyApp, labelValueNodeLabelerApp), (labelKeyJobNode, nodeName)]\<rparr>,
          jobSpec = \<lparr>BackoffLimit = None, Completions = None,
            templateLabels = [(labelKeyApp, labelValueNodeLabelerApp)], templateAnnotations = [],
            templateSpec = empty_pod_spec\<lparr>NodeName := nodeName,
              ServiceAccountName := nodeLabelerServiceAccount,
              Containers := [(labelerContainer img)\<lparr>cEnv :=
                [nodeNameEnv, \<lparr>envName = ''HOST_ETC_PATH'', envValue = hostEtcMountPath, envFieldRef = None\<rparr>]\<rparr>],
              Volumes := [hostEtcVolume], RestartPolicy := ''Never''\<rparr>\<rparr>,
          jobStatus = empty_job_status\<rparr>)"

definition createNodeLabelerJob :: "node \<Rightarrow> string \<Rightarrow> job sprog" where
  "createNodeLabelerJob nd namespace = bind nodeLabelerImage (\<lambda>img. Ret (labelerJobOf img nd namespace))"

definition ignoreAlreadyExists :: "string \<Rightarrow> setup_req \<Rightarrow> unit res sprog" where
  "ignoreAlreadyExists what q = bind (sask q setUnit) (\<lambda>r. Ret (case r of
     Inl e \<Rightarrow> if \<not> IsAlreadyExists e then Inl (Wrapf (''failed to create '' @ what) e) else Inr ()
   | Inr _ \<Rightarrow> Inr ()))"

definition labelerServiceAccountMeta :: "string \<Rightarrow> object_meta" where
  "labelerServiceAccountMeta namespace =
     empty_meta\<lparr>Name := nodeLabelerServiceAccount, Namespace := namespace\<rparr>"

definition labelerClusterRole :: role where
  "labelerClusterRole = \<lparr>roleMeta = empty_meta\<lparr>Name := nodeLabelerServiceAccount\<rparr>,
     Rules = [\<lparr>Verbs = [''get'', ''list'', ''watch'', ''update'', ''patch''], APIGroups = [''''],
               Resources = [''nodes''], ResourceNames = [], NonResourceURLs = []\<rparr>]\<rparr>"

definition labelerClusterRoleBinding :: "string \<Rightarrow> role_binding" where
  "labelerClusterRoleBinding namespace = \<lparr>rbMeta = empty_meta\<lparr>Name := nodeLabelerServiceAccount\<rparr>,
     Subjects = [\<lparr>subKind = ''ServiceAccount'', subName = nodeLabelerServiceAccount, subNamespace = namespace\<rparr>],
     RoleRef = \<lparr>refAPIGroup = ''rbac.authorization.k8s.io'', refKind = ''ClusterRole'',
                refName = nodeLabelerServiceAccount\<rparr>\<rparr>"

definition ensureServiceAccount :: "string \<Rightarrow> unit res sprog" where
  "ensureServiceAccount namespace =
     attempt (ignoreAlreadyExists ''service account'' (SetupCreateServiceAccount (labelerServiceAccountMeta namespace)))
       (\<lambda>_. attempt (ignoreAlreadyExists ''cluster role'' (SetupCreateClusterRole labelerClusterRole))
       (\<lambda>_. ignoreAlreadyExists ''cluster role binding''
              (SetupCreateClusterRoleBinding (labelerClusterRoleBinding namespace))))"

definition labelerReconcile :: "string \<Rightarrow> unit res sprog" where
  "labelerReconcile nodeName =
     bind (sask (SetupGetNode nodeName) setNode) (\<lambda>got. case got of
       Inl e \<Rightarrow> Ret (if IsNotFound e then Inr () else Inl e)
     | Inr nd \<Rightarrow>
         bind getOperatorNamespace (\<lambda>namespace.
         attempt (jobExists namespace (Name (nodeMeta nd))) (\<lambda>exists.
           if exists then Ret (Inr ())
           else bind (createNodeLabelerJob nd namespace) (\<lambda>job. sask (SetupCreateJob job) setUnit))))"

text \<open>The selector \<open>kairos.io/managed notin (false)\<close> of the watch.\<close>

definition watchesNode :: "node \<Rightarrow> bool" where
  "watchesNode nd \<longleftrightarrow> map_of (Labels (nodeMeta nd)) labelKeyKairosManaged \<noteq> Some ''false''"

section \<open>The DaemonSet controller\<close>

definition daemonSetOf :: "string \<Rightarrow> string \<Rightarrow> daemon_set" where
  "daemonSetOf img namespace =
     (let podLabels = [(labelKeyApp, labelValueNodeLabelerApp), (''mode'', ''daemon'')]
      in \<lparr>dsMeta = empty_meta\<lparr>Name := kairosNodeLabelerDaemonSetName, Namespace := namespace,
            Labels := [(labelKeyApp, labelValueNodeLabelerApp)]\<rparr>,
          dsSpec = \<lparr>dsMatchLabels = podLabels, dsTemplateLabels = podLabels,
            dsPodSpec = empty_pod_spec\<lparr>ServiceAccountName := nodeLabelerServiceAccount,
              podNodeSelector := [(labelKeyKairosManaged, ''true'')],
              Tolerations := [\<lparr>tolKey = [], tolOperator = ''Exists'', tolEffect = []\<rparr>],
              Containers := [(labelerContainer img)\<lparr>cArgs :=
                [''--every'', dec_int defaultSyncIntervalSeconds]\<rparr>],
              Volumes := [hostEtcVolume]\<rparr>\<rparr>\<rparr>)"

definition buildDaemonSet :: "string \<Rightarrow> daemon_set sprog" where
  "buildDaemonSet namespace = bind nodeLabelerImage (\<lambda>img. Ret (daemonSetOf img namespace))"

text \<open>The patch is computed from the object as read and the same object with the new spec.\<close>

definition ensureDaemonSetOnStartup :: "string \<Rightarrow> unit res sprog" where
  "ensureDaemonSetOnStartup namespace =
     bind (buildDaemonSet namespace) (\<lambda>desired.
     bind (sask (CreateDaemonSet desired) setUnit) (\<lambda>r. case r of
       Inr _ \<Rightarrow> Ret (Inr ())
     | Inl e \<Rightarrow>
         if \<not> IsAlreadyExists e then Ret (Inl e)
         else attempt (sask (GetDaemonSetLive namespace kairosNodeLabelerDaemonSetName) setDaemonSet)
                (\<lambda>existing. sask (PatchDaemonSet existing (existing\<lparr>dsSpec := dsSpec desired\<rparr>)) setUnit)))"

definition ensureDaemonSet :: "string \<Rightarrow> unit res sprog" where
  "ensureDaemonSet namespace =
     bind (sask (GetDaemonSetCached namespace kairosNodeLabelerDaemonSetName) setDaemonSet) (\<lambda>got. case got of
       Inr _ \<Rightarrow> Ret (Inr ())
     | Inl e \<Rightarrow>
         if \<not> IsNotFound e then Ret (Inl e)
         else bind (buildDaemonSet namespace) (\<lambda>desired. sask (CreateDaemonSet desired) setUnit))"

definition daemonSetReconcile :: "string \<Rightarrow> unit res sprog" where
  "daemonSetReconcile namespace = ensureDaemonSet namespace"

definition watchesDaemonSet :: "string \<Rightarrow> object_meta \<Rightarrow> bool" where
  "watchesDaemonSet namespace m \<longleftrightarrow> Name m = kairosNodeLabelerDaemonSetName \<and> Namespace m = namespace"

section \<open>Start-up tasks\<close>

text \<open>\<open>startupRetryInterval\<close> in seconds.\<close>

definition startupRetryInterval :: nat where "startupRetryInterval = 5"

text \<open>
  \<open>runUntilDone\<close>, one unit of fuel per attempt; a wait answered with an error is a cancelled
  context. The result is whether the task succeeded, \<open>None\<close> while it still runs.
\<close>

fun runUntilDone :: "nat \<Rightarrow> nat \<Rightarrow> unit res sprog \<Rightarrow> bool option sprog" where
  "runUntilDone 0 interval fn = Ret None"
| "runUntilDone (Suc fuel) interval fn =
     bind fn (\<lambda>err. case err of
       Inr _ \<Rightarrow> Ret (Some True)
     | Inl e \<Rightarrow>
         bind (sask (WaitRetry interval) setUnit) (\<lambda>w. case w of
           Inl c \<Rightarrow> Ret (Some False)
         | Inr _ \<Rightarrow> runUntilDone fuel interval fn))"

definition addStartupTask :: "nat \<Rightarrow> unit res sprog \<Rightarrow> bool option sprog" where
  "addStartupTask fuel fn = runUntilDone fuel startupRetryInterval fn"

text \<open>What the two controllers register in \<open>SetupWithManager\<close>.\<close>

definition labelerStartup :: "nat \<Rightarrow> bool option sprog" where
  "labelerStartup fuel = bind getOperatorNamespace (\<lambda>namespace. addStartupTask fuel (ensureServiceAccount namespace))"

definition daemonSetStartup :: "nat \<Rightarrow> bool option sprog" where
  "daemonSetStartup fuel =
     bind getOperatorNamespace (\<lambda>namespace. addStartupTask fuel (ensureDaemonSetOnStartup namespace))"

section \<open>The Pods and the program they run\<close>

text \<open>The value of an environment variable in a container, empty when it is not set or a field reference.\<close>

definition podEnv :: "container \<Rightarrow> string \<Rightarrow> string" where
  "podEnv c v = (case find (\<lambda>e. envName e = v) (cEnv c) of None \<Rightarrow> [] | Some e \<Rightarrow> envValue e)"

text \<open>The directory the program reads its files from, in a container of the Pod, is the host's /etc, read only.\<close>

definition readsHostEtc :: "pod_spec \<Rightarrow> container \<Rightarrow> bool" where
  "readsHostEtc s c \<longleftrightarrow> (\<forall>tr p. exec hostEtcPath tr p \<longrightarrow>
     (\<forall>v r. (LabelerGetenv v, r) \<in> set tr \<longrightarrow> asEnv r = podEnv c v) \<longrightarrow>
     (\<exists>m \<in> set (cVolumeMounts c). vmMountPath m = p \<and> vmReadOnly m \<and>
        (\<exists>v \<in> set (Volumes s). volName v = vmName m \<and> volSource v = HostPath ''/etc'')))"

lemma readsHostEtcI:
  assumes "(if podEnv c ''HOST_ETC_PATH'' \<noteq> [] then podEnv c ''HOST_ETC_PATH'' else ''/host/etc'') = vmMountPath m"
    and "m \<in> set (cVolumeMounts c)" "vmReadOnly m"
    and "v \<in> set (Volumes s)" "volName v = vmName m" "volSource v = HostPath ''/etc''"
  shows "readsHostEtc s c"
  unfolding readsHostEtc_def
proof (intro allI impI)
  fix tr p
  assume ex: "exec hostEtcPath tr p" and env: "\<forall>v r. (LabelerGetenv v, r) \<in> set tr \<longrightarrow> asEnv r = podEnv c v"
  from ex obtain r where tr: "tr = [(LabelerGetenv ''HOST_ETC_PATH'', r)]"
    and p: "p = (if asEnv r \<noteq> [] then asEnv r else ''/host/etc'')"
    by (auto simp: hostEtcPath_def exec_lask_bind)
  from env tr have "asEnv r = podEnv c ''HOST_ETC_PATH''" by simp
  then have "p = vmMountPath m" using p assms(1) by metis
  with assms(2-) show "\<exists>m \<in> set (cVolumeMounts c). vmMountPath m = p \<and> vmReadOnly m \<and>
      (\<exists>v \<in> set (Volumes s). volName v = vmName m \<and> volSource v = HostPath ''/etc'')" by blast
qed

lemmas labeler_pod_defs = labelerJobOf_def daemonSetOf_def labelerContainer_def hostEtcVolume_def nodeNameEnv_def
  volumeMount_def empty_container_def empty_pod_spec_def

text \<open>
  The Pods of the Job and of the DaemonSet fit the program they run: their one container mounts
  declared volumes only, gets the node's name from the field \<open>spec.nodeName\<close>, and the directory
  the program reads from is the host's /etc, mounted read only. The Job's Pod is pinned to its
  node and runs once; the DaemonSet's Pods run on nodes labelled as managed only, whatever their
  taints, and re-label every sixty seconds.
\<close>

theorem labeler_pods_fit_program:
  "(\<exists>c. Containers (templateSpec (jobSpec (labelerJobOf img nd namespace))) = [c] \<and>
     readsHostEtc (templateSpec (jobSpec (labelerJobOf img nd namespace))) c \<and> nodeNameEnv \<in> set (cEnv c) \<and> cArgs c = [] \<and>
     mountsResolve (templateSpec (jobSpec (labelerJobOf img nd namespace))) \<and>
     NodeName (templateSpec (jobSpec (labelerJobOf img nd namespace))) = Name (nodeMeta nd)) \<and>
   (\<exists>c. Containers (dsPodSpec (dsSpec (daemonSetOf img namespace))) = [c] \<and>
     readsHostEtc (dsPodSpec (dsSpec (daemonSetOf img namespace))) c \<and> nodeNameEnv \<in> set (cEnv c) \<and>
     cArgs c = [''--every'', ''60''] \<and> mountsResolve (dsPodSpec (dsSpec (daemonSetOf img namespace))) \<and>
     podNodeSelector (dsPodSpec (dsSpec (daemonSetOf img namespace))) = [(labelKairosManaged, ''true'')] \<and>
     dsMatchLabels (dsSpec (daemonSetOf img namespace)) = dsTemplateLabels (dsSpec (daemonSetOf img namespace)))"
proof -
  let ?m = "(volumeMount hostEtcVolumeName hostEtcMountPath)\<lparr>vmReadOnly := True\<rparr>"
  let ?j = "(labelerContainer img)\<lparr>cEnv :=
    [nodeNameEnv, \<lparr>envName = ''HOST_ETC_PATH'', envValue = hostEtcMountPath, envFieldRef = None\<rparr>]\<rparr>"
  let ?d = "(labelerContainer img)\<lparr>cArgs := [''--every'', dec_int defaultSyncIntervalSeconds]\<rparr>"
  let ?P = "templateSpec (jobSpec (labelerJobOf img nd namespace))"
  let ?D = "dsPodSpec (dsSpec (daemonSetOf img namespace))"
  have "dec_int defaultSyncIntervalSeconds = ''60''"
    by (simp add: dec_int_def defaultSyncIntervalSeconds_def dec_nat.simps hex_digit_def)
  moreover have "readsHostEtc ?P ?j"
    by (rule readsHostEtcI [where m = ?m and v = hostEtcVolume])
      (simp_all add: labeler_pod_defs podEnv_def envNodeName_def hostEtcMountPath_def Let_def)
  moreover have "readsHostEtc ?D ?d"
    by (rule readsHostEtcI [where m = ?m and v = hostEtcVolume])
      (simp_all add: labeler_pod_defs podEnv_def envNodeName_def hostEtcMountPath_def Let_def)
  ultimately show
    "(\<exists>c. Containers ?P = [c] \<and> readsHostEtc ?P c \<and> nodeNameEnv \<in> set (cEnv c) \<and> cArgs c = [] \<and> mountsResolve ?P \<and>
       NodeName ?P = Name (nodeMeta nd)) \<and>
     (\<exists>c. Containers ?D = [c] \<and> readsHostEtc ?D c \<and> nodeNameEnv \<in> set (cEnv c) \<and> cArgs c = [''--every'', ''60''] \<and>
       mountsResolve ?D \<and> podNodeSelector ?D = [(labelKairosManaged, ''true'')] \<and>
       dsMatchLabels (dsSpec (daemonSetOf img namespace)) = dsTemplateLabels (dsSpec (daemonSetOf img namespace)))"
    by (simp_all add: labeler_pod_defs mountsResolve_def Let_def labelKeyKairosManaged_def labelKairosManaged_def)
qed

section \<open>One Job per node\<close>

text \<open>The Job is found by the listing of the next reconcile, and its name depends on the node only.\<close>

lemma labelerJob_found:
  "MatchingLabels (labelerJobLabels (Name (nodeMeta nd))) (Labels (jobMeta (labelerJobOf img nd namespace)))"
  by (simp add: MatchingLabels_def labelerJobLabels_def labelerJobOf_def Let_def labelKeyJobNode_def labelKeyApp_def)

lemma labelerJob_name:
  "length (Name (jobMeta (labelerJobOf img nd namespace))) \<le> 63"
  "Name (nodeMeta nd) = Name (nodeMeta nd') \<Longrightarrow>
     Name (jobMeta (labelerJobOf img nd namespace)) = Name (jobMeta (labelerJobOf img' nd' namespace'))"
  using truncate_length [of KubernetesNameLengthLimit "''kairos-node-labeler-'' @ Name (nodeMeta nd)"]
  by (auto simp: labelerJobOf_def Let_def KubernetesNameLengthLimit_def)

text \<open>A reconcile either creates no Job, or is the one sequence of requests that creates one.\<close>

lemma exec_labelerReconcile:
  assumes "exec (labelerReconcile n) tr r"
  obtains (no_job) "\<And>j u. (SetupCreateJob j, u) \<notin> set tr"
    | (job) nd a namespace i img u where
      "tr = [(SetupGetNode n, SNode (Inr nd)), (SetupGetenv ''CONTROLLER_POD_NAMESPACE'', a),
         (SetupListJobs namespace (labelerJobLabels (Name (nodeMeta nd))), SJobs (Inr [])),
         (SetupGetenv ''NODE_LABELER_IMAGE'', i), (SetupCreateJob (labelerJobOf img nd namespace), u)]"
proof -
  define make where "make = (\<lambda>nd namespace. bind (createNodeLabelerJob nd namespace) (\<lambda>job. sask (SetupCreateJob job) setUnit))"
  from assms obtain g t where tr: "tr = (SetupGetNode n, g) # t" and
    ex: "exec (case setNode g of Inl e \<Rightarrow> Ret (if IsNotFound e then Inr () else Inl e)
       | Inr nd \<Rightarrow> bind getOperatorNamespace (\<lambda>namespace. attempt (jobExists namespace (Name (nodeMeta nd))) (\<lambda>exists.
           if exists then Ret (Inr ()) else make nd namespace))) t r"
    unfolding labelerReconcile_def exec_sask_bind make_def by blast
  show thesis
  proof (cases "setNode g")
    case (Inl e)
    with ex tr show thesis by (intro no_job) simp
  next
    case (Inr nd)
    from ex obtain a namespace t1 where t: "t = (SetupGetenv ''CONTROLLER_POD_NAMESPACE'', a) # t1"
      and ex1: "exec (attempt (jobExists namespace (Name (nodeMeta nd))) (\<lambda>exists.
           if exists then Ret (Inr ()) else make nd namespace)) t1 r"
      unfolding getOperatorNamespace_def bind_assoc exec_sask_bind bind.simps Inr sum.case by blast
    from ex1 obtain l t2 where t1: "t1 = (SetupListJobs namespace (labelerJobLabels (Name (nodeMeta nd))), l) # t2"
      and ex2: "exec (bind (case setJobs l of Inl e \<Rightarrow> Ret (Inl e) | Inr jobs \<Rightarrow> Ret (Inr (0 < length jobs)))
          (\<lambda>x. case x of Inl e \<Rightarrow> Ret (Inl e) | Inr exists \<Rightarrow> if exists then Ret (Inr ()) else make nd namespace)) t2 r"
      unfolding jobExists_def attempt_def bind_assoc exec_sask_bind by blast
    show thesis
    proof (cases "setJobs l = Inr []")
      case False
      with ex2 have "t2 = []" by (cases "setJobs l") auto
      with tr t t1 show thesis by (intro no_job) simp
    next
      case True
      with ex2 have "exec (make nd namespace) t2 r" by simp
      then obtain i img u where "t2 = [(SetupGetenv ''NODE_LABELER_IMAGE'', i), (SetupCreateJob (labelerJobOf img nd namespace), u)]"
        unfolding make_def createNodeLabelerJob_def nodeLabelerImage_def bind_assoc exec_sask_bind bind.simps exec_sask by blast
      with tr t t1 True Inr show thesis by (intro job) simp
    qed
  qed
qed

text \<open>
  C40. A reconcile of a node creates at most one Job, only after the listing of this node's labeler
  Jobs in the operator's namespace came back empty, and changes nothing else. The Job it creates
  is one that listing finds, so later reconciles leave it alone; its name fits 63 bytes.
\<close>

theorem labeler_job_once:
  assumes "exec (labelerReconcile n) tr r"
  shows "length (filter (\<lambda>e. \<exists>j. fst e = SetupCreateJob j) tr) \<le> 1 \<and>
    (\<forall>j u. (SetupCreateJob j, u) \<in> set tr \<longrightarrow>
      (\<exists>nd. (SetupGetNode n, SNode (Inr nd)) \<in> set tr \<and>
         (SetupListJobs (Namespace (jobMeta j)) (labelerJobLabels (Name (nodeMeta nd))), SJobs (Inr [])) \<in> set tr \<and>
         MatchingLabels (labelerJobLabels (Name (nodeMeta nd))) (Labels (jobMeta j)) \<and>
         length (Name (jobMeta j)) \<le> 63 \<and> NodeName (templateSpec (jobSpec j)) = Name (nodeMeta nd)))"
  using assms
proof (cases rule: exec_labelerReconcile)
  case no_job
  then have "filter (\<lambda>e. \<exists>j. fst e = SetupCreateJob j) tr = []" by (auto simp: filter_empty_conv)
  with no_job show ?thesis by simp
next
  case (job nd a namespace i img u)
  have "Namespace (jobMeta (labelerJobOf img nd namespace)) = namespace"
    "NodeName (templateSpec (jobSpec (labelerJobOf img nd namespace))) = Name (nodeMeta nd)"
    by (simp_all add: labelerJobOf_def Let_def empty_pod_spec_def)
  with job show ?thesis by (simp add: labelerJob_found labelerJob_name)
qed

definition labeler_node :: node where
  "labeler_node = \<lparr>nodeMeta = empty_meta\<lparr>Name := ''n1''\<rparr>, Unschedulable = False, BootID = [], nodeConditions = []\<rparr>"

theorem labeler_job_once_witness:
  "\<exists>tr j. exec (labelerReconcile ''n1'') tr (Inr ()) \<and> (SetupCreateJob j, SUnit (Inr ())) \<in> set tr \<and>
     length (Name (jobMeta j)) \<le> 63 \<and> NodeName (templateSpec (jobSpec j)) = ''n1''"
proof -
  define j where "j = labelerJobOf ''img'' labeler_node ''ops''"
  define tr where "tr = [(SetupGetNode ''n1'', SNode (Inr labeler_node)),
     (SetupGetenv ''CONTROLLER_POD_NAMESPACE'', SString ''ops''),
     (SetupListJobs ''ops'' (labelerJobLabels ''n1''), SJobs (Inr [])),
     (SetupGetenv ''NODE_LABELER_IMAGE'', SString ''img''), (SetupCreateJob j, SUnit (Inr ()))]"
  have nm: "Name (nodeMeta labeler_node) = ''n1''" by (simp add: labeler_node_def)
  have "exec (labelerReconcile ''n1'') tr (Inr ())"
    by (simp add: exec_iff_scripted tr_def labelerReconcile_def getOperatorNamespace_def jobExists_def attempt_def
        createNodeLabelerJob_def nodeLabelerImage_def sask_def nm flip: j_def)
  moreover have mem: "(SetupCreateJob j, SUnit (Inr ())) \<in> set tr" by (simp add: tr_def)
  moreover from labeler_job_once [OF calculation(1)] mem obtain nd where
    "(SetupGetNode ''n1'', SNode (Inr nd)) \<in> set tr" "length (Name (jobMeta j)) \<le> 63"
    "NodeName (templateSpec (jobSpec j)) = Name (nodeMeta nd)" by blast
  ultimately show ?thesis by (auto simp: tr_def nm)
qed

section \<open>Start-up tasks are retried until they succeed\<close>

lemma runUntilDone_success:
  "exec (runUntilDone fuel i fn) tr (Some True) \<Longrightarrow> \<exists>pre t. tr = pre @ t \<and> exec fn t (Inr ())"
proof (induction fuel arbitrary: tr)
  case 0
  then show ?case by simp
next
  case (Suc fuel)
  from Suc.prems obtain t1 err t2 where tr: "tr = t1 @ t2" and e1: "exec fn t1 err"
    and e2: "exec (case err of Inr _ \<Rightarrow> Ret (Some True) | Inl e \<Rightarrow>
         bind (sask (WaitRetry i) setUnit) (\<lambda>w. case w of Inl c \<Rightarrow> Ret (Some False)
           | Inr _ \<Rightarrow> runUntilDone fuel i fn)) t2 (Some True)"
    unfolding runUntilDone.simps exec_bind by blast
  show ?case
  proof (cases err)
    case (Inr u)
    with tr e1 e2 show ?thesis by (intro exI [of _ "[]"] exI [of _ t1]) simp
  next
    case (Inl e)
    with e2 obtain w t3 where t2: "t2 = (WaitRetry i, w) # t3" and
      e3: "exec (case setUnit w of Inl c \<Rightarrow> Ret (Some False) | Inr _ \<Rightarrow> runUntilDone fuel i fn) t3 (Some True)"
      by (auto simp: exec_sask_bind)
    from e3 have "exec (runUntilDone fuel i fn) t3 (Some True)" by (auto split: sum.splits)
    from Suc.IH [OF this] obtain pre t where "t3 = pre @ t" "exec fn t (Inr ())" by blast
    with tr t2 show ?thesis by (intro exI [of _ "t1 @ (WaitRetry i, w) # pre"] exI [of _ t]) simp
  qed
qed

lemma runUntilDone_waits:
  assumes "\<And>t a. exec fn t a \<Longrightarrow> filter (\<lambda>e. fst e = WaitRetry i) t = []"
  shows "exec (runUntilDone fuel i fn) tr None \<Longrightarrow> length (filter (\<lambda>e. fst e = WaitRetry i) tr) = fuel"
proof (induction fuel arbitrary: tr)
  case 0
  then show ?case by simp
next
  case (Suc fuel)
  from Suc.prems obtain t1 err t2 where tr: "tr = t1 @ t2" and e1: "exec fn t1 err"
    and e2: "exec (case err of Inr _ \<Rightarrow> Ret (Some True) | Inl e \<Rightarrow>
         bind (sask (WaitRetry i) setUnit) (\<lambda>w. case w of Inl c \<Rightarrow> Ret (Some False)
           | Inr _ \<Rightarrow> runUntilDone fuel i fn)) t2 None"
    unfolding runUntilDone.simps exec_bind by blast
  from e2 obtain w t3 where t2: "t2 = (WaitRetry i, w) # t3" and e3: "exec (runUntilDone fuel i fn) t3 None"
  proof (cases err)
    case (Inr u)
    with e2 show ?thesis by simp
  next
    case (Inl e)
    with e2 obtain w t3 where t2: "t2 = (WaitRetry i, w) # t3"
      and w: "exec (case setUnit w of Inl c \<Rightarrow> Ret (Some False) | Inr _ \<Rightarrow> runUntilDone fuel i fn) t3 None"
      by (auto simp: exec_sask_bind)
    from w have "exec (runUntilDone fuel i fn) t3 None" by (cases "setUnit w") simp_all
    with t2 show ?thesis by (rule that)
  qed
  from Suc.IH [OF e3] assms [OF e1] tr t2 show ?case by simp
qed

lemma ensureDaemonSetOnStartup_ok:
  assumes "exec (ensureDaemonSetOnStartup namespace) tr (Inr ())"
  shows "\<exists>img. (CreateDaemonSet (daemonSetOf img namespace), SUnit (Inr ())) \<in> set tr \<or>
    (\<exists>old. (GetDaemonSetLive namespace kairosNodeLabelerDaemonSetName, SDaemonSet (Inr old)) \<in> set tr \<and>
       (PatchDaemonSet old (old\<lparr>dsSpec := dsSpec (daemonSetOf img namespace)\<rparr>), SUnit (Inr ())) \<in> set tr)"
proof -
  from assms obtain img i c t where tr: "tr = (SetupGetenv ''NODE_LABELER_IMAGE'', i) #
      (CreateDaemonSet (daemonSetOf img namespace), c) # t"
    and ex: "exec (case setUnit c of Inr _ \<Rightarrow> Ret (Inr ()) | Inl e \<Rightarrow>
         if \<not> IsAlreadyExists e then Ret (Inl e)
         else attempt (sask (GetDaemonSetLive namespace kairosNodeLabelerDaemonSetName) setDaemonSet)
                (\<lambda>existing. sask (PatchDaemonSet existing (existing\<lparr>dsSpec := dsSpec (daemonSetOf img namespace)\<rparr>)) setUnit))
         t (Inr ())"
    unfolding ensureDaemonSetOnStartup_def buildDaemonSet_def nodeLabelerImage_def bind_assoc exec_sask_bind bind.simps
    by blast
  show ?thesis
  proof (cases "setUnit c")
    case (Inr u)
    then have "c = SUnit (Inr ())" by simp
    with tr show ?thesis by auto
  next
    case (Inl e)
    with ex obtain old where "t = [(GetDaemonSetLive namespace kairosNodeLabelerDaemonSetName, SDaemonSet (Inr old)),
        (PatchDaemonSet old (old\<lparr>dsSpec := dsSpec (daemonSetOf img namespace)\<rparr>), SUnit (Inr ()))]"
      by (auto simp: exec_attempt exec_sask split: if_splits)
    with tr show ?thesis by (intro exI [of _ img]) auto
  qed
qed

lemma ensureDaemonSetOnStartup_no_wait:
  "exec (ensureDaemonSetOnStartup namespace) t a \<Longrightarrow> filter (\<lambda>e. fst e = WaitRetry i) t = []"
proof -
  assume "exec (ensureDaemonSetOnStartup namespace) t a"
  moreover have "only (\<lambda>q. q \<noteq> WaitRetry i) (ensureDaemonSetOnStartup namespace)"
    unfolding ensureDaemonSetOnStartup_def buildDaemonSet_def nodeLabelerImage_def
    by (auto intro!: only_bind only_attempt split: sum.splits)
  ultimately show ?thesis by (auto simp: filter_empty_conv dest: only_exec)
qed

text \<open>
  When the start-up task of the DaemonSet reports success, the DaemonSet was created with the spec
  built from the image the operator is configured with, or the live object was patched to have
  exactly this spec and kept its metadata. While it has not ended, it waited once after each attempt.
\<close>

theorem daemonset_startup_retries:
  assumes "exec (daemonSetStartup fuel) tr d"
  shows "(d = Some True \<longrightarrow> (\<exists>img namespace.
       (CreateDaemonSet (daemonSetOf img namespace), SUnit (Inr ())) \<in> set tr \<or>
       (\<exists>old. (GetDaemonSetLive namespace kairosNodeLabelerDaemonSetName, SDaemonSet (Inr old)) \<in> set tr \<and>
          (PatchDaemonSet old (old\<lparr>dsSpec := dsSpec (daemonSetOf img namespace)\<rparr>), SUnit (Inr ())) \<in> set tr))) \<and>
    (d = None \<longrightarrow> length (filter (\<lambda>e. fst e = WaitRetry startupRetryInterval) tr) = fuel)"
proof -
  from assms obtain a namespace t where tr: "tr = (SetupGetenv ''CONTROLLER_POD_NAMESPACE'', a) # t"
    and ex: "exec (runUntilDone fuel startupRetryInterval (ensureDaemonSetOnStartup namespace)) t d"
    unfolding daemonSetStartup_def addStartupTask_def getOperatorNamespace_def bind_assoc exec_sask_bind bind.simps by blast
  show ?thesis
  proof (intro conjI impI)
    assume "d = Some True"
    with ex have "exec (runUntilDone fuel startupRetryInterval (ensureDaemonSetOnStartup namespace)) t (Some True)" by simp
    from runUntilDone_success [OF this] obtain pre t' where t: "t = pre @ t'"
      and ok: "exec (ensureDaemonSetOnStartup namespace) t' (Inr ())" by blast
    have "set t' \<subseteq> set tr" using tr t by auto
    with ensureDaemonSetOnStartup_ok [OF ok] show "\<exists>img namespace.
       (CreateDaemonSet (daemonSetOf img namespace), SUnit (Inr ())) \<in> set tr \<or>
       (\<exists>old. (GetDaemonSetLive namespace kairosNodeLabelerDaemonSetName, SDaemonSet (Inr old)) \<in> set tr \<and>
          (PatchDaemonSet old (old\<lparr>dsSpec := dsSpec (daemonSetOf img namespace)\<rparr>), SUnit (Inr ())) \<in> set tr)"
      by blast
  next
    assume "d = None"
    with ex have "exec (runUntilDone fuel startupRetryInterval (ensureDaemonSetOnStartup namespace)) t None" by simp
    from runUntilDone_waits [OF ensureDaemonSetOnStartup_no_wait this] tr
    show "length (filter (\<lambda>e. fst e = WaitRetry startupRetryInterval) tr) = fuel" by simp
  qed
qed

definition old_daemon_set :: daemon_set where
  "old_daemon_set = daemonSetOf ''old'' ''ops''"

theorem daemonset_startup_retries_witness:
  "\<exists>tr. exec (daemonSetStartup 2) tr (Some True) \<and>
     (\<exists>img namespace. (CreateDaemonSet (daemonSetOf img namespace), SUnit (Inr ())) \<in> set tr \<or>
       (\<exists>old. (GetDaemonSetLive namespace kairosNodeLabelerDaemonSetName, SDaemonSet (Inr old)) \<in> set tr \<and>
          (PatchDaemonSet old (old\<lparr>dsSpec := dsSpec (daemonSetOf img namespace)\<rparr>), SUnit (Inr ())) \<in> set tr))"
proof -
  define ds where "ds = daemonSetOf ''new'' ''ops''"
  define tr where "tr = [(SetupGetenv ''CONTROLLER_POD_NAMESPACE'', SString ''ops''),
     (SetupGetenv ''NODE_LABELER_IMAGE'', SString ''new''),
     (CreateDaemonSet ds, SUnit (Inl (ApiError OtherReason ''unreachable''))), (WaitRetry 5, SUnit (Inr ())),
     (SetupGetenv ''NODE_LABELER_IMAGE'', SString ''new''),
     (CreateDaemonSet ds, SUnit (Inl (ApiError AlreadyExists ''exists''))),
     (GetDaemonSetLive ''ops'' kairosNodeLabelerDaemonSetName, SDaemonSet (Inr old_daemon_set)),
     (PatchDaemonSet old_daemon_set (old_daemon_set\<lparr>dsSpec := dsSpec ds\<rparr>), SUnit (Inr ()))]"
  have "exec (daemonSetStartup 2) tr (Some True)"
    by (simp add: exec_iff_scripted tr_def daemonSetStartup_def addStartupTask_def getOperatorNamespace_def numeral_2_eq_2
        ensureDaemonSetOnStartup_def buildDaemonSet_def nodeLabelerImage_def attempt_def sask_def
        IsAlreadyExists_def startupRetryInterval_def flip: ds_def)
  with daemonset_startup_retries [OF this] show ?thesis by blast
qed

end
