(* ===== verification/Manager.thy ===== *)
theory Manager
  imports NodeOpUpgrade RebootWatcher NodeLabelerCtl OSArtifactExport Progress
begin

text \<open>
  The program of the operator's image (cmd/main.go): which of its two programs \<open>main\<close> runs, the
  flags, the servers' TLS options, and the manager with its controllers, each with the watches of
  its \<open>SetupWithManager\<close>, up to the start.
\<close>

section \<open>File names\<close>

text \<open>
  \<open>filepath.Join\<close> and \<open>filepath.Clean\<close> of the standard library, for Unix. \<open>cleaned\<close> walks over the
  elements of the path with those kept so far, the last one first.
\<close>

fun pathElements :: "string \<Rightarrow> string \<Rightarrow> string list" where
  "pathElements acc [] = [rev acc]"
| "pathElements acc (c # cs) =
     (if c = CHR ''/'' then rev acc # pathElements [] cs else pathElements (c # acc) cs)"

fun cleaned :: "bool \<Rightarrow> string list \<Rightarrow> string list \<Rightarrow> string list" where
  "cleaned rooted out [] = rev out"
| "cleaned rooted out (p # ps) =
     (if p = [] \<or> p = ''.'' then cleaned rooted out ps
      else if p = ''..'' then
        (case out of
           d # ds \<Rightarrow> if d = ''..'' then cleaned rooted (p # out) ps else cleaned rooted ds ps
         | [] \<Rightarrow> cleaned rooted (if rooted then [] else [p]) ps)
      else cleaned rooted (p # out) ps)"

definition Clean :: "string \<Rightarrow> string" where
  "Clean path =
     (let rooted = (path \<noteq> [] \<and> hd path = CHR ''/'');
          body = Join (cleaned rooted [] (pathElements [] path)) ''/''
      in if rooted then CHR ''/'' # body else if body = [] then ''.'' else body)"

definition filepathJoin :: "string list \<Rightarrow> string" where
  "filepathJoin elems =
     (let rest = dropWhile (\<lambda>e. e = []) elems in if rest = [] then [] else Clean (Join rest ''/''))"

section \<open>Flags\<close>

definition CompatibleAurorabootVersion :: string where "CompatibleAurorabootVersion = ''v0.24.0''"
definition CompatibleBuildahVersion :: string where "CompatibleBuildahVersion = ''v1.43.1''"

record flags =
  metricsAddr :: string
  probeAddr :: string
  enableLeaderElection :: bool
  secureMetrics :: bool
  webhookCertPath :: string
  webhookCertName :: string
  webhookCertKey :: string
  metricsCertPath :: string
  metricsCertName :: string
  metricsCertKey :: string
  enableHTTP2 :: bool
  toolImage :: string
  buildahImage :: string

definition defaultFlags :: flags where
  "defaultFlags = \<lparr>metricsAddr = ''0'', probeAddr = '':8081'', enableLeaderElection = False, secureMetrics = True,
     webhookCertPath = [], webhookCertName = ''tls.crt'', webhookCertKey = ''tls.key'',
     metricsCertPath = [], metricsCertName = ''tls.crt'', metricsCertKey = ''tls.key'', enableHTTP2 = False,
     toolImage = ''quay.io/kairos/auroraboot:'' @ CompatibleAurorabootVersion,
     buildahImage = ''quay.io/buildah/stable:'' @ CompatibleBuildahVersion\<rparr>"

section \<open>Servers\<close>

text \<open>A certificate watcher is known by the two files it reads.\<close>

record cert_watcher =
  certFile :: string
  keyFile :: string

text \<open>The fields of a \<open>tls.Config\<close> the options set.\<close>

record tls_config =
  NextProtos :: "string list"
  GetCertificate :: "cert_watcher option"

type_synonym tls_option = "tls_config \<Rightarrow> tls_config"

definition disableHTTP2 :: tls_option where
  "disableHTTP2 c = c\<lparr>NextProtos := [''http/1.1'']\<rparr>"

definition serveCertificate :: "cert_watcher \<Rightarrow> tls_option" where
  "serveCertificate w c = c\<lparr>GetCertificate := Some w\<rparr>"

definition tlsOpts :: "flags \<Rightarrow> tls_option list" where
  "tlsOpts fl = (if \<not> enableHTTP2 fl then [disableHTTP2] else [])"

text \<open>The options of one server, extended by its certificate watcher if it has one.\<close>

definition withCertificate :: "tls_option list \<Rightarrow> cert_watcher option \<Rightarrow> tls_option list" where
  "withCertificate opts watcher = opts @ (case watcher of None \<Rightarrow> [] | Some w \<Rightarrow> [serveCertificate w])"

record metrics_options =
  BindAddress :: string
  SecureServing :: bool
  metricsTLSOpts :: "tls_option list"
  withAuthentication :: bool

record manager_options =
  Metrics :: metrics_options
  webhookTLSOpts :: "tls_option list"
  HealthProbeBindAddress :: string
  LeaderElection :: bool
  LeaderElectionID :: string

definition managerOptions :: "flags \<Rightarrow> cert_watcher option \<Rightarrow> cert_watcher option \<Rightarrow> manager_options" where
  "managerOptions fl webhookCertWatcher metricsCertWatcher =
     \<lparr>Metrics = \<lparr>BindAddress = metricsAddr fl, SecureServing = secureMetrics fl,
        metricsTLSOpts = withCertificate (tlsOpts fl) metricsCertWatcher,
        withAuthentication = secureMetrics fl\<rparr>,
      webhookTLSOpts = withCertificate (tlsOpts fl) webhookCertWatcher,
      HealthProbeBindAddress = probeAddr fl, LeaderElection = enableLeaderElection fl,
      LeaderElectionID = ''ce9721c3.kairos.io''\<rparr>"

section \<open>Controllers\<close>

text \<open>
  The reconcilers, with the fields \<open>main\<close> gives them: the direct reader of the NodeOp one, and the
  two images of the OSArtifact one.
\<close>

record nodeop_reconciler =
  APIReader :: "reader option"

definition apiReader :: "nodeop_reconciler \<Rightarrow> reader" where
  "apiReader r = (case APIReader r of Some rd \<Rightarrow> rd | None \<Rightarrow> Cache)"

datatype reconciler_of =
    NodeOpReconciler nodeop_reconciler
  | NodeLabelerReconciler
  | NodeLabelerDaemonSetReconciler
  | NodeOpUpgradeReconciler
  | OSArtifactReconciler string string

text \<open>
  What a controller is registered with: the objects it is \<open>For\<close>, its other watches with the mapping
  to requests, and the filter of their events.
\<close>

datatype 'o event_filter = EveryEvent | ResourceVersionChanged | OnlyIf "'o \<Rightarrow> bool"

datatype primary =
    ForNodeOp
  | ForNode "node event_filter"
  | ForDaemonSet "object_meta event_filter"
  | ForNodeOpUpgrade
  | ForOSArtifact

datatype watch =
    WatchJobs "job event_filter" "job \<Rightarrow> request list"
  | WatchPods "pod event_filter" "pod \<Rightarrow> request list"
  | WatchNodeOps "node_op event_filter" "node_op \<Rightarrow> request list"

record controller =
  ctlNamed :: "string option"
  ctlFor :: primary
  ctlWatches :: "watch list"
  ctlReconciler :: reconciler_of

section \<open>Surroundings\<close>

datatype runnable =
    StartupTask string "unit res sprog"
  | RunCertWatcher cert_watcher

datatype boot_req =
    BootArgs
  | ParseFlags flags
  | BootGetenv string
  | NewCertWatcher cert_watcher
  | GetConfig
  | NewManager manager_options
  | AddRunnable runnable
  | ParseSelector string
  | CompleteController controller
  | AddHealthzCheck string
  | AddReadyzCheck string
  | StartManager
  | RunWatcher watch_req

text \<open>Parsing the flags answers their values, or the status the process exits with (an error, or -help).\<close>

datatype boot_resp =
    BArgs "string list"
  | BFlags "nat + flags"
  | BString string
  | BUnit "unit res"
  | BSelector "(strmap \<Rightarrow> bool) res"
  | BWatch watch_resp

type_synonym 'a bprog = "(boot_req, boot_resp, 'a) prog"
type_synonym boot_trace = "(boot_req \<times> boot_resp) list"

definition bArgs :: "boot_resp \<Rightarrow> string list" where
  "bArgs r = (case r of BArgs a \<Rightarrow> a | _ \<Rightarrow> [])"
definition bFlags :: "boot_resp \<Rightarrow> nat + flags" where
  "bFlags r = (case r of BFlags f \<Rightarrow> f | _ \<Rightarrow> Inl 2)"
definition bString :: "boot_resp \<Rightarrow> string" where
  "bString r = (case r of BString s \<Rightarrow> s | _ \<Rightarrow> [])"
definition bUnit :: "boot_resp \<Rightarrow> unit res" where
  "bUnit r = (case r of BUnit u \<Rightarrow> u | _ \<Rightarrow> Inl decodeError)"
definition bSelector :: "boot_resp \<Rightarrow> (strmap \<Rightarrow> bool) res" where
  "bSelector r = (case r of BSelector s \<Rightarrow> s | _ \<Rightarrow> Inl decodeError)"
definition bWatch :: "boot_resp \<Rightarrow> watch_resp" where
  "bWatch r = (case r of BWatch w \<Rightarrow> w | _ \<Rightarrow> WUnit (Inl decodeError))"

lemma boot_decoded [simp]:
  "bArgs (BArgs a) = a" "bFlags (BFlags f) = f" "bString (BString s) = s" "bUnit (BUnit u) = u"
  "bSelector (BSelector sel) = sel" "bWatch (BWatch w) = w"
  "bUnit r = Inr v \<longleftrightarrow> r = BUnit (Inr v)" "bFlags r = Inr fl \<longleftrightarrow> r = BFlags (Inr fl)"
  "bSelector r = Inr ms \<longleftrightarrow> r = BSelector (Inr ms)"
  by (auto simp: bArgs_def bFlags_def bString_def bUnit_def bSelector_def bWatch_def split: boot_resp.splits)

definition bask :: "boot_req \<Rightarrow> (boot_resp \<Rightarrow> 'a) \<Rightarrow> 'a bprog" where
  "bask q dec = Call q (\<lambda>r. Ret (dec r))"

lemma exec_bask: "exec (bask q dec) tr a \<longleftrightarrow> (\<exists>r. tr = [(q, r)] \<and> dec r = a)"
  by (auto simp: bask_def exec_Call_iff)

lemma exec_bask_bind: "exec (bind (bask q dec) f) tr b \<longleftrightarrow> (\<exists>r t. tr = (q, r) # t \<and> exec (f (dec r)) t b)"
  by (auto simp: bask_def exec_Call_iff)

lemma only_bask [simp]: "only A (bask q dec) = A q"
  by (simp add: bask_def)

section \<open>SetupWithManager\<close>

text \<open>\<open>addStartupTask\<close>: the manager runs the task with \<open>runUntilDone\<close> once it has started.\<close>

definition addTask :: "string \<Rightarrow> unit res sprog \<Rightarrow> unit res bprog" where
  "addTask what fn = bask (AddRunnable (StartupTask what fn)) bUnit"

definition operatorNamespace :: "string bprog" where
  "operatorNamespace = bind (bask (BootGetenv ''CONTROLLER_POD_NAMESPACE'') bString) (\<lambda>namespace.
     Ret (if namespace = [] then ''system'' else namespace))"

definition nodeOpController :: "nodeop_reconciler \<Rightarrow> controller" where
  "nodeOpController r = \<lparr>ctlNamed = Some ''nodeop'', ctlFor = ForNodeOp,
     ctlWatches = [WatchJobs EveryEvent findNodeOpsForJob,
                   WatchPods (OnlyIf watchesRebootPod) findNodeOpsForRebootPod,
                   WatchPods (OnlyIf watchesPreflightPod) findNodeOpsForPreflightPod],
     ctlReconciler = NodeOpReconciler r\<rparr>"

definition nodeOpSetup :: "nodeop_reconciler \<Rightarrow> unit res bprog" where
  "nodeOpSetup r = bask (CompleteController (nodeOpController r)) bUnit"

definition managedSelector :: string where
  "managedSelector = ''kairos.io/managed notin (false)''"

definition nodeLabelerController :: "(strmap \<Rightarrow> bool) \<Rightarrow> controller" where
  "nodeLabelerController sel = \<lparr>ctlNamed = None,
     ctlFor = ForNode (OnlyIf (\<lambda>nd. sel (Labels (nodeMeta nd)))), ctlWatches = [], ctlReconciler = NodeLabelerReconciler\<rparr>"

text \<open>A selector that does not parse ends the process with status 1, like the errors returned to \<open>main\<close>.\<close>

definition nodeLabelerSetup :: "unit res bprog" where
  "nodeLabelerSetup =
     bind operatorNamespace (\<lambda>namespace.
     attempt (addTask ''node-labeler ServiceAccount and RBAC'' (ensureServiceAccount namespace)) (\<lambda>_.
     attempt (bask (ParseSelector managedSelector) bSelector) (\<lambda>sel.
       bask (CompleteController (nodeLabelerController sel)) bUnit)))"

definition daemonSetController :: "string \<Rightarrow> controller" where
  "daemonSetController namespace = \<lparr>ctlNamed = None,
     ctlFor = ForDaemonSet (OnlyIf (watchesDaemonSet namespace)), ctlWatches = [],
     ctlReconciler = NodeLabelerDaemonSetReconciler\<rparr>"

definition nodeLabelerDaemonSetSetup :: "unit res bprog" where
  "nodeLabelerDaemonSetSetup =
     bind operatorNamespace (\<lambda>namespace.
     attempt (addTask ''node-labeler DaemonSet'' (ensureDaemonSetOnStartup namespace)) (\<lambda>_.
       bask (CompleteController (daemonSetController namespace)) bUnit))"

definition nodeOpUpgradeController :: controller where
  "nodeOpUpgradeController = \<lparr>ctlNamed = Some ''nodeopupgrade'', ctlFor = ForNodeOpUpgrade,
     ctlWatches = [WatchNodeOps EveryEvent findNodeOpUpgradesForNodeOp], ctlReconciler = NodeOpUpgradeReconciler\<rparr>"

definition nodeOpUpgradeSetup :: "unit res bprog" where
  "nodeOpUpgradeSetup = bask (CompleteController nodeOpUpgradeController) bUnit"

definition artifactRequests :: "object_meta \<Rightarrow> request list" where
  "artifactRequests m = map (\<lambda>(namespace, nm). \<lparr>reqName = nm, reqNamespace = namespace\<rparr>) (findOwningArtifact m)"

definition osArtifactController :: "string \<Rightarrow> string \<Rightarrow> controller" where
  "osArtifactController tool buildah = \<lparr>ctlNamed = None, ctlFor = ForOSArtifact,
     ctlWatches = [WatchPods ResourceVersionChanged (\<lambda>p. artifactRequests (podMeta p)),
                   WatchJobs ResourceVersionChanged (\<lambda>j. artifactRequests (jobMeta j))],
     ctlReconciler = OSArtifactReconciler tool buildah\<rparr>"

definition osArtifactSetup :: "string \<Rightarrow> string \<Rightarrow> unit res bprog" where
  "osArtifactSetup tool buildah = bask (CompleteController (osArtifactController tool buildah)) bUnit"

section \<open>main\<close>

definition newCertWatcher :: "string \<Rightarrow> string \<Rightarrow> string \<Rightarrow> cert_watcher option res bprog" where
  "newCertWatcher path nm key =
     (if 0 < length path then
        (let w = \<lparr>certFile = filepathJoin [path, nm], keyFile = filepathJoin [path, key]\<rparr>
         in attempt (bask (NewCertWatcher w) bUnit) (\<lambda>_. Ret (Inr (Some w))))
      else Ret (Inr None))"

definition addCertWatcher :: "cert_watcher option \<Rightarrow> unit res bprog" where
  "addCertWatcher watcher = (case watcher of
     None \<Rightarrow> Ret (Inr ())
   | Some w \<Rightarrow> bask (AddRunnable (RunCertWatcher w)) bUnit)"

definition setupControllers :: "flags \<Rightarrow> unit res bprog" where
  "setupControllers fl =
     attempt (nodeOpSetup \<lparr>APIReader = Some Live\<rparr>) (\<lambda>_.
     attempt nodeLabelerSetup (\<lambda>_.
     attempt nodeLabelerDaemonSetSetup (\<lambda>_.
     attempt nodeOpUpgradeSetup (\<lambda>_.
       osArtifactSetup (toolImage fl) (buildahImage fl)))))"

text \<open>From the manager's creation on. An error is logged and ends the process with status 1.\<close>

definition launch :: "flags \<Rightarrow> cert_watcher option \<Rightarrow> cert_watcher option \<Rightarrow> unit res bprog" where
  "launch fl webhookCertWatcher metricsCertWatcher =
     attempt (bask GetConfig bUnit) (\<lambda>_.
     attempt (bask (NewManager (managerOptions fl webhookCertWatcher metricsCertWatcher)) bUnit) (\<lambda>_.
     attempt (setupControllers fl) (\<lambda>_.
     attempt (addCertWatcher metricsCertWatcher) (\<lambda>_.
     attempt (addCertWatcher webhookCertWatcher) (\<lambda>_.
     attempt (bask (AddHealthzCheck ''healthz'') bUnit) (\<lambda>_.
     attempt (bask (AddReadyzCheck ''readyz'') bUnit) (\<lambda>_.
       bask StartManager bUnit)))))))"

definition runManager :: "flags \<Rightarrow> unit res bprog" where
  "runManager fl =
     attempt (newCertWatcher (webhookCertPath fl) (webhookCertName fl) (webhookCertKey fl)) (\<lambda>webhookCertWatcher.
     attempt (newCertWatcher (metricsCertPath fl) (metricsCertName fl) (metricsCertKey fl)) (\<lambda>metricsCertWatcher.
       launch fl webhookCertWatcher metricsCertWatcher))"

text \<open>A program of the reboot watcher's surroundings among those of the binary.\<close>

primrec embed :: "('q \<Rightarrow> 'p) \<Rightarrow> ('s \<Rightarrow> 'r) \<Rightarrow> ('q, 'r, 'a) prog \<Rightarrow> ('p, 's, 'a) prog" where
  "embed f g (Ret a) = Ret a"
| "embed f g (Call q k) = Call (f q) (\<lambda>s. embed f g (k (g s)))"

text \<open>The exit status of the process; \<open>None\<close> is a reboot watcher that still polls.\<close>

definition main :: "nat \<Rightarrow> nat option bprog" where
  "main fuel =
     bind (bask BootArgs bArgs) (\<lambda>args.
       if 1 < length args \<and> args ! 1 = SubcommandName then embed RunWatcher bWatch (runRebootWatcher fuel)
       else bind (bask (ParseFlags defaultFlags) bFlags) (\<lambda>parsed. case parsed of
         Inl status \<Rightarrow> Ret (Some status)
       | Inr fl \<Rightarrow> bind (runManager fl) (\<lambda>r. Ret (case r of Inl e \<Rightarrow> Some 1 | Inr _ \<Rightarrow> Some 0))))"

section \<open>Everything is set up before the start\<close>

text \<open>
  \<open>reaching q m P\<close>: whenever \<open>m\<close> makes the request \<open>q\<close>, \<open>P\<close> holds of what came before, the answer, what
  came after and the result. A first step that cannot make the request has succeeded by then.
\<close>

definition reaching :: "'q \<Rightarrow> ('q, 'r, 'a) prog \<Rightarrow> (('q \<times> 'r) list \<Rightarrow> 'r \<Rightarrow> ('q \<times> 'r) list \<Rightarrow> 'a \<Rightarrow> bool) \<Rightarrow> bool" where
  "reaching q m P \<longleftrightarrow> (\<forall>pre u post a. exec m (pre @ (q, u) # post) a \<longrightarrow> P pre u post a)"

lemma reachingD: "reaching q m P \<Longrightarrow> exec m (pre @ (q, u) # post) a \<Longrightarrow> P pre u post a"
  by (simp add: reaching_def)

lemma reaching_attempt:
  assumes "only (\<lambda>p. p \<noteq> q) m" and "\<And>t a. exec m t (Inr a) \<Longrightarrow> reaching q (f a) (\<lambda>pre. P (t @ pre))"
  shows "reaching q (attempt m f) P"
  unfolding reaching_def
proof (intro allI impI)
  fix pre u post r
  assume ex: "exec (attempt m f) (pre @ (q, u) # post) r"
  have no: "\<And>t x v. exec m t x \<Longrightarrow> (q, v) \<notin> set t" using only_exec [OF _ assms(1)] by blast
  have "(q, u) \<in> set (pre @ (q, u) # post)" by simp
  with ex no obtain t1 a t2 where eq: "pre @ (q, u) # post = t1 @ t2" and m: "exec m t1 (Inr a)"
    and f: "exec (f a) t2 r" unfolding exec_attempt by metis
  from no [OF m] have "(q, u) \<notin> set t1" .
  with eq obtain pre' where "pre = t1 @ pre'" "t2 = pre' @ (q, u) # post"
    by (auto simp: append_eq_append_conv2 append_eq_Cons_conv Cons_eq_append_conv)
  with reachingD [OF assms(2) [OF m]] f show "P pre u post r" by simp
qed

lemma attempt_event:
  assumes "exec (attempt m f) tr r" and "(q, u) \<in> set tr" and "only (\<lambda>p. p \<noteq> q) m"
  obtains t a s where "exec m t (Inr a)" "exec (f a) s r" "(q, u) \<in> set s"
proof -
  have no: "\<And>t x v. exec m t x \<Longrightarrow> (q, v) \<notin> set t" using only_exec [OF _ assms(3)] by blast
  with assms(1,2) obtain t1 a t2 where "tr = t1 @ t2" "exec m t1 (Inr a)" "exec (f a) t2 r"
    unfolding exec_attempt by metis
  with no assms(2) that show thesis by auto
qed

lemma reaching_bask: "reaching q (bask q dec) P \<longleftrightarrow> (\<forall>u. P [] u [] (dec u))"
  by (auto simp: reaching_def exec_bask append_eq_Cons_conv)

fun setsUp :: "boot_req \<Rightarrow> bool" where
  "setsUp StartManager = False"
| "setsUp BootArgs = False"
| "setsUp (ParseFlags fl) = False"
| "setsUp q = True"

lemma setsUp_not_start [intro]: "only setsUp m \<Longrightarrow> only (\<lambda>q. q \<noteq> StartManager) m"
  by (erule only_mono) auto

lemma only_newCertWatcher [intro!]: "only setsUp (newCertWatcher path nm key)"
  by (auto simp: newCertWatcher_def Let_def intro!: only_attempt)

lemma only_addCertWatcher [intro!]: "only setsUp (addCertWatcher w)"
  by (auto simp: addCertWatcher_def split: option.splits)

lemma only_setups [intro!]:
  "only setsUp (nodeOpSetup r)" "only setsUp nodeLabelerSetup" "only setsUp nodeLabelerDaemonSetSetup"
  "only setsUp nodeOpUpgradeSetup" "only setsUp (osArtifactSetup i j)" "only setsUp (setupControllers fl)"
  by (auto simp: nodeOpSetup_def nodeLabelerSetup_def nodeLabelerDaemonSetSetup_def nodeOpUpgradeSetup_def osArtifactSetup_def
      setupControllers_def operatorNamespace_def addTask_def intro!: only_attempt only_bind)

text \<open>What has been set up in a trace: an accepted request.\<close>

definition accepted :: "boot_trace \<Rightarrow> boot_req \<Rightarrow> bool" where
  "accepted tr q \<longleftrightarrow> (q, BUnit (Inr ())) \<in> set tr"

lemma accepted_append [simp]: "accepted (s @ t) q \<longleftrightarrow> accepted s q \<or> accepted t q"
  by (auto simp: accepted_def)

lemma bask_accepted: "exec (bask q bUnit) tr (Inr ()) \<Longrightarrow> accepted tr q"
  by (simp add: exec_bask accepted_def)

lemma exec_newCertWatcher:
  "exec (newCertWatcher path nm key) tr (Inr w) \<Longrightarrow>
     w = (if path = [] then None else Some \<lparr>certFile = filepathJoin [path, nm], keyFile = filepathJoin [path, key]\<rparr>) \<and>
     (\<forall>c. w = Some c \<longrightarrow> accepted tr (NewCertWatcher c))"
  by (auto simp: newCertWatcher_def Let_def exec_attempt exec_bask accepted_def split: if_splits)

lemma exec_addCertWatcher: "exec (addCertWatcher w) tr (Inr ()) \<Longrightarrow> w = Some c \<Longrightarrow> accepted tr (AddRunnable (RunCertWatcher c))"
  by (simp add: addCertWatcher_def bask_accepted)

text \<open>The five controllers, and the two start-up tasks.\<close>

definition registered :: "boot_trace \<Rightarrow> reconciler_of \<Rightarrow> bool" where
  "registered tr r \<longleftrightarrow> (\<exists>c. ctlReconciler c = r \<and> accepted tr (CompleteController c))"

lemma registeredI: "accepted tr (CompleteController c) \<Longrightarrow> ctlReconciler c = r \<Longrightarrow> registered tr r"
  by (auto simp: registered_def)

lemma registered_append [simp]: "registered (s @ t) r \<longleftrightarrow> registered s r \<or> registered t r"
  by (auto simp: registered_def)

lemma exec_nodeLabelerSetup:
  assumes "exec nodeLabelerSetup tr (Inr ())"
  shows "registered tr NodeLabelerReconciler \<and>
    (\<exists>namespace. accepted tr (AddRunnable (StartupTask ''node-labeler ServiceAccount and RBAC'' (ensureServiceAccount namespace))))"
  using assms
  by (fastforce simp: nodeLabelerSetup_def operatorNamespace_def addTask_def bind_assoc exec_bask_bind exec_attempt exec_bask
      registered_def accepted_def nodeLabelerController_def)

lemma exec_nodeLabelerDaemonSetSetup:
  assumes "exec nodeLabelerDaemonSetSetup tr (Inr ())"
  shows "registered tr NodeLabelerDaemonSetReconciler \<and>
    (\<exists>namespace. accepted tr (AddRunnable (StartupTask ''node-labeler DaemonSet'' (ensureDaemonSetOnStartup namespace))))"
  using assms
  by (fastforce simp: nodeLabelerDaemonSetSetup_def operatorNamespace_def addTask_def bind_assoc exec_bask_bind exec_attempt exec_bask
      registered_def accepted_def daemonSetController_def)

lemma exec_otherSetups:
  "exec (nodeOpSetup r) tr (Inr ()) \<Longrightarrow> registered tr (NodeOpReconciler r)"
  "exec nodeOpUpgradeSetup tr (Inr ()) \<Longrightarrow> registered tr NodeOpUpgradeReconciler"
  "exec (osArtifactSetup i j) tr (Inr ()) \<Longrightarrow> registered tr (OSArtifactReconciler i j)"
  by (auto simp: nodeOpSetup_def nodeOpUpgradeSetup_def osArtifactSetup_def nodeOpController_def nodeOpUpgradeController_def
      osArtifactController_def dest!: bask_accepted elim!: registeredI)

definition allRegistered :: "flags \<Rightarrow> boot_trace \<Rightarrow> bool" where
  "allRegistered fl tr \<longleftrightarrow>
     (\<forall>r \<in> {NodeOpReconciler \<lparr>APIReader = Some Live\<rparr>, NodeLabelerReconciler, NodeLabelerDaemonSetReconciler,
        NodeOpUpgradeReconciler, OSArtifactReconciler (toolImage fl) (buildahImage fl)}. registered tr r) \<and>
     (\<exists>namespace. accepted tr (AddRunnable (StartupTask ''node-labeler ServiceAccount and RBAC'' (ensureServiceAccount namespace)))) \<and>
     (\<exists>namespace. accepted tr (AddRunnable (StartupTask ''node-labeler DaemonSet'' (ensureDaemonSetOnStartup namespace))))"

lemma exec_setupControllers:
  assumes "exec (setupControllers fl) tr (Inr ())"
  shows "allRegistered fl tr"
proof -
  from assms obtain t1 t2 t3 t4 t5 where tr: "tr = t1 @ t2 @ t3 @ t4 @ t5"
    and e: "exec (nodeOpSetup \<lparr>APIReader = Some Live\<rparr>) t1 (Inr ())" "exec nodeLabelerSetup t2 (Inr ())"
      "exec nodeLabelerDaemonSetSetup t3 (Inr ())" "exec nodeOpUpgradeSetup t4 (Inr ())"
      "exec (osArtifactSetup (toolImage fl) (buildahImage fl)) t5 (Inr ())"
    unfolding setupControllers_def exec_attempt by auto
  from exec_otherSetups(1) [OF e(1)] exec_nodeLabelerSetup [OF e(2)] exec_nodeLabelerDaemonSetSetup [OF e(3)]
    exec_otherSetups(2) [OF e(4)] exec_otherSetups(3) [OF e(5)]
  show ?thesis by (auto simp: allRegistered_def tr)
qed

text \<open>The certificate watcher a pair of flags asks for.\<close>

definition watcherOf :: "string \<Rightarrow> string \<Rightarrow> string \<Rightarrow> cert_watcher option" where
  "watcherOf path nm key =
     (if path = [] then None else Some \<lparr>certFile = filepathJoin [path, nm], keyFile = filepathJoin [path, key]\<rparr>)"

definition optionsOf :: "flags \<Rightarrow> manager_options" where
  "optionsOf fl = managerOptions fl (watcherOf (webhookCertPath fl) (webhookCertName fl) (webhookCertKey fl))
     (watcherOf (metricsCertPath fl) (metricsCertName fl) (metricsCertKey fl))"

definition watchersOf :: "flags \<Rightarrow> cert_watcher set" where
  "watchersOf fl = set_option (watcherOf (webhookCertPath fl) (webhookCertName fl) (webhookCertKey fl)) \<union>
     set_option (watcherOf (metricsCertPath fl) (metricsCertName fl) (metricsCertKey fl))"

definition readyToStart :: "flags \<Rightarrow> boot_trace \<Rightarrow> bool" where
  "readyToStart fl tr \<longleftrightarrow> accepted tr (NewManager (optionsOf fl)) \<and> allRegistered fl tr \<and>
     (\<forall>w \<in> watchersOf fl. accepted tr (NewCertWatcher w) \<and> accepted tr (AddRunnable (RunCertWatcher w))) \<and>
     accepted tr (AddHealthzCheck ''healthz'') \<and> accepted tr (AddReadyzCheck ''readyz'')"

lemma allRegistered_append: "allRegistered fl t \<Longrightarrow> allRegistered fl (s @ t)" "allRegistered fl s \<Longrightarrow> allRegistered fl (s @ t)"
  by (auto simp: allRegistered_def)

lemma newCertWatcher_watcherOf:
  assumes "exec (newCertWatcher path nm key) tr (Inr w)"
  shows "w = watcherOf path nm key \<and> (\<forall>c. w = Some c \<longrightarrow> accepted tr (NewCertWatcher c))"
  using exec_newCertWatcher [OF assms] by (simp add: watcherOf_def)

lemma runManager_before: "reaching StartManager (runManager fl) (\<lambda>pre u post r. readyToStart fl pre \<and> post = [] \<and> bUnit u = r)"
  unfolding runManager_def launch_def
proof (intro reaching_attempt, goal_cases)
  case (10 t1 w t2 m t3 x3 t4 x4 t5 x5 t6 x6 t7 x7 t8 x8 t9 x9)
  have ok: "allRegistered fl t5" "accepted t4 (NewManager (managerOptions fl w m))"
    "accepted t8 (AddHealthzCheck ''healthz'')" "accepted t9 (AddReadyzCheck ''readyz'')"
    using 10(4-9) by (auto dest: exec_setupControllers bask_accepted)
  have "\<And>c. m = Some c \<Longrightarrow> accepted t6 (AddRunnable (RunCertWatcher c))" "\<And>c. w = Some c \<Longrightarrow> accepted t7 (AddRunnable (RunCertWatcher c))"
    using exec_addCertWatcher 10(6,7) by auto
  with ok newCertWatcher_watcherOf [OF 10(1)] newCertWatcher_watcherOf [OF 10(2)] show ?case
    by (auto simp: reaching_bask readyToStart_def optionsOf_def watchersOf_def allRegistered_append)
qed auto

text \<open>The two programs of the binary.\<close>

lemma exec_embed:
  "exec (embed f g m) tr a \<Longrightarrow> \<exists>tr'. exec m tr' a \<and> map fst tr = map (f \<circ> fst) tr' \<and> map snd tr' = map (g \<circ> snd) tr"
proof (induction m arbitrary: tr)
  case (Ret b)
  then show ?case by simp
next
  case (Call q k)
  from Call.prems obtain u t where tr: "tr = (f q, u) # t" and ex: "exec (embed f g (k (g u))) t a"
    by (auto simp: exec_Call_iff)
  from Call.IH [OF rangeI ex] obtain t' where "exec (k (g u)) t' a" "map fst t = map (f \<circ> fst) t'" "map snd t' = map (g \<circ> snd) t"
    by blast
  with tr show ?case by (intro exI [of _ "(q, g u) # t'"]) (simp add: exec_Call_iff)
qed

lemma exec_main:
  assumes "exec (main fuel) tr st"
  obtains (watcher) x t t' where "tr = (BootArgs, x) # t" "exec (runRebootWatcher fuel) t' st"
      "map fst t = map (RunWatcher \<circ> fst) t'" "map snd t' = map (bWatch \<circ> snd) t"
      "1 < length (bArgs x) \<and> bArgs x ! 1 = SubcommandName"
    | (usage) x y status where "tr = [(BootArgs, x), (ParseFlags defaultFlags, y)]" "bFlags y = Inl status" "st = Some status"
      "\<not> (1 < length (bArgs x) \<and> bArgs x ! 1 = SubcommandName)"
    | (manager) x fl t r where "tr = (BootArgs, x) # (ParseFlags defaultFlags, BFlags (Inr fl)) # t"
      "exec (runManager fl) t r" "st = (case r of Inl e \<Rightarrow> Some 1 | Inr _ \<Rightarrow> Some 0)"
      "\<not> (1 < length (bArgs x) \<and> bArgs x ! 1 = SubcommandName)"
proof -
  from assms obtain x t where tr: "tr = (BootArgs, x) # t" and
    ex: "exec (if 1 < length (bArgs x) \<and> bArgs x ! 1 = SubcommandName then embed RunWatcher bWatch (runRebootWatcher fuel)
       else bind (bask (ParseFlags defaultFlags) bFlags) (\<lambda>parsed. case parsed of
         Inl status \<Rightarrow> Ret (Some status)
       | Inr fl \<Rightarrow> bind (runManager fl) (\<lambda>r. Ret (case r of Inl e \<Rightarrow> Some 1 | Inr _ \<Rightarrow> Some 0)))) t st"
    unfolding main_def exec_bask_bind by blast
  show thesis
  proof (cases "1 < length (bArgs x) \<and> bArgs x ! 1 = SubcommandName")
    case True
    with ex have "exec (embed RunWatcher bWatch (runRebootWatcher fuel)) t st" by simp
    from exec_embed [OF this] obtain t' where "exec (runRebootWatcher fuel) t' st"
      "map fst t = map (RunWatcher \<circ> fst) t'" "map snd t' = map (bWatch \<circ> snd) t" by blast
    with True tr show thesis by (intro watcher)
  next
    case False
    then have c: "(1 < length (bArgs x) \<and> bArgs x ! 1 = SubcommandName) = False" by simp
    from ex obtain y t2 where t: "t = (ParseFlags defaultFlags, y) # t2" and
      e2: "exec (case bFlags y of Inl status \<Rightarrow> Ret (Some status)
       | Inr fl \<Rightarrow> bind (runManager fl) (\<lambda>r. Ret (case r of Inl e \<Rightarrow> Some 1 | Inr _ \<Rightarrow> Some 0))) t2 st"
      unfolding c if_False exec_bask_bind by blast
    show thesis
    proof (cases "bFlags y")
      case (Inl status)
      with e2 t tr False show thesis by (intro usage) auto
    next
      case (Inr fl)
      with e2 obtain r where "exec (runManager fl) t2 r" "st = (case r of Inl e \<Rightarrow> Some 1 | Inr _ \<Rightarrow> Some 0)"
        by (auto simp: exec_bind)
      with t tr Inr False show thesis by (intro manager) auto
    qed
  qed
qed

section \<open>Properties\<close>

text \<open>
  C15. When the manager is started, everything it is to run is in place: it was created with the options
  the flags ask for, the five controllers were registered, the NodeOp one with the direct reader and
  the OSArtifact one with the images of the flags; so were the two start-up tasks, the checks and
  every certificate watcher that serves a certificate. The start is the last thing \<open>main\<close> does, and
  the exit status says whether it succeeded.
\<close>

theorem manager_starts_complete:
  assumes "exec (main fuel) tr st" and "tr = pre @ (StartManager, u) # post"
  shows "\<exists>fl. (ParseFlags defaultFlags, BFlags (Inr fl)) \<in> set pre \<and>
    accepted pre (NewManager (optionsOf fl)) \<and>
    registered pre (NodeOpReconciler \<lparr>APIReader = Some Live\<rparr>) \<and> registered pre NodeLabelerReconciler \<and>
    registered pre NodeLabelerDaemonSetReconciler \<and> registered pre NodeOpUpgradeReconciler \<and>
    registered pre (OSArtifactReconciler (toolImage fl) (buildahImage fl)) \<and>
    (\<exists>namespace. accepted pre (AddRunnable (StartupTask ''node-labeler ServiceAccount and RBAC'' (ensureServiceAccount namespace)))) \<and>
    (\<exists>namespace. accepted pre (AddRunnable (StartupTask ''node-labeler DaemonSet'' (ensureDaemonSetOnStartup namespace)))) \<and>
    (\<forall>w \<in> watchersOf fl. accepted pre (NewCertWatcher w) \<and> accepted pre (AddRunnable (RunCertWatcher w))) \<and>
    accepted pre (AddHealthzCheck ''healthz'') \<and> accepted pre (AddReadyzCheck ''readyz'') \<and>
    post = [] \<and> st = (if u = BUnit (Inr ()) then Some 0 else Some 1)"
  using assms(1)
proof (cases rule: exec_main)
  case (watcher x t t')
  have "StartManager \<in> set (map fst t)" using assms(2) watcher(1) by (cases pre) auto
  with watcher(3) show ?thesis by auto
next
  case (usage x y status)
  with assms(2) show ?thesis by (auto simp: Cons_eq_append_conv)
next
  case (manager x fl t r)
  from assms(2) manager(1) obtain pre' where pre: "pre = (BootArgs, x) # (ParseFlags defaultFlags, BFlags (Inr fl)) # pre'"
    and t: "t = pre' @ (StartManager, u) # post" by (auto simp: Cons_eq_append_conv)
  have ready: "readyToStart fl pre' \<and> post = [] \<and> bUnit u = r"
    using manager(2) unfolding t by (rule reachingD [OF runManager_before])
  have st: "st = (if u = BUnit (Inr ()) then Some 0 else Some 1)"
    using ready manager(3) by (auto split: sum.splits)
  have acc: "accepted pre q \<longleftrightarrow> accepted pre' q" if "q \<noteq> BootArgs" "\<And>f. q \<noteq> ParseFlags f" for q
    using that by (simp add: accepted_def pre)
  have reg: "registered pre q \<longleftrightarrow> registered pre' q" for q by (simp add: registered_def acc)
  from ready st show ?thesis
    by (intro exI [of _ fl]) (simp add: acc reg readyToStart_def allRegistered_def, simp add: pre)
qed

text \<open>A \<open>main\<close> that is started without arguments and can rely on everything it asks for.\<close>

fun reliableBoot :: "flags \<Rightarrow> boot_req \<Rightarrow> boot_resp \<Rightarrow> bool" where
  "reliableBoot fl BootArgs u \<longleftrightarrow> u = BArgs [''/manager'']"
| "reliableBoot fl (ParseFlags d) u \<longleftrightarrow> u = BFlags (Inr fl)"
| "reliableBoot fl (BootGetenv v) u \<longleftrightarrow> (\<exists>s. u = BString s)"
| "reliableBoot fl (ParseSelector s) u \<longleftrightarrow> (\<exists>m. u = BSelector (Inr m))"
| "reliableBoot fl (RunWatcher q) u \<longleftrightarrow> (\<exists>w. u = BWatch w)"
| "reliableBoot fl q u \<longleftrightarrow> u = BUnit (Inr ())"

interpretation boot: reliable "reliableBoot fl" for fl
proof
  show "\<exists>u. reliableBoot fl q u" for q by (cases q) auto
qed

lemma always_bask: "(\<And>u. ok q u \<Longrightarrow> Q [(q, u)] (dec u)) \<Longrightarrow> always ok (bask q dec) Q"
  by (simp add: bask_def always_Call)

text \<open>Steps that only have to succeed.\<close>

definition succeeds :: "flags \<Rightarrow> 'a res bprog \<Rightarrow> bool" where
  "succeeds fl m \<longleftrightarrow> always (reliableBoot fl) m (\<lambda>t x. \<exists>y. x = Inr y \<and> True)"

lemma succeeds_bask: "(\<And>u. reliableBoot fl q u \<Longrightarrow> \<exists>y. dec u = Inr y) \<Longrightarrow> succeeds fl (bask q dec)"
  unfolding succeeds_def by (rule always_bask) auto

lemma succeeds_Ret [intro!]: "succeeds fl (Ret (Inr a))"
  by (simp add: succeeds_def)

lemma succeeds_attempt [intro!]: "succeeds fl m \<Longrightarrow> (\<And>a. succeeds fl (f a)) \<Longrightarrow> succeeds fl (attempt m f)"
  unfolding succeeds_def by (rule always_attempt [where P = "\<lambda>t y. True"]) auto

lemma always_skip: "succeeds fl m \<Longrightarrow> (\<And>a. always (reliableBoot fl) (f a) (\<lambda>t x. Q x \<and> P (set t))) \<Longrightarrow>
    (\<And>s t. P t \<Longrightarrow> P (s \<union> t)) \<Longrightarrow> always (reliableBoot fl) (attempt m f) (\<lambda>t x. Q x \<and> P (set t))"
  unfolding succeeds_def
  by (rule always_attempt [where P = "\<lambda>t y. True"], simp, rule always_mono, assumption) (simp del: Un_iff)

lemma succeeds_setups:
  "succeeds fl (newCertWatcher path nm key)" "succeeds fl (addCertWatcher w)" "succeeds fl (setupControllers fl')"
proof -
  have ns: "succeeds fl (bind operatorNamespace f)" if "\<And>a. succeeds fl (f a)" for f :: "string \<Rightarrow> unit res bprog"
    unfolding succeeds_def by (rule always_bind [where P = "\<lambda>t x. True"]) (use that in \<open>auto simp: always_def succeeds_def\<close>)
  show "succeeds fl (newCertWatcher path nm key)"
    by (auto simp: newCertWatcher_def Let_def intro!: succeeds_bask)
  show "succeeds fl (addCertWatcher w)"
    by (auto simp: addCertWatcher_def intro!: succeeds_bask split: option.splits)
  show "succeeds fl (setupControllers fl')"
    unfolding setupControllers_def nodeOpSetup_def nodeLabelerSetup_def nodeLabelerDaemonSetSetup_def nodeOpUpgradeSetup_def
      osArtifactSetup_def addTask_def
    by (intro succeeds_attempt ns succeeds_bask) auto
qed

lemma always_runManager:
  "always (reliableBoot fl) (runManager fl') (\<lambda>t x. x = Inr () \<and> (StartManager, BUnit (Inr ())) \<in> set t)"
  unfolding runManager_def launch_def
  by (intro always_skip [where P = "\<lambda>t. (StartManager, BUnit (Inr ())) \<in> t"] succeeds_setups succeeds_bask always_bask) auto

lemma reliable_main:
  "(\<exists>tr st. exec (main fuel) tr st \<and> faultless (reliableBoot fl) tr) \<and>
   (\<forall>tr st. exec (main fuel) tr st \<longrightarrow> faultless (reliableBoot fl) tr \<longrightarrow>
     st = Some 0 \<and> accepted tr StartManager \<and> accepted tr (NewManager (optionsOf fl)))"
proof (intro conjI allI impI)
  show "\<exists>tr st. exec (main fuel) tr st \<and> faultless (reliableBoot fl) tr" by (rule boot.faultless_exec)
next
  fix tr st
  assume ex: "exec (main fuel) tr st" and ok: "faultless (reliableBoot fl) tr"
  from ex have "st = Some 0 \<and> accepted tr StartManager \<and> accepted tr (NewManager (optionsOf fl))"
  proof (cases rule: exec_main)
    case (watcher x t t')
    with ok show ?thesis by simp
  next
    case (usage x y status)
    with ok show ?thesis by auto
  next
    case (manager x fl' t r)
    with ok have fl: "fl' = fl" and okt: "faultless (reliableBoot fl) t" by auto
    from alwaysD [OF always_runManager manager(2) okt] have r: "r = Inr ()" and st: "(StartManager, BUnit (Inr ())) \<in> set t" by auto
    from st obtain pre post where t: "t = pre @ (StartManager, BUnit (Inr ())) # post" by (auto simp: in_set_conv_decomp)
    from manager(2) have "readyToStart fl pre" unfolding t fl using reachingD [OF runManager_before] by blast
    with r st manager(1,3) t show ?thesis by (simp add: accepted_def readyToStart_def)
  qed
  then show "st = Some 0" "accepted tr StartManager" "accepted tr (NewManager (optionsOf fl))" by simp_all
qed

lemma a_start: "\<exists>tr. exec (main fuel) tr (Some 0) \<and> accepted tr StartManager \<and> accepted tr (NewManager (optionsOf fl))"
  using reliable_main [of fuel fl] by blast

text \<open>
  The operator comes up: when the flags parse and every set-up call succeeds, \<open>main\<close> starts the
  manager, with the parsed flags, and exits with status 0 when that returns.
\<close>

theorem operator_starts:
  "(\<exists>tr st. exec (main fuel) tr st \<and> faultless (reliableBoot fl) tr) \<and>
   (\<forall>tr st. exec (main fuel) tr st \<longrightarrow> faultless (reliableBoot fl) tr \<longrightarrow>
     st = Some 0 \<and> accepted tr StartManager \<and> accepted tr (NewManager (optionsOf fl)))"
  by (rule reliable_main)

theorem operator_starts_witness:
  "\<exists>tr. exec (main 0) tr (Some 0) \<and> accepted tr StartManager \<and> accepted tr (NewManager (optionsOf defaultFlags))"
  using operator_starts [of 0 defaultFlags] by blast

theorem manager_starts_complete_witness:
  "\<exists>pre fl. accepted pre (NewManager (optionsOf fl)) \<and> registered pre (NodeOpReconciler \<lparr>APIReader = Some Live\<rparr>)"
proof -
  obtain tr where ex: "exec (main 0) tr (Some 0)" and "accepted tr StartManager" using a_start by blast
  then obtain pre post where tr: "tr = pre @ (StartManager, BUnit (Inr ())) # post" by (auto simp: accepted_def in_set_conv_decomp)
  from manager_starts_complete [OF ex tr] show ?thesis by blast
qed

section \<open>The servers\<close>

text \<open>A server applies its options to its configuration in order.\<close>

definition configured :: "tls_option list \<Rightarrow> tls_config \<Rightarrow> tls_config" where
  "configured opts c = fold (\<lambda>f. f) opts c"

text \<open>The protocols and the certificate of a server with these options, whatever it started with.\<close>

definition serves :: "tls_option list \<Rightarrow> bool \<Rightarrow> cert_watcher option \<Rightarrow> bool" where
  "serves opts http2 watcher \<longleftrightarrow> (\<forall>c.
     NextProtos (configured opts c) = (if http2 then NextProtos c else [''http/1.1'']) \<and>
     GetCertificate (configured opts c) = (if watcher = None then GetCertificate c else watcher))"

text \<open>
  Both servers speak HTTP/1.1 only unless the flags enable HTTP/2, and each takes its certificate
  from its own pair of files if a directory is given for it; metrics served securely are served to
  authorized clients only.
\<close>

theorem servers_as_flagged:
  assumes "exec (main fuel) tr st" and "(NewManager opts, u) \<in> set tr"
  shows "\<exists>fl. (ParseFlags defaultFlags, BFlags (Inr fl)) \<in> set tr \<and>
    serves (webhookTLSOpts opts) (enableHTTP2 fl) (watcherOf (webhookCertPath fl) (webhookCertName fl) (webhookCertKey fl)) \<and>
    serves (metricsTLSOpts (Metrics opts)) (enableHTTP2 fl) (watcherOf (metricsCertPath fl) (metricsCertName fl) (metricsCertKey fl)) \<and>
    SecureServing (Metrics opts) = secureMetrics fl \<and> withAuthentication (Metrics opts) = secureMetrics fl"
  using assms(1)
proof (cases rule: exec_main)
  case (watcher x t t')
  have "NewManager opts \<in> fst ` set t" using assms(2) watcher(1) by force
  then have "NewManager opts \<in> set (map fst t)" by simp
  with watcher(3) show ?thesis by auto
next
  case (usage x y status)
  with assms(2) show ?thesis by auto
next
  case (manager x fl t r)
  have mem: "(NewManager opts, u) \<in> set t" using assms(2) manager(1) by auto
  have quiet: "only (\<lambda>q. \<forall>f. q \<noteq> NewManager f) (newCertWatcher path nm key)" for path nm key
    by (auto simp: newCertWatcher_def Let_def intro!: only_attempt)
  have others: "only (\<lambda>q. \<forall>f. q \<noteq> NewManager f) (setupControllers fl)" "only (\<lambda>q. \<forall>f. q \<noteq> NewManager f) (addCertWatcher w)" for w
    by (auto simp: setupControllers_def nodeOpSetup_def nodeLabelerSetup_def nodeLabelerDaemonSetSetup_def nodeOpUpgradeSetup_def
        osArtifactSetup_def operatorNamespace_def addTask_def addCertWatcher_def intro!: only_attempt only_bind split: option.splits)
  have rest: "only (\<lambda>q. \<forall>f. q = NewManager f \<longrightarrow> f = managerOptions fl w m) (launch fl w m)" for w m
    unfolding launch_def by (intro only_attempt) (auto intro: only_mono [OF others(1)] only_mono [OF others(2)])
  have quiet': "only (\<lambda>q. q \<noteq> NewManager opts) (newCertWatcher path nm key)" for path nm key
    by (rule only_mono [OF quiet]) simp
  have "opts = optionsOf fl"
    using manager(2) [unfolded runManager_def]
  proof (rule attempt_event [OF _ mem quiet'])
    fix t1 w s1
    assume w: "exec (newCertWatcher (webhookCertPath fl) (webhookCertName fl) (webhookCertKey fl)) t1 (Inr w)"
      and mem1: "(NewManager opts, u) \<in> set s1"
      and "exec (attempt (newCertWatcher (metricsCertPath fl) (metricsCertName fl) (metricsCertKey fl)) (launch fl w)) s1 r"
    from this(3) show ?thesis
    proof (rule attempt_event [OF _ mem1 quiet'])
      fix t2 m s2
      assume "exec (newCertWatcher (metricsCertPath fl) (metricsCertName fl) (metricsCertKey fl)) t2 (Inr m)"
        "exec (launch fl w m) s2 r" "(NewManager opts, u) \<in> set s2"
      with only_exec [OF _ rest] newCertWatcher_watcherOf [OF w] newCertWatcher_watcherOf [OF this(1)]
      show ?thesis unfolding optionsOf_def by metis
    qed
  qed
  then show ?thesis
    by (intro exI [of _ fl]) (simp add: manager(1) optionsOf_def managerOptions_def withCertificate_def tlsOpts_def serves_def
        configured_def disableHTTP2_def serveCertificate_def split: option.split)
qed

theorem servers_as_flagged_witness:
  "\<exists>(opts :: manager_options) (fl :: flags). serves (webhookTLSOpts opts) (enableHTTP2 fl) (watcherOf (webhookCertPath fl) (webhookCertName fl) (webhookCertKey fl)) \<and>
     withAuthentication (Metrics opts) = secureMetrics fl"
proof -
  obtain tr where ex: "exec (main 0) tr (Some 0)" and "accepted tr (NewManager (optionsOf defaultFlags))" using a_start by blast
  then have mem: "(NewManager (optionsOf defaultFlags), BUnit (Inr ())) \<in> set tr" by (simp add: accepted_def)
  from servers_as_flagged [OF ex mem] show ?thesis by blast
qed

section \<open>What the operator's other programs find\<close>

text \<open>The environment of a container: literal values, and the namespace of its Pod.\<close>

definition environment :: "pod \<Rightarrow> container \<Rightarrow> string \<Rightarrow> string" where
  "environment p c k = (case find (\<lambda>e. envName e = k) (cEnv c) of
     None \<Rightarrow> []
   | Some e \<Rightarrow> (if envFieldRef e = Some ''metadata.namespace'' then Namespace (podMeta p) else envValue e))"

text \<open>A trace of the binary as the process of a container.\<close>

definition runsIn :: "pod \<Rightarrow> container \<Rightarrow> boot_trace \<Rightarrow> bool" where
  "runsIn p c tr \<longleftrightarrow> (\<forall>u. (BootArgs, u) \<in> set tr \<longrightarrow> u = BArgs (cCommand c @ cArgs c)) \<and>
     (\<forall>k u. (RunWatcher (WatchGetenv k), u) \<in> set tr \<longrightarrow> u = BWatch (WString (environment p c k)))"

definition watcherDeps :: "string \<Rightarrow> string \<Rightarrow> deps" where
  "watcherDeps namespace jobName = \<lparr>depKube = True, depNamespace = namespace, depJobName = jobName,
     depPollInterval = 10 * second, depRebootTimeout = 5 * 60 * second, depReboot = True, depReadBootID = True\<rparr>"

lemma rebootPod_container:
  assumes "c \<in> set (Containers (podSpec (rebootPodOf op n jobName img)))"
  shows "cCommand c @ cArgs c = [''/manager'', SubcommandName]"
    "environment (rebootPodOf op n jobName img) c JobNameEnv = jobName"
    "environment (rebootPodOf op n jobName img) c NamespaceEnv = Namespace (opMeta op)"
  using assms
  by (simp_all add: rebootPodOf_def empty_pod_spec_def empty_container_def Command_def environment_def envValueOf_def
      JobNameEnv_def NamespaceEnv_def SetControllerReference_def)

text \<open>A run of the watcher subcommand: the two variables it reads, and the loop it starts with them.\<close>

lemma exec_runRebootWatcher:
  assumes "exec (runRebootWatcher fuel) tr st"
  obtains j ns t where "tr = (WatchGetenv JobNameEnv, j) # (WatchGetenv NamespaceEnv, ns) # t"
    "asWString j = [] \<or> asWString ns = [] \<or>
     (\<exists>r. exec (Run fuel (watcherDeps (asWString ns) (asWString j))) t r \<and>
        st = map_option (\<lambda>x. case x of Inl e \<Rightarrow> 1 | Inr _ \<Rightarrow> 0) r)"
proof -
  have status: "(case r of None \<Rightarrow> None | Some (Inl e) \<Rightarrow> Some 1 | Some (Inr _) \<Rightarrow> Some 0) =
      map_option (\<lambda>x. case x of Inl e \<Rightarrow> 1 | Inr _ \<Rightarrow> (0 :: nat)) r" for r :: "unit res option"
    by (simp split: option.split sum.split)
  from assms obtain j t1 where t1: "tr = (WatchGetenv JobNameEnv, j) # t1" and e1:
    "exec (bind (wask (WatchGetenv NamespaceEnv) asWString) (\<lambda>namespace.
     if asWString j = [] \<or> namespace = [] then Ret (Some 1)
     else bind (Run fuel (watcherDeps namespace (asWString j))) (\<lambda>r. Ret (case r of
          None \<Rightarrow> None | Some (Inl e) \<Rightarrow> Some 1 | Some (Inr _) \<Rightarrow> Some 0)))) t1 st"
    unfolding runRebootWatcher_def exec_wask_bind watcherDeps_def by blast
  from e1 obtain ns t where t: "t1 = (WatchGetenv NamespaceEnv, ns) # t" and e2:
    "exec (if asWString j = [] \<or> asWString ns = [] then Ret (Some 1)
     else bind (Run fuel (watcherDeps (asWString ns) (asWString j))) (\<lambda>r. Ret (case r of
          None \<Rightarrow> None | Some (Inl e) \<Rightarrow> Some 1 | Some (Inr _) \<Rightarrow> Some 0))) t st"
    unfolding exec_wask_bind by blast
  show thesis
  proof (rule that)
    show "tr = (WatchGetenv JobNameEnv, j) # (WatchGetenv NamespaceEnv, ns) # t" by (simp add: t1 t)
  qed (use e2 in \<open>auto simp: exec_bind status split: if_splits\<close>)
qed

text \<open>
  C14. The container of the reboot Pod runs the reboot watcher, and not the operator: with the command and
  the environment the NodeOp controller gives it, \<open>main\<close> runs the watcher's loop on the upgrade Job the
  Pod was created for, in the NodeOp's namespace, after reading its two environment variables, and
  its exit status is the loop's result.
\<close>

theorem reboot_pod_runs_watcher:
  assumes "c \<in> set (Containers (podSpec (rebootPodOf op n jobName img)))"
    and "exec (main fuel) tr st" and "runsIn (rebootPodOf op n jobName img) c tr"
    and "jobName \<noteq> []" and "Namespace (opMeta op) \<noteq> []"
  shows "\<exists>t tr' r. map fst tr = BootArgs # RunWatcher (WatchGetenv JobNameEnv) # RunWatcher (WatchGetenv NamespaceEnv) # map (RunWatcher \<circ> fst) tr' \<and>
     map snd tr' = map (bWatch \<circ> snd) t \<and> tr = take 3 tr @ t \<and>
     exec (Run fuel (watcherDeps (Namespace (opMeta op)) jobName)) tr' r \<and>
     st = map_option (\<lambda>x. case x of Inl e \<Rightarrow> 1 | Inr _ \<Rightarrow> 0) r"
proof -
  note con = rebootPod_container [OF assms(1)]
  have args: "u = BArgs [''/manager'', SubcommandName]" if "(BootArgs, u) \<in> set tr" for u
    using assms(3) that con(1) unfolding runsIn_def by metis
  show ?thesis
    using assms(2)
  proof (cases rule: exec_main)
    case (watcher x t t')
    from watcher(2) obtain j ns t2 where t1: "t' = (WatchGetenv JobNameEnv, j) # (WatchGetenv NamespaceEnv, ns) # t2" and e2:
      "asWString j = [] \<or> asWString ns = [] \<or> (\<exists>r. exec (Run fuel (watcherDeps (asWString ns) (asWString j))) t2 r \<and>
         st = map_option (\<lambda>x. case x of Inl e \<Rightarrow> 1 | Inr _ \<Rightarrow> 0) r)"
      by (rule exec_runRebootWatcher)
    from watcher(3,4) obtain y z t3 where t: "t = (RunWatcher (WatchGetenv JobNameEnv), y) # (RunWatcher (WatchGetenv NamespaceEnv), z) # t3"
      "map fst t3 = map (RunWatcher \<circ> fst) t2" "map snd t2 = map (bWatch \<circ> snd) t3" "j = bWatch y" "ns = bWatch z"
      unfolding t1 by (auto simp: map_eq_Cons_conv)
    have "y = BWatch (WString jobName)" "z = BWatch (WString (Namespace (opMeta op)))"
      using assms(3) con(2,3) unfolding runsIn_def watcher(1) t(1) by auto
    with t have v: "asWString j = jobName" "asWString ns = Namespace (opMeta op)" by simp_all
    with e2 assms(4,5) obtain r where run: "exec (Run fuel (watcherDeps (Namespace (opMeta op)) jobName)) t2 r"
      and st: "st = map_option (\<lambda>x. case x of Inl e \<Rightarrow> 1 | Inr _ \<Rightarrow> 0) r" by auto
    with run st t watcher(1) show ?thesis by (intro exI [of _ t3] exI [of _ t2] exI [of _ r]) simp
  next
    case (usage x y status)
    have "x = BArgs [''/manager'', SubcommandName]" by (rule args) (simp add: usage)
    with usage(4) show ?thesis by simp
  next
    case (manager x fl t r)
    have "x = BArgs [''/manager'', SubcommandName]" by (rule args) (simp add: manager)
    with manager(4) show ?thesis by simp
  qed
qed

text \<open>A reboot Pod whose first look at its Job fails, and which is then told to stop.\<close>

theorem reboot_pod_runs_watcher_witness:
  "\<exists>tr' r. exec (Run 1 (watcherDeps (Namespace (opMeta sample_op)) ''up-n1-abcde'')) tr' r \<and>
     map fst tr' = [WatchGetJob (Namespace (opMeta sample_op)) ''up-n1-abcde'', WaitFor (10 * second)]"
proof -
  define p where "p = rebootPodOf sample_op ''n1'' ''up-n1-abcde'' ''img''"
  define c where "c = hd (Containers (podSpec p))"
  have c: "c \<in> set (Containers (podSpec p))"
    unfolding c_def by (rule hd_in_set) (simp add: p_def rebootPodOf_def)
  have ne: "''up-n1-abcde'' \<noteq> []" by simp
  have ns: "Namespace (opMeta sample_op) \<noteq> []" by (simp add: sample_op_def sample_meta_def)
  define tr where "tr = [(BootArgs, BArgs [''/manager'', SubcommandName]),
     (RunWatcher (WatchGetenv JobNameEnv), BWatch (WString ''up-n1-abcde'')),
     (RunWatcher (WatchGetenv NamespaceEnv), BWatch (WString (Namespace (opMeta sample_op)))),
     (RunWatcher (WatchGetJob (Namespace (opMeta sample_op)) ''up-n1-abcde''), BWatch (WJob (Inl (Errorf ''timeout'')))),
     (RunWatcher (WaitFor (10 * second)), BWatch (WUnit (Inl (Errorf ''cancelled''))))]"
  have ex: "exec (main 1) tr (Some 1)"
    using ns by (simp add: exec_iff_scripted tr_def main_def bask_def runRebootWatcher_def wask_def Run_def check_def
        with_defaults_def second_def)
  have run: "runsIn (rebootPodOf sample_op ''n1'' ''up-n1-abcde'' ''img'') c tr"
    using rebootPod_container [OF c [unfolded p_def]] unfolding runsIn_def
    by (auto simp: tr_def JobNameEnv_def NamespaceEnv_def)
  from reboot_pod_runs_watcher [OF c [unfolded p_def] ex run ne ns] show ?thesis
  proof (elim exE conjE)
    fix t :: boot_trace and tr' r
    assume tr': "map fst tr = BootArgs # RunWatcher (WatchGetenv JobNameEnv) # RunWatcher (WatchGetenv NamespaceEnv) # map (RunWatcher \<circ> fst) tr'"
      and run: "exec (Run 1 (watcherDeps (Namespace (opMeta sample_op)) ''up-n1-abcde'')) tr' r"
    moreover from tr' have "map fst tr' = [WatchGetJob (Namespace (opMeta sample_op)) ''up-n1-abcde'', WaitFor (10 * second)]"
      by (auto simp: tr_def map_eq_Cons_conv)
    ultimately show ?thesis by (intro exI [of _ tr'] exI [of _ r] conjI)
  qed
qed

section \<open>Whom an event wakes\<close>

text \<open>
  The requests the watches of a controller make of the event that an object was created. A watch
  for changed resource versions lets these events through.
\<close>

definition passes :: "'o event_filter \<Rightarrow> 'o \<Rightarrow> bool" where
  "passes f x \<longleftrightarrow> (case f of OnlyIf P \<Rightarrow> P x | _ \<Rightarrow> True)"

definition jobRequests :: "controller \<Rightarrow> job \<Rightarrow> request list" where
  "jobRequests c j = concat (map (\<lambda>w. case w of WatchJobs f m \<Rightarrow> if passes f j then m j else [] | _ \<Rightarrow> []) (ctlWatches c))"

definition podRequests :: "controller \<Rightarrow> pod \<Rightarrow> request list" where
  "podRequests c p = concat (map (\<lambda>w. case w of WatchPods f m \<Rightarrow> if passes f p then m p else [] | _ \<Rightarrow> []) (ctlWatches c))"

definition nodeOpRequests :: "controller \<Rightarrow> node_op \<Rightarrow> request list" where
  "nodeOpRequests c op = concat (map (\<lambda>w. case w of WatchNodeOps f m \<Rightarrow> if passes f op then m op else [] | _ \<Rightarrow> []) (ctlWatches c))"

definition requestFor :: "object_meta \<Rightarrow> request" where
  "requestFor m = \<lparr>reqName = Name m, reqNamespace = Namespace m\<rparr>"

lemmas watch_defs = jobRequests_def podRequests_def nodeOpRequests_def passes_def requestFor_def nodeOpController_def
  nodeOpUpgradeController_def osArtifactController_def artifactRequests_def findOwningArtifact_def

text \<open>
  C17. Six kinds of objects wake the controller that created them, with exactly one request, for the
  object they were created for: the upgrade Job, the reboot Pod and the preflight Pod of a NodeOp, the
  NodeOp of an upgrade, and the builder Pod and the export Jobs of an OSArtifact. The NodeOp's Job and
  Pods do not wake the OSArtifact controller, the export Jobs do not wake the NodeOp controller, and
  the labeler Job of a node wakes nobody: its result is the node's label. (ConfigMaps, claims,
  Secrets and the RBAC objects are of kinds that no controller watches.)
\<close>

theorem watches_wake_owner:
  assumes "imgRef (imageOf a) \<noteq> [] \<or> hasOCISpecRef (imageOf a)" and "newBuilderPod cfg a pvcName = Some q"
  shows "jobRequests (nodeOpController r) (upgradeJob op n j spec) = [requestFor (opMeta op)] \<and>
    podRequests (nodeOpController r) (rebootPodOf op n j img) = [requestFor (opMeta op)] \<and>
    podRequests (nodeOpController r) (ownedPreflightPod op pf n img) = [requestFor (opMeta op)] \<and>
    nodeOpRequests nodeOpUpgradeController (upgradeNodeOp u) = [requestFor (upMeta u)] \<and>
    podRequests (osArtifactController tool buildah) (labelledPod a q) = [requestFor (osMeta a)] \<and>
    jobRequests (osArtifactController tool buildah) (exportJob a vol idx ex) = [requestFor (osMeta a)] \<and>
    jobRequests (osArtifactController tool buildah) (upgradeJob op n j spec) = [] \<and>
    podRequests (osArtifactController tool buildah) (rebootPodOf op n j img) = [] \<and>
    podRequests (osArtifactController tool buildah) (ownedPreflightPod op pf n img) = [] \<and>
    jobRequests (nodeOpController r) (exportJob a vol idx ex) = [] \<and>
    (\<forall>c \<in> {nodeOpController r, nodeOpUpgradeController, osArtifactController tool buildah, nodeLabelerController sel, daemonSetController ns}.
       jobRequests c (labelerJobOf img nd ns) = [])"
proof -
  have other: "artifactLabel \<noteq> labelKeyNode" "artifactLabel \<noteq> labelKeyNodeOp" "artifactLabel \<noteq> labelKeyReboot" "artifactLabel \<noteq> labelKeyPreflight"
    by (simp_all add: artifactLabel_def kconst)
  note own = watches_find_owner [of op n j spec img pf]
  have l: "map_of (Labels (jobMeta (labelerJobOf img nd ns))) artifactLabel = None"
    "OwnerReferences (jobMeta (labelerJobOf img nd ns)) = []"
    by (simp_all add: labelerJobOf_def Let_def artifactLabel_def labelKeyApp_def labelKeyJobNode_def empty_meta_def)
  have e: "find (\<lambda>r. orKind r = kindNodeOp) (OwnerReferences (jobMeta (exportJob a vol idx ex))) = None"
    by (simp add: exportJob_def SetOwnerReference_def kindOSArtifact_def empty_meta_def kconst)
  have "map_of (Labels (jobMeta (upgradeJob op n j spec))) artifactLabel = None"
    "map_of (Labels (podMeta (rebootPodOf op n j img))) artifactLabel = None"
    "map_of (Labels (podMeta (ownedPreflightPod op pf n img))) artifactLabel = None"
    using other by (simp_all add: upgradeJob_def rebootPodOf_def ownedPreflightPod_def preflightPodOf_def SetControllerReference_def empty_meta_def)
  then show ?thesis
    using own newBuilderPod_fields(2) [OF assms(2,1)] l e
    by (simp add: watch_defs nodeLabelerController_def daemonSetController_def findNodeOpsForJob_def findNodeOpUpgradesForNodeOp_def upgradeNodeOp_def SetControllerReference_def empty_meta_def
        labelledPod_def exportJob_fields kconst)
qed

theorem watches_wake_owner_witness:
  "\<exists>q. podRequests (osArtifactController ''t'' ''b'') (labelledPod sample_artifact q) = [\<lparr>reqName = ''a1'', reqNamespace = ''ns1''\<rparr>]"
proof -
  have img: "imgRef (imageOf sample_artifact) \<noteq> [] \<or> hasOCISpecRef (imageOf sample_artifact)" by (simp add: sample_defs)
  have "\<exists>q. newBuilderPod cfg sample_artifact (Some ''a1-artifacts'') = Some q" for cfg
    by (auto simp: newBuilderPod_def builderVolumes_def builderPodBaseVolumes_def artifactsVolume_def)
  then obtain q where "newBuilderPod \<lparr>ToolImage = ''t'', BuildahImage = ''b'', QuoteCommand = (\<lambda>ws. Join ws '' '')\<rparr>
      sample_artifact (Some ''a1-artifacts'') = Some q" by blast
  from watches_wake_owner [where tool = "''t''" and buildah = "''b''", OF img this]
  have "podRequests (osArtifactController ''t'' ''b'') (labelledPod sample_artifact q) = [requestFor (osMeta sample_artifact)]" by blast
  then show ?thesis by (intro exI [of _ q]) (simp add: requestFor_def sample_defs)
qed

end
