(* ===== verification/GoMemory.thy ===== *)
theory GoMemory
  imports Prelude "HOL-Library.Multiset"
begin

text \<open>
  Go's memory, as far as copying an object touches it. The other theories take objects as values;
  here an object is what it is at run time, a struct whose pointers, slices and maps refer to cells
  that other objects may refer to as well. On that memory the theory defines the statements that the
  generated DeepCopyInto functions of api/v1alpha1 and api/v1alpha2 are made of, and the contract
  of a deep copy: nothing that existed is written, the copy reads the same, and everything it refers
  to is new.
\<close>

named_theorems copier_rules \<open>what keeps the contract of a deep copy\<close>

section \<open>Values, cells and types\<close>

text \<open>
  A slice refers to an array and has a length; a map's cell lists its entries. Addresses are
  positions in the memory, which only grows: what nobody refers to any more does no harm. The values
  of strings cannot be changed in Go, so they are not cells.
\<close>

datatype val =
    VBool bool
  | VInt int
  | VString string
  | VPtr "nat option"
  | VSlice "(nat \<times> nat) option"
  | VMap "nat option"
  | VStruct "(string \<times> val) list"

datatype cell = isVariable: Variable val | isArray: Array "val list" | isTable: Table "(string \<times> val) list"

declare isVariable_def [simp] isArray_def [simp] isTable_def [simp]

type_synonym memory = "cell list"

datatype gotype =
    TBool
  | TInt nat
  | TString
  | TPtr gotype
  | TSlice gotype
  | TMap gotype
  | TStruct "(string \<times> gotype) list"

fun fieldOf :: "string \<Rightarrow> val \<Rightarrow> val" where
  "fieldOf f (VStruct fs) = (case map_of fs f of Some v \<Rightarrow> v | None \<Rightarrow> VStruct [])"
| "fieldOf f _ = VStruct []"

fun setField :: "string \<Rightarrow> val \<Rightarrow> val \<Rightarrow> val" where
  "setField f w (VStruct fs) = VStruct (map (\<lambda>(g, v). (g, if g = f then w else v)) fs)"
| "setField f w v = v"

fun fieldNames :: "val \<Rightarrow> string list" where
  "fieldNames (VStruct fs) = map fst fs"
| "fieldNames _ = []"

fun variableOf :: "cell \<Rightarrow> val" where
  "variableOf (Variable v) = v"
| "variableOf _ = VStruct []"

fun arrayOf :: "cell \<Rightarrow> val list" where
  "arrayOf (Array vs) = vs"
| "arrayOf _ = []"

fun tableOf :: "cell \<Rightarrow> (string \<times> val) list" where
  "tableOf (Table m) = m"
| "tableOf _ = []"

definition elements :: "memory \<Rightarrow> nat \<Rightarrow> nat \<Rightarrow> val list" where
  "elements h a n = take n (arrayOf (h ! a))"

lemma size_field [termination_simp]: "ft \<in> set fs \<Longrightarrow> size (snd ft) < Suc (size_list (size_prod (\<lambda>x. 0) size) fs)"
  by (induction fs) (auto simp: less_Suc_eq_le)

text \<open>Types whose values refer to nothing: assigning such a value copies all of it.\<close>

fun flat :: "gotype \<Rightarrow> bool" where
  "flat (TPtr t) = False"
| "flat (TSlice t) = False"
| "flat (TMap t) = False"
| "flat (TStruct fs) = (\<forall>ft \<in> set fs. flat (snd ft))"
| "flat _ = True"

text \<open>That a value has a type in a memory: what it refers to is there, and has its type too.\<close>

fun typed :: "memory \<Rightarrow> gotype \<Rightarrow> val \<Rightarrow> bool" where
  "typed h TBool v = (case v of VBool b \<Rightarrow> True | _ \<Rightarrow> False)"
| "typed h (TInt w) v = (case v of VInt i \<Rightarrow> - (2 ^ (w - 1)) \<le> i \<and> i < 2 ^ (w - 1) | _ \<Rightarrow> False)"
| "typed h TString v = (case v of VString s \<Rightarrow> True | _ \<Rightarrow> False)"
| "typed h (TPtr t) v = (case v of VPtr None \<Rightarrow> True
     | VPtr (Some a) \<Rightarrow> a < length h \<and> isVariable (h ! a) \<and> typed h t (variableOf (h ! a)) | _ \<Rightarrow> False)"
| "typed h (TSlice t) v = (case v of VSlice None \<Rightarrow> True
     | VSlice (Some (a, n)) \<Rightarrow> a < length h \<and> n \<le> length (arrayOf (h ! a)) \<and> isArray (h ! a) \<and>
         (\<forall>u \<in> set (elements h a n). typed h t u) | _ \<Rightarrow> False)"
| "typed h (TMap t) v = (case v of VMap None \<Rightarrow> True
     | VMap (Some a) \<Rightarrow> a < length h \<and> isTable (h ! a) \<and> wf_map (tableOf (h ! a)) \<and>
         (\<forall>u \<in> set (tableOf (h ! a)). typed h t (snd u)) | _ \<Rightarrow> False)"
| "typed h (TStruct fs) v = ((case v of VStruct vs \<Rightarrow> True | _ \<Rightarrow> False) \<and>
     fieldNames v = map fst fs \<and> distinct (map fst fs) \<and> (\<forall>ft \<in> set fs. typed h (snd ft) (fieldOf (fst ft) v)))"

text \<open>What a program that follows all references reads: the addresses themselves do not show.\<close>

datatype tree =
    Leaf val
  | Absent
  | Target tree
  | Items "tree list"
  | Entries "string \<Rightarrow> tree option"
  | Fields "(string \<times> tree) list"

fun contents :: "memory \<Rightarrow> gotype \<Rightarrow> val \<Rightarrow> tree" where
  "contents h (TPtr t) v = (case v of VPtr (Some a) \<Rightarrow> Target (contents h t (variableOf (h ! a))) | _ \<Rightarrow> Absent)"
| "contents h (TSlice t) v = (case v of VSlice (Some (a, n)) \<Rightarrow> Items (map (contents h t) (elements h a n)) | _ \<Rightarrow> Absent)"
| "contents h (TMap t) v = (case v of VMap (Some a) \<Rightarrow>
     Entries (\<lambda>k. map_option (contents h t) (map_of (tableOf (h ! a)) k)) | _ \<Rightarrow> Absent)"
| "contents h (TStruct fs) v = Fields (map (\<lambda>ft. (fst ft, contents h (snd ft) (fieldOf (fst ft) v))) fs)"
| "contents h _ v = Leaf v"

text \<open>The addresses a value refers to, directly or through what it refers to.\<close>

fun reach :: "memory \<Rightarrow> gotype \<Rightarrow> val \<Rightarrow> nat list" where
  "reach h (TPtr t) v = (case v of VPtr (Some a) \<Rightarrow> a # reach h t (variableOf (h ! a)) | _ \<Rightarrow> [])"
| "reach h (TSlice t) v = (case v of VSlice (Some (a, n)) \<Rightarrow> a # concat (map (reach h t) (elements h a n)) | _ \<Rightarrow> [])"
| "reach h (TMap t) v = (case v of VMap (Some a) \<Rightarrow> a # concat (map (\<lambda>u. reach h t (snd u)) (tableOf (h ! a))) | _ \<Rightarrow> [])"
| "reach h (TStruct fs) v = concat (map (\<lambda>ft. reach h (snd ft) (fieldOf (fst ft) v)) fs)"
| "reach h _ v = []"


section \<open>Memories that agree\<close>

lemma typed_reach: "typed h t v \<Longrightarrow> a \<in> set (reach h t v) \<Longrightarrow> a < length h"
  by (induction h t v rule: typed.induct) (auto split: val.splits option.splits)

text \<open>A value depends only on the cells it refers to.\<close>

definition agree :: "nat set \<Rightarrow> memory \<Rightarrow> memory \<Rightarrow> bool" where
  "agree A h h' \<longleftrightarrow> (\<forall>a \<in> A. a < length h' \<and> h' ! a = h ! a)"

lemma agree_subset: "agree A h h' \<Longrightarrow> B \<subseteq> A \<Longrightarrow> agree B h h'"
  by (auto simp: agree_def)

lemma agree_same:
  assumes "typed h t v" and "agree (set (reach h t v)) h h'"
  shows "typed h' t v \<and> contents h' t v = contents h t v \<and> reach h' t v = reach h t v"
  using assms
proof (induction h t v rule: typed.induct)
  case (4 h t v)
  then show ?case by (auto simp: agree_def split: val.splits option.splits)
next
  case (5 h t v)
  show ?case
  proof (cases "v = VSlice None")
    case False
    with 5(2) obtain a n us where v: "v = VSlice (Some (a, n))" "a < length h" "h ! a = Array us" "n \<le> length us"
      and elems: "\<forall>u \<in> set (elements h a n). typed h t u"
      by (auto split: val.splits option.splits)
    from 5(3) v have h': "a < length h'" "h' ! a = Array us" by (simp_all add: agree_def)
    have e: "elements h' a n = elements h a n" by (simp add: elements_def v h')
    have "typed h' t u \<and> contents h' t u = contents h t u \<and> reach h' t u = reach h t u" if "u \<in> set (elements h a n)" for u
      using 5(1) [OF v(1) refl refl that] 5(3) elems that v by (auto simp: agree_def)
    with v h' show ?thesis by (auto simp: e intro!: arg_cong [where f = concat] cong: map_cong)
  qed simp
next
  case (6 h t v)
  show ?case
  proof (cases "v = VMap None")
    case False
    with 6(2) obtain a m where v: "v = VMap (Some a)" "a < length h" "h ! a = Table m" "wf_map m"
      and elems: "\<forall>u \<in> set m. typed h t (snd u)"
      by (auto split: val.splits option.splits)
    from 6(3) v have h': "a < length h'" "h' ! a = Table m" by (simp_all add: agree_def)
    have same: "typed h' t (snd u) \<and> contents h' t (snd u) = contents h t (snd u) \<and> reach h' t (snd u) = reach h t (snd u)"
      if "u \<in> set m" for u
      using 6(1) [OF v(1) refl, of u] 6(3) elems that v by (auto simp: agree_def)
    have "map_option (contents h' t) (map_of m k) = map_option (contents h t) (map_of m k)" for k
      using same by (cases "map_of m k") (force dest: map_of_SomeD)+
    moreover have "concat (map (\<lambda>u. reach h' t (snd u)) m) = concat (map (\<lambda>u. reach h t (snd u)) m)"
      by (rule arg_cong [where f = concat]) (use same in simp)
    ultimately show ?thesis using v h' same by simp
  qed simp
next
  case (7 h fs v)
  have "typed h' (snd ft) (fieldOf (fst ft) v) \<and> contents h' (snd ft) (fieldOf (fst ft) v) = contents h (snd ft) (fieldOf (fst ft) v) \<and>
      reach h' (snd ft) (fieldOf (fst ft) v) = reach h (snd ft) (fieldOf (fst ft) v)" if "ft \<in> set fs" for ft
    using 7(1) [OF that] 7(2,3) that by (auto simp: agree_def)
  with 7(2) show ?case by (auto intro!: arg_cong [where f = concat] cong: map_cong)
qed (auto split: val.splits)

lemma flat_reach: "flat t \<Longrightarrow> reach h t v = []"
  by (induction h t v rule: reach.induct) auto

text \<open>A memory that keeps all cells of another and may have more.\<close>

definition extends :: "memory \<Rightarrow> memory \<Rightarrow> bool" where
  "extends h h' \<longleftrightarrow> length h \<le> length h' \<and> (\<forall>a < length h. h' ! a = h ! a)"

lemma extends_refl [simp]: "extends h h"
  by (simp add: extends_def)

lemma extends_trans: "extends h h1 \<Longrightarrow> extends h1 h2 \<Longrightarrow> extends h h2"
  by (auto simp: extends_def)

lemma extends_append [simp]: "extends h (h @ cs)"
  by (simp add: extends_def nth_append)

lemma extends_update: "extends h h1 \<Longrightarrow> length h \<le> a \<Longrightarrow> extends h (h1[a := x])"
  by (auto simp: extends_def)

lemma extends_length: "extends h h' \<Longrightarrow> length h \<le> length h'"
  by (simp add: extends_def)

lemma extends_agree: "extends h h' \<Longrightarrow> typed h t v \<Longrightarrow> agree (set (reach h t v)) h h'"
  by (auto simp: extends_def agree_def dest!: typed_reach)

lemma extends_same:
  assumes "extends h h'" and "typed h t v"
  shows "typed h' t v" "contents h' t v = contents h t v" "reach h' t v = reach h t v"
  using agree_same [OF assms(2) extends_agree [OF assms]] by simp_all


section \<open>The statements of the generated code\<close>

text \<open>
  A copier gets the value of \<open>*in\<close> and returns the one \<open>*out\<close> ends up with; in the code \<open>out\<close> is new, or a
  part of something new, and never overlaps \<open>in\<close>. A cell that is allocated and not yet assigned is \<open>unset\<close>;
  the first statement of every DeepCopyInto assigns all of it.
\<close>

type_synonym copier = "memory \<Rightarrow> val \<Rightarrow> memory \<times> val"

definition unset :: val where
  "unset = VStruct []"

text \<open>\<open>*out = *in\<close>.\<close>

definition assign :: copier where
  "assign h v = (h, v)"

text \<open>\<open>if in.F != nil { *out = new(T); ... }\<close>, with \<open>**out = **in\<close> or \<open>(*in).DeepCopyInto( *out)\<close> for the dots.\<close>

definition newCopy :: "copier \<Rightarrow> copier" where
  "newCopy c h p = (case p of
       VPtr (Some a) \<Rightarrow>
         let b = length h; h0 = h @ [Variable unset]; (h1, w) = c h0 (variableOf (h0 ! a))
         in (h1[b := Variable w], VPtr (Some b))
     | _ \<Rightarrow> (h, p))"

text \<open>\<open>if in.F != nil { *out = make([]T, len( *in)); copy( *out, *in) }\<close>.\<close>

definition sliceCopy :: copier where
  "sliceCopy h s = (case s of
       VSlice (Some (a, n)) \<Rightarrow>
         let b = length h; h0 = h @ [Array (replicate n unset)]
         in (h0[b := Array (elements h0 a n)], VSlice (Some (b, n)))
     | _ \<Rightarrow> (h, s))"

text \<open>The same with \<open>for i := range *in { ( *in)[i].DeepCopyInto(&( *out)[i]) }\<close>.\<close>

fun copyEach :: "copier \<Rightarrow> nat \<Rightarrow> nat \<Rightarrow> val list \<Rightarrow> memory \<Rightarrow> memory" where
  "copyEach c b i [] h = h"
| "copyEach c b i (v # vs) h =
     (let (h1, w) = c h v in copyEach c b (Suc i) vs (h1[b := Array ((arrayOf (h1 ! b))[i := w])]))"

definition sliceEach :: "copier \<Rightarrow> copier" where
  "sliceEach c h s = (case s of
       VSlice (Some (a, n)) \<Rightarrow>
         let b = length h; h0 = h @ [Array (replicate n unset)]
         in (copyEach c b 0 (elements h0 a n) h0, VSlice (Some (b, n)))
     | _ \<Rightarrow> (h, s))"

text \<open>\<open>if in.F != nil { *out = make(map[string]T, len( *in)); for key, val := range *in { ( *out)[key] = ... } }\<close>.
  Go leaves the order of a range open: it is the argument \<open>rng\<close>.\<close>

type_synonym range_order = "memory \<Rightarrow> (string \<times> val) list \<Rightarrow> (string \<times> val) list"

fun copyEntries :: "copier \<Rightarrow> nat \<Rightarrow> (string \<times> val) list \<Rightarrow> memory \<Rightarrow> memory" where
  "copyEntries c b [] h = h"
| "copyEntries c b ((k, v) # m) h =
     (let (h1, w) = c h v in copyEntries c b m (h1[b := Table (put k w (tableOf (h1 ! b)))]))"

definition mapEach :: "range_order \<Rightarrow> copier \<Rightarrow> copier" where
  "mapEach rng c h m = (case m of
       VMap (Some a) \<Rightarrow>
         let b = length h; h0 = h @ [Table []]
         in (copyEntries c b (rng h0 (tableOf (h0 ! a))) h0, VMap (Some b))
     | _ \<Rightarrow> (h, m))"

text \<open>\<open>*val.DeepCopy()\<close>: the copy is made in a new variable and read from there.\<close>

definition derefCopy :: "copier \<Rightarrow> copier" where
  "derefCopy c h v =
     (let b = length h; (h1, w) = c (h @ [Variable unset]) v in (h1[b := Variable w], w))"

text \<open>A DeepCopyInto: \<open>*out = *in\<close>, then one statement for each of some fields.\<close>

fun copyFields :: "(string \<times> copier) list \<Rightarrow> memory \<Rightarrow> val \<Rightarrow> val \<Rightarrow> memory \<times> val" where
  "copyFields [] h v out = (h, out)"
| "copyFields ((f, c) # cs) h v out =
     (let (h1, w) = c h (fieldOf f v) in copyFields cs h1 v (setField f w out))"

definition deepCopyInto :: "(string \<times> copier) list \<Rightarrow> copier" where
  "deepCopyInto cs h v = copyFields cs h v v"

text \<open>
  \<open>DeepCopy\<close> returns nil for nil and else a pointer to a copy in a new variable; \<open>DeepCopyObject\<close> returns it
  as a \<open>runtime.Object\<close>, which is nil itself, and not an Object that holds a nil pointer, when there
  is nothing to copy.
\<close>

definition DeepCopy :: "copier \<Rightarrow> copier" where
  "DeepCopy c h p = (case p of
       VPtr (Some a) \<Rightarrow>
         let b = length h; h0 = h @ [Variable unset]; (h1, w) = c h0 (variableOf (h0 ! a))
         in (h1[b := Variable w], VPtr (Some b))
     | _ \<Rightarrow> (h, VPtr None))"

datatype object = NilObject | Object string val

definition DeepCopyObject :: "string \<Rightarrow> copier \<Rightarrow> memory \<Rightarrow> val \<Rightarrow> memory \<times> object" where
  "DeepCopyObject kind c h p = (let (h1, q) = DeepCopy c h p in (h1, if q \<noteq> VPtr None then Object kind q else NilObject))"

section \<open>The contract of a deep copy\<close>

text \<open>
  \<open>fresh n\<close>: the value reads in the second memory as the other in the first, and refers only to cells from
  \<open>n\<close> on. It stays so while those cells stay as they are.
\<close>

definition fresh :: "nat \<Rightarrow> memory \<Rightarrow> gotype \<Rightarrow> val \<Rightarrow> memory \<Rightarrow> val \<Rightarrow> bool" where
  "fresh n h t v h' w \<longleftrightarrow> typed h' t w \<and> contents h' t w = contents h t v \<and> (\<forall>a \<in> set (reach h' t w). n \<le> a)"

definition keepsFrom :: "nat \<Rightarrow> memory \<Rightarrow> memory \<Rightarrow> bool" where
  "keepsFrom n h h' \<longleftrightarrow> length h \<le> length h' \<and> (\<forall>a. n \<le> a \<longrightarrow> a < length h \<longrightarrow> h' ! a = h ! a)"

lemma keepsFrom_trans: "keepsFrom n h h1 \<Longrightarrow> keepsFrom n h1 h2 \<Longrightarrow> keepsFrom n h h2"
  by (auto simp: keepsFrom_def)

lemma keepsFrom_extends: "extends h h' \<Longrightarrow> keepsFrom n h h'"
  by (simp add: keepsFrom_def extends_def)

lemma keepsFrom_update: "b < n \<Longrightarrow> keepsFrom n h (h[b := x])"
  by (auto simp: keepsFrom_def)

lemma fresh_keeps:
  assumes "fresh n h t v h1 w" and "keepsFrom n h1 h2"
  shows "fresh n h t v h2 w"
proof -
  have "agree (set (reach h1 t w)) h1 h2"
    using assms by (auto simp: fresh_def keepsFrom_def agree_def dest: typed_reach)
  with assms(1) agree_same show ?thesis unfolding fresh_def by metis
qed

lemma fresh_earlier: "fresh n h1 t v h2 w \<Longrightarrow> extends h h1 \<Longrightarrow> typed h t v \<Longrightarrow> fresh n h t v h2 w"
  by (simp add: fresh_def extends_same)

lemma fresh_mono: "fresh n h t v h' w \<Longrightarrow> m \<le> n \<Longrightarrow> fresh m h t v h' w"
  by (auto simp: fresh_def)

definition apart :: "memory \<Rightarrow> gotype \<Rightarrow> val \<Rightarrow> memory \<Rightarrow> val \<Rightarrow> bool" where
  "apart h t v h' w \<longleftrightarrow> extends h h' \<and> typed h' t w \<and> contents h' t w = contents h t v \<and>
     set (reach h t v) \<inter> set (reach h' t w) = {} \<and>
     (\<forall>h2. agree (set (reach h' t w)) h' h2 \<longrightarrow> contents h2 t w = contents h t v) \<and>
     (\<forall>h2. agree (set (reach h t v)) h' h2 \<longrightarrow> contents h2 t v = contents h t v)"

lemma list_all2_right: "list_all2 P xs ys \<Longrightarrow> (\<And>x y. P x y \<Longrightarrow> Q y) \<Longrightarrow> \<forall>y \<in> set ys. Q y"
  by (induction rule: list_all2_induct) auto

lemma list_all2_map_eq: "list_all2 P xs ys \<Longrightarrow> (\<And>x y. P x y \<Longrightarrow> g y = f x) \<Longrightarrow> map g ys = map f xs"
  by (induction rule: list_all2_induct) auto

lemma list_all2_map_of:
  "list_all2 P m ws \<Longrightarrow> (\<And>u w. P u w \<Longrightarrow> fst w = fst u \<and> g (snd w) = f (snd u)) \<Longrightarrow>
     map_option g (map_of ws k) = map_option f (map_of m k)"
  by (induction rule: list_all2_induct) (force split: prod.splits)+

locale deep_copier =
  fixes t :: gotype and c :: copier
  assumes copies: "typed h t v \<Longrightarrow> extends h (fst (c h v)) \<and> fresh (length h) h t v (fst (c h v)) (snd (c h v))"
begin

lemma copy_extends: "typed h t v \<Longrightarrow> c h v = (h', w) \<Longrightarrow> extends h h'"
  using copies [of h v] by simp

lemma copy_fresh: "typed h t v \<Longrightarrow> c h v = (h', w) \<Longrightarrow> fresh (length h) h t v h' w"
  using copies [of h v] by simp

text \<open>A copy into a cell that was allocated before.\<close>

lemma into_cell:
  assumes "typed h t v" and "c (h @ [x]) v = (h1, w)"
  shows "extends h (h1[length h := y])" and "fresh (Suc (length h)) h t v (h1[length h := y]) w"
    and "length h < length h1"
proof -
  have v: "typed (h @ [x]) t v" by (rule extends_same(1) [OF extends_append assms(1)])
  have e: "extends (h @ [x]) h1" by (rule copy_extends [OF v assms(2)])
  then show "length h < length h1" by (auto simp: extends_def)
  show "extends h (h1[length h := y])" by (rule extends_update [OF extends_trans [OF extends_append e]]) simp
  have "fresh (Suc (length h)) (h @ [x]) t v h1 w" using copy_fresh [OF v assms(2)] by simp
  then have "fresh (Suc (length h)) h t v h1 w" by (rule fresh_earlier [OF _ extends_append assms(1)])
  then show "fresh (Suc (length h)) h t v (h1[length h := y]) w" by (rule fresh_keeps) (simp add: keepsFrom_update)
qed

text \<open>The loops over the elements of a slice and the entries of a map, which fill the cell \<open>b\<close>.\<close>

lemma copy_beside:
  assumes "extends h hk" and "length h < length hk" and "typed h t v" and "c hk v = (h1, w)"
  shows "extends h (h1[length h := y])" and "fresh (Suc (length h)) h t v (h1[length h := y]) w"
    and "keepsFrom (Suc (length h)) hk (h1[length h := y])" and "h1 ! length h = hk ! length h" and "length h < length h1"
proof -
  have v: "typed hk t v" by (rule extends_same(1) [OF assms(1,3)])
  have e: "extends hk h1" by (rule copy_extends [OF v assms(4)])
  then show "h1 ! length h = hk ! length h" "length h < length h1" using assms(2) by (auto simp: extends_def)
  show "extends h (h1[length h := y])" by (rule extends_update [OF extends_trans [OF assms(1) e]]) simp
  show "keepsFrom (Suc (length h)) hk (h1[length h := y])"
    by (rule keepsFrom_trans [OF keepsFrom_extends [OF e] keepsFrom_update]) simp
  have "fresh (Suc (length h)) hk t v h1 w" using copy_fresh [OF v assms(4)] assms(2) by (auto intro: fresh_mono)
  then have "fresh (Suc (length h)) h t v h1 w" by (rule fresh_earlier [OF _ assms(1,3)])
  then show "fresh (Suc (length h)) h t v (h1[length h := y]) w" by (rule fresh_keeps) (simp add: keepsFrom_update)
qed

lemma copyEach_fills:
  assumes "\<forall>v \<in> set vs. typed h t v" and "extends h hk" and "length h < length hk"
    and "hk ! length h = Array us" and "length us = i + length vs"
  shows "extends h (copyEach c (length h) i vs hk) \<and> length h < length (copyEach c (length h) i vs hk) \<and>
    keepsFrom (Suc (length h)) hk (copyEach c (length h) i vs hk) \<and>
    (\<exists>ws. copyEach c (length h) i vs hk ! length h = Array (take i us @ ws) \<and>
       list_all2 (\<lambda>v w. fresh (Suc (length h)) h t v (copyEach c (length h) i vs hk) w) vs ws)"
  using assms
proof (induction vs arbitrary: hk us i)
  case Nil
  then show ?case by (simp add: keepsFrom_def)
next
  case (Cons v vs)
  obtain h1 w where c: "c hk v = (h1, w)" by fastforce
  let ?us = "us[i := w]" and ?h = "h1[length h := Array (us[i := w])]"
  note one = copy_beside [OF Cons.prems(2,3) _ c]
  have arr: "arrayOf (h1 ! length h) = us" using one(4) Cons.prems(1,4) by simp
  define r where "r = copyEach c (length h) (Suc i) vs ?h"
  have step: "copyEach c (length h) i (v # vs) hk = r" by (simp add: c arr r_def)
  have len: "length h < length ?h" using one(5) Cons.prems(1) by simp
  from Cons.IH [of ?h ?us "Suc i"] Cons.prems(1,5) one(1) len obtain ws where
    r: "extends h r" "length h < length r" "keepsFrom (Suc (length h)) ?h r" "r ! length h = Array (take (Suc i) ?us @ ws)"
      "list_all2 (\<lambda>v w. fresh (Suc (length h)) h t v r w) vs ws"
    unfolding r_def by auto
  have "fresh (Suc (length h)) h t v r w" by (rule fresh_keeps [OF one(2) r(3)]) (use Cons.prems(1) in simp)
  moreover have "take (Suc i) ?us @ ws = take i us @ w # ws"
    using Cons.prems(5) by (simp add: take_Suc_conv_app_nth)
  moreover have "keepsFrom (Suc (length h)) hk r" using one(3) r(3) Cons.prems(1) by (auto intro: keepsFrom_trans)
  ultimately show ?case unfolding step using r(1,2,4,5) by (intro conjI exI [of _ "w # ws"]) simp_all
qed

lemma copyEntries_fills:
  assumes "\<forall>u \<in> set m. typed h t (snd u)" and "extends h hk" and "length h < length hk"
    and "hk ! length h = Table m0" and "wf_map (m0 @ m)"
  shows "extends h (copyEntries c (length h) m hk) \<and> length h < length (copyEntries c (length h) m hk) \<and>
    keepsFrom (Suc (length h)) hk (copyEntries c (length h) m hk) \<and>
    (\<exists>ws. copyEntries c (length h) m hk ! length h = Table (m0 @ ws) \<and>
       list_all2 (\<lambda>u w. fst w = fst u \<and> fresh (Suc (length h)) h t (snd u) (copyEntries c (length h) m hk) (snd w)) m ws)"
  using assms
proof (induction m arbitrary: hk m0)
  case Nil
  then show ?case by (simp add: keepsFrom_def)
next
  case (Cons u m)
  obtain k v where u: "u = (k, v)" by (cases u)
  obtain h1 w where c: "c hk v = (h1, w)" by fastforce
  note one = copy_beside [OF Cons.prems(2,3) _ c]
  have v: "typed h t v" using Cons.prems(1) u by simp
  have "map_of m0 k = None" using Cons.prems(5) u by (auto simp: wf_map_def map_of_eq_None_iff)
  then have tab: "put k w (tableOf (h1 ! length h)) = m0 @ [(k, w)]" using one(4) v Cons.prems(4) by (simp add: put_new)
  let ?h = "h1[length h := Table (m0 @ [(k, w)])]"
  define r where "r = copyEntries c (length h) m ?h"
  have step: "copyEntries c (length h) (u # m) hk = r" by (simp add: u c tab r_def)
  have len: "length h < length ?h" using one(5) v by simp
  from Cons.IH [of ?h "m0 @ [(k, w)]"] Cons.prems(1,5) one(1) [OF v] len u obtain ws where
    r: "extends h r" "length h < length r" "keepsFrom (Suc (length h)) ?h r" "r ! length h = Table (m0 @ (k, w) # ws)"
      "list_all2 (\<lambda>u w. fst w = fst u \<and> fresh (Suc (length h)) h t (snd u) r (snd w)) m ws"
    unfolding r_def by (auto simp: wf_map_def)
  have "fresh (Suc (length h)) h t v r w" by (rule fresh_keeps [OF one(2) [OF v] r(3)])
  moreover have "keepsFrom (Suc (length h)) hk r" using one(3) [OF v] r(3) by (rule keepsFrom_trans)
  ultimately show ?case unfolding step using r(1,2,4,5) u by (intro conjI exI [of _ "(k, w) # ws"]) simp_all
qed

text \<open>
  What a deep copy is for: the two have no cell in common, so writing to the cells of one, or to any
  others, leaves what is read through the other as it was.
\<close>

lemma copies_apart:
  assumes "typed h t v" and "c h v = (h', w)"
  shows "apart h t v h' w"
proof -
  note e = copy_extends [OF assms] and f = copy_fresh [OF assms]
  have old: "typed h' t v" "contents h' t v = contents h t v" "reach h' t v = reach h t v"
    using extends_same [OF e assms(1)] by simp_all
  have "contents h2 t w = contents h t v" if "agree (set (reach h' t w)) h' h2" for h2
    using agree_same [of h' t w, OF _ that] f by (simp add: fresh_def)
  moreover have "contents h2 t v = contents h t v" if "agree (set (reach h t v)) h' h2" for h2
    using agree_same [OF old(1), of h2] that old by simp
  moreover have "set (reach h t v) \<inter> set (reach h' t w) = {}"
    using typed_reach [OF assms(1)] f by (fastforce simp: fresh_def)
  ultimately show ?thesis using e f by (simp add: apart_def fresh_def)
qed

text \<open>Each statement of the generated code keeps the contract.\<close>

lemma newCopy_ok: "deep_copier (TPtr t) (newCopy c)"
proof
  fix h p
  assume p: "typed h (TPtr t) p"
  show "extends h (fst (newCopy c h p)) \<and> fresh (length h) h (TPtr t) p (fst (newCopy c h p)) (snd (newCopy c h p))"
  proof (cases "p = VPtr None")
    case True
    then show ?thesis by (simp add: newCopy_def fresh_def)
  next
    case False
    with p obtain a u where a: "p = VPtr (Some a)" "a < length h" "h ! a = Variable u" "typed h t u"
      by (auto split: val.splits option.splits)
    obtain h1 w where c: "c (h @ [Variable unset]) u = (h1, w)" by fastforce
    note cell = into_cell(1,2) [OF a(4) c, where y = "Variable w"]
    have "newCopy c h p = (h1[length h := Variable w], VPtr (Some (length h)))"
      using a(2,3) c by (simp add: newCopy_def a(1) nth_append Let_def)
    with cell into_cell(3) [OF a(4) c] a show ?thesis by (auto simp: fresh_def)
  qed
qed

lemma DeepCopy_ok: "deep_copier (TPtr t) (DeepCopy c)"
proof
  fix h p
  assume p: "typed h (TPtr t) p"
  then have "DeepCopy c h p = newCopy c h p"
    by (auto simp: DeepCopy_def newCopy_def split: val.splits option.splits)
  with deep_copier.copies [OF newCopy_ok p]
  show "extends h (fst (DeepCopy c h p)) \<and> fresh (length h) h (TPtr t) p (fst (DeepCopy c h p)) (snd (DeepCopy c h p))"
    by simp
qed

lemma derefCopy_ok: "deep_copier t (derefCopy c)"
proof
  fix h v
  assume v: "typed h t v"
  obtain h1 w where c: "c (h @ [Variable unset]) v = (h1, w)" by fastforce
  from into_cell(1,2) [OF v c, where y = "Variable w"]
  show "extends h (fst (derefCopy c h v)) \<and> fresh (length h) h t v (fst (derefCopy c h v)) (snd (derefCopy c h v))"
    by (auto simp: derefCopy_def c Let_def intro: fresh_mono)
qed

lemma sliceEach_ok: "deep_copier (TSlice t) (sliceEach c)"
proof
  fix h s
  assume s: "typed h (TSlice t) s"
  show "extends h (fst (sliceEach c h s)) \<and> fresh (length h) h (TSlice t) s (fst (sliceEach c h s)) (snd (sliceEach c h s))"
  proof (cases "s = VSlice None")
    case True
    then show ?thesis by (simp add: sliceEach_def fresh_def)
  next
    case False
    with s obtain a n us where a: "s = VSlice (Some (a, n))" "a < length h" "h ! a = Array us" "n \<le> length us"
      and elems: "\<forall>u \<in> set (elements h a n). typed h t u"
      by (auto split: val.splits option.splits)
    define vs where "vs = elements h a n"
    define h0 where "h0 = h @ [Array (replicate n unset)]"
    define r where "r = copyEach c (length h) 0 vs h0"
    have vs: "length vs = n" "elements h0 a n = vs" using a by (simp_all add: vs_def elements_def h0_def nth_append)
    have res: "sliceEach c h s = (r, VSlice (Some (length h, n)))"
      by (simp add: sliceEach_def a(1) h0_def [symmetric] vs(2) r_def Let_def)
    have "extends h h0" "length h < length h0" "h0 ! length h = Array (replicate n unset)" by (simp_all add: h0_def)
    from copyEach_fills [OF _ this, of vs 0] elems vs obtain ws where
      r: "extends h r" "length h < length r" "r ! length h = Array ws"
        "list_all2 (\<lambda>v w. fresh (Suc (length h)) h t v r w) vs ws"
      unfolding r_def vs_def by auto
    have ws: "elements r (length h) n = ws" using r(3,4) vs(1) by (simp add: elements_def list_all2_lengthD)
    have "\<forall>w \<in> set ws. typed r t w \<and> (\<forall>b \<in> set (reach r t w). length h \<le> b)"
      by (rule list_all2_right [OF r(4)]) (auto simp: fresh_def)
    moreover have "map (contents r t) ws = map (contents h t) vs"
      by (rule list_all2_map_eq [OF r(4)]) (simp add: fresh_def)
    ultimately have "fresh (length h) h (TSlice t) s r (VSlice (Some (length h, n)))"
      using r(2,3) ws vs(1) list_all2_lengthD [OF r(4)] by (auto simp: fresh_def a(1) vs_def [symmetric])
    with r(1) show ?thesis by (simp add: res)
  qed
qed

lemma mapEach_ok:
  assumes "\<And>h m. mset (rng h m) = mset m"
  shows "deep_copier (TMap t) (mapEach rng c)"
proof
  fix h p
  assume p: "typed h (TMap t) p"
  show "extends h (fst (mapEach rng c h p)) \<and> fresh (length h) h (TMap t) p (fst (mapEach rng c h p)) (snd (mapEach rng c h p))"
  proof (cases "p = VMap None")
    case True
    then show ?thesis by (simp add: mapEach_def fresh_def)
  next
    case False
    with p obtain a m where a: "p = VMap (Some a)" "a < length h" "h ! a = Table m" "wf_map m"
      and elems: "\<forall>u \<in> set m. typed h t (snd u)"
      by (auto split: val.splits option.splits)
    define h0 where "h0 = h @ [Table []]"
    define m' where "m' = rng h0 m"
    define r where "r = copyEntries c (length h) m' h0"
    have res: "mapEach rng c h p = (r, VMap (Some (length h)))"
      using a(2,3) by (simp add: mapEach_def a(1) h0_def [symmetric] r_def m'_def Let_def) (simp add: h0_def nth_append)
    have perm: "mset m' = mset m" by (simp add: m'_def assms)
    then have set': "set m' = set m" by (rule mset_eq_setD)
    have "mset (map fst m') = mset (map fst m)" by (simp add: perm)
    then have wf': "wf_map m'" using a(4) mset_eq_imp_distinct_iff unfolding wf_map_def by blast
    have "extends h h0" "length h < length h0" "h0 ! length h = Table []" by (simp_all add: h0_def)
    from copyEntries_fills [OF _ this, of m'] elems set' wf' obtain ws where
      r: "extends h r" "length h < length r" "r ! length h = Table ws"
        "list_all2 (\<lambda>u w. fst w = fst u \<and> fresh (Suc (length h)) h t (snd u) r (snd w)) m' ws"
      unfolding r_def by auto
    have keys: "map fst ws = map fst m'" by (rule list_all2_map_eq [OF r(4)]) simp
    have "\<forall>w \<in> set ws. typed r t (snd w) \<and> (\<forall>b \<in> set (reach r t (snd w)). length h \<le> b)"
      by (rule list_all2_right [OF r(4)]) (auto simp: fresh_def)
    moreover have "map_option (contents r t) (map_of ws k) = map_option (contents h t) (map_of m' k)" for k
      by (rule list_all2_map_of [OF r(4)]) (simp add: fresh_def)
    moreover have "map_of m' k = map_of m k" for k
      using a(4) wf' set' wf_map_of by (metis not_None_eq)
    ultimately have "fresh (length h) h (TMap t) p r (VMap (Some (length h)))"
      using r(2,3) a(3) wf' keys by (auto simp: fresh_def a(1) wf_map_def)
    with r(1) show ?thesis by (simp add: res)
  qed
qed

end


lemma assign_ok: "flat t \<Longrightarrow> deep_copier t assign"
  by unfold_locales (simp add: assign_def fresh_def flat_reach)

lemma sliceCopy_ok:
  assumes "flat t"
  shows "deep_copier (TSlice t) sliceCopy"
proof
  fix h s
  assume s: "typed h (TSlice t) s"
  show "extends h (fst (sliceCopy h s)) \<and> fresh (length h) h (TSlice t) s (fst (sliceCopy h s)) (snd (sliceCopy h s))"
  proof (cases "s = VSlice None")
    case True
    then show ?thesis by (simp add: sliceCopy_def fresh_def)
  next
    case False
    with s obtain a n us where a: "s = VSlice (Some (a, n))" "a < length h" "h ! a = Array us" "n \<le> length us"
      and elems: "\<forall>u \<in> set (take n us). typed h t u"
      by (auto simp: elements_def split: val.splits option.splits)
    define r where "r = h @ [Array (take n us)]"
    have res: "sliceCopy h s = (r, VSlice (Some (length h, n)))"
      using a(2,3) by (simp add: sliceCopy_def a(1) elements_def nth_append r_def Let_def)
    have e: "extends h r" by (simp add: r_def)
    have "typed r t u \<and> contents r t u = contents h t u" if "u \<in> set (take n us)" for u
      using extends_same [OF e] elems that by blast
    then have "fresh (length h) h (TSlice t) s r (VSlice (Some (length h, n)))"
      using a by (auto simp: fresh_def elements_def r_def flat_reach [OF assms])
    with e show ?thesis by (simp add: res)
  qed
qed

text \<open>
  A DeepCopyInto is right when it has a statement that keeps the contract for every field whose type
  is not flat. The values of the other fields come with the first assignment.
\<close>

definition covers :: "(string \<times> copier) list \<Rightarrow> (string \<times> gotype) list \<Rightarrow> bool" where
  "covers cs fs \<longleftrightarrow> distinct (map fst cs) \<and> (\<forall>fc \<in> set cs. map_of fs (fst fc) \<noteq> None) \<and>
     (\<forall>ft \<in> set fs. case map_of cs (fst ft) of None \<Rightarrow> flat (snd ft) | Some c \<Rightarrow> deep_copier (snd ft) c)"

lemma setField_names [simp]: "fieldNames (setField f w v) = fieldNames v"
  by (cases v) (auto simp: comp_def case_prod_beta)

lemma fieldOf_setField: "f \<in> set (fieldNames v) \<Longrightarrow> fieldOf g (setField f w v) = (if g = f then w else fieldOf g v)"
proof (cases v)
  case (VStruct fs)
  have "map_of (map (\<lambda>(k, x). (k, if k = f then w else x)) fs) g =
      (if g = f then map_option (\<lambda>_. w) (map_of fs f) else map_of fs g)"
    by (induction fs) auto
  moreover assume "f \<in> set (fieldNames v)"
  then have "map_of fs f \<noteq> None" by (simp add: VStruct map_of_eq_None_iff)
  ultimately show ?thesis by (auto simp: VStruct split: option.split)
qed auto

text \<open>The state of a DeepCopyInto after some of its statements.\<close>

definition fieldsCopied :: "memory \<Rightarrow> (string \<times> gotype) list \<Rightarrow> val \<Rightarrow> (string \<times> copier) list \<Rightarrow> val \<Rightarrow> memory \<times> val \<Rightarrow> bool" where
  "fieldsCopied h fs v cs out r \<longleftrightarrow> fieldNames (snd r) = map fst fs \<and>
     (\<forall>ft \<in> set fs. case map_of cs (fst ft) of
        None \<Rightarrow> fieldOf (fst ft) (snd r) = fieldOf (fst ft) out
      | Some c \<Rightarrow> fresh (length h) h (snd ft) (fieldOf (fst ft) v) (fst r) (fieldOf (fst ft) (snd r)))"

lemma copyFields_ok:
  assumes "\<forall>fc \<in> set cs. \<exists>t. map_of fs (fst fc) = Some t \<and> deep_copier t (snd fc)" and "distinct (map fst cs)"
    and "typed h (TStruct fs) v" and "extends h hk" and "fieldNames out = map fst fs"
  shows "extends hk (fst (copyFields cs hk v out)) \<and> fieldsCopied h fs v cs out (copyFields cs hk v out)"
  using assms
proof (induction cs arbitrary: hk out)
  case Nil
  then show ?case by (simp add: fieldsCopied_def)
next
  case (Cons fc cs)
  obtain f c where fc: "fc = (f, c)" by (cases fc)
  from Cons.prems(1) fc obtain t where t: "map_of fs f = Some t" "deep_copier t c" by auto
  have mem: "(f, t) \<in> set fs" using t(1) by (rule map_of_SomeD)
  have tv: "typed h t (fieldOf f v)" "f \<in> set (fieldNames out)"
    using Cons.prems(3,5) mem by (force simp: rev_image_eqI)+
  obtain h1 w where c: "c hk (fieldOf f v) = (h1, w)" by fastforce
  have "typed hk t (fieldOf f v)" by (rule extends_same(1) [OF Cons.prems(4) tv(1)])
  note one = deep_copier.copy_extends [OF t(2) this c] deep_copier.copy_fresh [OF t(2) this c]
  have w: "fresh (length h) h t (fieldOf f v) h1 w"
    by (rule fresh_mono [OF fresh_earlier [OF one(2) Cons.prems(4) tv(1)] extends_length [OF Cons.prems(4)]])
  define r where "r = copyFields cs h1 v (setField f w out)"
  have step: "copyFields (fc # cs) hk v out = r" by (simp add: fc c r_def)
  have IH: "extends h1 (fst r)" "fieldsCopied h fs v cs (setField f w out) r"
    using Cons.IH [of h1 "setField f w out"] Cons.prems extends_trans [OF Cons.prems(4) one(1)] unfolding r_def by simp_all
  have new: "fresh (length h) h t (fieldOf f v) (fst r) w" by (rule fresh_keeps [OF w keepsFrom_extends [OF IH(1)]])
  have none: "map_of cs f = None" using Cons.prems(2) fc by (simp add: map_of_eq_None_iff)
  have "distinct (map fst fs)" using Cons.prems(3) by simp
  note key = eq_key_imp_eq_value [OF this _ mem]
  have "snd ft = t" if "ft \<in> set fs" "fst ft = f" for ft
    by (rule key) (use that(1) in \<open>simp flip: that(2)\<close>)
  note same = this
  have "fieldsCopied h fs v (fc # cs) out r"
    unfolding fieldsCopied_def
  proof (intro conjI ballI)
    show "fieldNames (snd r) = map fst fs" using IH(2) by (simp add: fieldsCopied_def)
    fix ft
    assume ft: "ft \<in> set fs"
    show "case map_of (fc # cs) (fst ft) of None \<Rightarrow> fieldOf (fst ft) (snd r) = fieldOf (fst ft) out
        | Some c \<Rightarrow> fresh (length h) h (snd ft) (fieldOf (fst ft) v) (fst r) (fieldOf (fst ft) (snd r))"
    proof -
      have "case map_of cs (fst ft) of None \<Rightarrow> fieldOf (fst ft) (snd r) = fieldOf (fst ft) (setField f w out)
        | Some c \<Rightarrow> fresh (length h) h (snd ft) (fieldOf (fst ft) v) (fst r) (fieldOf (fst ft) (snd r))"
        using IH(2) ft unfolding fieldsCopied_def by blast
      then show ?thesis
        using new none same [OF ft] by (cases "fst ft = f"; cases "map_of cs (fst ft)") (simp_all add: fc fieldOf_setField [OF tv(2)])
    qed
  qed
  with extends_trans [OF one(1) IH(1)] show ?case unfolding step by simp
qed

lemma copyFields_struct: "\<exists>ws. snd (copyFields cs h v (VStruct vs)) = VStruct ws"
  by (induction cs arbitrary: h vs) (auto split: prod.split)

lemma covers_copiers:
  assumes "covers cs fs" and "fc \<in> set cs"
  shows "\<exists>t. map_of fs (fst fc) = Some t \<and> deep_copier t (snd fc)"
proof -
  from assms obtain t where t: "map_of fs (fst fc) = Some t" by (auto simp: covers_def)
  have "map_of cs (fst fc) = Some (snd fc)" using assms by (simp add: covers_def)
  moreover have "case map_of cs (fst (fst fc, t)) of None \<Rightarrow> flat (snd (fst fc, t)) | Some c \<Rightarrow> deep_copier (snd (fst fc, t)) c"
    using assms(1) map_of_SomeD [OF t] unfolding covers_def by blast
  ultimately have "deep_copier t (snd fc)" by simp
  with t show ?thesis by blast
qed

lemma deepCopyInto_ok:
  assumes "covers cs fs"
  shows "deep_copier (TStruct fs) (deepCopyInto cs)"
proof
  fix h v
  assume v: "typed h (TStruct fs) v"
  then obtain vs where vs: "v = VStruct vs" by (auto split: val.splits)
  have names: "fieldNames v = map fst fs" "distinct (map fst fs)" using v by simp_all
  define r where "r = copyFields cs h v v"
  have r: "extends h (fst r)" "fieldsCopied h fs v cs v r"
    using copyFields_ok [OF _ _ v extends_refl names(1), of cs] covers_copiers [OF assms] assms
    by (simp_all add: r_def covers_def)
  have field: "fresh (length h) h (snd ft) (fieldOf (fst ft) v) (fst r) (fieldOf (fst ft) (snd r))" if ft: "ft \<in> set fs" for ft
  proof (cases "map_of cs (fst ft)")
    case None
    with assms ft have "flat (snd ft)" by (force simp: covers_def)
    moreover have "typed h (snd ft) (fieldOf (fst ft) v)" using v ft by simp
    moreover have "fieldOf (fst ft) (snd r) = fieldOf (fst ft) v" using None r(2) ft by (force simp: fieldsCopied_def)
    ultimately show ?thesis using extends_same [OF r(1)] by (simp add: fresh_def flat_reach)
  next
    case (Some c)
    with r(2) ft show ?thesis by (force simp: fieldsCopied_def)
  qed
  obtain ws where "snd r = VStruct ws" using copyFields_struct [of cs h v vs] unfolding r_def vs by blast
  then have "fresh (length h) h (TStruct fs) v (fst r) (snd r)"
    using field r(2) names by (auto simp: fresh_def fieldsCopied_def)
  with r(1) show "extends h (fst (deepCopyInto cs h v)) \<and> fresh (length h) h (TStruct fs) v (fst (deepCopyInto cs h v)) (snd (deepCopyInto cs h v))"
    by (simp add: deepCopyInto_def r_def)
qed


lemmas [copier_rules] = assign_ok sliceCopy_ok deep_copier.newCopy_ok deep_copier.DeepCopy_ok deep_copier.derefCopy_ok
  deep_copier.sliceEach_ok deep_copier.mapEach_ok

section \<open>What is not under src/\<close>

text \<open>
  The types of k8s.io/api and k8s.io/apimachinery and their DeepCopyInto, by name, and the order in which
  a range visits a map. \<open>documented\<close> is what their documentation says of them: a DeepCopyInto is a deep
  copy, TypeMeta and LocalObjectReference hold strings only, and a range visits every entry once, in no
  particular order. (metav1.Time is copied by assignment; its documentation calls it immutable, so it
  counts as a type without references.)
\<close>

record go_library =
  rangeOrder :: range_order
  typeOf :: "string \<Rightarrow> gotype"
  copierOf :: "string \<Rightarrow> copier"

definition documented :: "go_library \<Rightarrow> bool" where
  "documented L \<longleftrightarrow> (\<forall>h m. mset (rangeOrder L h m) = mset m) \<and> (\<forall>n. deep_copier (typeOf L n) (copierOf L n)) \<and>
     flat (typeOf L ''metav1.TypeMeta'') \<and> flat (typeOf L ''corev1.LocalObjectReference'')"

lemma documentedD [copier_rules]:
  "documented L \<Longrightarrow> mset (rangeOrder L h m) = mset m"
  "documented L \<Longrightarrow> deep_copier (typeOf L n) (copierOf L n)"
  "documented L \<Longrightarrow> flat (typeOf L ''metav1.TypeMeta'')"
  "documented L \<Longrightarrow> flat (typeOf L ''corev1.LocalObjectReference'')"
  by (simp_all add: documented_def)

end
