(* ===== verification/DeepCopyNodeOp.thy ===== *)
theory DeepCopyNodeOp
  imports GoMemory
begin

text \<open>
  api/v1alpha1: the fields of NodeOp, NodeOpUpgrade and what they contain (nodeop_types.go,
  nodeopupgrade_types.go), and the functions of zz_generated.deepcopy.go, statement by statement. Each
  \<open>_ok\<close> lemma says that the function deals with every field that holds a reference; a new field that the
  generated file lacks would make it fail.
\<close>

definition DrainOptions_fields :: "(string \<times> gotype) list" where
  "DrainOptions_fields =
    [(''Enabled'', TPtr TBool), (''Force'', TPtr TBool), (''GracePeriodSeconds'', TPtr (TInt 32)),
     (''IgnoreDaemonSets'', TPtr TBool), (''DeleteEmptyDirData'', TPtr TBool),
     (''TimeoutSeconds'', TPtr (TInt 32))]"

definition DrainOptions_DeepCopyInto :: "copier" where
  "DrainOptions_DeepCopyInto = deepCopyInto
    [(''Enabled'', newCopy assign), (''Force'', newCopy assign), (''GracePeriodSeconds'', newCopy assign),
     (''IgnoreDaemonSets'', newCopy assign), (''DeleteEmptyDirData'', newCopy assign),
     (''TimeoutSeconds'', newCopy assign)]"

definition DrainOptions_DeepCopy :: "copier" where
  "DrainOptions_DeepCopy = DeepCopy DrainOptions_DeepCopyInto"

lemma DrainOptions_ok [copier_rules]: "deep_copier (TStruct DrainOptions_fields) DrainOptions_DeepCopyInto"
  unfolding DrainOptions_DeepCopyInto_def by (rule deepCopyInto_ok) (simp add: covers_def DrainOptions_fields_def copier_rules)

definition PreflightSpec_fields :: "(string \<times> gotype) list" where
  "PreflightSpec_fields =
    [(''Command'', TSlice TString), (''Image'', TString), (''ActiveDeadlineSeconds'', TPtr (TInt 32))]"

definition PreflightSpec_DeepCopyInto :: "copier" where
  "PreflightSpec_DeepCopyInto = deepCopyInto
    [(''Command'', sliceCopy), (''ActiveDeadlineSeconds'', newCopy assign)]"

definition PreflightSpec_DeepCopy :: "copier" where
  "PreflightSpec_DeepCopy = DeepCopy PreflightSpec_DeepCopyInto"

lemma PreflightSpec_ok [copier_rules]: "deep_copier (TStruct PreflightSpec_fields) PreflightSpec_DeepCopyInto"
  unfolding PreflightSpec_DeepCopyInto_def by (rule deepCopyInto_ok) (simp add: covers_def PreflightSpec_fields_def copier_rules)

definition NodeOpSpec_fields :: "go_library \<Rightarrow> (string \<times> gotype) list" where
  "NodeOpSpec_fields L =
    [(''NodeSelector'', TPtr (typeOf L ''metav1.LabelSelector'')), (''Command'', TSlice TString),
     (''HostMountPath'', TString), (''Image'', TString),
     (''ImagePullSecrets'', TSlice (typeOf L ''corev1.LocalObjectReference'')), (''Cordon'', TPtr TBool),
     (''UncordonOnFailure'', TPtr TBool), (''DrainOptions'', TPtr (TStruct DrainOptions_fields)),
     (''RebootOnSuccess'', TPtr TBool), (''BackoffLimit'', TPtr (TInt 32)), (''Concurrency'', TInt 32),
     (''StopOnFailure'', TPtr TBool), (''Preflight'', TPtr (TStruct PreflightSpec_fields)),
     (''Resources'', TPtr (typeOf L ''corev1.ResourceRequirements'')),
     (''PreflightResources'', TPtr (typeOf L ''corev1.ResourceRequirements'')),
     (''RebootResources'', TPtr (typeOf L ''corev1.ResourceRequirements''))]"

definition NodeOpSpec_DeepCopyInto :: "go_library \<Rightarrow> copier" where
  "NodeOpSpec_DeepCopyInto L = deepCopyInto
    [(''NodeSelector'', newCopy (copierOf L ''metav1.LabelSelector'')), (''Command'', sliceCopy),
     (''ImagePullSecrets'', sliceCopy), (''Cordon'', newCopy assign),
     (''UncordonOnFailure'', newCopy assign), (''DrainOptions'', newCopy DrainOptions_DeepCopyInto),
     (''RebootOnSuccess'', newCopy assign), (''BackoffLimit'', newCopy assign),
     (''StopOnFailure'', newCopy assign), (''Preflight'', newCopy PreflightSpec_DeepCopyInto),
     (''Resources'', newCopy (copierOf L ''corev1.ResourceRequirements'')),
     (''PreflightResources'', newCopy (copierOf L ''corev1.ResourceRequirements'')),
     (''RebootResources'', newCopy (copierOf L ''corev1.ResourceRequirements''))]"

definition NodeOpSpec_DeepCopy :: "go_library \<Rightarrow> copier" where
  "NodeOpSpec_DeepCopy L = DeepCopy (NodeOpSpec_DeepCopyInto L)"

lemma NodeOpSpec_ok [copier_rules]: "documented L \<Longrightarrow> deep_copier (TStruct (NodeOpSpec_fields L)) (NodeOpSpec_DeepCopyInto L)"
  unfolding NodeOpSpec_DeepCopyInto_def by (rule deepCopyInto_ok) (simp add: covers_def NodeOpSpec_fields_def copier_rules)

definition NodeStatus_fields :: "go_library \<Rightarrow> (string \<times> gotype) list" where
  "NodeStatus_fields L =
    [(''Phase'', TString), (''JobName'', TString), (''Message'', TString), (''RebootStatus'', TString),
     (''PreRebootBootID'', TString), (''LastUpdated'', typeOf L ''metav1.Time'')]"

definition NodeStatus_DeepCopyInto :: "go_library \<Rightarrow> copier" where
  "NodeStatus_DeepCopyInto L = deepCopyInto
    [(''LastUpdated'', copierOf L ''metav1.Time'')]"

definition NodeStatus_DeepCopy :: "go_library \<Rightarrow> copier" where
  "NodeStatus_DeepCopy L = DeepCopy (NodeStatus_DeepCopyInto L)"

lemma NodeStatus_ok [copier_rules]: "documented L \<Longrightarrow> deep_copier (TStruct (NodeStatus_fields L)) (NodeStatus_DeepCopyInto L)"
  unfolding NodeStatus_DeepCopyInto_def by (rule deepCopyInto_ok) (simp add: covers_def NodeStatus_fields_def copier_rules)

definition NodeOpStatus_fields :: "go_library \<Rightarrow> (string \<times> gotype) list" where
  "NodeOpStatus_fields L =
    [(''Phase'', TString), (''NodeStatuses'', TMap (TStruct (NodeStatus_fields L))),
     (''LastUpdated'', typeOf L ''metav1.Time'')]"

definition NodeOpStatus_DeepCopyInto :: "go_library \<Rightarrow> copier" where
  "NodeOpStatus_DeepCopyInto L = deepCopyInto
    [(''NodeStatuses'', mapEach (rangeOrder L) (derefCopy (NodeStatus_DeepCopyInto L))),
     (''LastUpdated'', copierOf L ''metav1.Time'')]"

definition NodeOpStatus_DeepCopy :: "go_library \<Rightarrow> copier" where
  "NodeOpStatus_DeepCopy L = DeepCopy (NodeOpStatus_DeepCopyInto L)"

lemma NodeOpStatus_ok [copier_rules]: "documented L \<Longrightarrow> deep_copier (TStruct (NodeOpStatus_fields L)) (NodeOpStatus_DeepCopyInto L)"
  unfolding NodeOpStatus_DeepCopyInto_def by (rule deepCopyInto_ok) (simp add: covers_def NodeOpStatus_fields_def copier_rules)

definition NodeOp_fields :: "go_library \<Rightarrow> (string \<times> gotype) list" where
  "NodeOp_fields L =
    [(''TypeMeta'', typeOf L ''metav1.TypeMeta''), (''ObjectMeta'', typeOf L ''metav1.ObjectMeta''),
     (''Spec'', TStruct (NodeOpSpec_fields L)), (''Status'', TStruct (NodeOpStatus_fields L))]"

definition NodeOp_DeepCopyInto :: "go_library \<Rightarrow> copier" where
  "NodeOp_DeepCopyInto L = deepCopyInto
    [(''TypeMeta'', assign), (''ObjectMeta'', copierOf L ''metav1.ObjectMeta''),
     (''Spec'', NodeOpSpec_DeepCopyInto L), (''Status'', NodeOpStatus_DeepCopyInto L)]"

definition NodeOp_DeepCopy :: "go_library \<Rightarrow> copier" where
  "NodeOp_DeepCopy L = DeepCopy (NodeOp_DeepCopyInto L)"

definition NodeOp_DeepCopyObject :: "go_library \<Rightarrow> memory \<Rightarrow> val \<Rightarrow> memory \<times> object" where
  "NodeOp_DeepCopyObject L = DeepCopyObject ''NodeOp'' (NodeOp_DeepCopyInto L)"

lemma NodeOp_ok [copier_rules]: "documented L \<Longrightarrow> deep_copier (TStruct (NodeOp_fields L)) (NodeOp_DeepCopyInto L)"
  unfolding NodeOp_DeepCopyInto_def by (rule deepCopyInto_ok) (simp add: covers_def NodeOp_fields_def copier_rules)

definition NodeOpList_fields :: "go_library \<Rightarrow> (string \<times> gotype) list" where
  "NodeOpList_fields L =
    [(''TypeMeta'', typeOf L ''metav1.TypeMeta''), (''ListMeta'', typeOf L ''metav1.ListMeta''),
     (''Items'', TSlice (TStruct (NodeOp_fields L)))]"

definition NodeOpList_DeepCopyInto :: "go_library \<Rightarrow> copier" where
  "NodeOpList_DeepCopyInto L = deepCopyInto
    [(''TypeMeta'', assign), (''ListMeta'', copierOf L ''metav1.ListMeta''),
     (''Items'', sliceEach (NodeOp_DeepCopyInto L))]"

definition NodeOpList_DeepCopy :: "go_library \<Rightarrow> copier" where
  "NodeOpList_DeepCopy L = DeepCopy (NodeOpList_DeepCopyInto L)"

definition NodeOpList_DeepCopyObject :: "go_library \<Rightarrow> memory \<Rightarrow> val \<Rightarrow> memory \<times> object" where
  "NodeOpList_DeepCopyObject L = DeepCopyObject ''NodeOpList'' (NodeOpList_DeepCopyInto L)"

lemma NodeOpList_ok [copier_rules]: "documented L \<Longrightarrow> deep_copier (TStruct (NodeOpList_fields L)) (NodeOpList_DeepCopyInto L)"
  unfolding NodeOpList_DeepCopyInto_def by (rule deepCopyInto_ok) (simp add: covers_def NodeOpList_fields_def copier_rules)

definition NodeOpUpgradeSpec_fields :: "go_library \<Rightarrow> (string \<times> gotype) list" where
  "NodeOpUpgradeSpec_fields L =
    [(''NodeSelector'', TPtr (typeOf L ''metav1.LabelSelector'')), (''Image'', TString),
     (''ImagePullSecrets'', TSlice (typeOf L ''corev1.LocalObjectReference'')), (''Concurrency'', TInt 32),
     (''StopOnFailure'', TPtr TBool), (''UpgradeRecovery'', TPtr TBool), (''UpgradeActive'', TPtr TBool),
     (''Force'', TPtr TBool), (''Debug'', TPtr TBool), (''UncordonOnFailure'', TPtr TBool),
     (''ExcludePaths'', TSlice TString), (''Resources'', TPtr (typeOf L ''corev1.ResourceRequirements'')),
     (''PreflightResources'', TPtr (typeOf L ''corev1.ResourceRequirements'')),
     (''RebootResources'', TPtr (typeOf L ''corev1.ResourceRequirements''))]"

definition NodeOpUpgradeSpec_DeepCopyInto :: "go_library \<Rightarrow> copier" where
  "NodeOpUpgradeSpec_DeepCopyInto L = deepCopyInto
    [(''NodeSelector'', newCopy (copierOf L ''metav1.LabelSelector'')), (''ImagePullSecrets'', sliceCopy),
     (''StopOnFailure'', newCopy assign), (''UpgradeRecovery'', newCopy assign),
     (''UpgradeActive'', newCopy assign), (''Force'', newCopy assign), (''Debug'', newCopy assign),
     (''UncordonOnFailure'', newCopy assign), (''ExcludePaths'', sliceCopy),
     (''Resources'', newCopy (copierOf L ''corev1.ResourceRequirements'')),
     (''PreflightResources'', newCopy (copierOf L ''corev1.ResourceRequirements'')),
     (''RebootResources'', newCopy (copierOf L ''corev1.ResourceRequirements''))]"

definition NodeOpUpgradeSpec_DeepCopy :: "go_library \<Rightarrow> copier" where
  "NodeOpUpgradeSpec_DeepCopy L = DeepCopy (NodeOpUpgradeSpec_DeepCopyInto L)"

lemma NodeOpUpgradeSpec_ok [copier_rules]: "documented L \<Longrightarrow> deep_copier (TStruct (NodeOpUpgradeSpec_fields L)) (NodeOpUpgradeSpec_DeepCopyInto L)"
  unfolding NodeOpUpgradeSpec_DeepCopyInto_def by (rule deepCopyInto_ok) (simp add: covers_def NodeOpUpgradeSpec_fields_def copier_rules)

definition NodeOpUpgradeStatus_fields :: "go_library \<Rightarrow> (string \<times> gotype) list" where
  "NodeOpUpgradeStatus_fields L =
    [(''Phase'', TString), (''NodeOpName'', TString),
     (''NodeStatuses'', TMap (TStruct (NodeStatus_fields L))), (''Message'', TString),
     (''LastUpdated'', typeOf L ''metav1.Time'')]"

definition NodeOpUpgradeStatus_DeepCopyInto :: "go_library \<Rightarrow> copier" where
  "NodeOpUpgradeStatus_DeepCopyInto L = deepCopyInto
    [(''NodeStatuses'', mapEach (rangeOrder L) (derefCopy (NodeStatus_DeepCopyInto L))),
     (''LastUpdated'', copierOf L ''metav1.Time'')]"

definition NodeOpUpgradeStatus_DeepCopy :: "go_library \<Rightarrow> copier" where
  "NodeOpUpgradeStatus_DeepCopy L = DeepCopy (NodeOpUpgradeStatus_DeepCopyInto L)"

lemma NodeOpUpgradeStatus_ok [copier_rules]: "documented L \<Longrightarrow> deep_copier (TStruct (NodeOpUpgradeStatus_fields L)) (NodeOpUpgradeStatus_DeepCopyInto L)"
  unfolding NodeOpUpgradeStatus_DeepCopyInto_def by (rule deepCopyInto_ok) (simp add: covers_def NodeOpUpgradeStatus_fields_def copier_rules)

definition NodeOpUpgrade_fields :: "go_library \<Rightarrow> (string \<times> gotype) list" where
  "NodeOpUpgrade_fields L =
    [(''TypeMeta'', typeOf L ''metav1.TypeMeta''), (''ObjectMeta'', typeOf L ''metav1.ObjectMeta''),
     (''Spec'', TStruct (NodeOpUpgradeSpec_fields L)), (''Status'', TStruct (NodeOpUpgradeStatus_fields L))]"

definition NodeOpUpgrade_DeepCopyInto :: "go_library \<Rightarrow> copier" where
  "NodeOpUpgrade_DeepCopyInto L = deepCopyInto
    [(''TypeMeta'', assign), (''ObjectMeta'', copierOf L ''metav1.ObjectMeta''),
     (''Spec'', NodeOpUpgradeSpec_DeepCopyInto L), (''Status'', NodeOpUpgradeStatus_DeepCopyInto L)]"

definition NodeOpUpgrade_DeepCopy :: "go_library \<Rightarrow> copier" where
  "NodeOpUpgrade_DeepCopy L = DeepCopy (NodeOpUpgrade_DeepCopyInto L)"

definition NodeOpUpgrade_DeepCopyObject :: "go_library \<Rightarrow> memory \<Rightarrow> val \<Rightarrow> memory \<times> object" where
  "NodeOpUpgrade_DeepCopyObject L = DeepCopyObject ''NodeOpUpgrade'' (NodeOpUpgrade_DeepCopyInto L)"

lemma NodeOpUpgrade_ok [copier_rules]: "documented L \<Longrightarrow> deep_copier (TStruct (NodeOpUpgrade_fields L)) (NodeOpUpgrade_DeepCopyInto L)"
  unfolding NodeOpUpgrade_DeepCopyInto_def by (rule deepCopyInto_ok) (simp add: covers_def NodeOpUpgrade_fields_def copier_rules)

definition NodeOpUpgradeList_fields :: "go_library \<Rightarrow> (string \<times> gotype) list" where
  "NodeOpUpgradeList_fields L =
    [(''TypeMeta'', typeOf L ''metav1.TypeMeta''), (''ListMeta'', typeOf L ''metav1.ListMeta''),
     (''Items'', TSlice (TStruct (NodeOpUpgrade_fields L)))]"

definition NodeOpUpgradeList_DeepCopyInto :: "go_library \<Rightarrow> copier" where
  "NodeOpUpgradeList_DeepCopyInto L = deepCopyInto
    [(''TypeMeta'', assign), (''ListMeta'', copierOf L ''metav1.ListMeta''),
     (''Items'', sliceEach (NodeOpUpgrade_DeepCopyInto L))]"

definition NodeOpUpgradeList_DeepCopy :: "go_library \<Rightarrow> copier" where
  "NodeOpUpgradeList_DeepCopy L = DeepCopy (NodeOpUpgradeList_DeepCopyInto L)"

definition NodeOpUpgradeList_DeepCopyObject :: "go_library \<Rightarrow> memory \<Rightarrow> val \<Rightarrow> memory \<times> object" where
  "NodeOpUpgradeList_DeepCopyObject L = DeepCopyObject ''NodeOpUpgradeList'' (NodeOpUpgradeList_DeepCopyInto L)"

lemma NodeOpUpgradeList_ok [copier_rules]: "documented L \<Longrightarrow> deep_copier (TStruct (NodeOpUpgradeList_fields L)) (NodeOpUpgradeList_DeepCopyInto L)"
  unfolding NodeOpUpgradeList_DeepCopyInto_def by (rule deepCopyInto_ok) (simp add: covers_def NodeOpUpgradeList_fields_def copier_rules)

text \<open>The types that contain nothing from outside src/ keep the contract as they are.\<close>

interpretation drainOptions: deep_copier "TStruct DrainOptions_fields" DrainOptions_DeepCopyInto
  by (rule DrainOptions_ok)

interpretation preflightSpec: deep_copier "TStruct PreflightSpec_fields" PreflightSpec_DeepCopyInto
  by (rule PreflightSpec_ok)

end
