(* ===== verification/DeepCopyOSArtifact.thy ===== *)
theory DeepCopyOSArtifact
  imports GoMemory
begin

text \<open>
  api/v1alpha2: the fields of OSArtifact and what it contains (osartifact_types.go) and the functions of
  zz_generated.deepcopy.go, as in \<open>DeepCopyNodeOp\<close>.
\<close>

definition BuildImage_fields :: "(string \<times> gotype) list" where
  "BuildImage_fields =
    [(''Registry'', TString), (''Repository'', TString), (''Tag'', TString)]"

definition BuildImage_DeepCopyInto :: "copier" where
  "BuildImage_DeepCopyInto = deepCopyInto []"

definition BuildImage_DeepCopy :: "copier" where
  "BuildImage_DeepCopy = DeepCopy BuildImage_DeepCopyInto"

lemma BuildImage_ok [copier_rules]: "deep_copier (TStruct BuildImage_fields) BuildImage_DeepCopyInto"
  unfolding BuildImage_DeepCopyInto_def by (rule deepCopyInto_ok) (simp add: covers_def BuildImage_fields_def copier_rules)

lemma BuildImage_flat [copier_rules]: "\<forall>ft \<in> set BuildImage_fields. flat (snd ft)"
  by (simp add: BuildImage_fields_def)

definition BuildOptions_fields :: "(string \<times> gotype) list" where
  "BuildOptions_fields =
    [(''Version'', TString), (''BaseImage'', TString), (''Model'', TString), (''TrustedBoot'', TBool),
     (''KubernetesDistro'', TString), (''KubernetesVersion'', TString), (''FIPS'', TBool),
     (''KairosInitImage'', TString)]"

definition BuildOptions_DeepCopyInto :: "copier" where
  "BuildOptions_DeepCopyInto = deepCopyInto []"

definition BuildOptions_DeepCopy :: "copier" where
  "BuildOptions_DeepCopy = DeepCopy BuildOptions_DeepCopyInto"

lemma BuildOptions_ok [copier_rules]: "deep_copier (TStruct BuildOptions_fields) BuildOptions_DeepCopyInto"
  unfolding BuildOptions_DeepCopyInto_def by (rule deepCopyInto_ok) (simp add: covers_def BuildOptions_fields_def copier_rules)

lemma BuildOptions_flat [copier_rules]: "\<forall>ft \<in> set BuildOptions_fields. flat (snd ft)"
  by (simp add: BuildOptions_fields_def)

definition SecretKeySelector_fields :: "(string \<times> gotype) list" where
  "SecretKeySelector_fields =
    [(''Name'', TString), (''Key'', TString)]"

definition SecretKeySelector_DeepCopyInto :: "copier" where
  "SecretKeySelector_DeepCopyInto = deepCopyInto []"

definition SecretKeySelector_DeepCopy :: "copier" where
  "SecretKeySelector_DeepCopy = DeepCopy SecretKeySelector_DeepCopyInto"

lemma SecretKeySelector_ok [copier_rules]: "deep_copier (TStruct SecretKeySelector_fields) SecretKeySelector_DeepCopyInto"
  unfolding SecretKeySelector_DeepCopyInto_def by (rule deepCopyInto_ok) (simp add: covers_def SecretKeySelector_fields_def copier_rules)

lemma SecretKeySelector_flat [copier_rules]: "\<forall>ft \<in> set SecretKeySelector_fields. flat (snd ft)"
  by (simp add: SecretKeySelector_fields_def)

definition OCISpec_fields :: "(string \<times> gotype) list" where
  "OCISpec_fields =
    [(''Ref'', TPtr (TStruct SecretKeySelector_fields)),
     (''TemplateValuesFrom'', TPtr (TStruct SecretKeySelector_fields)), (''TemplateValues'', TMap TString),
     (''BuildContextVolume'', TString)]"

definition OCISpec_DeepCopyInto :: "go_library \<Rightarrow> copier" where
  "OCISpec_DeepCopyInto L = deepCopyInto
    [(''Ref'', newCopy assign), (''TemplateValuesFrom'', newCopy assign),
     (''TemplateValues'', mapEach (rangeOrder L) assign)]"

definition OCISpec_DeepCopy :: "go_library \<Rightarrow> copier" where
  "OCISpec_DeepCopy L = DeepCopy (OCISpec_DeepCopyInto L)"

lemma OCISpec_ok [copier_rules]: "documented L \<Longrightarrow> deep_copier (TStruct OCISpec_fields) (OCISpec_DeepCopyInto L)"
  unfolding OCISpec_DeepCopyInto_def by (rule deepCopyInto_ok) (simp add: covers_def OCISpec_fields_def copier_rules)

definition ImageSpec_fields :: "go_library \<Rightarrow> (string \<times> gotype) list" where
  "ImageSpec_fields L =
    [(''Ref'', TString), (''BuildOptions'', TPtr (TStruct BuildOptions_fields)),
     (''OCISpec'', TPtr (TStruct OCISpec_fields)), (''BuildImage'', TPtr (TStruct BuildImage_fields)),
     (''Push'', TBool), (''ImageCredentialsSecretRef'', TPtr (TStruct SecretKeySelector_fields)),
     (''BuildEnv'', TSlice (typeOf L ''corev1.EnvVar'')), (''CACertificatesVolume'', TString),
     (''StorageVolume'', TString), (''PullInsecureRegistry'', TBool), (''PushInsecureRegistry'', TBool)]"

definition ImageSpec_DeepCopyInto :: "go_library \<Rightarrow> copier" where
  "ImageSpec_DeepCopyInto L = deepCopyInto
    [(''BuildOptions'', newCopy assign), (''OCISpec'', newCopy (OCISpec_DeepCopyInto L)),
     (''BuildImage'', newCopy assign), (''ImageCredentialsSecretRef'', newCopy assign),
     (''BuildEnv'', sliceEach (copierOf L ''corev1.EnvVar''))]"

definition ImageSpec_DeepCopy :: "go_library \<Rightarrow> copier" where
  "ImageSpec_DeepCopy L = DeepCopy (ImageSpec_DeepCopyInto L)"

lemma ImageSpec_ok [copier_rules]: "documented L \<Longrightarrow> deep_copier (TStruct (ImageSpec_fields L)) (ImageSpec_DeepCopyInto L)"
  unfolding ImageSpec_DeepCopyInto_def by (rule deepCopyInto_ok) (simp add: covers_def ImageSpec_fields_def copier_rules)

definition UKISpec_fields :: "(string \<times> gotype) list" where
  "UKISpec_fields =
    [(''ISO'', TBool), (''Container'', TBool), (''EFI'', TBool), (''KeysVolume'', TString)]"

definition UKISpec_DeepCopyInto :: "copier" where
  "UKISpec_DeepCopyInto = deepCopyInto []"

definition UKISpec_DeepCopy :: "copier" where
  "UKISpec_DeepCopy = DeepCopy UKISpec_DeepCopyInto"

lemma UKISpec_ok [copier_rules]: "deep_copier (TStruct UKISpec_fields) UKISpec_DeepCopyInto"
  unfolding UKISpec_DeepCopyInto_def by (rule deepCopyInto_ok) (simp add: covers_def UKISpec_fields_def copier_rules)

lemma UKISpec_flat [copier_rules]: "\<forall>ft \<in> set UKISpec_fields. flat (snd ft)"
  by (simp add: UKISpec_fields_def)

definition ArtifactSpec_fields :: "(string \<times> gotype) list" where
  "ArtifactSpec_fields =
    [(''Arch'', TString), (''ISO'', TBool), (''DiskSize'', TString), (''CloudImage'', TBool),
     (''AzureImage'', TBool), (''GCEImage'', TBool), (''Netboot'', TBool), (''NetbootURL'', TString),
     (''CloudConfigRef'', TPtr (TStruct SecretKeySelector_fields)), (''GRUBConfig'', TString),
     (''Bundles'', TSlice TString), (''OSRelease'', TString), (''KairosRelease'', TString),
     (''OverlayISOVolume'', TString), (''OverlayRootfsVolume'', TString),
     (''UKI'', TPtr (TStruct UKISpec_fields)), (''Volume'', TString), (''RootfsVolume'', TString)]"

definition ArtifactSpec_DeepCopyInto :: "copier" where
  "ArtifactSpec_DeepCopyInto = deepCopyInto
    [(''CloudConfigRef'', newCopy assign), (''Bundles'', sliceCopy), (''UKI'', newCopy assign)]"

definition ArtifactSpec_DeepCopy :: "copier" where
  "ArtifactSpec_DeepCopy = DeepCopy ArtifactSpec_DeepCopyInto"

lemma ArtifactSpec_ok [copier_rules]: "deep_copier (TStruct ArtifactSpec_fields) ArtifactSpec_DeepCopyInto"
  unfolding ArtifactSpec_DeepCopyInto_def by (rule deepCopyInto_ok) (simp add: covers_def ArtifactSpec_fields_def copier_rules)

definition ResourcesSpec_fields :: "go_library \<Rightarrow> (string \<times> gotype) list" where
  "ResourcesSpec_fields L =
    [(''ISO'', TPtr (typeOf L ''corev1.ResourceRequirements'')),
     (''CloudImage'', TPtr (typeOf L ''corev1.ResourceRequirements'')),
     (''AzureImage'', TPtr (typeOf L ''corev1.ResourceRequirements'')),
     (''GCEImage'', TPtr (typeOf L ''corev1.ResourceRequirements'')),
     (''Netboot'', TPtr (typeOf L ''corev1.ResourceRequirements'')),
     (''UKI'', TPtr (typeOf L ''corev1.ResourceRequirements'')),
     (''Buildah'', TPtr (typeOf L ''corev1.ResourceRequirements'')),
     (''ImageExtractor'', TPtr (typeOf L ''corev1.ResourceRequirements'')),
     (''Pod'', TPtr (typeOf L ''corev1.ResourceRequirements''))]"

definition ResourcesSpec_DeepCopyInto :: "go_library \<Rightarrow> copier" where
  "ResourcesSpec_DeepCopyInto L = deepCopyInto
    [(''ISO'', newCopy (copierOf L ''corev1.ResourceRequirements'')),
     (''CloudImage'', newCopy (copierOf L ''corev1.ResourceRequirements'')),
     (''AzureImage'', newCopy (copierOf L ''corev1.ResourceRequirements'')),
     (''GCEImage'', newCopy (copierOf L ''corev1.ResourceRequirements'')),
     (''Netboot'', newCopy (copierOf L ''corev1.ResourceRequirements'')),
     (''UKI'', newCopy (copierOf L ''corev1.ResourceRequirements'')),
     (''Buildah'', newCopy (copierOf L ''corev1.ResourceRequirements'')),
     (''ImageExtractor'', newCopy (copierOf L ''corev1.ResourceRequirements'')),
     (''Pod'', newCopy (copierOf L ''corev1.ResourceRequirements''))]"

definition ResourcesSpec_DeepCopy :: "go_library \<Rightarrow> copier" where
  "ResourcesSpec_DeepCopy L = DeepCopy (ResourcesSpec_DeepCopyInto L)"

lemma ResourcesSpec_ok [copier_rules]: "documented L \<Longrightarrow> deep_copier (TStruct (ResourcesSpec_fields L)) (ResourcesSpec_DeepCopyInto L)"
  unfolding ResourcesSpec_DeepCopyInto_def by (rule deepCopyInto_ok) (simp add: covers_def ResourcesSpec_fields_def copier_rules)

definition NameOverrideSpec_fields :: "(string \<times> gotype) list" where
  "NameOverrideSpec_fields =
    [(''ISO'', TString), (''CloudImage'', TString), (''AzureImage'', TString), (''GCEImage'', TString),
     (''Netboot'', TString), (''UKI'', TString)]"

definition NameOverrideSpec_DeepCopyInto :: "copier" where
  "NameOverrideSpec_DeepCopyInto = deepCopyInto []"

definition NameOverrideSpec_DeepCopy :: "copier" where
  "NameOverrideSpec_DeepCopy = DeepCopy NameOverrideSpec_DeepCopyInto"

lemma NameOverrideSpec_ok [copier_rules]: "deep_copier (TStruct NameOverrideSpec_fields) NameOverrideSpec_DeepCopyInto"
  unfolding NameOverrideSpec_DeepCopyInto_def by (rule deepCopyInto_ok) (simp add: covers_def NameOverrideSpec_fields_def copier_rules)

lemma NameOverrideSpec_flat [copier_rules]: "\<forall>ft \<in> set NameOverrideSpec_fields. flat (snd ft)"
  by (simp add: NameOverrideSpec_fields_def)

definition OSArtifactSpec_fields :: "go_library \<Rightarrow> (string \<times> gotype) list" where
  "OSArtifactSpec_fields L =
    [(''Image'', TStruct (ImageSpec_fields L)), (''Artifacts'', TPtr (TStruct ArtifactSpec_fields)),
     (''ImagePullSecrets'', TSlice (typeOf L ''corev1.LocalObjectReference'')),
     (''Exporters'', TSlice (typeOf L ''batchv1.JobSpec'')),
     (''Volume'', TPtr (typeOf L ''corev1.PersistentVolumeClaimSpec'')), (''NodeSelector'', TMap TString),
     (''Tolerations'', TSlice (typeOf L ''corev1.Toleration'')),
     (''Affinity'', TPtr (typeOf L ''corev1.Affinity'')), (''PodLabels'', TMap TString),
     (''PodAnnotations'', TMap TString), (''Resources'', TStruct (ResourcesSpec_fields L)),
     (''ActiveDeadlineSeconds'', TPtr (TInt 64)), (''Volumes'', TSlice (typeOf L ''corev1.Volume'')),
     (''Importers'', TSlice (typeOf L ''corev1.Container'')),
     (''NameOverride'', TStruct NameOverrideSpec_fields)]"

definition OSArtifactSpec_DeepCopyInto :: "go_library \<Rightarrow> copier" where
  "OSArtifactSpec_DeepCopyInto L = deepCopyInto
    [(''Image'', ImageSpec_DeepCopyInto L), (''Artifacts'', newCopy ArtifactSpec_DeepCopyInto),
     (''ImagePullSecrets'', sliceCopy), (''Exporters'', sliceEach (copierOf L ''batchv1.JobSpec'')),
     (''Volume'', newCopy (copierOf L ''corev1.PersistentVolumeClaimSpec'')),
     (''NodeSelector'', mapEach (rangeOrder L) assign),
     (''Tolerations'', sliceEach (copierOf L ''corev1.Toleration'')),
     (''Affinity'', newCopy (copierOf L ''corev1.Affinity'')),
     (''PodLabels'', mapEach (rangeOrder L) assign), (''PodAnnotations'', mapEach (rangeOrder L) assign),
     (''Resources'', ResourcesSpec_DeepCopyInto L), (''ActiveDeadlineSeconds'', newCopy assign),
     (''Volumes'', sliceEach (copierOf L ''corev1.Volume'')),
     (''Importers'', sliceEach (copierOf L ''corev1.Container'')), (''NameOverride'', assign)]"

definition OSArtifactSpec_DeepCopy :: "go_library \<Rightarrow> copier" where
  "OSArtifactSpec_DeepCopy L = DeepCopy (OSArtifactSpec_DeepCopyInto L)"

lemma OSArtifactSpec_ok [copier_rules]: "documented L \<Longrightarrow> deep_copier (TStruct (OSArtifactSpec_fields L)) (OSArtifactSpec_DeepCopyInto L)"
  unfolding OSArtifactSpec_DeepCopyInto_def by (rule deepCopyInto_ok) (simp add: covers_def OSArtifactSpec_fields_def copier_rules)

definition OSArtifactStatus_fields :: "(string \<times> gotype) list" where
  "OSArtifactStatus_fields =
    [(''Phase'', TString), (''Message'', TString)]"

definition OSArtifactStatus_DeepCopyInto :: "copier" where
  "OSArtifactStatus_DeepCopyInto = deepCopyInto []"

definition OSArtifactStatus_DeepCopy :: "copier" where
  "OSArtifactStatus_DeepCopy = DeepCopy OSArtifactStatus_DeepCopyInto"

lemma OSArtifactStatus_ok [copier_rules]: "deep_copier (TStruct OSArtifactStatus_fields) OSArtifactStatus_DeepCopyInto"
  unfolding OSArtifactStatus_DeepCopyInto_def by (rule deepCopyInto_ok) (simp add: covers_def OSArtifactStatus_fields_def copier_rules)

lemma OSArtifactStatus_flat [copier_rules]: "\<forall>ft \<in> set OSArtifactStatus_fields. flat (snd ft)"
  by (simp add: OSArtifactStatus_fields_def)

definition OSArtifact_fields :: "go_library \<Rightarrow> (string \<times> gotype) list" where
  "OSArtifact_fields L =
    [(''TypeMeta'', typeOf L ''metav1.TypeMeta''), (''ObjectMeta'', typeOf L ''metav1.ObjectMeta''),
     (''Spec'', TStruct (OSArtifactSpec_fields L)), (''Status'', TStruct OSArtifactStatus_fields)]"

definition OSArtifact_DeepCopyInto :: "go_library \<Rightarrow> copier" where
  "OSArtifact_DeepCopyInto L = deepCopyInto
    [(''TypeMeta'', assign), (''ObjectMeta'', copierOf L ''metav1.ObjectMeta''),
     (''Spec'', OSArtifactSpec_DeepCopyInto L), (''Status'', assign)]"

definition OSArtifact_DeepCopy :: "go_library \<Rightarrow> copier" where
  "OSArtifact_DeepCopy L = DeepCopy (OSArtifact_DeepCopyInto L)"

definition OSArtifact_DeepCopyObject :: "go_library \<Rightarrow> memory \<Rightarrow> val \<Rightarrow> memory \<times> object" where
  "OSArtifact_DeepCopyObject L = DeepCopyObject ''OSArtifact'' (OSArtifact_DeepCopyInto L)"

lemma OSArtifact_ok [copier_rules]: "documented L \<Longrightarrow> deep_copier (TStruct (OSArtifact_fields L)) (OSArtifact_DeepCopyInto L)"
  unfolding OSArtifact_DeepCopyInto_def by (rule deepCopyInto_ok) (simp add: covers_def OSArtifact_fields_def copier_rules)

definition OSArtifactList_fields :: "go_library \<Rightarrow> (string \<times> gotype) list" where
  "OSArtifactList_fields L =
    [(''TypeMeta'', typeOf L ''metav1.TypeMeta''), (''ListMeta'', typeOf L ''metav1.ListMeta''),
     (''Items'', TSlice (TStruct (OSArtifact_fields L)))]"

definition OSArtifactList_DeepCopyInto :: "go_library \<Rightarrow> copier" where
  "OSArtifactList_DeepCopyInto L = deepCopyInto
    [(''TypeMeta'', assign), (''ListMeta'', copierOf L ''metav1.ListMeta''),
     (''Items'', sliceEach (OSArtifact_DeepCopyInto L))]"

definition OSArtifactList_DeepCopy :: "go_library \<Rightarrow> copier" where
  "OSArtifactList_DeepCopy L = DeepCopy (OSArtifactList_DeepCopyInto L)"

definition OSArtifactList_DeepCopyObject :: "go_library \<Rightarrow> memory \<Rightarrow> val \<Rightarrow> memory \<times> object" where
  "OSArtifactList_DeepCopyObject L = DeepCopyObject ''OSArtifactList'' (OSArtifactList_DeepCopyInto L)"

lemma OSArtifactList_ok [copier_rules]: "documented L \<Longrightarrow> deep_copier (TStruct (OSArtifactList_fields L)) (OSArtifactList_DeepCopyInto L)"
  unfolding OSArtifactList_DeepCopyInto_def by (rule deepCopyInto_ok) (simp add: covers_def OSArtifactList_fields_def copier_rules)

interpretation artifactSpec: deep_copier "TStruct ArtifactSpec_fields" ArtifactSpec_DeepCopyInto
  by (rule ArtifactSpec_ok)

end
