(* ===== verification/DeepCopy.thy ===== *)
theory DeepCopy
  imports DeepCopyNodeOp DeepCopyOSArtifact
begin

text \<open>
  Both API packages together: every type with its \<open>DeepCopy\<close>, the objects with their \<open>DeepCopyObject\<close>, and
  what they promise. controller-runtime's cache hands its readers such copies, and its writers keep
  them: that the handlers of the other theories can take objects as values rests on it.
\<close>

definition apiTypes :: "go_library \<Rightarrow> (string \<times> gotype \<times> copier) list" where
  "apiTypes L =
    [(''DrainOptions'', TStruct DrainOptions_fields, DrainOptions_DeepCopy),
     (''PreflightSpec'', TStruct PreflightSpec_fields, PreflightSpec_DeepCopy),
     (''NodeOpSpec'', TStruct (NodeOpSpec_fields L), NodeOpSpec_DeepCopy L),
     (''NodeStatus'', TStruct (NodeStatus_fields L), NodeStatus_DeepCopy L),
     (''NodeOpStatus'', TStruct (NodeOpStatus_fields L), NodeOpStatus_DeepCopy L),
     (''NodeOp'', TStruct (NodeOp_fields L), NodeOp_DeepCopy L),
     (''NodeOpList'', TStruct (NodeOpList_fields L), NodeOpList_DeepCopy L),
     (''NodeOpUpgradeSpec'', TStruct (NodeOpUpgradeSpec_fields L), NodeOpUpgradeSpec_DeepCopy L),
     (''NodeOpUpgradeStatus'', TStruct (NodeOpUpgradeStatus_fields L), NodeOpUpgradeStatus_DeepCopy L),
     (''NodeOpUpgrade'', TStruct (NodeOpUpgrade_fields L), NodeOpUpgrade_DeepCopy L),
     (''NodeOpUpgradeList'', TStruct (NodeOpUpgradeList_fields L), NodeOpUpgradeList_DeepCopy L),
     (''BuildImage'', TStruct BuildImage_fields, BuildImage_DeepCopy),
     (''BuildOptions'', TStruct BuildOptions_fields, BuildOptions_DeepCopy),
     (''SecretKeySelector'', TStruct SecretKeySelector_fields, SecretKeySelector_DeepCopy),
     (''OCISpec'', TStruct OCISpec_fields, OCISpec_DeepCopy L),
     (''ImageSpec'', TStruct (ImageSpec_fields L), ImageSpec_DeepCopy L),
     (''UKISpec'', TStruct UKISpec_fields, UKISpec_DeepCopy),
     (''ArtifactSpec'', TStruct ArtifactSpec_fields, ArtifactSpec_DeepCopy),
     (''ResourcesSpec'', TStruct (ResourcesSpec_fields L), ResourcesSpec_DeepCopy L),
     (''NameOverrideSpec'', TStruct NameOverrideSpec_fields, NameOverrideSpec_DeepCopy),
     (''OSArtifactSpec'', TStruct (OSArtifactSpec_fields L), OSArtifactSpec_DeepCopy L),
     (''OSArtifactStatus'', TStruct OSArtifactStatus_fields, OSArtifactStatus_DeepCopy),
     (''OSArtifact'', TStruct (OSArtifact_fields L), OSArtifact_DeepCopy L),
     (''OSArtifactList'', TStruct (OSArtifactList_fields L), OSArtifactList_DeepCopy L)]"

definition apiObjects :: "go_library \<Rightarrow> (string \<times> gotype \<times> (memory \<Rightarrow> val \<Rightarrow> memory \<times> object)) list" where
  "apiObjects L =
    [(''NodeOp'', TStruct (NodeOp_fields L), NodeOp_DeepCopyObject L),
     (''NodeOpList'', TStruct (NodeOpList_fields L), NodeOpList_DeepCopyObject L),
     (''NodeOpUpgrade'', TStruct (NodeOpUpgrade_fields L), NodeOpUpgrade_DeepCopyObject L),
     (''NodeOpUpgradeList'', TStruct (NodeOpUpgradeList_fields L), NodeOpUpgradeList_DeepCopyObject L),
     (''OSArtifact'', TStruct (OSArtifact_fields L), OSArtifact_DeepCopyObject L),
     (''OSArtifactList'', TStruct (OSArtifactList_fields L), OSArtifactList_DeepCopyObject L)]"

lemmas deepCopy_defs = DrainOptions_DeepCopy_def PreflightSpec_DeepCopy_def NodeOpSpec_DeepCopy_def NodeStatus_DeepCopy_def
  NodeOpStatus_DeepCopy_def NodeOp_DeepCopy_def NodeOpList_DeepCopy_def NodeOpUpgradeSpec_DeepCopy_def
  NodeOpUpgradeStatus_DeepCopy_def NodeOpUpgrade_DeepCopy_def NodeOpUpgradeList_DeepCopy_def
  BuildImage_DeepCopy_def BuildOptions_DeepCopy_def SecretKeySelector_DeepCopy_def OCISpec_DeepCopy_def
  ImageSpec_DeepCopy_def UKISpec_DeepCopy_def ArtifactSpec_DeepCopy_def ResourcesSpec_DeepCopy_def
  NameOverrideSpec_DeepCopy_def OSArtifactSpec_DeepCopy_def OSArtifactStatus_DeepCopy_def OSArtifact_DeepCopy_def
  OSArtifactList_DeepCopy_def

lemmas deepCopyObject_defs = NodeOp_DeepCopyObject_def NodeOpList_DeepCopyObject_def NodeOpUpgrade_DeepCopyObject_def
  NodeOpUpgradeList_DeepCopyObject_def OSArtifact_DeepCopyObject_def OSArtifactList_DeepCopyObject_def

lemma apiTypes_ok: "documented L \<Longrightarrow> (n, t, c) \<in> set (apiTypes L) \<Longrightarrow> deep_copier (TPtr t) c"
  by (auto simp: apiTypes_def deepCopy_defs copier_rules)

lemma apiObjects_ok:
  "documented L \<Longrightarrow> (kind, t, f) \<in> set (apiObjects L) \<Longrightarrow> \<exists>c. f = DeepCopyObject kind c \<and> deep_copier t c"
  by (auto simp: apiObjects_def deepCopyObject_defs copier_rules)

text \<open>
  C25. DeepCopy of any of the API types makes a copy that reads the same and is of the same type, writes
  no cell that was there before, and shares no cell with the original. So whatever is later written
  to the cells of one of the two does not show through the other, and a nil pointer is copied to nil.
\<close>

theorem deep_copies_stay_apart:
  assumes "documented L" and "(n, t, c) \<in> set (apiTypes L)" and "typed h (TPtr t) p" and "c h p = (h', q)"
  shows "apart h (TPtr t) p h' q \<and> (q = VPtr None \<longleftrightarrow> p = VPtr None)"
proof -
  have "apart h (TPtr t) p h' q"
    using apiTypes_ok [OF assms(1,2)] assms(3,4) by (rule deep_copier.copies_apart)
  moreover from this have "q = VPtr None \<longleftrightarrow> p = VPtr None"
    using assms(3) by (auto simp: apart_def split: val.splits option.splits)
  ultimately show ?thesis ..
qed

text \<open>
  A library to run the functions with: ranges go backwards, ObjectMeta has a name and labels, and the
  other types are pointers to strings.
\<close>

definition sampleLibrary :: go_library where
  "sampleLibrary = \<lparr>rangeOrder = (\<lambda>h m. rev m),
     typeOf = (\<lambda>n. if n = ''metav1.TypeMeta'' then TStruct [(''Kind'', TString), (''APIVersion'', TString)]
       else if n = ''corev1.LocalObjectReference'' then TStruct [(''Name'', TString)]
       else if n = ''metav1.ObjectMeta'' then TStruct [(''Name'', TString), (''Labels'', TMap TString)]
       else TPtr TString),
     copierOf = (\<lambda>n. if n = ''metav1.TypeMeta'' \<or> n = ''corev1.LocalObjectReference'' then assign
       else if n = ''metav1.ObjectMeta'' then deepCopyInto [(''Labels'', mapEach (\<lambda>h m. rev m) assign)]
       else newCopy assign)\<rparr>"

lemma sampleLibrary_documented: "documented sampleLibrary"
  by (simp add: documented_def sampleLibrary_def copier_rules)
    (intro allI impI deepCopyInto_ok, simp add: covers_def copier_rules)

text \<open>The status of a NodeOp with two nodes, whose time stamps share a cell.\<close>

definition sampleStatus :: memory where
  "sampleStatus =
    [Variable (VString ''12:00''),
     Table [(''n1'', VStruct [(''Phase'', VString ''Running''), (''JobName'', VString ''j1''), (''Message'', VString []),
        (''RebootStatus'', VString []), (''PreRebootBootID'', VString []), (''LastUpdated'', VPtr (Some 0))]),
      (''n2'', VStruct [(''Phase'', VString ''Pending''), (''JobName'', VString []), (''Message'', VString []),
        (''RebootStatus'', VString []), (''PreRebootBootID'', VString []), (''LastUpdated'', VPtr (Some 0))])],
     Variable (VStruct [(''Phase'', VString ''Running''), (''NodeStatuses'', VMap (Some 1)), (''LastUpdated'', VPtr (Some 0))])]"

theorem deep_copies_stay_apart_witness:
  "apart sampleStatus (TPtr (TStruct (NodeOpStatus_fields sampleLibrary))) (VPtr (Some 2))
     (fst (NodeOpStatus_DeepCopy sampleLibrary sampleStatus (VPtr (Some 2))))
     (snd (NodeOpStatus_DeepCopy sampleLibrary sampleStatus (VPtr (Some 2)))) \<and>
   snd (NodeOpStatus_DeepCopy sampleLibrary sampleStatus (VPtr (Some 2))) = VPtr (Some 3) \<and>
   length (fst (NodeOpStatus_DeepCopy sampleLibrary sampleStatus (VPtr (Some 2)))) = 10"
proof -
  have "(''NodeOpStatus'', TStruct (NodeOpStatus_fields sampleLibrary), NodeOpStatus_DeepCopy sampleLibrary)
      \<in> set (apiTypes sampleLibrary)"
    by (simp add: apiTypes_def)
  moreover have "typed sampleStatus (TPtr (TStruct (NodeOpStatus_fields sampleLibrary))) (VPtr (Some 2))"
    by code_simp
  moreover have "snd (NodeOpStatus_DeepCopy sampleLibrary sampleStatus (VPtr (Some 2))) = VPtr (Some 3)"
    "length (fst (NodeOpStatus_DeepCopy sampleLibrary sampleStatus (VPtr (Some 2)))) = 10"
    by code_simp+
  ultimately show ?thesis
    using deep_copies_stay_apart [OF sampleLibrary_documented, of "''NodeOpStatus''"] prod.collapse by metis
qed

end
