(* ===== verification/Scheme.thy ===== *)
theory Scheme
  imports Manager DeepCopy
begin

text \<open>
  The scheme of the manager: the Go types its client and its cache can read and write, and the kinds
  they have in the API (groupversion_info.go of both API packages, \<open>init\<close> of cmd/main.go). What
  k8s.io/client-go and k8s.io/api register is theirs; of it the model has that it was registered.
\<close>

type_synonym group_version = "string \<times> string"

definition GroupVersionV1alpha1 :: group_version where
  "GroupVersionV1alpha1 = (''operator.kairos.io'', ''v1alpha1'')"

definition GroupVersionV1alpha2 :: group_version where
  "GroupVersionV1alpha2 = (''build.kairos.io'', ''v1alpha2'')"

text \<open>\<open>scheme.AddKnownTypes\<close> registers each type under its Go name.\<close>

datatype registration =
    ClientGoTypes
  | BatchTypes
  | KnownTypes group_version "string list"
  | MetaTypes group_version

definition addKnownTypesV1alpha1 :: "registration list" where
  "addKnownTypesV1alpha1 =
     [KnownTypes GroupVersionV1alpha1 [''NodeOp'', ''NodeOpList'', ''NodeOpUpgrade'', ''NodeOpUpgradeList''],
      MetaTypes GroupVersionV1alpha1]"

definition addKnownTypesV1alpha2 :: "registration list" where
  "addKnownTypesV1alpha2 =
     [KnownTypes GroupVersionV1alpha2 [''OSArtifact'', ''OSArtifactList''],
      MetaTypes GroupVersionV1alpha2]"

text \<open>
  \<open>init\<close>, given whether the two AddToScheme of the libraries succeed: \<open>utilruntime.Must\<close> panics when one
  does not. Those of the API packages return nil.
\<close>

definition initScheme :: "bool \<Rightarrow> bool \<Rightarrow> registration list option" where
  "initScheme clientgo batch =
     (if \<not> clientgo then None
      else if \<not> batch then None
      else Some ([ClientGoTypes, BatchTypes] @ addKnownTypesV1alpha1 @ addKnownTypesV1alpha2))"

definition registeredKind :: "registration list \<Rightarrow> group_version \<Rightarrow> string \<Rightarrow> bool" where
  "registeredKind regs gv kind \<longleftrightarrow> (\<exists>r \<in> set regs. case r of KnownTypes gv' ks \<Rightarrow> gv' = gv \<and> kind \<in> set ks | _ \<Rightarrow> False)"

text \<open>The objects of the API packages that a controller is \<open>For\<close>.\<close>

fun ownKind :: "primary \<Rightarrow> (group_version \<times> string) option" where
  "ownKind ForNodeOp = Some (GroupVersionV1alpha1, ''NodeOp'')"
| "ownKind ForNodeOpUpgrade = Some (GroupVersionV1alpha1, ''NodeOpUpgrade'')"
| "ownKind ForOSArtifact = Some (GroupVersionV1alpha2, ''OSArtifact'')"
| "ownKind _ = None"

lemma registered_kinds:
  assumes "initScheme clientgo batch = Some regs"
  shows "registeredKind regs gv kind \<longleftrightarrow>
     gv = GroupVersionV1alpha1 \<and> kind \<in> {''NodeOp'', ''NodeOpList'', ''NodeOpUpgrade'', ''NodeOpUpgradeList''} \<or>
     gv = GroupVersionV1alpha2 \<and> kind \<in> {''OSArtifact'', ''OSArtifactList''}"
proof -
  have "regs = [ClientGoTypes, BatchTypes] @ addKnownTypesV1alpha1 @ addKnownTypesV1alpha2"
    using assms by (simp add: initScheme_def split: if_splits)
  then show ?thesis
    unfolding registeredKind_def addKnownTypesV1alpha1_def addKnownTypesV1alpha2_def
    by (simp add: eq_commute [of _ gv])
qed

lemma objects_of_kinds:
  "kind \<in> {''NodeOp'', ''NodeOpList'', ''NodeOpUpgrade'', ''NodeOpUpgradeList'', ''OSArtifact'', ''OSArtifactList''}
     \<Longrightarrow> \<exists>t f. (kind, t, f) \<in> set (apiObjects L)"
  by (elim insertE emptyE) (simp_all add: apiObjects_def)

text \<open>A copied object is nil exactly when there was nothing to copy, and never an Object that holds nil.\<close>

lemma DeepCopyObject_apart:
  assumes "deep_copier t c" and "typed h (TPtr t) p" and "DeepCopyObject kind c h p = (h', obj)"
  shows "if p = VPtr None then obj = NilObject \<and> h' = h
    else \<exists>q. obj = Object kind q \<and> q \<noteq> VPtr None \<and> apart h (TPtr t) p h' q"
proof -
  obtain q where q: "DeepCopy c h p = (h', q)" and obj: "obj = (if q \<noteq> VPtr None then Object kind q else NilObject)"
    using assms(3) by (auto simp: DeepCopyObject_def split: prod.splits)
  have a: "apart h (TPtr t) p h' q" by (rule deep_copier.copies_apart [OF deep_copier.DeepCopy_ok [OF assms(1)] assms(2) q])
  show ?thesis
  proof (cases "p = VPtr None")
    case True
    with q obj show ?thesis by (simp add: DeepCopy_def)
  next
    case False
    with a assms(2) have "q \<noteq> VPtr None" by (auto simp: apart_def split: val.splits option.splits)
    with False a obj show ?thesis by simp
  qed
qed

text \<open>
  Every kind the manager registers has a DeepCopyObject, and it returns a nil Object exactly for a nil
  pointer and otherwise an Object of that type that is a copy apart from the original. The objects
  that the NodeOp, NodeOpUpgrade and OSArtifact controllers reconcile are registered, with their lists.
\<close>

theorem registered_objects:
  assumes "documented L" and "initScheme clientgo batch = Some regs"
  shows "(\<forall>gv kind. registeredKind regs gv kind \<longrightarrow> (\<exists>t f. (kind, t, f) \<in> set (apiObjects L))) \<and>
    (\<forall>kind t f h p h' obj. (kind, t, f) \<in> set (apiObjects L) \<longrightarrow> typed h (TPtr t) p \<longrightarrow> f h p = (h', obj) \<longrightarrow>
       (if p = VPtr None then obj = NilObject \<and> h' = h
        else \<exists>q. obj = Object kind q \<and> q \<noteq> VPtr None \<and> apart h (TPtr t) p h' q)) \<and>
    (\<forall>c \<in> {nodeOpController r, nodeOpUpgradeController, osArtifactController tool buildah}. \<exists>gv kind.
       ownKind (ctlFor c) = Some (gv, kind) \<and> registeredKind regs gv kind \<and> registeredKind regs gv (kind @ ''List''))"
proof (intro conjI allI impI)
  fix gv kind
  assume "registeredKind regs gv kind"
  then have "kind \<in> {''NodeOp'', ''NodeOpList'', ''NodeOpUpgrade'', ''NodeOpUpgradeList'', ''OSArtifact'', ''OSArtifactList''}"
    unfolding registered_kinds [OF assms(2)]
    by (elim disjE conjE insertE emptyE) (simp_all only: insert_iff simp_thms)
  then show "\<exists>t f. (kind, t, f) \<in> set (apiObjects L)" by (rule objects_of_kinds)
next
  fix kind t f h p h' obj
  assume f: "(kind, t, f) \<in> set (apiObjects L)" and p: "typed h (TPtr t) p" "f h p = (h', obj)"
  from apiObjects_ok [OF assms(1) f] obtain c where c: "f = DeepCopyObject kind c" "deep_copier t c" by blast
  from DeepCopyObject_apart [OF c(2) p(1) p(2) [unfolded c(1)]] show "if p = VPtr None then obj = NilObject \<and> h' = h
        else \<exists>q. obj = Object kind q \<and> q \<noteq> VPtr None \<and> apart h (TPtr t) p h' q" .
next
  have "\<exists>gv kind. ownKind p = Some (gv, kind) \<and> registeredKind regs gv kind \<and> registeredKind regs gv (kind @ ''List'')"
    if "p = ForNodeOp \<or> p = ForNodeOpUpgrade \<or> p = ForOSArtifact" for p
    using that
  proof (elim disjE)
    assume "p = ForNodeOp"
    then show ?thesis
      by (intro exI [of _ GroupVersionV1alpha1] exI [of _ "''NodeOp''"]) (simp add: registered_kinds [OF assms(2)])
  next
    assume "p = ForNodeOpUpgrade"
    then show ?thesis
      by (intro exI [of _ GroupVersionV1alpha1] exI [of _ "''NodeOpUpgrade''"]) (simp add: registered_kinds [OF assms(2)])
  next
    assume "p = ForOSArtifact"
    then show ?thesis
      by (intro exI [of _ GroupVersionV1alpha2] exI [of _ "''OSArtifact''"]) (simp add: registered_kinds [OF assms(2)])
  qed
  then have "\<exists>gv kind. ownKind (ctlFor c) = Some (gv, kind) \<and> registeredKind regs gv kind \<and> registeredKind regs gv (kind @ ''List'')"
    if "c = nodeOpController r \<or> c = nodeOpUpgradeController \<or> c = osArtifactController tool buildah" for c
    using that by (elim disjE) (simp_all only: nodeOpController_def nodeOpUpgradeController_def osArtifactController_def
        controller.select_convs simp_thms)
  then show "\<forall>c \<in> {nodeOpController r, nodeOpUpgradeController, osArtifactController tool buildah}. \<exists>gv kind.
       ownKind (ctlFor c) = Some (gv, kind) \<and> registeredKind regs gv kind \<and> registeredKind regs gv (kind @ ''List'')"
    by blast
qed

text \<open>A NodeOp with a label and a command.\<close>

definition sampleObject :: memory where
  "sampleObject =
    [Table [(''app'', VString ''x''), (''tier'', VString ''y'')], Array [VString ''sh'', VString ''-c''],
     Variable (VStruct
       [(''TypeMeta'', VStruct [(''Kind'', VString ''NodeOp''), (''APIVersion'', VString ''operator.kairos.io/v1alpha1'')]),
        (''ObjectMeta'', VStruct [(''Name'', VString ''op''), (''Labels'', VMap (Some 0))]),
        (''Spec'', VStruct
          [(''NodeSelector'', VPtr None), (''Command'', VSlice (Some (1, 2))), (''HostMountPath'', VString []),
           (''Image'', VString ''busybox''), (''ImagePullSecrets'', VSlice None), (''Cordon'', VPtr None),
           (''UncordonOnFailure'', VPtr None), (''DrainOptions'', VPtr None), (''RebootOnSuccess'', VPtr None),
           (''BackoffLimit'', VPtr None), (''Concurrency'', VInt 1), (''StopOnFailure'', VPtr None), (''Preflight'', VPtr None),
           (''Resources'', VPtr None), (''PreflightResources'', VPtr None), (''RebootResources'', VPtr None)]),
        (''Status'', VStruct [(''Phase'', VString []), (''NodeStatuses'', VMap None), (''LastUpdated'', VPtr None)])])]"

theorem registered_objects_witness:
  "\<exists>h' q. NodeOp_DeepCopyObject sampleLibrary sampleObject (VPtr (Some 2)) = (h', Object ''NodeOp'' q) \<and>
     apart sampleObject (TPtr (TStruct (NodeOp_fields sampleLibrary))) (VPtr (Some 2)) h' q"
proof -
  have regs: "initScheme True True = Some ([ClientGoTypes, BatchTypes] @ addKnownTypesV1alpha1 @ addKnownTypesV1alpha2)"
    by (simp add: initScheme_def)
  obtain h' obj where run: "NodeOp_DeepCopyObject sampleLibrary sampleObject (VPtr (Some 2)) = (h', obj)" by fastforce
  have "(''NodeOp'', TStruct (NodeOp_fields sampleLibrary), NodeOp_DeepCopyObject sampleLibrary) \<in> set (apiObjects sampleLibrary)"
    by (simp add: apiObjects_def)
  note copied = registered_objects [OF sampleLibrary_documented regs, THEN conjunct2, THEN conjunct1, rule_format, OF this]
  have "typed sampleObject (TPtr (TStruct (NodeOp_fields sampleLibrary))) (VPtr (Some 2))"
    by code_simp
  from copied [OF this run] run show ?thesis by auto
qed

end
