(* ===== verification/Spec2Isabelle.thy ===== *)
theory Spec2Isabelle
  imports OSArtifactTemplate OSArtifactHistory OSArtifactProgress NodeOpProgress RebootProtocol Scheme
begin

text \<open>
  The Kairos operator, a Kubernetes operator that runs commands and upgrades on cluster nodes
  and reboots them, labels nodes, and builds OS images. This development models its controllers
  (NodeOp, NodeOpUpgrade, the two of the node labeler, OSArtifact), the two programs they run in
  Pods (the reboot watcher and the node labeler) and the \<open>main\<close> that starts them all, against every
  possible behaviour of the API server.

  \<^bold>\<open>How effects are modelled.\<close> A handler of the code is a program of requests (\<open>Effects.prog\<close>): a
  tree that either returns or makes a request and continues with whatever answer comes. \<open>exec m tr
  r\<close> says that \<open>m\<close> can have the trace \<open>tr\<close> of requests and answers and return \<open>r\<close>; nothing is
  assumed of the answers, so a theorem over all executions holds for a lagging cache, a conflict,
  a lost answer and a cluster that others change in between. \<open>run\<close> executes the same tree against
  a given server and is what the witnesses compute with; \<open>exec_iff_scripted\<close> says the two agree.
  Errors are values (\<open>error + 'a\<close>), Go's early returns on an error are \<open>attempt\<close>, and an object the
  code changes in memory is passed on explicitly, also by the branches that fail. \<open>guarded G A tr\<close>
  is the ordering statement used throughout: every event of the trace that satisfies \<open>A\<close> comes
  after one that justifies it.

  \<^bold>\<open>The theories.\<close>
  \<^item> \<open>Prelude\<close>: errors and results, association lists as Go maps, the named theorem collections.
    \<open>Effects\<close>: request trees, executions, weakest preconditions, \<open>only\<close> (which requests a program
    can make) and \<open>guarded\<close>. \<open>Progress\<close>: what a program does for certain against a server that has a
    good answer to every request (locale \<open>reliable\<close>).
  \<^item> \<open>GoStrings\<close>: the standard library's string functions the code uses, on bytes. \<open>Names\<close>
    (internal/utils/name.go): TruncateNameWithHash, within the length limit and valid. \<open>BootId\<close>
    (internal/bootid): which boot ID an upgrade Job's Pods report.
  \<^item> \<open>KubeObjects\<close>: the fields of Pods, Jobs, Nodes and RBAC objects the code reads or writes.
    \<open>NodeOpTypes\<close> (api/v1alpha1, internal/controller/defaults.go): NodeOp and NodeOpUpgrade.
    \<open>NodeOpEnv\<close>: the requests of the two controllers. \<open>Cache\<close> and \<open>Live\<close> tell the cached client from
    the direct reader of \<open>apiReader()\<close>, which is the parameter \<open>rd\<close> of the handlers; the order in
    which Go ranges over a map is the answer to a request too.
  \<^item> \<open>NodeCordon\<close>, \<open>NodeJobs\<close>, \<open>NodeReboot\<close>, \<open>NodePreflight\<close>, \<open>NodeMainJob\<close>, \<open>NodeStatusSync\<close>,
    \<open>NodeSchedule\<close>, \<open>NodeOpCtl\<close> (internal/controller/nodeop_controller.go), in the order of the calls:
    cordon and drain; the upgrade Job; the reboot Pod, its permissions and the proof of a reboot;
    the preflight Pod; the gate in front of the upgrade Job; the status pass; the scheduler;
    Reconcile, deletion and watches, with the histories of a NodeOp. \<open>NodeOpProgress\<close>: that upgrades
    start and get done.
  \<^item> \<open>NodeOpUpgrade\<close> (nodeopupgrade_controller.go): the NodeOp of an upgrade, its shell scripts and
    the status that follows the NodeOp's. \<open>RebootWatcher\<close> (internal/rebootwatcher, cmd/main.go): the program of the
    reboot Pod. \<open>RebootProtocol\<close>: its runs on one node, restarted and interleaved with reboots.
  \<^item> \<open>Labeler\<close> (cmd/node-labeler): what the labeler derives from the host's release files and the patch
    it sends. \<open>NodeLabelerCtl\<close> (nodelabeler_controller.go, nodelabeler_daemonset_controller.go,
    startup.go): the Job per node, the DaemonSet, their permissions and the start-up tasks.
  \<^item> \<open>OSArtifactTypes\<close> (api/v1alpha2/osartifact_types.go): the spec of an OSArtifact and its validation.
    \<open>OSArtifactPod\<close> (job.go, default_ocispec.go, configmap.go): the builder Pod, every container, command
    and volume of it, and the build definition. \<open>OSArtifactBuild\<close>: what both promise together.
    \<open>OSArtifactCtl\<close> (osartifact_controller.go, template.go, the export half of job.go): the requests
    of the controller and its Reconcile. \<open>OSArtifactFlow\<close> and \<open>OSArtifactExport\<close>: what it guarantees in the
    build and the export phase; \<open>OSArtifactTemplate\<close>: what the rendered build definition holds;
    \<open>OSArtifactHistory\<close>: what the phase says about all earlier reconciles; \<open>OSArtifactProgress\<close>: that
    builds start.
  \<^item> \<open>Manager\<close> (cmd/main.go, the SetupWithManager functions): the choice between the two programs of
    the binary, the flags, the servers' TLS options, the registered controllers with their watches,
    and the order of the start-up.
  \<^item> \<open>GoMemory\<close>: an explicit memory of cells, the statements that copy values on it, and the contract of a
    deep copy (locale \<open>deep_copier\<close>). \<open>DeepCopyNodeOp\<close> and \<open>DeepCopyOSArtifact\<close> (zz_generated.deepcopy.go of
    api/v1alpha1 and api/v1alpha2): the field types of all API structs and their copy functions.
    \<open>DeepCopy\<close>: what all of them promise. \<open>Scheme\<close> (groupversion_info.go, \<open>init\<close> of cmd/main.go): the
    registered kinds.

  \<^bold>\<open>The argument.\<close> The gate of \<open>startMainJob\<close> is lifted through \<open>advancePreflight\<close>, both passes of
  \<open>manageJobCreation\<close> and \<open>Reconcile\<close> by the locales \<open>node_step\<close> and \<open>slot_keeping_step\<close>, whose
  contract for the step of one node is: it changes that node's status only, to a valid one, and
  creates a Job only behind its gate. With \<open>reachable\<close>, the NodeOps the API server can hold after
  any history of edits and reconciles, it says that no node is upgraded without a ready reboot
  Pod that names the Job. \<open>RebootWatcher\<close> shows that this Pod reboots the node only once the Job
  is Complete and reported the boot ID the node still has; \<open>RebootProtocol\<close> that for this reason all
  reboots asked for on behalf of one Job, by however many restarted watchers, are asked in one boot of
  the node, so that it does not reboot in a loop (there the assumptions are that boot IDs are not used
  twice, that a Job's report stays, and that no process survives a boot); and \<open>NodeReboot\<close> and \<open>NodeStatusSync\<close>
  that the controller calls the reboot completed, and lifts its cordon, only when the node is
  Ready with another boot ID than the reported one.

  For OSArtifacts, \<open>exec_osReconcile\<close> splits a reconcile into the prefix that reads the artifact, its
  namespace and its finalizer, and one of the two phases; \<open>exec_checkBuild\<close>, \<open>exec_startBuild\<close>,
  \<open>exec_checkExport\<close> and \<open>exec_exportEach\<close> say what the traces of the phases look like, and the
  properties read them: every change of the phase has its evidence in the listing of the same
  trace, a builder Pod comes after all it mounts, and only the artifact's own Secret is written.
  \<open>os_history\<close> lines the reconciles of an artifact up, between which anyone may edit it, and
  \<open>phase_tells_history\<close> reads what they saw off the phase. Progress is stated against servers that are
  interpretations of \<open>reliable\<close>: \<open>upgrade_starts\<close> (a ready reboot Pod gets its upgrade Job),
  \<open>upgrade_completes\<close> (upgraded and rebooted nodes are settled and uncordoned), \<open>builds_start\<close> and
  \<open>operator_starts\<close>.
  \<open>Validate_iff_rules\<close> compares the validation with the rules the comments of the API state, and
  \<open>builder_pod_mounts_resolve\<close> says when the mounts of a valid spec's builder Pod resolve: exactly when
  the two kinds of references do that nobody validates. The theorems about several completions, Pods of other
  namespaces, colliding names, the unused keys volume and the kairos-release file state where the
  code falls short of its documentation.

  \<open>Manager\<close> ties the parts together: the container of the reboot Pod runs the watcher on the Job the
  Pod was created for (\<open>reboot_pod_runs_watcher\<close>), the events of the Jobs, Pods and NodeOps the
  NodeOp, upgrade and OSArtifact controllers create wake their creator for the right owner (\<open>watches_wake_owner\<close>), and the manager starts only with
  all controllers and start-up tasks in place (\<open>manager_starts_complete\<close>).

  Everywhere else an API object is a value: two handlers never see each other's changes to it other
  than through the API server. That is so because the cache hands out deep copies.
  \<open>deep_copies_stay_apart\<close> justifies it for the types of both API packages: on a memory where pointers,
  slices and maps refer to cells, a copy reads like the original, and the two have no cell in
  common. The contract is kept by every statement the generator writes (\<open>newCopy_ok\<close>, \<open>sliceEach_ok\<close>,
  \<open>mapEach_ok\<close>, \<open>deepCopyInto_ok\<close>), so for a struct it is enough that every field that can hold a
  reference has a statement.

  \<^bold>\<open>Fuel.\<close> The loops that wait for the world need it, one unit per attempt: the polling loop of the
  reboot watcher's \<open>Run\<close>, the labeler's sync loop and the retries of a start-up task.
  \<open>watcher_fuel\<close> says that it is used up only by attempts that waited, and that more of it changes
  no result; \<open>daemonset_startup_retries\<close> says the like of the start-up task. Everything else is
  structural.

  \<^bold>\<open>Parameters.\<close> Label selectors are an argument (\<open>selector_library\<close>); \<open>rand.String\<close>, the clock and
  environment variables are requests. \<open>SetControllerReference\<close> and \<open>SetOwnerReference\<close> are applied to
  fresh objects only, where they add the one owner reference. The reconciler of OSArtifacts carries
  \<open>shellescape.QuoteCommand\<close> and the two steps of Go's template package, parsing and executing, as
  fields; \<open>controllerutil.CreateOrUpdate\<close> is one request that says what its mutate function sets. The
  memory layout and DeepCopyInto of the Kubernetes types and the order of Go's ranges over maps are the
  fields of \<open>go_library\<close>, and \<open>documented\<close> is what is relied on.

  \<^bold>\<open>Not modelled.\<close> Log messages; what the libraries do with what they are given (flag parsing, the
  servers, the manager's event loop and caches: they are requests of \<open>main\<close>), and how a Kubernetes type
  is laid out in memory (a parameter of the deep copies). Of the objects of the Kubernetes API the
  model has the fields the code reads or writes.
\<close>

end
